(* ===== verification/Cfctl_Prelude.thy ===== *)
theory Cfctl_Prelude
  imports Complex_Main "HOL-Library.Char_ord" "HOL-Library.List_Lexorder"
begin

text \<open>
  Shared vocabulary of the development: the result monad that stands for Rust's
  \<^verbatim>\<open>Result\<close> and its question-mark operator, the byte-string operations of \<^verbatim>\<open>str\<close> the
  sources use, IEEE doubles up to the distinctions the sources make, and the ordered
  map \<^verbatim>\<open>BTreeMap\<close> as a key-sorted association list, stated as a locale and
  interpreted on its list operations.
\<close>

section \<open>Collections of facts\<close>

named_theorems result_simps \<open>rewriting of monadic results\<close>
named_theorems str_defs \<open>definitions of the byte-string predicates\<close>
named_theorems wire_defs \<open>definitions of serialised documents\<close>

section \<open>Names for the model's types\<close>

text \<open>
  A Rust \<^verbatim>\<open>String\<close> is its UTF-8 byte sequence, so \<^typ>\<open>string\<close> counts bytes as
  \<^verbatim>\<open>str::len\<close> does. \<^verbatim>\<open>DateTime<Utc>\<close> is the signed number of nanoseconds since the
  epoch.
\<close>

type_synonym datetime = int

abbreviation seconds :: "int \<Rightarrow> int" where
  "seconds n \<equiv> n * 1000000000"

abbreviation hours :: "int \<Rightarrow> int" where
  "hours n \<equiv> seconds (n * 3600)"

section \<open>Results\<close>

definition res_bind :: "'e + 'a \<Rightarrow> ('a \<Rightarrow> 'e + 'b) \<Rightarrow> 'e + 'b" where
  "res_bind r f = (case r of Inl e \<Rightarrow> Inl e | Inr x \<Rightarrow> f x)"

definition ensure :: "bool \<Rightarrow> 'e \<Rightarrow> 'e + unit" where
  "ensure b e = (if b then Inr () else Inl e)"

definition map_err :: "('e \<Rightarrow> 'f) \<Rightarrow> 'e + 'a \<Rightarrow> 'f + 'a" where
  "map_err g r = (case r of Inl e \<Rightarrow> Inl (g e) | Inr x \<Rightarrow> Inr x)"

definition ok_or :: "'a option \<Rightarrow> 'e \<Rightarrow> 'e + 'a" where
  "ok_or x e = (case x of None \<Rightarrow> Inl e | Some v \<Rightarrow> Inr v)"

abbreviation is_ok :: "'e + 'a \<Rightarrow> bool" where
  "is_ok r \<equiv> \<exists>x. r = Inr x"

lemma res_bind_simps [simp, result_simps]:
  "res_bind (Inl e) f = Inl e"
  "res_bind (Inr x) f = f x"
  by (simp_all add: res_bind_def)

lemma res_bind_Inr_iff [result_simps]:
  "res_bind r f = Inr y \<longleftrightarrow> (\<exists>x. r = Inr x \<and> f x = Inr y)"
  by (cases r) auto

lemma res_bind_Inl_iff [result_simps]:
  "res_bind r f = Inl e \<longleftrightarrow> r = Inl e \<or> (\<exists>x. r = Inr x \<and> f x = Inl e)"
  by (cases r) auto

lemma ensure_simps [simp, result_simps]:
  "ensure True e = Inr ()"
  "ensure False e = Inl e"
  by (simp_all add: ensure_def)

lemma ensure_Inr_iff [simp, result_simps]: "ensure b e = Inr u \<longleftrightarrow> b"
  by (simp add: ensure_def)

lemma ensure_Inl_iff [simp, result_simps]: "ensure b e = Inl e' \<longleftrightarrow> \<not> b \<and> e' = e"
  by (auto simp: ensure_def)

lemma map_err_simps [simp, result_simps]:
  "map_err g (Inl e) = Inl (g e)"
  "map_err g (Inr x) = Inr x"
  by (simp_all add: map_err_def)

lemma map_err_Inr_iff [simp, result_simps]: "map_err g r = Inr x \<longleftrightarrow> r = Inr x"
  by (cases r) auto

lemma map_err_Inl_iff [result_simps]: "map_err g r = Inl f \<longleftrightarrow> (\<exists>e. r = Inl e \<and> f = g e)"
  by (cases r) auto

lemma ok_or_simps [simp, result_simps]:
  "ok_or None e = Inl e"
  "ok_or (Some v) e = Inr v"
  by (simp_all add: ok_or_def)

lemma ok_or_Inr_iff [simp, result_simps]: "ok_or x e = Inr v \<longleftrightarrow> x = Some v"
  by (cases x) auto

lemma ok_or_Inl_iff [result_simps]: "ok_or x e = Inl e' \<longleftrightarrow> x = None \<and> e' = e"
  by (cases x) auto

text \<open>A loop that stops at its first error, and the same collecting the results.\<close>

fun res_each :: "('a \<Rightarrow> 'e + unit) \<Rightarrow> 'a list \<Rightarrow> 'e + unit" where
  "res_each f [] = Inr ()"
| "res_each f (x # xs) = res_bind (f x) (\<lambda>_. res_each f xs)"

fun res_map :: "('a \<Rightarrow> 'e + 'b) \<Rightarrow> 'a list \<Rightarrow> 'e + 'b list" where
  "res_map f [] = Inr []"
| "res_map f (x # xs) = res_bind (f x) (\<lambda>y. res_bind (res_map f xs) (\<lambda>ys. Inr (y # ys)))"

lemma res_each_Inr_iff [result_simps]: "res_each f xs = Inr u \<longleftrightarrow> (\<forall>x \<in> set xs. f x = Inr ())"
  by (induction xs) (auto simp: res_bind_Inr_iff)

lemma res_map_Inr_iff [result_simps]: "res_map f xs = Inr ys \<longleftrightarrow> list_all2 (\<lambda>x y. f x = Inr y) xs ys"
  by (induction xs arbitrary: ys) (auto simp: res_bind_Inr_iff list_all2_Cons1)

lemma those_Some_iff: "those xs = Some ys \<longleftrightarrow> xs = map Some ys"
  by (induction xs arbitrary: ys) (auto simp: Cons_eq_map_conv split: option.splits)

section \<open>Doubles\<close>

text \<open>
  The sources compare, check finiteness of and serialise \<^verbatim>\<open>f64\<close> values; they round only
  in one subtraction, whose comparison is exact. A finite double is its rational value;
  the two zeros are one value, which every comparison of the sources agrees with.
\<close>

datatype f64 = Finite rat | Infinity | NegInfinity | NaN

fun f64_is_finite :: "f64 \<Rightarrow> bool" where
  "f64_is_finite (Finite _) = True"
| "f64_is_finite _ = False"

fun f64_less :: "f64 \<Rightarrow> f64 \<Rightarrow> bool" where
  "f64_less (Finite a) (Finite b) = (a < b)"
| "f64_less NegInfinity (Finite _) = True"
| "f64_less NegInfinity Infinity = True"
| "f64_less (Finite _) Infinity = True"
| "f64_less _ _ = False"

fun f64_ge_zero :: "f64 \<Rightarrow> bool" where
  "f64_ge_zero (Finite a) = (0 \<le> a)"
| "f64_ge_zero Infinity = True"
| "f64_ge_zero _ = False"

lemma f64_finite_not_negative [simp]:
  "f64_is_finite a \<Longrightarrow> f64_less a (Finite 0) = (\<not> f64_ge_zero a)"
  by (cases a) auto

section \<open>Byte strings\<close>

abbreviation byte :: "char \<Rightarrow> nat" where
  "byte c \<equiv> of_char c"

definition is_ascii_alphabetic :: "char \<Rightarrow> bool" where
  "is_ascii_alphabetic c \<longleftrightarrow> (65 \<le> byte c \<and> byte c \<le> 90) \<or> (97 \<le> byte c \<and> byte c \<le> 122)"

definition is_ascii_uppercase :: "char \<Rightarrow> bool" where
  "is_ascii_uppercase c \<longleftrightarrow> 65 \<le> byte c \<and> byte c \<le> 90"

definition is_ascii_hexdigit :: "char \<Rightarrow> bool" where
  "is_ascii_hexdigit c \<longleftrightarrow> (48 \<le> byte c \<and> byte c \<le> 57) \<or> (65 \<le> byte c \<and> byte c \<le> 70)
     \<or> (97 \<le> byte c \<and> byte c \<le> 102)"

definition ascii_lower :: "char \<Rightarrow> char" where
  "ascii_lower c = (if 65 \<le> byte c \<and> byte c \<le> 90 then char_of (byte c + 32) else c)"

definition ascii_upper :: "char \<Rightarrow> char" where
  "ascii_upper c = (if 97 \<le> byte c \<and> byte c \<le> 122 then char_of (byte c - 32) else c)"

definition to_ascii_lowercase :: "string \<Rightarrow> string" where
  "to_ascii_lowercase s = map ascii_lower s"

definition to_ascii_uppercase :: "string \<Rightarrow> string" where
  "to_ascii_uppercase s = map ascii_upper s"

definition eq_ignore_ascii_case :: "string \<Rightarrow> string \<Rightarrow> bool" where
  "eq_ignore_ascii_case a b \<longleftrightarrow> to_ascii_lowercase a = to_ascii_lowercase b"

definition starts_with :: "string \<Rightarrow> string \<Rightarrow> bool" where
  "starts_with s p \<longleftrightarrow> take (length p) s = p"

definition ends_with :: "string \<Rightarrow> string \<Rightarrow> bool" where
  "ends_with s p \<longleftrightarrow> length p \<le> length s \<and> drop (length s - length p) s = p"

definition strip_prefix :: "string \<Rightarrow> string \<Rightarrow> string option" where
  "strip_prefix s p = (if starts_with s p then Some (drop (length p) s) else None)"

fun str_contains :: "string \<Rightarrow> string \<Rightarrow> bool" where
  "str_contains [] p = (p = [])"
| "str_contains (c # s) p = (starts_with (c # s) p \<or> str_contains s p)"

text \<open>
  \<^verbatim>\<open>s.trim().is_empty()\<close>: every scalar of the string has the Unicode property
  White\_Space. The equations list the UTF-8 encodings of these scalars: the ASCII ones,
  U+0085, U+00A0, U+1680, U+2000 to U+200A, U+2028, U+2029, U+202F, U+205F and U+3000.
\<close>

definition white1 :: "nat \<Rightarrow> bool" where
  "white1 a \<longleftrightarrow> a = 32 \<or> (9 \<le> a \<and> a \<le> 13)"

definition white2 :: "nat \<Rightarrow> nat \<Rightarrow> bool" where
  "white2 a b \<longleftrightarrow> a = 194 \<and> (b = 133 \<or> b = 160)"

definition white3 :: "nat \<Rightarrow> nat \<Rightarrow> nat \<Rightarrow> bool" where
  "white3 a b c \<longleftrightarrow> (a = 225 \<and> b = 154 \<and> c = 128)
     \<or> (a = 226 \<and> b = 128 \<and> (128 \<le> c \<and> c \<le> 138 \<or> c = 168 \<or> c = 169 \<or> c = 175))
     \<or> (a = 226 \<and> b = 129 \<and> c = 159) \<or> (a = 227 \<and> b = 128 \<and> c = 128)"

fun trim_is_empty :: "string \<Rightarrow> bool" where
  "trim_is_empty [] = True"
| "trim_is_empty [a] = white1 (byte a)"
| "trim_is_empty [a, b] =
     (if white1 (byte a) then trim_is_empty [b] else white2 (byte a) (byte b))"
| "trim_is_empty (a # b # c # s) =
     (if white1 (byte a) then trim_is_empty (b # c # s)
      else if white2 (byte a) (byte b) then trim_is_empty (c # s)
      else white3 (byte a) (byte b) (byte c) \<and> trim_is_empty s)"

text \<open>\<^verbatim>\<open>str::trim\<close> on the bytes of a string, from the front and, reversed, from the back.\<close>

fun trim_start :: "string \<Rightarrow> string" where
  "trim_start [] = []"
| "trim_start [a] = (if white1 (byte a) then [] else [a])"
| "trim_start [a, b] = (if white1 (byte a) then trim_start [b] else if white2 (byte a) (byte b) then [] else [a, b])"
| "trim_start (a # b # c # s) =
     (if white1 (byte a) then trim_start (b # c # s)
      else if white2 (byte a) (byte b) then trim_start (c # s)
      else if white3 (byte a) (byte b) (byte c) then trim_start s
      else a # b # c # s)"

fun trim_back :: "string \<Rightarrow> string" where
  "trim_back [] = []"
| "trim_back [a] = (if white1 (byte a) then [] else [a])"
| "trim_back [b, a] = (if white1 (byte b) then trim_back [a] else if white2 (byte a) (byte b) then [] else [b, a])"
| "trim_back (c # b # a # s) =
     (if white1 (byte c) then trim_back (b # a # s)
      else if white2 (byte b) (byte c) then trim_back (a # s)
      else if white3 (byte a) (byte b) (byte c) then trim_back s
      else c # b # a # s)"

definition trim :: "string \<Rightarrow> string" where
  "trim s = rev (trim_back (rev (trim_start s)))"

text \<open>\<^verbatim>\<open>Display\<close> of unsigned integers, and \<^verbatim>\<open>[String]::join\<close>.\<close>

definition digit_char :: "nat \<Rightarrow> char" where
  "digit_char d = char_of (48 + d)"

fun show_nat :: "nat \<Rightarrow> string" where
  "show_nat n = (if n < 10 then [digit_char n] else show_nat (n div 10) @ [digit_char (n mod 10)])"

declare show_nat.simps [simp del]

fun join :: "string \<Rightarrow> string list \<Rightarrow> string" where
  "join sep [] = []"
| "join sep [s] = s"
| "join sep (s # t # ss) = s @ sep @ join sep (t # ss)"

text \<open>\<^verbatim>\<open>str::split\<close> at a character.\<close>

fun split_char :: "char \<Rightarrow> string \<Rightarrow> string list" where
  "split_char c [] = [[]]"
| "split_char c (x # s) =
     (if x = c then [] # split_char c s
      else case split_char c s of [] \<Rightarrow> [[x]] | t # ts \<Rightarrow> (x # t) # ts)"

lemmas ascii_defs [str_defs] =
  is_ascii_alphabetic_def is_ascii_uppercase_def is_ascii_hexdigit_def ascii_lower_def
  ascii_upper_def to_ascii_lowercase_def to_ascii_uppercase_def eq_ignore_ascii_case_def
  starts_with_def ends_with_def strip_prefix_def white1_def white2_def white3_def

lemma byte_less_256 [simp]: "byte c < 256"
  by (simp add: of_char_def)

lemma starts_with_append [simp]: "starts_with (p @ s) p"
  by (simp add: starts_with_def)

lemma starts_withE:
  assumes "starts_with s p"
  obtains t where "s = p @ t"
  using assms by (metis append_take_drop_id starts_with_def)

lemma strip_prefix_append [simp]: "strip_prefix (p @ s) p = Some s"
  by (simp add: strip_prefix_def)

lemma strip_prefix_Some_iff: "strip_prefix s p = Some t \<longleftrightarrow> s = p @ t"
  by (auto simp: strip_prefix_def elim: starts_withE)

lemma to_ascii_uppercase_length [simp]: "length (to_ascii_uppercase s) = length s"
  by (simp add: to_ascii_uppercase_def)

lemma byte_ascii_upper:
  "byte (ascii_upper c) = (if 97 \<le> byte c \<and> byte c \<le> 122 then byte c - 32 else byte c)"
proof -
  have "byte (char_of (byte c - 32) :: char) = byte c - 32"
    using byte_less_256 [of c] by (simp add: of_char_of less_imp_diff_less)
  then show ?thesis by (simp add: ascii_upper_def)
qed

lemma ascii_upper_alphabetic [simp]:
  "is_ascii_alphabetic (ascii_upper c) = is_ascii_alphabetic c"
  by (auto simp: is_ascii_alphabetic_def byte_ascii_upper)

lemma trim_is_empty_spec_ascii:
  "(\<forall>c\<in>set s. byte c < 128) \<Longrightarrow> trim_is_empty s \<longleftrightarrow> (\<forall>c\<in>set s. white1 (byte c))"
  by (induction s rule: trim_is_empty.induct) (auto simp: white2_def white3_def)

section \<open>Ordered maps\<close>

text \<open>
  \<^verbatim>\<open>BTreeMap<K, V>\<close>, which is also the representation of \<^verbatim>\<open>serde_json::Map\<close> in this
  build (its \<^verbatim>\<open>preserve_order\<close> feature is off): a list of entries with strictly increasing
  keys. \<^verbatim>\<open>insert\<close> replaces the value of a key that is present; \<^verbatim>\<open>collect\<close> inserts the
  items of an iterator in order.
\<close>

type_synonym ('k, 'v) btree = "('k \<times> 'v) list"

fun bt_insert :: "'k::linorder \<Rightarrow> 'v \<Rightarrow> ('k, 'v) btree \<Rightarrow> ('k, 'v) btree" where
  "bt_insert k v [] = [(k, v)]"
| "bt_insert k v ((k', v') # m) =
     (if k < k' then (k, v) # (k', v') # m
      else if k = k' then (k, v) # m
      else (k', v') # bt_insert k v m)"

definition bt_get :: "('k, 'v) btree \<Rightarrow> 'k \<Rightarrow> 'v option" where
  "bt_get m k = map_of m k"

definition bt_collect :: "('k::linorder \<times> 'v) list \<Rightarrow> ('k, 'v) btree" where
  "bt_collect kvs = foldl (\<lambda>m (k, v). bt_insert k v m) [] kvs"

definition bt_invar :: "('k::linorder, 'v) btree \<Rightarrow> bool" where
  "bt_invar m \<longleftrightarrow> sorted_wrt (<) (map fst m)"

lemma entries_of_map_of:
  assumes "distinct (map fst xs)"
  shows "xs = map (\<lambda>k. (k, the (map_of xs k))) (map fst xs)"
proof -
  have "(fst x, the (map_of xs (fst x))) = x" if "x \<in> set xs" for x
    using assms that by (cases x) simp
  then show ?thesis by (simp add: o_def map_idI)
qed

lemma sorted_entries_eqI:
  assumes s: "sorted_wrt (<) (map fst xs)" "sorted_wrt (<) (map fst ys)"
    and eq: "map_of xs = map_of ys"
  shows "xs = (ys :: ('k::linorder \<times> 'v) list)"
proof -
  have "set (map fst xs) = set (map fst ys)"
    using arg_cong [OF eq, of dom] by (simp add: dom_map_of_conv_image_fst)
  with s have "map fst xs = map fst ys" by (simp add: strict_sorted_equal)
  moreover have "distinct (map fst xs)" "distinct (map fst ys)"
    using s by (simp_all add: strict_sorted_iff)
  ultimately show ?thesis using eq by (metis entries_of_map_of)
qed

text \<open>The contract of an ordered map and what its clients use of it.\<close>

locale ordered_map =
  fixes empty :: "'m"
    and insert :: "'k::linorder \<Rightarrow> 'v \<Rightarrow> 'm \<Rightarrow> 'm"
    and get :: "'m \<Rightarrow> 'k \<Rightarrow> 'v option"
    and entries :: "'m \<Rightarrow> ('k \<times> 'v) list"
    and invar :: "'m \<Rightarrow> bool"
  assumes get_empty: "get empty k = None"
    and get_insert: "invar m \<Longrightarrow> get (insert k v m) = (get m)(k \<mapsto> v)"
    and get_entries: "invar m \<Longrightarrow> get m k = map_of (entries m) k"
    and entries_sorted: "invar m \<Longrightarrow> sorted_wrt (<) (map fst (entries m))"
    and entries_inj: "invar m \<Longrightarrow> invar m' \<Longrightarrow> entries m = entries m' \<Longrightarrow> m = m'"
    and invar_empty: "invar empty"
    and invar_insert: "invar m \<Longrightarrow> invar (insert k v m)"
begin

definition collect :: "('k \<times> 'v) list \<Rightarrow> 'm" where
  "collect kvs = foldl (\<lambda>m (k, v). insert k v m) empty kvs"

lemma collect_from:
  "invar m \<Longrightarrow> invar (foldl (\<lambda>m (k, v). insert k v m) m kvs)
     \<and> get (foldl (\<lambda>m (k, v). insert k v m) m kvs) = get m ++ map_of (rev kvs)"
  by (induction kvs arbitrary: m)
    (auto simp: invar_insert get_insert map_add_def fun_eq_iff split: option.splits)

lemma invar_collect: "invar (collect kvs)"
  using collect_from [OF invar_empty] by (simp add: collect_def)

lemma get_collect: "get (collect kvs) k = map_of (rev kvs) k"
proof -
  have "get (collect kvs) = get empty ++ map_of (rev kvs)"
    using collect_from [OF invar_empty] by (simp add: collect_def)
  then show ?thesis by (simp add: map_add_def get_empty split: option.splits)
qed

text \<open>Two ordered maps with the same lookups are the same map.\<close>

lemma map_ext:
  assumes m: "invar m" "invar m'" and eq: "\<And>k. get m k = get m' k"
  shows "m = m'"
proof -
  have "map_of (entries m) = map_of (entries m')"
    using eq m by (auto simp: get_entries)
  then have "entries m = entries m'"
    using m by (intro sorted_entries_eqI) (simp_all add: entries_sorted)
  then show ?thesis using m by (simp add: entries_inj)
qed

end


lemma map_of_rev_distinct: "distinct (map fst xs) \<Longrightarrow> map_of (rev xs) = map_of xs"
  by (simp add: map_of_inject_set rev_map [symmetric])

lemma bt_insert_set: "x \<in> set (bt_insert k v m) \<Longrightarrow> x = (k, v) \<or> x \<in> set m"
  by (induction k v m rule: bt_insert.induct) (auto split: if_splits)

lemma bt_invar_insert: "bt_invar m \<Longrightarrow> bt_invar (bt_insert k v m)"
proof (induction k v m rule: bt_insert.induct)
  case (2 k v k' v' m)
  then show ?case
    by (auto simp: bt_invar_def dest!: bt_insert_set intro: less_trans)
qed (simp add: bt_invar_def)

lemma bt_get_insert: "bt_invar m \<Longrightarrow> bt_get (bt_insert k v m) = (bt_get m)(k \<mapsto> v)"
proof (induction k v m rule: bt_insert.induct)
  case (2 k v k' v' m)
  then show ?case by (auto simp: bt_invar_def bt_get_def fun_eq_iff)
qed (simp add: bt_get_def fun_eq_iff)

interpretation bt: ordered_map "[]" bt_insert bt_get "\<lambda>m. m" bt_invar
  rewrites "ordered_map.collect [] bt_insert = bt_collect"
proof -
  show om: "ordered_map [] bt_insert bt_get (\<lambda>m. m) bt_invar"
    by unfold_locales (simp_all add: bt_get_insert bt_invar_insert, simp_all add: bt_get_def bt_invar_def)
  show "ordered_map.collect [] bt_insert = bt_collect"
    by (simp add: fun_eq_iff ordered_map.collect_def [OF om] bt_collect_def)
qed

lemmas bt_laws = bt.get_collect bt.invar_collect bt.map_ext

lemma bt_collect_set: "x \<in> set (bt_collect kvs) \<Longrightarrow> x \<in> set kvs"
proof -
  have "x \<in> set (foldl (\<lambda>m (k, v). bt_insert k v m) m ys) \<Longrightarrow> x \<in> set m \<or> x \<in> set ys" for m ys
    by (induction ys arbitrary: m) (auto dest: bt_insert_set split: prod.splits)
  from this [of "[]" kvs] show "x \<in> set (bt_collect kvs) \<Longrightarrow> x \<in> set kvs"
    by (simp add: bt_collect_def)
qed

lemma bt_collect_id: "bt_invar m \<Longrightarrow> bt_collect m = m"
proof (rule bt.map_ext)
  fix k assume "bt_invar m"
  then have "distinct (map fst m)" by (simp add: bt_invar_def strict_sorted_iff)
  then show "bt_get (bt_collect m) k = bt_get m k"
    by (subst bt.get_collect) (simp add: bt_get_def map_of_rev_distinct)
qed (simp_all add: bt.invar_collect)

lemma bt_length_card: "bt_invar m \<Longrightarrow> length m = card (dom (bt_get m))"
  using distinct_card [of "map fst m"]
  by (simp add: bt_invar_def bt_get_def [abs_def] dom_map_of_conv_image_fst strict_sorted_iff)

lemma finite_dom_bt_get [simp]: "finite (dom (bt_get m))"
  by (simp add: bt_get_def [abs_def] finite_dom_map_of)

lemma bt_length_insert:
  "bt_invar m \<Longrightarrow> bt_get m k = None \<Longrightarrow> length (bt_insert k v m) = Suc (length m)"
  by (simp add: bt_length_card bt_invar_insert bt_get_insert card_insert_if domIff)

end
