(* ===== verification/Json_Value.thy ===== *)
theory Json_Value
  imports Cfctl_Prelude "HOL-Library.Multiset"
begin

text \<open>
  JSON values as \<^verbatim>\<open>serde_json::Value\<close> holds them, the canonical form of \<^verbatim>\<open>cfctl-core\<close>,
  and the redaction every persisted or printed document goes through
  (\<^verbatim>\<open>canonical_json_value\<close> and \<^verbatim>\<open>redact_json\<close> in \<^verbatim>\<open>crates/cfctl-core/src/lib.rs\<close>).
\<close>

section \<open>Values\<close>

datatype number = PosInt nat | NegInt int | Float rat

datatype json =
    JNull
  | JBool bool
  | JNumber number
  | JString string
  | JArray "json list"
  | JObject "(string \<times> json) list"

text \<open>The \<^verbatim>\<open>json!\<close> macro and \<^verbatim>\<open>serde_json::to_value\<close> on the leaf types of the sources.\<close>

definition jobj :: "(string \<times> json) list \<Rightarrow> json" where
  "jobj kvs = JObject (bt_collect kvs)"

definition jnat :: "nat \<Rightarrow> json" where
  "jnat n = JNumber (PosInt n)"

definition jopt :: "('a \<Rightarrow> json) \<Rightarrow> 'a option \<Rightarrow> json" where
  "jopt f x = (case x of None \<Rightarrow> JNull | Some y \<Rightarrow> f y)"

definition jlist :: "('a \<Rightarrow> json) \<Rightarrow> 'a list \<Rightarrow> json" where
  "jlist f xs = JArray (map f xs)"

definition jmap :: "('a \<Rightarrow> json) \<Rightarrow> (string \<times> 'a) list \<Rightarrow> json" where
  "jmap f m = JObject (map (map_prod id f) m)"

fun jf64 :: "f64 \<Rightarrow> json" where
  "jf64 (Finite r) = JNumber (Float r)"
| "jf64 _ = JNull"

text \<open>An optional field under \<^verbatim>\<open>skip_serializing_if = "Option::is_none"\<close>.\<close>

definition jskip :: "string \<Rightarrow> ('a \<Rightarrow> json) \<Rightarrow> 'a option \<Rightarrow> (string \<times> json) list" where
  "jskip k f x = (case x of None \<Rightarrow> [] | Some y \<Rightarrow> [(k, f y)])"

fun json_get :: "json \<Rightarrow> string \<Rightarrow> json option" where
  "json_get (JObject m) k = bt_get m k"
| "json_get _ k = None"

fun json_as_str :: "json \<Rightarrow> string option" where
  "json_as_str (JString s) = Some s"
| "json_as_str _ = None"

fun json_as_bool :: "json \<Rightarrow> bool option" where
  "json_as_bool (JBool b) = Some b"
| "json_as_bool _ = None"

fun json_is_boolean :: "json \<Rightarrow> bool" where
  "json_is_boolean (JBool _) = True"
| "json_is_boolean _ = False"

fun json_as_array :: "json \<Rightarrow> json list option" where
  "json_as_array (JArray vs) = Some vs"
| "json_as_array _ = None"

fun json_object_keys :: "json \<Rightarrow> string list option" where
  "json_object_keys (JObject m) = Some (map fst m)"
| "json_object_keys _ = None"

fun json_as_object :: "json \<Rightarrow> (string \<times> json) list option" where
  "json_as_object (JObject m) = Some m"
| "json_as_object _ = None"

fun json_as_number :: "json \<Rightarrow> number option" where
  "json_as_number (JNumber n) = Some n"
| "json_as_number _ = None"

text \<open>The invariant of \<^verbatim>\<open>serde_json::Map\<close>: strictly increasing keys in every object.\<close>

fun wf_json :: "json \<Rightarrow> bool" where
  "wf_json (JArray vs) = list_all wf_json vs"
| "wf_json (JObject m) = (bt_invar m \<and> list_all (\<lambda>(k, v). wf_json v) m)"
| "wf_json _ = True"

section \<open>Canonical form\<close>

fun canonical_json_value :: "json \<Rightarrow> json" where
  "canonical_json_value (JObject m) =
     JObject (bt_collect (map (\<lambda>(k, v). (k, canonical_json_value v)) m))"
| "canonical_json_value (JArray vs) = JArray (map canonical_json_value vs)"
| "canonical_json_value v = v"

section \<open>Redaction\<close>

definition redacted :: json where
  "redacted = JString ''[REDACTED]''"

definition is_non_secret_boolean_configuration :: "string \<Rightarrow> json \<Rightarrow> bool" where
  "is_non_secret_boolean_configuration key value \<longleftrightarrow>
     eq_ignore_ascii_case key ''enable_binding_cookie'' \<and> json_is_boolean value"

definition sensitive_names :: "string list" where
  "sensitive_names =
     [''access_token'', ''refresh_token'', ''api_token'', ''api_key'', ''global_key'',
      ''client_secret'', ''private_key'', ''destination_conf'', ''ownership_challenge'',
      ''authorization'', ''password'', ''cookie'', ''secret'', ''token'']"

definition is_sensitive_key :: "string \<Rightarrow> bool" where
  "is_sensitive_key key =
     (let normalized = to_ascii_lowercase key
      in list_ex (\<lambda>sensitive. normalized = sensitive \<or> ends_with normalized (''_'' @ sensitive))
           sensitive_names)"

fun redact_json :: "json \<Rightarrow> json" where
  "redact_json (JObject m) =
     JObject (bt_collect (map (\<lambda>(key, item).
       if is_sensitive_key key \<and> \<not> is_non_secret_boolean_configuration key item
       then (key, redacted) else (key, redact_json item)) m))"
| "redact_json (JArray items) = JArray (map redact_json items)"
| "redact_json v = v"

text \<open>Secret material: an object entry that redaction has to replace.\<close>

definition secret_entry :: "string \<Rightarrow> json \<Rightarrow> bool" where
  "secret_entry k v \<longleftrightarrow> is_sensitive_key k \<and> \<not> is_non_secret_boolean_configuration k v"

fun secret_free :: "json \<Rightarrow> bool" where
  "secret_free (JObject m) =
     list_all (\<lambda>(k, v). if secret_entry k v then v = redacted else secret_free v) m"
| "secret_free (JArray vs) = list_all secret_free vs"
| "secret_free _ = True"

text \<open>Two values with the same public part: they may differ only below secret entries.\<close>

inductive same_public :: "json \<Rightarrow> json \<Rightarrow> bool" where
  sp_refl: "same_public v v"
| sp_array: "list_all2 same_public vs ws \<Longrightarrow> same_public (JArray vs) (JArray ws)"
| sp_object: "list_all2 (\<lambda>x y. fst x = fst y \<and>
     (secret_entry (fst x) (snd x) \<and> secret_entry (fst y) (snd y) \<or>
      \<not> secret_entry (fst x) (snd x) \<and> \<not> secret_entry (fst y) (snd y) \<and>
      same_public (snd x) (snd y))) m m' \<Longrightarrow>
     same_public (JObject m) (JObject m')"

section \<open>Sizes\<close>

lemma size_entry_less: "(k, v) \<in> set m \<Longrightarrow> size v < size (JObject m)"
  by (induction m) auto

lemma size_item_less: "v \<in> set vs \<Longrightarrow> size v < size (JArray vs)"
  by (induction vs) auto

section \<open>Objects\<close>

lemma json_get_jobj [simp]: "json_get (jobj kvs) k = map_of (rev kvs) k"
  by (simp add: jobj_def bt.get_collect)

lemma jobj_eqD: "jobj kvs = jobj kvs' \<Longrightarrow> map_of (rev kvs) k = map_of (rev kvs') k"
  by (metis json_get_jobj)

lemma wf_json_jobj: "list_all (\<lambda>(k, v). wf_json v) kvs \<Longrightarrow> wf_json (jobj kvs)"
  by (auto simp: jobj_def bt.invar_collect list_all_iff dest!: bt_collect_set)

lemma fst_o_entry [simp]: "fst \<circ> (\<lambda>(k, v). (k, f k v)) = fst"
  by (simp add: fun_eq_iff split_beta)

lemma bt_collect_map_values:
  "bt_invar m \<Longrightarrow> bt_collect (map (\<lambda>(k, v). (k, f k v)) m) = map (\<lambda>(k, v). (k, f k v)) m"
  by (rule bt_collect_id) (simp add: bt_invar_def)

lemma redact_entry: "(if b then (k, x) else (k, y)) = (k, if b then x else y)"
  by simp

lemma redact_json_object:
  "redact_json (JObject m) =
     JObject (bt_collect (map (\<lambda>(k, v). (k, if secret_entry k v then redacted else redact_json v)) m))"
  by (simp add: redact_entry secret_entry_def)

declare redact_json.simps(1) [simp del]
declare redact_json_object [simp]

section \<open>Canonical form\<close>

lemma canonical_json_value_wf: "wf_json v \<Longrightarrow> canonical_json_value v = v"
proof (induction v rule: canonical_json_value.induct)
  case (1 m)
  then have "map (\<lambda>(k, v). (k, canonical_json_value v)) m = m"
    by (intro map_idI) (auto simp: list_all_iff)
  with "1.prems" show ?case by (simp add: bt_collect_id)
qed (auto simp: list_all_iff map_idI)

lemma wf_canonical_json_value: "wf_json (canonical_json_value v)"
proof (induction v rule: canonical_json_value.induct)
  case (1 m)
  then have "list_all (\<lambda>(k, v). wf_json v) (map (\<lambda>(k, v). (k, canonical_json_value v)) m)"
    by (auto simp: list_all_iff)
  from wf_json_jobj [OF this] show ?case by (simp add: jobj_def)
qed (simp_all add: list_all_iff)

lemma canonical_order_insensitive:
  assumes "mset m = mset m'" "distinct (map fst m)"
  shows "canonical_json_value (JObject m) = canonical_json_value (JObject m')"
proof -
  let ?c = "map (\<lambda>(k, v). (k, canonical_json_value v))"
  have "mset (map fst m) = mset (map fst m')" using assms(1) by simp
  from mset_eq_imp_distinct_iff [OF this] have d: "distinct (map fst (?c m))" "distinct (map fst (?c m'))"
    using assms(2) by simp_all
  have "set (?c m) = set (?c m')" using mset_eq_setD [OF assms(1)] by simp
  with d have "map_of (?c m) = map_of (?c m')"
    by (simp add: map_of_inject_set)
  with d have "bt_collect (?c m) = bt_collect (?c m')"
    by (intro bt.map_ext) (simp_all add: bt.invar_collect bt.get_collect map_of_rev_distinct)
  then show ?thesis by simp
qed

section \<open>Redaction\<close>

lemma secret_entry_redacted [simp]: "secret_entry k redacted = is_sensitive_key k"
  by (simp add: secret_entry_def is_non_secret_boolean_configuration_def redacted_def)

lemma redact_json_is_boolean [simp]: "json_is_boolean (redact_json v) = json_is_boolean v"
  by (cases v) auto

lemma secret_entry_redact [simp]: "secret_entry k (redact_json v) = secret_entry k v"
  by (simp add: secret_entry_def is_non_secret_boolean_configuration_def)

lemma redact_json_secret_free: "secret_free (redact_json v)"
proof (induction v rule: redact_json.induct)
  case (1 m)
  then show ?case
    by (auto simp: list_all_iff dest!: bt_collect_set) (auto simp: secret_entry_def)
qed (simp_all add: list_all_iff)

lemma wf_redact_json: "wf_json (redact_json v)"
proof (induction v rule: redact_json.induct)
  case (1 m)
  then have "list_all (\<lambda>(k, v). wf_json v)
      (map (\<lambda>(k, v). (k, if secret_entry k v then redacted else redact_json v)) m)"
    by (auto simp: list_all_iff redacted_def secret_entry_def)
  from wf_json_jobj [OF this] show ?case by (simp add: jobj_def)
qed (simp_all add: list_all_iff)

lemma redact_json_fixed: "wf_json v \<Longrightarrow> secret_free v \<Longrightarrow> redact_json v = v"
proof (induction v rule: redact_json.induct)
  case (1 m)
  let ?r = "\<lambda>(k, v). (k, if secret_entry k v then redacted else redact_json v)"
  have "?r x = x" if x: "x \<in> set m" for x
  proof (cases x)
    case (Pair k v)
    with x "1.prems" have "wf_json v" "if secret_entry k v then v = redacted else secret_free v"
      by (auto simp: list_all_iff)
    with "1.IH" [OF x Pair [symmetric]] Pair show ?thesis
      by (auto simp: secret_entry_def)
  qed
  then have "map ?r m = m" by (rule map_idI)
  with "1.prems" show ?case by (simp add: bt_collect_id)
qed (auto simp: list_all_iff map_idI)

lemma redact_json_fixed_iff: "wf_json v \<Longrightarrow> redact_json v = v \<longleftrightarrow> secret_free v"
  by (metis redact_json_fixed redact_json_secret_free)

lemma same_public_redact: "same_public v w \<Longrightarrow> redact_json v = redact_json w"
proof (induction rule: same_public.induct)
  case (sp_array vs ws)
  then show ?case by (auto simp: list_all2_conv_all_nth intro: nth_equalityI)
next
  case (sp_object m m')
  let ?r = "\<lambda>(k, v). (k, if secret_entry k v then redacted else redact_json v)"
  from sp_object have "map ?r m = map ?r m'"
    by (auto simp: list_all2_conv_all_nth split_beta intro!: nth_equalityI)
  then show ?case by simp
qed simp


text \<open>Looking up a key of a serialised record with optional fields.\<close>

lemma map_of_rev_append:
  "map_of (rev (xs @ ys)) k = (case map_of (rev ys) k of None \<Rightarrow> map_of (rev xs) k | Some v \<Rightarrow> Some v)"
  by (simp add: map_add_def)

lemma map_of_rev_jskip: "map_of (rev (jskip k f x)) k' = (if k' = k then map_option f x else None)"
  by (cases x) (simp_all add: jskip_def)

lemma map_of_rev_if:
  "map_of (rev (if b then [] else [(k, v)])) k' = (if k' = k \<and> \<not> b then Some v else None)"
  by simp

lemmas record_lookups = map_of_rev_append map_of_rev_jskip map_of_rev_if

end
