(* ===== verification/Capability.thy ===== *)
theory Capability
  imports Json_Value
begin

text \<open>
  The capability contract of \<^verbatim>\<open>crates/cfctl-core/src/lib.rs\<close>: its classifications, the
  safety metadata it carries, the constructor that starts every imported operation at
  "nothing is known", and the attestation partition. The contract slots that only one
  application's operations fill are kept in serialised form, by slot name.
\<close>

section \<open>Classifications\<close>

datatype adapter_status = Native | DynamicApi | DelegatedCli | GovernedUi | Blocked_Adapter

datatype authority_scope = ProviderGeneric | CfctlProduct | WorkspaceOwned | LegacyEmbedded

datatype risk_class = Risk_Read | Risk_Recovery | Risk_ScopedWrite | Risk_CrossConfig
  | Risk_Destructive | Risk_SecretSensitive | Risk_ExternalCommunication
  | Risk_IdentityOrOwnership | Risk_Spend | Risk_Irreversible | Risk_Unknown

datatype effect_class = Effect_ReadOnly | Effect_DataWrite | Effect_ReversibleWrite
  | Effect_Destructive | Effect_ExternalCommunication | Effect_IdentityOrOwnership
  | Effect_Spend | Effect_Irreversible | Effect_Unknown

datatype maturity = GenerallyAvailable | Beta | Experimental | Deprecated | Maturity_Unknown

datatype billing_model = Billing_None | Billing_Fixed | UsageBased | Subscription
  | PassThrough | Contract | Billing_Unknown

datatype cost_exposure = Exposure_None | DownstreamUsage | AccountQuote

fun effect_requires_attestation :: "effect_class \<Rightarrow> bool" where
  "effect_requires_attestation Effect_ReadOnly = False"
| "effect_requires_attestation Effect_DataWrite = False"
| "effect_requires_attestation Effect_ReversibleWrite = False"
| "effect_requires_attestation _ = True"

fun risk_requires_attestation :: "risk_class \<Rightarrow> bool" where
  "risk_requires_attestation Risk_Read = False"
| "risk_requires_attestation Risk_Recovery = False"
| "risk_requires_attestation Risk_ScopedWrite = False"
| "risk_requires_attestation Risk_CrossConfig = False"
| "risk_requires_attestation _ = True"

section \<open>Contract data\<close>

record knowledge_reference =
  kr_title :: string
  kr_url :: string
  kr_source :: string

record cost =
  incremental :: bool
  cost_currency :: "string option"
  maximum :: "f64 option"
  basis :: "string option"
  known :: bool
  billing :: billing_model
  exposure :: cost_exposure
  references :: "knowledge_reference list"

definition cost_default :: cost where
  "cost_default = \<lparr>incremental = False, cost_currency = None, maximum = Some (Finite 0),
     basis = Some ''no incremental cost metadata declared'', known = True,
     billing = Billing_None, exposure = Exposure_None, references = []\<rparr>"

record entitlement_probe =
  probe_capability_id :: string
  probe_path :: string
  probe_selector_names :: "string list"

record entitlement =
  available :: "bool option"
  plans :: "(string, bool) btree"
  blocker :: "string option"
  ent_source :: "string option"
  requires_live_resolution :: bool
  observed_plan :: "string option"
  probe :: "entitlement_probe option"

definition entitlement_default :: entitlement where
  "entitlement_default = \<lparr>available = None, plans = [], blocker = None, ent_source = None,
     requires_live_resolution = False, observed_plan = None, probe = None\<rparr>"

record verification_spec =
  required :: bool
  v_strategy :: string

record rollback_spec =
  supported :: bool
  rb_strategy :: "string option"
  warning :: "string option"

record query_serialization =
  qs_style :: string
  qs_explode :: bool
  qs_allow_reserved :: bool
  qs_allow_empty_value :: bool

record selector_contract =
  sc_schema :: json
  sc_query :: "query_serialization option"

record selector =
  sel_name :: string
  sel_location :: string
  sel_required :: bool
  sel_value_type :: string
  sel_description :: "string option"
  sel_contract :: "selector_contract option"

record created_resource =
  cr_detail_path :: string
  cr_identity_selector :: string
  cr_response_result_identity_pointer :: string
  cr_read_capability_id :: string
  cr_delete_capability_id :: string
  cr_verified_response_fields :: "string list"

record created_collection_resource =
  cc_collection_path :: string
  cc_identity_selector :: string
  cc_response_result_identity_pointer :: string
  cc_response_item_identity_pointer :: string
  cc_read_capability_id :: string
  cc_delete_capability_id :: string
  cc_verified_response_fields :: "string list"
  cc_requires_page_number_completion :: bool

record created_nested_resource =
  cn_parent_path :: string
  cn_items_pointer :: string
  cn_identity_selector :: string
  cn_response_item_identity_pointer :: string
  cn_correlation_field :: string
  cn_read_capability_id :: string
  cn_delete_capability_id :: string
  cn_delete_path :: string
  cn_verified_response_fields :: "string list"

record deleted_resource =
  dr_collection_path :: string
  dr_identity_selector :: string
  dr_response_item_identity_pointer :: string
  dr_read_capability_id :: string
  dr_requires_page_number_completion :: bool

record deleted_nested_resource =
  dn_parent_path :: string
  dn_collection_path :: string
  dn_items_pointer :: string
  dn_identity_selector :: string
  dn_response_item_identity_pointer :: string
  dn_read_capability_id :: string

record updated_resource =
  ur_collection_path :: string
  ur_identity_selector :: string
  ur_response_item_identity_pointer :: string
  ur_read_capability_id :: string
  ur_verified_response_fields :: "string list"
  ur_requires_page_number_completion :: bool

record same_path_read =
  sp_path :: string
  sp_read_capability_id :: string
  sp_verified_response_fields :: "string list"

record async_collection_mutation =
  am_operation_status_path :: string
  am_operation_status_capability_id :: string
  am_operation_id_selector :: string
  am_apply_operation_id_pointer :: string
  am_status_operation_id_pointer :: string
  am_status_state_pointer :: string
  am_pending_states :: "string list"
  am_completed_state :: string
  am_failed_state :: string
  am_max_poll_attempts :: nat
  am_poll_interval_ms :: nat
  am_collection_path :: string
  am_collection_capability_id :: string
  am_collection_metadata_path :: string
  am_collection_metadata_capability_id :: string
  am_collection_item_identity_pointer :: string
  am_correlation_field :: "string option"
  am_remove_capability_id :: "string option"
  am_requires_cursor_completion :: bool

datatype security_action_kind = CreateExpiring | RemoveExpired | AddExpiringListMember
  | RemoveExpiredListMember

text \<open>The safety profile enum has one variant, so it carries no information and no field.\<close>

record security_action =
  sa_kind :: security_action_kind
  sa_input_schema :: json
  sa_default_action :: "string option"
  sa_allowed_actions :: "string list"
  sa_allowed_target_types :: "string list"
  sa_default_ttl_seconds :: nat
  sa_max_ttl_seconds :: nat
  sa_current_state_capability_id :: string

record event_batch =
  eb_pull_capability_id :: string
  eb_pull_path :: string
  eb_acknowledge_capability_id :: string
  eb_acknowledge_path :: string
  eb_required_permissions :: "string list"
  eb_max_batch_size :: nat
  eb_max_visibility_timeout_ms :: nat
  eb_max_message_bytes :: nat
  eb_billing_chunk_bytes :: nat
  eb_price_per_million_operations :: f64
  eb_pricing_reference :: knowledge_reference
  eb_schema_reference :: knowledge_reference

section \<open>The capability\<close>

text \<open>
  \<^verbatim>\<open>CapabilityV1\<close>, declared in two steps: the classified operation, then its contract
  slots. \<open>application_contracts\<close> holds the slots from \<^verbatim>\<open>response_contract\<close> to \<^verbatim>\<open>workflow\<close>
  that are filled, each as its slot name and serialised contract.
\<close>

record capability_base =
  cap_schema_version :: nat
  cap_id :: string
  title :: string
  description :: "string option"
  authority_scope :: "authority_scope option"
  product :: string
  source :: string
  http_method :: string
  path :: string
  account_scope :: string
  selectors :: "selector list"
  aliases :: "string list"
  permissions :: "string list"
  mutating :: bool
  execution_supported :: bool
  risk :: risk_class
  effect :: effect_class
  maturity :: maturity
  entitlement :: entitlement
  cost :: cost
  verification :: verification_spec
  rollback :: rollback_spec

record capability = capability_base +
  created_resource :: "created_resource option"
  created_collection_resource :: "created_collection_resource option"
  created_nested_resource :: "created_nested_resource option"
  deleted_resource :: "deleted_resource option"
  deleted_nested_resource :: "deleted_nested_resource option"
  updated_resource :: "updated_resource option"
  same_path_read :: "same_path_read option"
  async_collection_mutation :: "async_collection_mutation option"
  adapter_status :: adapter_status
  blocked_reason :: "string option"
  request_schema :: "json option"
  application_contracts :: "(string, json) btree"
  security_action :: "security_action option"
  event_batch :: "event_batch option"

definition infer_scope :: "string \<Rightarrow> string" where
  "infer_scope p =
     (if str_contains p ''/zones/{'' then ''zone''
      else if str_contains p ''/accounts/{'' then ''account''
      else if str_contains p ''/user'' then ''user''
      else ''global'')"

definition unknown_cost :: cost where
  "unknown_cost = \<lparr>incremental = False, cost_currency = None, maximum = None,
     basis = Some ''official API schema does not declare operation pricing'', known = False,
     billing = Billing_Unknown, exposure = Exposure_None, references = []\<rparr>"

definition capability_new :: "string \<Rightarrow> string \<Rightarrow> string \<Rightarrow> string \<Rightarrow> capability" where
  "capability_new i t m p =
     (let normalized_method = to_ascii_uppercase m;
          is_read = (normalized_method \<in> {''GET'', ''HEAD'', ''OPTIONS''})
      in \<lparr>cap_schema_version = 1, cap_id = i, title = t, description = None,
          authority_scope = Some ProviderGeneric, product = ''Cloudflare API'',
          source = ''cloudflare-api-schemas'', http_method = normalized_method, path = p,
          account_scope = infer_scope p, selectors = [], aliases = [], permissions = [],
          mutating = (\<not> is_read), execution_supported = True,
          risk = (if is_read then Risk_Read else Risk_Unknown),
          effect = (if is_read then Effect_ReadOnly else Effect_Unknown),
          maturity = Maturity_Unknown, entitlement = entitlement_default,
          cost = (if is_read then cost_default else unknown_cost),
          verification = \<lparr>required = (\<not> is_read),
            v_strategy = (if is_read then ''not_applicable'' else ''required'')\<rparr>,
          rollback = \<lparr>supported = False, rb_strategy = None,
            warning = (if is_read then None
                       else Some ''rollback semantics have not been declared'')\<rparr>,
          created_resource = None, created_collection_resource = None,
          created_nested_resource = None, deleted_resource = None,
          deleted_nested_resource = None, updated_resource = None, same_path_read = None,
          async_collection_mutation = None, adapter_status = DynamicApi,
          blocked_reason = None, request_schema = None, application_contracts = [],
          security_action = None, event_batch = None\<rparr>)"

definition requires_attestation_to_execute :: "capability \<Rightarrow> bool" where
  "requires_attestation_to_execute c \<longleftrightarrow>
     effect_requires_attestation (effect c) \<or> risk_requires_attestation (risk c)"

section \<open>Facts\<close>

lemma attestation_iff:
  "requires_attestation_to_execute c \<longleftrightarrow>
     \<not> (effect c \<in> {Effect_ReadOnly, Effect_DataWrite, Effect_ReversibleWrite}
        \<and> risk c \<in> {Risk_Read, Risk_Recovery, Risk_ScopedWrite, Risk_CrossConfig})"
  by (cases "effect c"; cases "risk c") (simp_all add: requires_attestation_to_execute_def)

end
