(* ===== verification/Request_Schema.thy ===== *)
theory Request_Schema
  imports Capability
begin

text \<open>
  The traversal of a capability's request schema in \<^verbatim>\<open>cfctl-core\<close>: which top-level fields an
  object-shaped body has, through \<^verbatim>\<open>allOf\<close>, \<^verbatim>\<open>oneOf\<close> and \<^verbatim>\<open>anyOf\<close>, and which of them a
  response readback can observe. The traversal is bounded by a nesting depth and by a
  budget of steps that all branches share. The functions recurse on the depth that is left
  (the limit of 64, plus one, less the \<^verbatim>\<open>depth\<close> argument of the sources) and thread the budget.
\<close>

section \<open>Collecting fields\<close>

abbreviation max_request_object_schema_depth :: nat where
  "max_request_object_schema_depth \<equiv> 64"

abbreviation max_request_object_schema_steps :: nat where
  "max_request_object_schema_steps \<equiv> 4096"

datatype collection = Collected_Object | Ineligible | LimitExceeded

type_synonym fields = "(string, json list) btree"

definition push_schemas :: "string \<Rightarrow> json list \<Rightarrow> fields \<Rightarrow> fields" where
  "push_schemas name vs m =
     bt_insert name ((case bt_get m name of None \<Rightarrow> [] | Some ws \<Rightarrow> ws) @ vs) m"

definition merge_request_object_property_schemas :: "fields \<Rightarrow> fields \<Rightarrow> fields" where
  "merge_request_object_property_schemas fs additional =
     foldl (\<lambda>m (name, vs). push_schemas name vs m) fs additional"

fun nonempty_members :: "json \<Rightarrow> json list option" where
  "nonempty_members (JArray (m # ms)) = Some (m # ms)"
| "nonempty_members _ = None"

text \<open>The loop over the members of one composition; it stops at the first that is not an object.\<close>

fun collect_members :: "(json \<Rightarrow> nat \<Rightarrow> fields \<Rightarrow> collection \<times> nat \<times> fields) \<Rightarrow> json list
    \<Rightarrow> nat \<Rightarrow> fields \<Rightarrow> collection \<times> nat \<times> fields" where
  "collect_members f [] steps fs = (Collected_Object, steps, fs)"
| "collect_members f (m # ms) steps fs =
     (case f m steps fs of
        (Collected_Object, steps', fs') \<Rightarrow> collect_members f ms steps' fs'
      | (outcome, steps', fs') \<Rightarrow> (outcome, steps', fs'))"

text \<open>The loop over \<^verbatim>\<open>oneOf\<close> and \<^verbatim>\<open>anyOf\<close>.\<close>

fun collect_alternatives :: "(json \<Rightarrow> nat \<Rightarrow> fields \<Rightarrow> collection \<times> nat \<times> fields) \<Rightarrow> json
    \<Rightarrow> string list \<Rightarrow> nat \<Rightarrow> fields \<Rightarrow> collection \<times> nat \<times> fields" where
  "collect_alternatives f schema [] steps local = (Collected_Object, steps, local)"
| "collect_alternatives f schema (composition # rest) steps local =
     (case json_get schema composition of
        None \<Rightarrow> collect_alternatives f schema rest steps local
      | Some v \<Rightarrow>
          (case nonempty_members v of
             None \<Rightarrow> (Ineligible, steps, local)
           | Some members \<Rightarrow>
               (case collect_members f members steps [] of
                  (LimitExceeded, steps', _) \<Rightarrow> (LimitExceeded, steps', local)
                | (Collected_Object, steps', alternative) \<Rightarrow>
                    collect_alternatives f schema rest steps'
                      (merge_request_object_property_schemas local alternative)
                | (Ineligible, steps', _) \<Rightarrow>
                    if local = [] then (Ineligible, steps', local)
                    else collect_alternatives f schema rest steps' local)))"

definition direct_fields :: "(string \<times> json) list \<Rightarrow> fields" where
  "direct_fields properties = foldl (\<lambda>m (name, v). push_schemas name [v] m) [] properties"

definition schema_type_allows_object :: "json \<Rightarrow> bool" where
  "schema_type_allows_object schema \<longleftrightarrow>
     (case json_get schema ''type'' of None \<Rightarrow> True | Some v \<Rightarrow> v = JString ''object'')"

definition local_fields :: "json \<Rightarrow> fields option" where
  "local_fields schema =
     (case json_get schema ''properties'' of
        None \<Rightarrow> Some []
      | Some (JObject properties) \<Rightarrow> Some (direct_fields properties)
      | Some _ \<Rightarrow> None)"

primrec collect_composed :: "nat \<Rightarrow> json \<Rightarrow> nat \<Rightarrow> fields \<Rightarrow> collection \<times> nat \<times> fields" where
  "collect_composed 0 schema steps fs = (LimitExceeded, steps, fs)"
| "collect_composed (Suc depth_left) schema steps fs =
     (if steps = 0 then (LimitExceeded, steps, fs)
      else if \<not> schema_type_allows_object schema then (Ineligible, steps - 1, fs)
      else case local_fields schema of
        None \<Rightarrow> (Ineligible, steps - 1, fs)
      | Some local \<Rightarrow>
          (case (case json_get schema ''allOf'' of
                   None \<Rightarrow> (Collected_Object, steps - 1, local)
                 | Some all_of \<Rightarrow>
                     (case nonempty_members all_of of
                        None \<Rightarrow> (Ineligible, steps - 1, local)
                      | Some members \<Rightarrow>
                          collect_members (collect_composed depth_left) members (steps - 1) local)) of
             (Collected_Object, steps1, local1) \<Rightarrow>
               (case collect_alternatives (collect_composed depth_left) schema [''oneOf'', ''anyOf'']
                       steps1 local1 of
                  (Collected_Object, steps2, local2) \<Rightarrow>
                    (Collected_Object, steps2, merge_request_object_property_schemas fs local2)
                | (outcome, steps2, _) \<Rightarrow> (outcome, steps2, fs))
           | (outcome, steps1, _) \<Rightarrow> (outcome, steps1, fs)))"

definition collect_composed_object_property_schemas ::
    "json \<Rightarrow> nat \<Rightarrow> nat \<Rightarrow> fields \<Rightarrow> collection \<times> nat \<times> fields" where
  "collect_composed_object_property_schemas schema depth remaining_steps fs =
     collect_composed (max_request_object_schema_depth + 1 - depth) schema remaining_steps fs"

definition request_object_property_schemas :: "json \<Rightarrow> fields option" where
  "request_object_property_schemas schema =
     (case collect_composed_object_property_schemas schema 0 max_request_object_schema_steps [] of
        (outcome, _, fs) \<Rightarrow> if outcome \<noteq> Collected_Object \<or> fs = [] then None else Some fs)"

definition request_object_fields :: "capability \<Rightarrow> string list option" where
  "request_object_fields c =
     (case request_schema c of None \<Rightarrow> None
      | Some schema \<Rightarrow> map_option (map fst) (request_object_property_schemas schema))"

section \<open>Write-only and omitted fields\<close>

text \<open>\<^verbatim>\<open>Iterator::any\<close> and \<^verbatim>\<open>Iterator::all\<close> with a closure that spends the shared budget.\<close>

fun any_member :: "('a \<Rightarrow> nat \<Rightarrow> bool \<times> nat) \<Rightarrow> 'a list \<Rightarrow> nat \<Rightarrow> bool \<times> nat" where
  "any_member f [] steps = (False, steps)"
| "any_member f (m # ms) steps =
     (case f m steps of (True, steps') \<Rightarrow> (True, steps') | (False, steps') \<Rightarrow> any_member f ms steps')"

fun all_member :: "('a \<Rightarrow> nat \<Rightarrow> bool \<times> nat) \<Rightarrow> 'a list \<Rightarrow> nat \<Rightarrow> bool \<times> nat" where
  "all_member f [] steps = (True, steps)"
| "all_member f (m # ms) steps =
     (case f m steps of (True, steps') \<Rightarrow> all_member f ms steps' | (False, steps') \<Rightarrow> (False, steps'))"

definition array_members :: "json \<Rightarrow> string \<Rightarrow> json list option" where
  "array_members schema k = (case json_get schema k of Some (JArray ms) \<Rightarrow> Some ms | _ \<Rightarrow> None)"

definition bool_entry :: "json \<Rightarrow> string \<Rightarrow> bool option" where
  "bool_entry schema k = (case json_get schema k of None \<Rightarrow> None | Some v \<Rightarrow> json_as_bool v)"

text \<open>The common shape of the two predicates below, which differ in what marks a schema itself.\<close>

primrec schema_declares :: "(json \<Rightarrow> bool) \<Rightarrow> nat \<Rightarrow> json \<Rightarrow> nat \<Rightarrow> bool \<times> nat" where
  "schema_declares marked 0 schema steps = (False, steps)"
| "schema_declares marked (Suc depth_left) schema steps =
     (if steps = 0 then (False, steps)
      else if marked schema then (True, steps - 1)
      else case (case array_members schema ''allOf'' of
                   None \<Rightarrow> (False, steps - 1)
                 | Some members \<Rightarrow> any_member (schema_declares marked depth_left) members (steps - 1)) of
        (True, steps') \<Rightarrow> (True, steps')
      | (False, steps') \<Rightarrow>
          any_member (\<lambda>composition k.
              case array_members schema composition of
                None \<Rightarrow> (False, k)
              | Some members \<Rightarrow>
                  if members = [] then (False, k)
                  else all_member (schema_declares marked depth_left) members k)
            [''oneOf'', ''anyOf''] steps')"

definition marks_write_only :: "json \<Rightarrow> bool" where
  "marks_write_only schema \<longleftrightarrow> bool_entry schema ''writeOnly'' = Some True"

definition marks_verification_omitted :: "json \<Rightarrow> bool" where
  "marks_verification_omitted schema \<longleftrightarrow>
     bool_entry schema ''writeOnly'' = Some True \<or>
     bool_entry schema ''x-cfctl-verification-observable'' = Some False"

definition schema_declares_write_only :: "json \<Rightarrow> nat \<Rightarrow> nat \<Rightarrow> bool \<times> nat" where
  "schema_declares_write_only schema depth remaining_steps =
     schema_declares marks_write_only (max_request_object_schema_depth + 1 - depth) schema remaining_steps"

definition schema_declares_verification_omitted :: "json \<Rightarrow> nat \<Rightarrow> nat \<Rightarrow> bool \<times> nat" where
  "schema_declares_verification_omitted schema depth remaining_steps =
     schema_declares marks_verification_omitted (max_request_object_schema_depth + 1 - depth) schema
       remaining_steps"

definition property_schemas_are_write_only :: "json list \<Rightarrow> bool" where
  "property_schemas_are_write_only schemas \<longleftrightarrow>
     schemas \<noteq> [] \<and>
     fst (all_member (\<lambda>s. schema_declares_write_only s 0) schemas max_request_object_schema_steps)"

definition property_schemas_are_verification_omitted :: "json list \<Rightarrow> bool" where
  "property_schemas_are_verification_omitted schemas \<longleftrightarrow>
     schemas \<noteq> [] \<and>
     fst (all_member (\<lambda>s. schema_declares_verification_omitted s 0) schemas max_request_object_schema_steps)"

definition verifiable_request_object_fields :: "capability \<Rightarrow> string list option" where
  "verifiable_request_object_fields c =
     (case request_schema c of None \<Rightarrow> None
      | Some schema \<Rightarrow>
          (case request_object_property_schemas schema of None \<Rightarrow> None
           | Some fs \<Rightarrow>
               (let names = map fst (filter (\<lambda>(_, schemas).
                      \<not> property_schemas_are_verification_omitted schemas) fs)
                in if names = [] then None else Some names)))"

definition field_schemas :: "capability \<Rightarrow> string \<Rightarrow> json list option" where
  "field_schemas c field =
     (case request_schema c of None \<Rightarrow> None
      | Some schema \<Rightarrow>
          (case request_object_property_schemas schema of None \<Rightarrow> None | Some fs \<Rightarrow> bt_get fs field))"

definition request_object_field_is_write_only :: "capability \<Rightarrow> string \<Rightarrow> bool" where
  "request_object_field_is_write_only c field \<longleftrightarrow>
     (case field_schemas c field of None \<Rightarrow> False | Some schemas \<Rightarrow> property_schemas_are_write_only schemas)"

definition request_object_field_is_verification_omitted :: "capability \<Rightarrow> string \<Rightarrow> bool" where
  "request_object_field_is_verification_omitted c field \<longleftrightarrow>
     (case field_schemas c field of None \<Rightarrow> False
      | Some schemas \<Rightarrow> property_schemas_are_verification_omitted schemas)"

section \<open>Facts about collecting\<close>

definition field_has :: "fields \<Rightarrow> string \<Rightarrow> json \<Rightarrow> bool" where
  "field_has fs n v \<longleftrightarrow> (\<exists>vs. bt_get fs n = Some vs \<and> v \<in> set vs)"

lemma field_has_Nil [simp]: "\<not> field_has [] n v"
  by (simp add: field_has_def bt_get_def)

lemma push_schemas_invar [simp]: "bt_invar m \<Longrightarrow> bt_invar (push_schemas n vs m)"
  by (simp add: push_schemas_def bt_invar_insert)

lemma field_has_push:
  "bt_invar m \<Longrightarrow> field_has (push_schemas n vs m) n' v \<longleftrightarrow> field_has m n' v \<or> (n' = n \<and> v \<in> set vs)"
  by (cases "bt_get m n") (auto simp: field_has_def push_schemas_def bt_get_insert)

lemma foldl_push:
  "bt_invar fs \<Longrightarrow> bt_invar (foldl (\<lambda>m (name, vs). push_schemas name (g vs) m) fs xs) \<and>
     (field_has (foldl (\<lambda>m (name, vs). push_schemas name (g vs) m) fs xs) n v \<longleftrightarrow>
        field_has fs n v \<or> (\<exists>vs. (n, vs) \<in> set xs \<and> v \<in> set (g vs)))"
  by (induction xs arbitrary: fs) (auto simp: field_has_push)

lemma merge_invar: "bt_invar fs \<Longrightarrow> bt_invar (merge_request_object_property_schemas fs add)"
  using foldl_push [of fs "\<lambda>vs. vs" add] by (simp add: merge_request_object_property_schemas_def)

lemma bt_get_mem: "bt_invar m \<Longrightarrow> bt_get m k = Some v \<longleftrightarrow> (k, v) \<in> set m"
  by (auto simp: bt_get_def bt_invar_def strict_sorted_iff intro: map_of_SomeD)

lemma merge_has:
  assumes "bt_invar fs" "bt_invar add"
  shows "field_has (merge_request_object_property_schemas fs add) n v \<longleftrightarrow> field_has fs n v \<or> field_has add n v"
  using foldl_push [of fs "\<lambda>vs. vs" add n v] assms
  by (auto simp: merge_request_object_property_schemas_def field_has_def bt_get_mem)

lemma direct_fields_facts:
  "bt_invar (direct_fields ps)" "field_has (direct_fields ps) n v \<longleftrightarrow> (n, v) \<in> set ps"
  using foldl_push [of "[]" "\<lambda>v. [v]" ps n v]
  by (auto simp: direct_fields_def bt_invar_def)

text \<open>
  What a schema declares: the properties of the schema itself and of the members of its
  compositions, at any depth.
\<close>

inductive declared :: "json \<Rightarrow> string \<Rightarrow> json \<Rightarrow> bool" where
  direct: "json_get schema ''properties'' = Some (JObject ps) \<Longrightarrow> (n, v) \<in> set ps \<Longrightarrow> declared schema n v"
| composed: "composition \<in> {''allOf'', ''oneOf'', ''anyOf''} \<Longrightarrow>
    json_get schema composition = Some (JArray ms) \<Longrightarrow> m \<in> set ms \<Longrightarrow> declared m n v \<Longrightarrow> declared schema n v"

lemma nonempty_members_iff: "nonempty_members v = Some ms \<longleftrightarrow> v = JArray ms \<and> ms \<noteq> []"
  by (cases v rule: nonempty_members.cases) auto

text \<open>The contract of a collector, kept by the loops over members and alternatives.\<close>

definition collector :: "(json \<Rightarrow> nat \<Rightarrow> fields \<Rightarrow> collection \<times> nat \<times> fields) \<Rightarrow> bool" where
  "collector f \<longleftrightarrow> (\<forall>schema k fs out k' fs'. f schema k fs = (out, k', fs') \<longrightarrow>
     k' \<le> k \<and> (out \<noteq> LimitExceeded \<longrightarrow> k' < k) \<and>
     (bt_invar fs \<longrightarrow> bt_invar fs' \<and>
        (out = Collected_Object \<longrightarrow>
          (\<forall>n v. (field_has fs n v \<longrightarrow> field_has fs' n v) \<and>
                 (field_has fs' n v \<longrightarrow> field_has fs n v \<or> declared schema n v)))))"

lemma collect_members_ok:
  assumes "collector f" "collect_members f ms k fs = (out, k', fs')"
  shows "k' \<le> k" and "bt_invar fs \<Longrightarrow> bt_invar fs'"
    and "bt_invar fs \<Longrightarrow> out = Collected_Object \<Longrightarrow> field_has fs n v \<Longrightarrow> field_has fs' n v"
    and "bt_invar fs \<Longrightarrow> out = Collected_Object \<Longrightarrow> field_has fs' n v \<Longrightarrow>
      field_has fs n v \<or> (\<exists>m\<in>set ms. declared m n v)"
proof -
  have "k' \<le> k \<and> (bt_invar fs \<longrightarrow> bt_invar fs' \<and> (out = Collected_Object \<longrightarrow>
      (\<forall>n v. (field_has fs n v \<longrightarrow> field_has fs' n v) \<and>
        (field_has fs' n v \<longrightarrow> field_has fs n v \<or> (\<exists>m\<in>set ms. declared m n v)))))"
    using assms(2)
  proof (induction ms arbitrary: k fs)
    case (Cons m ms)
    obtain o1 k1 f1 where f: "f m k fs = (o1, k1, f1)" by (cases "f m k fs") auto
    note c = assms(1) [unfolded collector_def, rule_format, OF f]
    show ?case
    proof (cases "o1 = Collected_Object")
      case True
      with Cons.prems f have "collect_members f ms k1 f1 = (out, k', fs')" by simp
      from Cons.IH [OF this] c True show ?thesis by fastforce
    next
      case False
      with Cons.prems f have "out = o1" "k' = k1" "fs' = f1" by (auto split: collection.splits)
      with c False show ?thesis by auto
    qed
  qed auto
  then show "k' \<le> k" "bt_invar fs \<Longrightarrow> bt_invar fs'"
    "bt_invar fs \<Longrightarrow> out = Collected_Object \<Longrightarrow> field_has fs n v \<Longrightarrow> field_has fs' n v"
    "bt_invar fs \<Longrightarrow> out = Collected_Object \<Longrightarrow> field_has fs' n v \<Longrightarrow>
      field_has fs n v \<or> (\<exists>m\<in>set ms. declared m n v)" by blast+
qed

lemma collect_alternatives_ok:
  assumes "collector f" "collect_alternatives f schema cs k fs = (out, k', fs')"
  shows "k' \<le> k \<and> (bt_invar fs \<longrightarrow> bt_invar fs' \<and> (out = Collected_Object \<longrightarrow>
      (\<forall>n v. (field_has fs n v \<longrightarrow> field_has fs' n v) \<and>
        (field_has fs' n v \<longrightarrow> field_has fs n v \<or>
           (\<exists>c\<in>set cs. \<exists>ms. json_get schema c = Some (JArray ms) \<and> (\<exists>m\<in>set ms. declared m n v))))))"
  using assms(2)
proof (induction cs arbitrary: k fs)
  case (Cons c cs)
  show ?case
  proof (cases "json_get schema c")
    case None
    with Cons.prems have "collect_alternatives f schema cs k fs = (out, k', fs')" by simp
    from Cons.IH [OF this] show ?thesis by (auto 0 3)
  next
    case (Some w)
    show ?thesis
    proof (cases "nonempty_members w")
      case None
      with Some Cons.prems show ?thesis by auto
    next
      case (Some ms)
      note get = \<open>json_get schema c = Some w\<close> Some
      obtain o1 k1 alt where alt: "collect_members f ms k [] = (o1, k1, alt)"
        by (cases "collect_members f ms k []") auto
      note m = collect_members_ok [OF assms(1) alt]
      have nil: "bt_invar ([] :: fields)" by (simp add: bt_invar_def)
      consider (limit) "o1 = LimitExceeded" | (bad) "o1 = Ineligible" | (ok) "o1 = Collected_Object"
        by (cases o1) auto
      then show ?thesis
      proof cases
        case limit
        with get alt Cons.prems m(1) show ?thesis by auto
      next
        case bad
        show ?thesis
        proof (cases "fs = []")
          case True
          with bad get alt Cons.prems m(1) show ?thesis by auto
        next
          case False
          with bad get alt Cons.prems have "collect_alternatives f schema cs k1 fs = (out, k', fs')" by simp
          from Cons.IH [OF this] m(1) show ?thesis by (auto 0 3)
        qed
      next
        case ok
        with get alt Cons.prems
        have "collect_alternatives f schema cs k1 (merge_request_object_property_schemas fs alt) = (out, k', fs')"
          by simp
        note IH = Cons.IH [OF this]
        have w: "json_get schema c = Some (JArray ms)" using get by (simp add: nonempty_members_iff)
        show ?thesis
        proof (intro conjI impI allI)
          show "k' \<le> k" using IH m(1) by simp
          assume inv: "bt_invar fs"
          then have inv': "bt_invar (merge_request_object_property_schemas fs alt)" by (rule merge_invar)
          then show "bt_invar fs'" using IH by blast
          fix n v assume out: "out = Collected_Object"
          note has = merge_has [OF inv m(2) [OF nil], of n v]
          show "field_has fs' n v" if "field_has fs n v" using IH inv' out has that by blast
          assume "field_has fs' n v"
          with IH inv' out consider "field_has (merge_request_object_property_schemas fs alt) n v"
            | "\<exists>c\<in>set cs. \<exists>ms. json_get schema c = Some (JArray ms) \<and> (\<exists>m\<in>set ms. declared m n v)"
            by blast
          then show "field_has fs n v \<or> (\<exists>c\<in>set (c # cs). \<exists>ms. json_get schema c = Some (JArray ms) \<and>
              (\<exists>m\<in>set ms. declared m n v))"
          proof cases
            case 1
            with has m(4) [OF nil ok, of n v] w show ?thesis by (metis field_has_Nil list.set_intros(1))
          qed (meson list.set_intros(2))
        qed
      qed
    qed
  qed
qed auto

lemma local_fields_ok:
  assumes "local_fields schema = Some fs"
  shows "bt_invar fs" and "field_has fs n v \<Longrightarrow> declared schema n v"
  using assms direct_fields_facts
  by (auto simp: local_fields_def bt.invar_empty split: option.splits json.splits intro: declared.direct)

text \<open>The local fields together with those of the \<^verbatim>\<open>allOf\<close> members.\<close>

lemma collect_all_of_ok:
  assumes f: "collector f" and loc: "local_fields schema = Some local"
    and "(case json_get schema ''allOf'' of
            None \<Rightarrow> (Collected_Object, k, local)
          | Some all_of \<Rightarrow> (case nonempty_members all_of of
              None \<Rightarrow> (Ineligible, k, local)
            | Some members \<Rightarrow> collect_members f members k local)) = (out, k', fs')"
  shows "k' \<le> k" and "bt_invar fs'"
    and "out = Collected_Object \<Longrightarrow> field_has local n v \<Longrightarrow> field_has fs' n v"
    and "out = Collected_Object \<Longrightarrow> field_has fs' n v \<Longrightarrow> declared schema n v"
proof -
  note l = local_fields_ok [OF loc]
  have "k' \<le> k \<and> bt_invar fs' \<and> (out = Collected_Object \<longrightarrow>
      (field_has local n v \<longrightarrow> field_has fs' n v) \<and> (field_has fs' n v \<longrightarrow> declared schema n v))"
  proof (cases "json_get schema ''allOf''")
    case None
    with assms(3) l show ?thesis by auto
  next
    case (Some w)
    show ?thesis
    proof (cases "nonempty_members w")
      case None
      with Some assms(3) l show ?thesis by auto
    next
      case (Some ms)
      with \<open>json_get schema ''allOf'' = Some w\<close> assms(3)
      have c: "collect_members f ms k local = (out, k', fs')" and w: "json_get schema ''allOf'' = Some (JArray ms)"
        by (simp_all add: nonempty_members_iff)
      note m = collect_members_ok [OF f c]
      have "declared schema n v" if "\<exists>m\<in>set ms. declared m n v"
        using that w by (auto intro: declared.composed [where composition = "''allOf''"])
      then show ?thesis using m l by blast
    qed
  qed
  then show "k' \<le> k" "bt_invar fs'" "out = Collected_Object \<Longrightarrow> field_has local n v \<Longrightarrow> field_has fs' n v"
    "out = Collected_Object \<Longrightarrow> field_has fs' n v \<Longrightarrow> declared schema n v" by blast+
qed

lemma collect_composed_step:
  assumes f: "collector (collect_composed d)" and run: "collect_composed (Suc d) schema k fs = (out, k', fs')"
    and out: "out = Collected_Object"
  obtains local2 where "fs' = merge_request_object_property_schemas fs local2" "bt_invar local2" "k' < k"
    "\<And>n v. field_has local2 n v \<Longrightarrow> declared schema n v"
    "\<And>local n v. local_fields schema = Some local \<Longrightarrow> field_has local n v \<Longrightarrow> field_has local2 n v"
    "\<exists>local. local_fields schema = Some local"
proof -
  have k: "k \<noteq> 0" and t: "schema_type_allows_object schema" using run out by (auto split: if_splits)
  then obtain local where loc: "local_fields schema = Some local"
    using run out by (cases "local_fields schema") auto
  let ?a = "case json_get schema ''allOf'' of
            None \<Rightarrow> (Collected_Object, k - 1, local)
          | Some all_of \<Rightarrow> (case nonempty_members all_of of
              None \<Rightarrow> (Ineligible, k - 1, local)
            | Some members \<Rightarrow> collect_members (collect_composed d) members (k - 1) local)"
  obtain o1 k1 l1 where a: "?a = (o1, k1, l1)" by (cases ?a) auto
  obtain o2 k2 l2 where b: "collect_alternatives (collect_composed d) schema [''oneOf'', ''anyOf''] k1 l1 = (o2, k2, l2)"
    by (cases "collect_alternatives (collect_composed d) schema [''oneOf'', ''anyOf''] k1 l1") auto
  have o1: "o1 = Collected_Object" using run out k t loc a b by (cases o1) auto
  then have o2: "o2 = Collected_Object" using run out k t loc a b by (cases o2) auto
  have res: "k' = k2" "fs' = merge_request_object_property_schemas fs l2"
    using run k t loc a b o1 o2 by auto
  note A = collect_all_of_ok [OF f loc a]
  note B = collect_alternatives_ok [OF f b]
  show thesis
  proof (rule that [OF res(2)])
    show "bt_invar l2" using A(2) B by blast
    show "k' < k" using A(1) B res k by linarith
    show "declared schema n v" if "field_has l2 n v" for n v
    proof -
      from B A(2) o2 that have "field_has l1 n v \<or>
        (\<exists>c\<in>set [''oneOf'', ''anyOf'']. \<exists>ms. json_get schema c = Some (JArray ms) \<and> (\<exists>m\<in>set ms. declared m n v))"
        by blast
      then show ?thesis using A(4) [OF o1] by (auto intro: declared.composed)
    qed
    show "field_has l2 n v" if "local_fields schema = Some local'" "field_has local' n v" for local' n v
      using B A(2,3) o1 o2 that loc by (metis option.inject)
  qed (use loc in blast)
qed

lemma collect_composed_steps:
  assumes f: "collector (collect_composed d)" and run: "collect_composed (Suc d) schema k fs = (out, k', fs')"
    and out: "out \<noteq> Collected_Object"
  shows "k' \<le> k" and "out \<noteq> LimitExceeded \<Longrightarrow> k' < k" and "fs' = fs"
proof -
  have "k' \<le> k \<and> (out \<noteq> LimitExceeded \<longrightarrow> k' < k) \<and> fs' = fs"
  proof (cases "k = 0 \<or> \<not> schema_type_allows_object schema \<or> local_fields schema = None")
    case True
    with run show ?thesis by (auto split: if_splits option.splits)
  next
    case False
    then obtain local where loc: "local_fields schema = Some local" and k: "k > 0" by auto
    let ?a = "case json_get schema ''allOf'' of
            None \<Rightarrow> (Collected_Object, k - 1, local)
          | Some all_of \<Rightarrow> (case nonempty_members all_of of
              None \<Rightarrow> (Ineligible, k - 1, local)
            | Some members \<Rightarrow> collect_members (collect_composed d) members (k - 1) local)"
    obtain o1 k1 l1 where a: "?a = (o1, k1, l1)" by (cases ?a) auto
    obtain o2 k2 l2 where b: "collect_alternatives (collect_composed d) schema [''oneOf'', ''anyOf''] k1 l1 = (o2, k2, l2)"
      by (cases "collect_alternatives (collect_composed d) schema [''oneOf'', ''anyOf''] k1 l1") auto
    have "k1 \<le> k - 1" "k2 \<le> k1" using collect_all_of_ok(1) [OF f loc a] collect_alternatives_ok [OF f b] by auto
    then show ?thesis
      using run out False loc a b k by (cases o1; cases o2) auto
  qed
  then show "k' \<le> k" "out \<noteq> LimitExceeded \<Longrightarrow> k' < k" "fs' = fs" by blast+
qed

lemma collector_collect_composed: "collector (collect_composed d)"
proof (induction d)
  case 0
  then show ?case by (simp add: collector_def)
next
  case (Suc d)
  show ?case unfolding collector_def
  proof (intro allI impI)
    fix schema k fs out k' fs'
    assume run: "collect_composed (Suc d) schema k fs = (out, k', fs')"
    have main: "k' < k \<and> (bt_invar fs \<longrightarrow> bt_invar fs' \<and> (\<forall>n v. (field_has fs n v \<longrightarrow> field_has fs' n v) \<and>
        (field_has fs' n v \<longrightarrow> field_has fs n v \<or> declared schema n v)))"
      if out: "out = Collected_Object"
    proof -
      obtain local2 where l: "fs' = merge_request_object_property_schemas fs local2" "bt_invar local2" "k' < k"
        "\<And>n v. field_has local2 n v \<Longrightarrow> declared schema n v"
        by (rule collect_composed_step [OF Suc run out]) blast
      then show ?thesis by (simp add: merge_invar merge_has)
    qed
    show "k' \<le> k \<and> (out \<noteq> LimitExceeded \<longrightarrow> k' < k) \<and>
       (bt_invar fs \<longrightarrow> bt_invar fs' \<and> (out = Collected_Object \<longrightarrow> (\<forall>n v. (field_has fs n v \<longrightarrow> field_has fs' n v) \<and>
          (field_has fs' n v \<longrightarrow> field_has fs n v \<or> declared schema n v))))"
    proof (cases "out = Collected_Object")
      case True
      with main show ?thesis by (simp add: less_imp_le)
    next
      case False
      from collect_composed_steps [OF Suc run False] False show ?thesis by auto
    qed
  qed
qed

section \<open>The reference meaning of the marking predicates\<close>

text \<open>The same traversal without a budget.\<close>

primrec declares_spec :: "(json \<Rightarrow> bool) \<Rightarrow> nat \<Rightarrow> json \<Rightarrow> bool" where
  "declares_spec marked 0 schema = False"
| "declares_spec marked (Suc d) schema =
     (marked schema \<or>
      (case array_members schema ''allOf'' of None \<Rightarrow> False
       | Some ms \<Rightarrow> list_ex (declares_spec marked d) ms) \<or>
      list_ex (\<lambda>composition. case array_members schema composition of None \<Rightarrow> False
         | Some ms \<Rightarrow> ms \<noteq> [] \<and> list_all (declares_spec marked d) ms) [''oneOf'', ''anyOf''])"

text \<open>A budgeted test agrees with its meaning while some of the budget is left, and its yes is
  always right.\<close>

definition agrees :: "('a \<Rightarrow> nat \<Rightarrow> bool \<times> nat) \<Rightarrow> ('a \<Rightarrow> bool) \<Rightarrow> bool" where
  "agrees f g \<longleftrightarrow> (\<forall>x k r l. f x k = (r, l) \<longrightarrow> l \<le> k \<and> (r \<longrightarrow> g x) \<and> (0 < l \<longrightarrow> r = g x))"

lemma agreesD:
  "agrees f g \<Longrightarrow> f x k = (r, l) \<Longrightarrow> l \<le> k \<and> (r \<longrightarrow> g x) \<and> (0 < l \<longrightarrow> r = g x)"
  by (simp add: agrees_def)

lemma agrees_any: "agrees f g \<Longrightarrow> agrees (any_member f) (list_ex g)"
  unfolding agrees_def [of "any_member f"]
proof (intro allI impI)
  fix xs k r l
  assume f: "agrees f g" and "any_member f xs k = (r, l)"
  then show "l \<le> k \<and> (r \<longrightarrow> list_ex g xs) \<and> (0 < l \<longrightarrow> r = list_ex g xs)"
  proof (induction xs arbitrary: k)
    case (Cons x xs)
    obtain r1 l1 where x: "f x k = (r1, l1)" by (cases "f x k")
    note ag = agreesD [OF f, OF x]
    show ?case
    proof (cases r1)
      case False
      with Cons.prems x have "any_member f xs l1 = (r, l)" by simp
      from Cons.IH [OF f this] ag False show ?thesis by auto
    qed (use Cons.prems x ag in auto)
  qed auto
qed

lemma agrees_all: "agrees f g \<Longrightarrow> agrees (all_member f) (list_all g)"
  unfolding agrees_def [of "all_member f"]
proof (intro allI impI)
  fix xs k r l
  assume f: "agrees f g" and "all_member f xs k = (r, l)"
  then show "l \<le> k \<and> (r \<longrightarrow> list_all g xs) \<and> (0 < l \<longrightarrow> r = list_all g xs)"
  proof (induction xs arbitrary: k)
    case (Cons x xs)
    obtain r1 l1 where x: "f x k = (r1, l1)" by (cases "f x k")
    note ag = agreesD [OF f, OF x]
    show ?case
    proof (cases r1)
      case True
      with Cons.prems x have "all_member f xs l1 = (r, l)" by simp
      from Cons.IH [OF f this] ag True show ?thesis by auto
    qed (use Cons.prems x ag in auto)
  qed auto
qed

lemma agrees_composition:
  assumes "agrees f g"
  shows "agrees (\<lambda>composition k. case array_members schema composition of None \<Rightarrow> (False, k)
      | Some members \<Rightarrow> if members = [] then (False, k) else all_member f members k)
    (\<lambda>composition. case array_members schema composition of None \<Rightarrow> False
      | Some ms \<Rightarrow> ms \<noteq> [] \<and> list_all g ms)"
  using agrees_all [OF assms] by (auto simp: agrees_def split: option.splits)

lemma agrees_schema_declares: "agrees (schema_declares marked d) (declares_spec marked d)"
proof (induction d)
  case 0
  then show ?case by (simp add: agrees_def)
next
  case (Suc d)
  show ?case unfolding agrees_def
  proof (intro allI impI)
    fix schema k r l
    assume run: "schema_declares marked (Suc d) schema k = (r, l)"
    let ?a = "case array_members schema ''allOf'' of None \<Rightarrow> (False, k - 1)
       | Some members \<Rightarrow> any_member (schema_declares marked d) members (k - 1)"
    let ?A = "case array_members schema ''allOf'' of None \<Rightarrow> False
       | Some ms \<Rightarrow> list_ex (declares_spec marked d) ms"
    obtain r1 l1 where a: "?a = (r1, l1)" by (cases ?a)
    have A: "l1 \<le> k - 1 \<and> (r1 \<longrightarrow> ?A) \<and> (0 < l1 \<longrightarrow> r1 = ?A)"
      using a agreesD [OF agrees_any [OF Suc]] by (auto split: option.splits)
    define c where "c = (\<lambda>composition k. case array_members schema composition of None \<Rightarrow> (False, k)
      | Some members \<Rightarrow> if members = [] then (False, k) else all_member (schema_declares marked d) members k)"
    define g where "g = (\<lambda>composition. case array_members schema composition of None \<Rightarrow> False
      | Some ms \<Rightarrow> ms \<noteq> [] \<and> list_all (declares_spec marked d) ms)"
    have "agrees c g" unfolding c_def g_def by (rule agrees_composition [OF Suc])
    then have ag: "agrees (any_member c) (list_ex g)" by (rule agrees_any)
    obtain r2 l2 where b: "any_member c [''oneOf'', ''anyOf''] l1 = (r2, l2)"
      by (cases "any_member c [''oneOf'', ''anyOf''] l1")
    note B = agreesD [OF ag, OF b]
    have spec: "declares_spec marked (Suc d) schema \<longleftrightarrow> marked schema \<or> ?A \<or> list_ex g [''oneOf'', ''anyOf'']"
      by (simp only: declares_spec.simps g_def)
    have unf: "schema_declares marked (Suc d) schema k =
        (if k = 0 then (False, k) else if marked schema then (True, k - 1)
         else if r1 then (True, l1) else (r2, l2))"
      using a b by (simp only: schema_declares.simps c_def) (simp only: prod.case split: bool.splits, simp)
    show "l \<le> k \<and> (r \<longrightarrow> declares_spec marked (Suc d) schema) \<and> (0 < l \<longrightarrow> r = declares_spec marked (Suc d) schema)"
    proof (cases "k = 0 \<or> marked schema \<or> r1")
      case True
      with run A show ?thesis unfolding spec unf by (auto split: if_splits)
    next
      case False
      with run have "r = r2" "l = l2" unfolding unf by simp_all
      with False A B show ?thesis unfolding spec by auto
    qed
  qed
qed

section \<open>Properties\<close>

lemma request_schemas_facts:
  assumes "request_object_property_schemas schema = Some fs"
  shows "bt_invar fs" "fs \<noteq> []" "field_has fs n v \<Longrightarrow> declared schema n v"
    and "json_get schema ''properties'' = Some (JObject ps) \<Longrightarrow> (n, v) \<in> set ps \<Longrightarrow> field_has fs n v"
    and "schema_type_allows_object schema"
proof -
  obtain k' where run: "collect_composed (Suc 64) schema 4096 [] = (Collected_Object, k', fs)" and ne: "fs \<noteq> []"
    using assms by (auto simp: request_object_property_schemas_def collect_composed_object_property_schemas_def
        split: prod.splits if_splits simp del: collect_composed.simps)
  obtain local2 where l: "fs = merge_request_object_property_schemas [] local2" "bt_invar local2"
      "\<And>n v. field_has local2 n v \<Longrightarrow> declared schema n v"
      "\<And>local n v. local_fields schema = Some local \<Longrightarrow> field_has local n v \<Longrightarrow> field_has local2 n v"
    by (rule collect_composed_step [OF collector_collect_composed run]) blast+
  have has: "field_has fs n v \<longleftrightarrow> field_has local2 n v" for n v
    using l(1,2) by (simp add: merge_has bt.invar_empty)
  show "bt_invar fs" using l(1) merge_invar [OF bt.invar_empty] by simp
  show "fs \<noteq> []" by (rule ne)
  show "field_has fs n v \<Longrightarrow> declared schema n v" using has l(3) by blast
  show "field_has fs n v" if "json_get schema ''properties'' = Some (JObject ps)" "(n, v) \<in> set ps"
    using that has l(4) by (auto simp: local_fields_def direct_fields_facts)
  show "schema_type_allows_object schema"
    by (rule ccontr) (use run [unfolded collect_composed.simps(2)] in simp)
qed

lemma verifiable_fields_characterised:
  assumes "verifiable_request_object_fields c = Some ns"
  shows "\<exists>fs. request_object_fields c = Some fs \<and> ns \<noteq> [] \<and> sorted_wrt (<) ns \<and>
    set ns = {n \<in> set fs. \<not> request_object_field_is_verification_omitted c n}"
proof -
  from assms obtain schema fs where s: "request_schema c = Some schema"
    and fs: "request_object_property_schemas schema = Some fs"
    and ns: "ns = map fst (filter (\<lambda>(_, schemas). \<not> property_schemas_are_verification_omitted schemas) fs)" "ns \<noteq> []"
    by (auto simp: verifiable_request_object_fields_def Let_def split: option.splits if_splits)
  have inv: "bt_invar fs" by (rule request_schemas_facts(1) [OF fs])
  then have "sorted_wrt (<) ns" by (simp add: ns(1) bt_invar_def sorted_wrt_map sorted_wrt_filter)
  moreover have "request_object_field_is_verification_omitted c n = property_schemas_are_verification_omitted vs"
    if "(n, vs) \<in> set fs" for n vs
    using that bt_get_mem [OF inv, of n vs] s fs
    by (simp add: request_object_field_is_verification_omitted_def field_schemas_def)
  then have "set ns = {n \<in> set (map fst fs). \<not> request_object_field_is_verification_omitted c n}"
    unfolding ns(1) by force
  ultimately show ?thesis using ns(2) s fs by (auto simp: request_object_fields_def)
qed

definition demo_schema :: json where
  "demo_schema = jobj [(''type'', JString ''object''),
     (''properties'', jobj [(''name'', jobj [(''type'', JString ''string'')]),
        (''secret'', jobj [(''writeOnly'', JBool True)])]),
     (''allOf'', JArray [jobj [(''properties'', jobj [(''ttl'', JNull)])]])]"

lemma demo_schema_fields:
  "request_object_property_schemas demo_schema =
     Some [(''name'', [jobj [(''type'', JString ''string'')]]), (''secret'', [jobj [(''writeOnly'', JBool True)]]),
           (''ttl'', [JNull])]"
  by code_simp

definition demo_schema_capability :: capability where
  "demo_schema_capability = (capability_new ''x'' ''x'' ''POST'' ''/x'')\<lparr>request_schema := Some demo_schema\<rparr>"

lemma demo_verifiable:
  "verifiable_request_object_fields demo_schema_capability = Some [''name'', ''ttl'']"
proof -
  have "\<not> property_schemas_are_verification_omitted [jobj [(''type'', JString ''string'')]]"
    "property_schemas_are_verification_omitted [jobj [(''writeOnly'', JBool True)]]"
    "\<not> property_schemas_are_verification_omitted [JNull]"
    by code_simp+
  then show ?thesis
    by (simp add: verifiable_request_object_fields_def demo_schema_capability_def demo_schema_fields)
qed

text \<open>
  The fields of an object-shaped request schema are sound: they are strictly ordered, every
  schema recorded for a field is declared for it by a properties object reachable through
  the schema's compositions, and no direct property of the schema is lost.
\<close>

lemma request_fields_declared:
  assumes "request_object_property_schemas schema = Some fs"
  shows "sorted_wrt (<) (map fst fs) \<and> fs \<noteq> [] \<and> schema_type_allows_object schema \<and>
    (bt_get fs n = Some vs \<longrightarrow> v \<in> set vs \<longrightarrow> declared schema n v) \<and>
    (json_get schema ''properties'' = Some (JObject ps) \<longrightarrow> (n, v) \<in> set ps \<longrightarrow>
       (\<exists>ws. bt_get fs n = Some ws \<and> v \<in> set ws))"
  using request_schemas_facts [OF assms] by (auto simp: bt_invar_def field_has_def)

text \<open>
  The omission test is a bounded computation of its reference meaning: it never spends more
  than the budget, a positive answer is always justified, and while some of the budget is
  left the answer is exactly the reference one.
\<close>

lemma omission_test_agrees:
  assumes "schema_declares_verification_omitted schema depth k = (r, l)"
  shows "l \<le> k \<and>
    (r \<longrightarrow> declares_spec marks_verification_omitted (65 - depth) schema) \<and>
    (0 < l \<longrightarrow> r = declares_spec marks_verification_omitted (65 - depth) schema)"
  using agreesD [OF agrees_schema_declares, OF assms [unfolded schema_declares_verification_omitted_def]]
  by simp

text \<open>
  Collecting fields is bounded: every visited schema node spends one step of the shared
  budget, so a run never visits more than the budget allows, and it either stops at the
  limit or has spent at least one step.
\<close>

lemma collect_budget:
  assumes "collect_composed_object_property_schemas schema depth k fs = (out, k', fs')"
  shows "k' \<le> k \<and> (out \<noteq> LimitExceeded \<longrightarrow> k' < k)"
  using assms collector_collect_composed
  by (auto simp: collect_composed_object_property_schemas_def collector_def)

end
