(* ===== verification/Content_Hash.thy ===== *)
theory Content_Hash
  imports Capability
begin

text \<open>
  Content hashes (\<^verbatim>\<open>hash_value\<close>, \<^verbatim>\<open>canonical_hash_value\<close> in
  \<^verbatim>\<open>crates/cfctl-core/src/lib.rs\<close>) and the contract of the documents that carry one. The
  encoder, the digest, the timestamp printer and the derived serialisation of a
  capability are library or generated code: they are the fields of an environment record
  that every client takes.
\<close>

section \<open>The environment\<close>

text \<open>
  \<^verbatim>\<open>serde_json::to_vec\<close>, \<^verbatim>\<open>Sha256::digest\<close> with \<^verbatim>\<open>hex::encode\<close>, the \<^verbatim>\<open>Serialize\<close> instance
  of \<^verbatim>\<open>chrono::DateTime\<close>, and the derived \<^verbatim>\<open>Serialize\<close> instance of \<^verbatim>\<open>CapabilityV1\<close>.
  None of them fails on the values they are given here.
\<close>

record env =
  to_vec :: "json \<Rightarrow> string"
  sha256_hex :: "string \<Rightarrow> string"
  rfc3339 :: "datetime \<Rightarrow> string"
  capability_value :: "capability \<Rightarrow> json"

definition jtime :: "env \<Rightarrow> datetime \<Rightarrow> json" where
  "jtime e t = JString (rfc3339 e t)"

definition hash_value :: "env \<Rightarrow> json \<Rightarrow> string" where
  "hash_value e v = ''sha256:'' @ sha256_hex e (to_vec e v)"

definition canonical_hash_value :: "env \<Rightarrow> json \<Rightarrow> string" where
  "canonical_hash_value e v = hash_value e (canonical_json_value v)"

section \<open>Hash-bound documents\<close>

text \<open>
  Plans, standing authorities, policy bundles, plan sets and the second plan version all
  carry a field with the hash of their reviewed content. The contract is stated once: a
  document, the value that is hashed, and the field that holds the hash, which is no part
  of that value. A statement about equal hashes names the two values whose hashes would
  have to coincide, so it says something of a real digest too.
\<close>

definition collides :: "(json \<Rightarrow> string) \<Rightarrow> json \<Rightarrow> json \<Rightarrow> bool" where
  "collides h v w \<longleftrightarrow> v \<noteq> w \<and> h v = h w"

lemma collidesI: "h v = h w \<Longrightarrow> v = w \<or> collides h v w"
  by (auto simp: collides_def)

locale hash_bound =
  fixes hash :: "json \<Rightarrow> string"
    and content :: "'d \<Rightarrow> json"
    and stored :: "'d \<Rightarrow> string"
    and store :: "string \<Rightarrow> 'd \<Rightarrow> 'd"
  assumes content_store: "content (store h d) = content d"
    and stored_store: "stored (store h d) = h"
begin

definition refresh :: "'d \<Rightarrow> 'd" where
  "refresh d = store (hash (content d)) d"

definition bound :: "'d \<Rightarrow> bool" where
  "bound d \<longleftrightarrow> stored d = hash (content d)"

lemma bound_refresh: "bound (refresh d)"
  by (simp add: bound_def refresh_def content_store stored_store)

lemma content_refresh: "content (refresh d) = content d"
  by (simp add: refresh_def content_store)

lemma equal_content_or_collision:
  "bound d \<Longrightarrow> bound d' \<Longrightarrow> stored d = stored d' \<Longrightarrow>
     content d = content d' \<or> collides hash (content d) (content d')"
  by (auto simp: bound_def collides_def)

lemma drift_detected_or_collision:
  "bound d \<Longrightarrow> stored d' = stored d \<Longrightarrow> content d' \<noteq> content d \<Longrightarrow>
     \<not> bound d' \<or> collides hash (content d) (content d')"
  by (auto simp: bound_def collides_def)

end

section \<open>Serialised leaves\<close>

lemma jlist_JString_inject [simp]: "jlist JString xs = jlist JString ys \<longleftrightarrow> xs = ys"
  by (auto simp: jlist_def inj_def dest: map_injective)

lemma jnat_inject [simp]: "jnat m = jnat n \<longleftrightarrow> m = n"
  by (simp add: jnat_def)

section \<open>A concrete environment\<close>

text \<open>
  An environment to evaluate the operations in: the encoder prints compact JSON text, the
  digest returns its input, and timestamps print as decimal numbers.
\<close>

fun render_json :: "json \<Rightarrow> string" where
  "render_json JNull = ''null''"
| "render_json (JBool b) = (if b then ''true'' else ''false'')"
| "render_json (JNumber (PosInt n)) = show_nat n"
| "render_json (JNumber (NegInt i)) = ''-'' @ show_nat (nat (- i))"
| "render_json (JNumber (Float r)) =
     (case quotient_of r of (a, b) \<Rightarrow>
        (if a < 0 then ''-'' else []) @ show_nat (nat \<bar>a\<bar>) @ ''/'' @ show_nat (nat b))"
| "render_json (JString s) = [CHR 0x22] @ s @ [CHR 0x22]"
| "render_json (JArray vs) = ''['' @ join '','' (map render_json vs) @ '']''"
| "render_json (JObject m) =
     ''{'' @ join '','' (map (\<lambda>(k, v). [CHR 0x22] @ k @ [CHR 0x22] @ '':'' @ render_json v) m) @ ''}''"

definition demo_env :: env where
  "demo_env = \<lparr>to_vec = render_json, sha256_hex = (\<lambda>s. s),
     rfc3339 = (\<lambda>t. (if t < 0 then ''-'' else []) @ show_nat (nat \<bar>t\<bar>)),
     capability_value = (\<lambda>c. jobj [(''id'', JString (cap_id c)), (''method'', JString (http_method c)),
       (''path'', JString (path c))])\<rparr>"

end
