(* ===== verification/Core_Contracts.thy ===== *)
theory Core_Contracts
  imports Content_Hash
begin

text \<open>
  The contracts several documents of \<^verbatim>\<open>cfctl-core\<close> share: plan states, transaction stages,
  money and approvals, policy decisions, and the error type of the crate.
\<close>

section \<open>States and stages\<close>

datatype plan_status = Draft | Approved | Running | Consumed | Verified | Failed
  | RectificationRequired | Rectified | Expired | Cancelled

datatype transaction_stage = PlanPrepared | ApprovalPersisted | ConsumptionPersisted
  | BoundaryAttemptPersisted | BoundaryResponsePersisted | SecretSinkPersisted
  | VerificationAttemptPersisted | VerificationResponsePersisted
  | CompensationAttemptPersisted | CompensationResponsePersisted | Closed

fun plan_status_str :: "plan_status \<Rightarrow> string" where
  "plan_status_str Draft = ''draft''"
| "plan_status_str Approved = ''approved''"
| "plan_status_str Running = ''running''"
| "plan_status_str Consumed = ''consumed''"
| "plan_status_str Verified = ''verified''"
| "plan_status_str Failed = ''failed''"
| "plan_status_str RectificationRequired = ''rectification_required''"
| "plan_status_str Rectified = ''rectified''"
| "plan_status_str Expired = ''expired''"
| "plan_status_str Cancelled = ''cancelled''"

fun stage_str :: "transaction_stage \<Rightarrow> string" where
  "stage_str PlanPrepared = ''plan_prepared''"
| "stage_str ApprovalPersisted = ''approval_persisted''"
| "stage_str ConsumptionPersisted = ''consumption_persisted''"
| "stage_str BoundaryAttemptPersisted = ''boundary_attempt_persisted''"
| "stage_str BoundaryResponsePersisted = ''boundary_response_persisted''"
| "stage_str SecretSinkPersisted = ''secret_sink_persisted''"
| "stage_str VerificationAttemptPersisted = ''verification_attempt_persisted''"
| "stage_str VerificationResponsePersisted = ''verification_response_persisted''"
| "stage_str CompensationAttemptPersisted = ''compensation_attempt_persisted''"
| "stage_str CompensationResponsePersisted = ''compensation_response_persisted''"
| "stage_str Closed = ''closed''"

fun stage_rank :: "transaction_stage \<Rightarrow> nat" where
  "stage_rank PlanPrepared = 0"
| "stage_rank ApprovalPersisted = 1"
| "stage_rank ConsumptionPersisted = 2"
| "stage_rank BoundaryAttemptPersisted = 3"
| "stage_rank BoundaryResponsePersisted = 4"
| "stage_rank SecretSinkPersisted = 5"
| "stage_rank VerificationAttemptPersisted = 6"
| "stage_rank VerificationResponsePersisted = 7"
| "stage_rank CompensationAttemptPersisted = 8"
| "stage_rank CompensationResponsePersisted = 9"
| "stage_rank Closed = 10"

text \<open>The \<^verbatim>\<open>Debug\<close> rendering of a stage in error messages.\<close>

fun stage_debug :: "transaction_stage \<Rightarrow> string" where
  "stage_debug PlanPrepared = ''PlanPrepared''"
| "stage_debug ApprovalPersisted = ''ApprovalPersisted''"
| "stage_debug ConsumptionPersisted = ''ConsumptionPersisted''"
| "stage_debug BoundaryAttemptPersisted = ''BoundaryAttemptPersisted''"
| "stage_debug BoundaryResponsePersisted = ''BoundaryResponsePersisted''"
| "stage_debug SecretSinkPersisted = ''SecretSinkPersisted''"
| "stage_debug VerificationAttemptPersisted = ''VerificationAttemptPersisted''"
| "stage_debug VerificationResponsePersisted = ''VerificationResponsePersisted''"
| "stage_debug CompensationAttemptPersisted = ''CompensationAttemptPersisted''"
| "stage_debug CompensationResponsePersisted = ''CompensationResponsePersisted''"
| "stage_debug Closed = ''Closed''"

section \<open>Errors\<close>

datatype core_error =
    InvalidPlanState string plan_status string
  | PlanExpired string datetime
  | ExplicitApprovalRequired
  | CostCeilingRequired string
  | InvalidCostCeiling string string
  | CostCeilingTooLow string string f64
  | PlanDrifted string
  | StandingAuthorityDenied string string
  | InvalidAdmissionPolicyState string string string
  | AdmissionPolicyBroadened string
  | InvalidPlanV2 string
  | InvalidDeploymentPlanSet string
  | InvalidEventEnvelope string
  | InvalidOperationalProofBinding string
  | InvalidStandingAuthorityState string string string
  | StandingAuthorityExpired string datetime
  | InvalidTransactionJournal string string
  | GraphqlSchemaFingerprintDrift string

section \<open>Money and approvals\<close>

record money =
  currency :: string
  amount :: f64

record approval =
  approved_at :: datetime
  approved_content_hash :: string
  max_cost :: "money option"

definition valid_currency_code :: "string \<Rightarrow> bool" where
  "valid_currency_code c \<longleftrightarrow> length c = 3 \<and> list_all is_ascii_alphabetic c"

definition valid_non_negative_amount :: "f64 \<Rightarrow> bool" where
  "valid_non_negative_amount a \<longleftrightarrow> f64_is_finite a \<and> f64_ge_zero a"

definition validate_money_fields :: "string \<Rightarrow> f64 \<Rightarrow> string + unit" where
  "validate_money_fields c a =
     (if \<not> valid_currency_code c then Inl ''currency must be a three-letter ASCII code''
      else if \<not> f64_is_finite a then Inl ''amount must be finite''
      else if f64_less a (Finite 0) then Inl ''amount must not be negative''
      else Inr ())"

definition validate_money :: "money \<Rightarrow> string + unit" where
  "validate_money m = validate_money_fields (currency m) (amount m)"

definition money_json :: "money \<Rightarrow> json" where
  "money_json m = jobj [(''currency'', JString (currency m)), (''amount'', jf64 (amount m))]"

section \<open>Policy decisions\<close>

datatype disposition = AutoExecute | ApprovalRequired | Blocked

fun restriction_rank :: "disposition \<Rightarrow> nat" where
  "restriction_rank AutoExecute = 0"
| "restriction_rank ApprovalRequired = 1"
| "restriction_rank Blocked = 2"

record policy_decision =
  pd_schema_version :: nat
  pd_disposition :: disposition
  pd_reasons :: "string list"
  pd_requires_cost_ceiling :: bool

section \<open>Facts\<close>

lemma stage_str_inject [simp]: "stage_str a = stage_str b \<longleftrightarrow> a = b"
  by (cases a; cases b) simp_all

lemma stage_rank_inject [simp]: "stage_rank a = stage_rank b \<longleftrightarrow> a = b"
  by (cases a; cases b) simp_all

lemma stage_rank_le_10 [simp]: "stage_rank a \<le> 10"
  by (cases a) simp_all

lemma plan_status_str_inject [simp]: "plan_status_str a = plan_status_str b \<longleftrightarrow> a = b"
  by (cases a; cases b) simp_all

lemma restriction_rank_inject [simp]: "restriction_rank a = restriction_rank b \<longleftrightarrow> a = b"
  by (cases a; cases b) simp_all

lemma restriction_rank_0 [simp]: "restriction_rank a = 0 \<longleftrightarrow> a = AutoExecute"
  by (cases a) simp_all

text \<open>Stages are ordered by their rank and dispositions by how much they restrict.\<close>

instantiation transaction_stage :: linorder
begin

definition less_eq_transaction_stage :: "transaction_stage \<Rightarrow> transaction_stage \<Rightarrow> bool" where
  "less_eq_transaction_stage a b \<longleftrightarrow> stage_rank a \<le> stage_rank b"

definition less_transaction_stage :: "transaction_stage \<Rightarrow> transaction_stage \<Rightarrow> bool" where
  "less_transaction_stage a b \<longleftrightarrow> stage_rank a < stage_rank b"

instance
  by standard (auto simp: less_eq_transaction_stage_def less_transaction_stage_def)

end

instantiation disposition :: linorder
begin

definition less_eq_disposition :: "disposition \<Rightarrow> disposition \<Rightarrow> bool" where
  "less_eq_disposition a b \<longleftrightarrow> restriction_rank a \<le> restriction_rank b"

definition less_disposition :: "disposition \<Rightarrow> disposition \<Rightarrow> bool" where
  "less_disposition a b \<longleftrightarrow> restriction_rank a < restriction_rank b"

instance
  by standard (auto simp: less_eq_disposition_def less_disposition_def)

end

lemma validate_money_fields_ok_iff [simp]:
  "validate_money_fields c a = Inr () \<longleftrightarrow> valid_currency_code c \<and> valid_non_negative_amount a"
  by (auto simp: validate_money_fields_def valid_non_negative_amount_def)

lemma validate_money_ok_iff [simp]:
  "validate_money m = Inr () \<longleftrightarrow> valid_currency_code (currency m) \<and> valid_non_negative_amount (amount m)"
  by (simp add: validate_money_def)

lemma valid_currency_uppercase [simp]:
  "valid_currency_code (to_ascii_uppercase c) = valid_currency_code c"
  by (simp add: valid_currency_code_def to_ascii_uppercase_def list_all_iff)

lemma validate_money_uppercase:
  "validate_money (m\<lparr>currency := to_ascii_uppercase (currency m)\<rparr>) = validate_money m"
  by (simp add: validate_money_def validate_money_fields_def)

lemma money_json_inject:
  assumes "valid_non_negative_amount (amount m)" "valid_non_negative_amount (amount n)"
  shows "money_json m = money_json n \<longleftrightarrow> m = n"
proof
  assume eq: "money_json m = money_json n"
  have "currency m = currency n"
    using jobj_eqD [OF eq [unfolded money_json_def], of "''currency''"] by simp
  moreover have "jf64 (amount m) = jf64 (amount n)"
    using jobj_eqD [OF eq [unfolded money_json_def], of "''amount''"] by simp
  then have "amount m = amount n"
    using assms by (cases "amount m"; cases "amount n") (auto simp: valid_non_negative_amount_def)
  ultimately show "m = n" by simp
qed simp

end
