(* ===== verification/Capability_Contracts.thy ===== *)
theory Capability_Contracts
  imports Request_Schema Core_Contracts
begin

text \<open>
  The safety contracts of a capability in \<^verbatim>\<open>cfctl-core\<close>: which declared verification and
  rollback strategies the runtime implements for a capability's exact shape, and the gaps
  that keep a mutating capability from executing. The strategies whose arms read the
  application-specific contract slots are the two tables of a parameter; the general ones
  are modelled arm by arm.
\<close>

record application_tables =
  verification_table :: "string \<Rightarrow> capability \<Rightarrow> bool"
  rollback_table :: "string \<Rightarrow> capability \<Rightarrow> bool"

section \<open>Paths, selectors and pointers\<close>

definition trim_end_slashes :: "string \<Rightarrow> string" where
  "trim_end_slashes s = rev (dropWhile (\<lambda>c. c = CHR ''/'') (rev s))"

text \<open>\<^verbatim>\<open>rsplit('/').next()\<close>, which always yields a segment.\<close>

definition last_segment :: "string \<Rightarrow> string" where
  "last_segment s = rev (takeWhile (\<lambda>c. c \<noteq> CHR ''/'') (rev s))"

definition in_braces :: "string \<Rightarrow> string" where
  "in_braces s = ''{'' @ s @ ''}''"

definition child_path :: "string \<Rightarrow> string \<Rightarrow> string" where
  "child_path p sel = trim_end_slashes p @ ''/'' @ in_braces sel"

definition secret_field_names :: "string list" where
  "secret_field_names = [''value'', ''token'', ''secret'', ''key'', ''access_token'', ''client_secret'',
     ''text'', ''key_base64'', ''key_jwk'', ''accessKeyId'', ''secretAccessKey'', ''sessionToken'']"

definition pointer_names_secret_field :: "string \<Rightarrow> bool" where
  "pointer_names_secret_field pointer \<longleftrightarrow> last_segment pointer \<in> set secret_field_names"

definition selector_can_be_response_id :: "string \<Rightarrow> bool" where
  "selector_can_be_response_id s \<longleftrightarrow>
     s = ''id'' \<or> s = ''identifier'' \<or> ends_with s ''_id'' \<or> ends_with s ''_identifier''"

definition response_identity_pointer_supported :: "string \<Rightarrow> string \<Rightarrow> bool" where
  "response_identity_pointer_supported s pointer \<longleftrightarrow>
     \<not> pointer_names_secret_field pointer \<and>
     ((selector_can_be_response_id s \<and> pointer = ''/id'')
      \<or> (ends_with s ''_name'' \<and> pointer = ''/name'')
      \<or> (s = ''database_id'' \<and> pointer = ''/uuid'')
      \<or> (s = ''site_id'' \<and> pointer = ''/site_tag'')
      \<or> (s = ''subdomain_id'' \<and> pointer = ''/tag'')
      \<or> (s = ''oauth_client_id'' \<and> pointer = ''/client_id'')
      \<or> (list_all (\<lambda>c. c \<noteq> CHR ''/'' \<and> c \<noteq> CHR ''~'') s \<and> strip_prefix pointer ''/'' = Some s))"

definition path_targets_exact_resource :: "string \<Rightarrow> bool" where
  "path_targets_exact_resource p \<longleftrightarrow>
     (let segment = last_segment p
      in starts_with segment ''{'' \<and> ends_with segment ''}'' \<and> length segment > 2)"

definition path_targets_singleton_subresource :: "string \<Rightarrow> bool" where
  "path_targets_singleton_subresource p \<longleftrightarrow>
     (let segment = last_segment p
      in \<not> (segment = [] \<or> starts_with segment ''{'' \<and> ends_with segment ''}'')) \<and> str_contains p ''{''"

definition path_only :: "capability \<Rightarrow> bool" where
  "path_only c \<longleftrightarrow> list_all (\<lambda>s. sel_location s = ''path'') (selectors c)"

definition has_required_selectors :: "capability \<Rightarrow> string \<Rightarrow> string list \<Rightarrow> bool" where
  "has_required_selectors c location names \<longleftrightarrow>
     list_all (\<lambda>name. list_ex (\<lambda>s. sel_name s = name \<and> sel_location s = location \<and> sel_required s)
       (selectors c)) names"

definition has_required_strings :: "capability \<Rightarrow> string \<Rightarrow> string list \<Rightarrow> bool" where
  "has_required_strings c location names \<longleftrightarrow>
     list_all (\<lambda>name. list_ex (\<lambda>s. sel_name s = name \<and> sel_location s = location \<and> sel_required s
       \<and> sel_value_type s = ''string'') (selectors c)) names"

definition plain_fields :: "string list \<Rightarrow> bool" where
  "plain_fields names \<longleftrightarrow>
     list_all (\<lambda>f. f \<noteq> [] \<and> CHR ''/'' \<notin> set f) names \<and> successively (<) names"

section \<open>Resource contracts\<close>

definition required_empty_request_body_contract :: "capability \<Rightarrow> bool" where
  "required_empty_request_body_contract c \<longleftrightarrow>
     (case request_schema c of None \<Rightarrow> False
      | Some schema \<Rightarrow>
          json_get schema ''type'' = Some (JString ''object'')
          \<and> json_get schema ''properties'' = Some (JObject [])
          \<and> bool_entry schema ''additionalProperties'' = Some False
          \<and> (case array_members schema ''required'' of None \<Rightarrow> True | Some ms \<Rightarrow> ms = [])
          \<and> bool_entry schema ''x-cfctl-body-required'' = Some True
          \<and> list_all (\<lambda>composition. json_get schema composition = None) [''allOf'', ''oneOf'', ''anyOf'']
          \<and> (case json_get schema ''minProperties'' of
               Some (JNumber (PosInt n)) \<Rightarrow> n = 0 | _ \<Rightarrow> True)
          \<and> json_get schema ''enum'' = None)"

definition verified_response_fields_match_request_schema :: "capability \<Rightarrow> string list \<Rightarrow> bool" where
  "verified_response_fields_match_request_schema c names \<longleftrightarrow>
     request_schema c = None \<or> verifiable_request_object_fields c = Some names"

fun readback_selectors :: "string \<Rightarrow> nat \<Rightarrow> selector list \<Rightarrow> bool" where
  "readback_selectors prd routing_headers [] = True"
| "readback_selectors prd routing_headers (s # ss) =
     (if sel_location s = ''path'' then readback_selectors prd routing_headers ss
      else if sel_location s = ''header'' \<and> sel_name s = ''cf-r2-jurisdiction'' \<and> \<not> sel_required s
              \<and> sel_value_type s = ''string'' \<and> (prd = ''R2 Bucket'' \<or> prd = ''R2 Object'') then
        (if routing_headers + 1 > 1 then False else readback_selectors prd (routing_headers + 1) ss)
      else False)"

definition same_path_readback_selectors_supported :: "capability \<Rightarrow> bool" where
  "same_path_readback_selectors_supported c \<longleftrightarrow> readback_selectors (product c) 0 (selectors c)"

definition same_path_read_contract_supported :: "bool \<Rightarrow> capability \<Rightarrow> bool" where
  "same_path_read_contract_supported require_fields c \<longleftrightarrow>
     (case same_path_read c of None \<Rightarrow> False
      | Some target \<Rightarrow>
          if sp_path target \<noteq> path c \<or> sp_read_capability_id target = [] then False
          else if \<not> require_fields then sp_verified_response_fields target = []
          else case verifiable_request_object_fields c of None \<Rightarrow> False
            | Some request_fields \<Rightarrow>
                request_fields \<noteq> [] \<and> sp_verified_response_fields target = request_fields)"

definition created_resource_contract_structurally_supported ::
    "(created_resource \<Rightarrow> bool) \<Rightarrow> capability \<Rightarrow> bool" where
  "created_resource_contract_structurally_supported fields_valid c \<longleftrightarrow>
     (case created_resource c of None \<Rightarrow> False
      | Some target \<Rightarrow>
          cr_identity_selector target \<noteq> []
          \<and> cr_detail_path target = child_path (path c) (cr_identity_selector target)
          \<and> response_identity_pointer_supported (cr_identity_selector target)
              (cr_response_result_identity_pointer target)
          \<and> cr_read_capability_id target \<noteq> [] \<and> cr_delete_capability_id target \<noteq> []
          \<and> same_path_readback_selectors_supported c
          \<and> cr_verified_response_fields target \<noteq> [] \<and> fields_valid target
          \<and> plain_fields (cr_verified_response_fields target))"

definition created_resource_contract_supported :: "capability \<Rightarrow> bool" where
  "created_resource_contract_supported c \<longleftrightarrow>
     created_resource_contract_structurally_supported
       (\<lambda>target. verified_response_fields_match_request_schema c (cr_verified_response_fields target)) c"

definition created_resource_contract_supported_with_curated_fields :: "string list \<Rightarrow> capability \<Rightarrow> bool" where
  "created_resource_contract_supported_with_curated_fields curated c \<longleftrightarrow>
     created_resource_contract_structurally_supported
       (\<lambda>target. cr_verified_response_fields target = curated) c"

definition created_resource_creation_method_supported :: "capability \<Rightarrow> bool" where
  "created_resource_creation_method_supported c \<longleftrightarrow>
     http_method c = ''POST''
     \<or> (cap_id c = ''workers.domains.update'' \<and> http_method c = ''PUT''
        \<and> path c = ''/accounts/{account_id}/workers/domains'')"

definition created_collection_resource_contract_supported :: "capability \<Rightarrow> bool" where
  "created_collection_resource_contract_supported c \<longleftrightarrow>
     (case created_collection_resource c of None \<Rightarrow> False
      | Some target \<Rightarrow>
          cc_identity_selector target \<noteq> [] \<and> path c = cc_collection_path target
          \<and> cc_response_result_identity_pointer target = cc_response_item_identity_pointer target
          \<and> response_identity_pointer_supported (cc_identity_selector target)
              (cc_response_result_identity_pointer target)
          \<and> cc_read_capability_id target \<noteq> [] \<and> cc_delete_capability_id target \<noteq> []
          \<and> cc_verified_response_fields target \<noteq> []
          \<and> verified_response_fields_match_request_schema c (cc_verified_response_fields target)
          \<and> plain_fields (cc_verified_response_fields target))"

definition worker_tail_created_collection_contract_supported :: "capability \<Rightarrow> bool" where
  "worker_tail_created_collection_contract_supported c \<longleftrightarrow>
     cap_id c = ''worker-tail-logs-start-tail'' \<and> http_method c = ''POST''
     \<and> path c = ''/accounts/{account_id}/workers/scripts/{script_name}/tails''
     \<and> product c = ''Worker Tail Logs'' \<and> account_scope c = ''account'' \<and> request_schema c = None
     \<and> risk c = Risk_SecretSensitive \<and> effect c = Effect_ReversibleWrite
     \<and> permissions c = [''Workers Tail Read'', ''Workers Scripts Write''] \<and> path_only c
     \<and> has_required_selectors c ''path'' [''account_id'', ''script_name'']
     \<and> (case created_collection_resource c of None \<Rightarrow> False
        | Some target \<Rightarrow>
            cc_collection_path target = ''/accounts/{account_id}/workers/scripts/{script_name}/tails''
            \<and> cc_identity_selector target = ''id''
            \<and> cc_response_result_identity_pointer target = ''/id''
            \<and> cc_response_item_identity_pointer target = ''/id''
            \<and> cc_read_capability_id target = ''worker-tail-logs-list-tails''
            \<and> cc_delete_capability_id target = ''worker-tail-logs-delete-tail''
            \<and> cc_verified_response_fields target = [] \<and> \<not> cc_requires_page_number_completion target)"

definition async_list_mutation_contract_supported :: "bool \<Rightarrow> capability \<Rightarrow> bool" where
  "async_list_mutation_contract_supported create c \<longleftrightarrow>
     (let collection = ''/accounts/{account_id}/rules/lists/{list_id}/items'' in
      cap_id c = (if create then ''security-response-add-expiring-list-member''
                  else ''security-response-remove-expired-list-member'')
      \<and> http_method c = (if create then ''POST'' else ''DELETE'') \<and> path c = collection
      \<and> product c = ''Lists'' \<and> account_scope c = ''account'' \<and> risk c = Risk_IdentityOrOwnership
      \<and> effect c = (if create then Effect_ReversibleWrite else Effect_Destructive)
      \<and> permissions c = [''Account Filter Lists Edit'', ''Account Filter Lists Read''] \<and> path_only c
      \<and> has_required_selectors c ''path'' [''account_id'', ''list_id'']
      \<and> (case async_collection_mutation c of None \<Rightarrow> False
         | Some k \<Rightarrow>
             am_operation_status_path k
               = ''/accounts/{account_id}/rules/lists/bulk_operations/{operation_id}''
             \<and> am_operation_status_capability_id k = ''lists-get-bulk-operation-status''
             \<and> am_operation_id_selector k = ''operation_id''
             \<and> am_apply_operation_id_pointer k = ''/operation_id''
             \<and> am_status_operation_id_pointer k = ''/id'' \<and> am_status_state_pointer k = ''/status''
             \<and> am_pending_states k = [''pending'', ''running''] \<and> am_completed_state k = ''completed''
             \<and> am_failed_state k = ''failed'' \<and> am_max_poll_attempts k = 30
             \<and> am_poll_interval_ms k = 1000 \<and> am_collection_path k = collection
             \<and> am_collection_capability_id k = ''lists-get-list-items''
             \<and> am_collection_metadata_path k = ''/accounts/{account_id}/rules/lists/{list_id}''
             \<and> am_collection_metadata_capability_id k = ''lists-get-a-list''
             \<and> am_collection_item_identity_pointer k = ''/id'' \<and> am_requires_cursor_completion k
             \<and> (if create then am_correlation_field k = Some ''comment''
                   \<and> am_remove_capability_id k = Some ''security-response-remove-expired-list-member''
                else am_correlation_field k = None \<and> am_remove_capability_id k = None)))"

text \<open>
  The binary search for the correlation field is membership here, since the fields have to be
  strictly increasing for the contract to hold.
\<close>

definition created_nested_resource_contract_supported :: "capability \<Rightarrow> bool" where
  "created_nested_resource_contract_supported c \<longleftrightarrow>
     (case created_nested_resource c of None \<Rightarrow> False
      | Some target \<Rightarrow>
          cn_parent_path target \<noteq> [] \<and> cn_items_pointer target \<noteq> []
          \<and> starts_with (cn_items_pointer target) ''/'' \<and> cn_identity_selector target \<noteq> []
          \<and> response_identity_pointer_supported (cn_identity_selector target)
              (cn_response_item_identity_pointer target)
          \<and> cn_correlation_field target \<noteq> [] \<and> CHR ''/'' \<notin> set (cn_correlation_field target)
          \<and> cn_read_capability_id target \<noteq> [] \<and> cn_delete_capability_id target \<noteq> []
          \<and> cn_delete_path target = child_path (path c) (cn_identity_selector target)
          \<and> cn_verified_response_fields target \<noteq> []
          \<and> cn_correlation_field target \<in> set (cn_verified_response_fields target)
          \<and> verified_response_fields_match_request_schema c (cn_verified_response_fields target)
          \<and> plain_fields (cn_verified_response_fields target))"

definition deleted_resource_contract_supported :: "capability \<Rightarrow> bool" where
  "deleted_resource_contract_supported c \<longleftrightarrow>
     (case deleted_resource c of None \<Rightarrow> False
      | Some target \<Rightarrow>
          dr_identity_selector target \<noteq> []
          \<and> path c = child_path (dr_collection_path target) (dr_identity_selector target)
          \<and> response_identity_pointer_supported (dr_identity_selector target)
              (dr_response_item_identity_pointer target)
          \<and> dr_read_capability_id target \<noteq> [])"

definition deleted_nested_resource_contract_supported :: "capability \<Rightarrow> bool" where
  "deleted_nested_resource_contract_supported c \<longleftrightarrow>
     (case deleted_nested_resource c of None \<Rightarrow> False
      | Some target \<Rightarrow>
          dn_parent_path target \<noteq> [] \<and> dn_collection_path target \<noteq> [] \<and> dn_items_pointer target \<noteq> []
          \<and> starts_with (dn_items_pointer target) ''/''
          \<and> path c = child_path (dn_collection_path target) (dn_identity_selector target)
          \<and> response_identity_pointer_supported (dn_identity_selector target)
              (dn_response_item_identity_pointer target)
          \<and> dn_read_capability_id target \<noteq> [])"

definition updated_resource_contract_supported :: "capability \<Rightarrow> bool" where
  "updated_resource_contract_supported c \<longleftrightarrow>
     (case updated_resource c of None \<Rightarrow> False
      | Some target \<Rightarrow>
          (case verifiable_request_object_fields c of None \<Rightarrow> False
           | Some request_fields \<Rightarrow>
               ur_identity_selector target \<noteq> []
               \<and> path c = child_path (ur_collection_path target) (ur_identity_selector target)
               \<and> response_identity_pointer_supported (ur_identity_selector target)
                   (ur_response_item_identity_pointer target)
               \<and> ur_read_capability_id target \<noteq> [] \<and> request_fields \<noteq> []
               \<and> ur_verified_response_fields target = request_fields
               \<and> plain_fields (ur_verified_response_fields target)))"

section \<open>Event batches, probes and secrets\<close>

text \<open>
  The price test compares with the double nearest to 0.40 up to the machine epsilon. Near that
  value the subtraction of doubles is exact, and elsewhere its rounding cannot bring the
  difference below the epsilon.
\<close>

definition event_batch_price_matches :: "f64 \<Rightarrow> bool" where
  "event_batch_price_matches a =
     (case a of Finite r \<Rightarrow> \<bar>r - 3602879701896397 / 9007199254740992\<bar> < 1 / 4503599627370496 | _ \<Rightarrow> False)"

definition event_batch_contract_supported :: "capability \<Rightarrow> bool" where
  "event_batch_contract_supported c \<longleftrightarrow>
     (case event_batch c of None \<Rightarrow> False
      | Some k \<Rightarrow>
          cap_id c = ''events-consume-queue-batch'' \<and> adapter_status c = Native \<and> http_method c = ''POST''
          \<and> path c = ''/cfctl/events/queue-batches/{account_id}/{queue_id}/{subscription_id}''
          \<and> eb_pull_capability_id k = ''queues-pull-messages''
          \<and> eb_pull_path k = ''/accounts/{account_id}/queues/{queue_id}/messages/pull''
          \<and> eb_acknowledge_capability_id k = ''queues-ack-messages''
          \<and> eb_acknowledge_path k = ''/accounts/{account_id}/queues/{queue_id}/messages/ack''
          \<and> eb_required_permissions k = [''Queues Write'', ''Workers Scripts Write'']
          \<and> eb_max_batch_size k = 100 \<and> eb_max_visibility_timeout_ms k = 43200000
          \<and> eb_max_message_bytes k = 131072 \<and> eb_billing_chunk_bytes k = 65536
          \<and> event_batch_price_matches (eb_price_per_million_operations k)
          \<and> kr_url (eb_pricing_reference k)
              = ''https://developers.cloudflare.com/queues/platform/pricing/''
          \<and> kr_url (eb_schema_reference k)
              = ''https://developers.cloudflare.com/queues/configuration/pull-consumers/'')"

definition entitlement_probe_contract_supported :: "capability \<Rightarrow> bool" where
  "entitlement_probe_contract_supported c \<longleftrightarrow>
     (case probe (entitlement c) of None \<Rightarrow> False
      | Some q \<Rightarrow>
          (account_scope c = ''account'' \<or> account_scope c = ''zone'')
          \<and> requires_live_resolution (entitlement c) \<and> probe_capability_id q \<noteq> []
          \<and> starts_with (probe_path q) ''/'' \<and> probe_selector_names q \<noteq> []
          \<and> successively (<) (probe_selector_names q)
          \<and> list_all (\<lambda>name. name \<noteq> []
               \<and> list_ex (\<lambda>s. sel_name s = name \<and> sel_location s = ''path'' \<and> sel_required s) (selectors c)
               \<and> str_contains (probe_path q) (in_braces name)) (probe_selector_names q))"

definition oauth_client_secret_verification_contract_supported :: "capability \<Rightarrow> bool" where
  "oauth_client_secret_verification_contract_supported c \<longleftrightarrow>
     ((cap_id c = ''oauth-clients-rotate-secret'' \<and> http_method c = ''POST''
       \<and> v_strategy (verification c) = ''oauth_client_reports_rotated_secret_after_value_roll'')
      \<or> (cap_id c = ''oauth-clients-delete-rotated-secret'' \<and> http_method c = ''DELETE''
         \<and> v_strategy (verification c)
             = ''oauth_client_reports_no_rotated_secret_after_old_secret_delete''))
     \<and> product c = ''OAuth Clients'' \<and> account_scope c = ''account''
     \<and> permissions c = [''OAuth Client Write'', ''OAuth Client Read'']
     \<and> path c = ''/accounts/{account_id}/oauth_clients/{oauth_client_id}/rotate_secret''
     \<and> request_schema c = None \<and> length (selectors c) = 2
     \<and> has_required_strings c ''path'' [''account_id'', ''oauth_client_id'']
     \<and> (case same_path_read c of None \<Rightarrow> False
        | Some read \<Rightarrow>
            sp_path read = ''/accounts/{account_id}/oauth_clients/{oauth_client_id}''
            \<and> sp_read_capability_id read = ''oauth-clients-get''
            \<and> sp_verified_response_fields read = [''client_id'', ''has_rotated_secret''])"

definition length_schema :: "nat \<Rightarrow> json" where
  "length_schema n = jobj [(''maxLength'', jnat n), (''type'', JString ''string'')]"

definition string_schema :: json where
  "string_schema = jobj [(''type'', JString ''string'')]"

definition selector_with_schema :: "capability \<Rightarrow> string \<Rightarrow> json \<Rightarrow> bool" where
  "selector_with_schema c name schema \<longleftrightarrow>
     list_ex (\<lambda>s. sel_name s = name \<and> sel_location s = ''path'' \<and> sel_required s
       \<and> sel_value_type s = ''string''
       \<and> (case sel_contract s of None \<Rightarrow> False
          | Some k \<Rightarrow> sc_schema k = schema \<and> sc_query k = None)) (selectors c)"

definition worker_secret_schema :: json where
  "worker_secret_schema = jobj
     [(''type'', JString ''object''),
      (''oneOf'', JArray
        [jobj [(''type'', JString ''object''),
           (''required'', jlist JString [''name'', ''type'', ''text'']),
           (''properties'', jobj
              [(''name'', string_schema),
               (''type'', jobj [(''type'', JString ''string''), (''enum'', jlist JString [''secret_text''])]),
               (''text'', jobj [(''type'', JString ''string''), (''writeOnly'', JBool True)])])],
         jobj [(''type'', JString ''object''),
           (''required'', jlist JString [''name'', ''type'', ''format'', ''algorithm'', ''usages'']),
           (''properties'', jobj
              [(''name'', string_schema),
               (''type'', jobj [(''type'', JString ''string''), (''enum'', jlist JString [''secret_key''])]),
               (''format'', jobj [(''type'', JString ''string''),
                  (''enum'', jlist JString [''raw'', ''pkcs8'', ''spki'', ''jwk''])]),
               (''algorithm'', jobj [(''type'', JString ''object'')]),
               (''usages'', jobj [(''type'', JString ''array''),
                  (''items'', jobj [(''type'', JString ''string''),
                     (''enum'', jlist JString [''encrypt'', ''decrypt'', ''sign'', ''verify'', ''deriveKey'',
                        ''deriveBits'', ''wrapKey'', ''unwrapKey''])])]),
               (''key_base64'', jobj [(''type'', JString ''string''), (''writeOnly'', JBool True)]),
               (''key_jwk'', jobj [(''type'', JString ''object''), (''writeOnly'', JBool True)])])]]),
      (''x-cfctl-body-required'', JBool True)]"

definition worker_script_secret_put_verification_contract_supported :: "capability \<Rightarrow> bool" where
  "worker_script_secret_put_verification_contract_supported c \<longleftrightarrow>
     cap_id c = ''worker-put-script-secret'' \<and> http_method c = ''PUT'' \<and> product c = ''Worker Script''
     \<and> account_scope c = ''account'' \<and> permissions c = [''Workers Scripts Write'']
     \<and> path c = ''/accounts/{account_id}/workers/scripts/{script_name}/secrets''
     \<and> length (selectors c) = 2
     \<and> selector_with_schema c ''account_id'' (length_schema 32)
     \<and> selector_with_schema c ''script_name'' string_schema
     \<and> request_schema c = Some worker_secret_schema
     \<and> (case same_path_read c of None \<Rightarrow> False
        | Some read \<Rightarrow>
            sp_path read = ''/accounts/{account_id}/workers/scripts/{script_name}/secrets/{secret_name}''
            \<and> sp_read_capability_id read = ''worker-get-script-secret''
            \<and> sp_verified_response_fields read = [''name'', ''type''])"

definition secret_lifecycle_verification_contract_supported :: "capability \<Rightarrow> bool" where
  "secret_lifecycle_verification_contract_supported c \<longleftrightarrow>
     (let s = v_strategy (verification c) in
      if s = ''oauth_client_reports_rotated_secret_after_value_roll''
         \<or> s = ''oauth_client_reports_no_rotated_secret_after_old_secret_delete''
      then oauth_client_secret_verification_contract_supported c
           \<and> same_path_readback_selectors_supported c
      else if s = ''worker_script_secret_reports_planned_name_and_type_after_put''
      then worker_script_secret_put_verification_contract_supported c
      else False)"

definition access_service_token_refresh_verification_contract_supported :: "capability \<Rightarrow> bool" where
  "access_service_token_refresh_verification_contract_supported c \<longleftrightarrow>
     cap_id c = ''access-service-tokens-refresh-a-service-token'' \<and> http_method c = ''POST''
     \<and> product c = ''Access service tokens'' \<and> account_scope c = ''account''
     \<and> permissions c = [''Access: Service Tokens Write'']
     \<and> path c = ''/accounts/{account_id}/access/service_tokens/{service_token_id}/refresh''
     \<and> request_schema c = None \<and> length (selectors c) = 2
     \<and> selector_with_schema c ''account_id'' (length_schema 32)
     \<and> selector_with_schema c ''service_token_id'' (length_schema 36)
     \<and> (case same_path_read c of None \<Rightarrow> False
        | Some read \<Rightarrow>
            sp_path read = ''/accounts/{account_id}/access/service_tokens/{service_token_id}''
            \<and> sp_read_capability_id read = ''access-service-tokens-get-a-service-token''
            \<and> sp_verified_response_fields read = [''expires_at'', ''id''])"

section \<open>Verification strategies\<close>

text \<open>Readback contracts that are one literal shape.\<close>

definition same_path_read_is :: "capability \<Rightarrow> string \<Rightarrow> string \<Rightarrow> bool" where
  "same_path_read_is c p read_id \<longleftrightarrow>
     (case same_path_read c of None \<Rightarrow> False
      | Some target \<Rightarrow> sp_path target = p \<and> sp_read_capability_id target = read_id
          \<and> sp_verified_response_fields target = [])"

definition pages_deployment_target :: "created_resource \<Rightarrow> bool" where
  "pages_deployment_target target \<longleftrightarrow>
     cr_detail_path target
       = ''/accounts/{account_id}/pages/projects/{project_name}/deployments/{deployment_id}''
     \<and> cr_identity_selector target = ''deployment_id''
     \<and> cr_response_result_identity_pointer target = ''/id''
     \<and> cr_read_capability_id target = ''pages-deployment-get-deployment-info''
     \<and> cr_delete_capability_id target = ''pages-deployment-delete-deployment''
     \<and> cr_verified_response_fields target = [''environment'', ''project_name'']"

definition worker_rollback_schema_supported :: "capability \<Rightarrow> bool" where
  "worker_rollback_schema_supported c \<longleftrightarrow>
     (case request_schema c of None \<Rightarrow> False
      | Some schema \<Rightarrow>
          json_get schema ''type'' = Some (JString ''object'')
          \<and> bool_entry schema ''additionalProperties'' = Some False
          \<and> request_object_fields c
              = Some [''expected_current_deployment_id'', ''message'', ''target_version_id''])"

text \<open>The arms for API tokens, secrets and DNS records.\<close>

definition identity_strategies :: "(string \<times> (capability \<Rightarrow> bool)) list" where
  "identity_strategies =
     [(''event_batch_registry_commit_and_queue_acknowledgement_receipt'', event_batch_contract_supported),
      (''api_token_details_match_created_id_and_active_status'', \<lambda>c. http_method c = ''POST''
         \<and> cap_id c \<in> {''account-api-tokens-create-token'', ''user-api-tokens-create-token''}),
      (''api_token_details_report_active_after_value_roll'', \<lambda>c. http_method c = ''PUT''
         \<and> cap_id c \<in> {''account-api-tokens-roll-token'', ''user-api-tokens-roll-token''}),
      (''api_token_details_returns_not_found_after_revoke'', \<lambda>c. http_method c = ''DELETE''
         \<and> cap_id c \<in> {''account-api-tokens-delete-token'', ''user-api-tokens-delete-token''}),
      (''oauth_client_reports_rotated_secret_after_value_roll'',
         secret_lifecycle_verification_contract_supported),
      (''oauth_client_reports_no_rotated_secret_after_old_secret_delete'',
         secret_lifecycle_verification_contract_supported),
      (''worker_script_secret_reports_planned_name_and_type_after_put'',
         secret_lifecycle_verification_contract_supported),
      (''access_service_token_reports_refreshed_expiration'',
         access_service_token_refresh_verification_contract_supported),
      (''dns_record_details_match_created_id_and_planned_fields'', \<lambda>c. http_method c = ''POST''
         \<and> cap_id c = ''dns-records-for-a-zone-create-dns-record''),
      (''dns_record_details_match_planned_id_and_fields'', \<lambda>c. http_method c \<in> {''PATCH'', ''PUT''}
         \<and> cap_id c \<in> {''dns-records-for-a-zone-patch-dns-record'', ''dns-records-for-a-zone-update-dns-record''}),
      (''dns_record_details_returns_not_found_after_delete'', \<lambda>c. http_method c = ''DELETE''
         \<and> cap_id c = ''dns-records-for-a-zone-delete-dns-record'')]"

text \<open>The arms that read a path or its parent back.\<close>

definition resource_strategies :: "(string \<times> (capability \<Rightarrow> bool)) list" where
  "resource_strategies =
     [(''same_resource_returns_not_found_after_delete'', \<lambda>c. http_method c = ''DELETE''
         \<and> (path_targets_exact_resource (path c) \<or> path_targets_singleton_subresource (path c))
         \<and> (request_schema c = None \<or> required_empty_request_body_contract c)
         \<and> same_path_readback_selectors_supported c \<and> same_path_read_contract_supported False c),
      (''parent_collection_omits_deleted_resource_id'', \<lambda>c. http_method c = ''DELETE''
         \<and> request_schema c = None \<and> path_only c \<and> deleted_resource_contract_supported c),
      (''parent_object_omits_deleted_nested_resource_id'', \<lambda>c. http_method c = ''DELETE''
         \<and> request_schema c = None \<and> path_only c \<and> deleted_nested_resource_contract_supported c),
      (''parent_collection_item_contains_planned_fields_after_update'',
         \<lambda>c. http_method c \<in> {''PATCH'', ''PUT''} \<and> path_only c \<and> updated_resource_contract_supported c),
      (''same_resource_contains_planned_fields_after_update'', \<lambda>c. http_method c \<in> {''PATCH'', ''PUT''}
         \<and> path_targets_exact_resource (path c) \<and> same_path_readback_selectors_supported c
         \<and> same_path_read_contract_supported True c),
      (''same_path_result_contains_planned_fields_after_update'', \<lambda>c. http_method c \<in> {''PATCH'', ''PUT''}
         \<and> same_path_readback_selectors_supported c \<and> same_path_read_contract_supported True c),
      (''same_path_result_contains_planned_fields_after_mutation'', \<lambda>c. http_method c = ''POST''
         \<and> same_path_readback_selectors_supported c \<and> same_path_read_contract_supported True c)]"

text \<open>The arms for Worker scripts, deployments and schedules.\<close>

definition worker_strategies :: "(string \<times> (capability \<Rightarrow> bool)) list" where
  "worker_strategies =
     [(''worker_script_settings_returns_not_found_after_delete'', \<lambda>c.
         cap_id c = ''worker-script-delete-worker'' \<and> http_method c = ''DELETE''
         \<and> path c = ''/accounts/{account_id}/workers/scripts/{script_name}'' \<and> request_schema c = None
         \<and> path_only c \<and> has_required_selectors c ''path'' [''account_id'', ''script_name'']
         \<and> same_path_read_is c ''/accounts/{account_id}/workers/scripts/{script_name}/settings''
             ''worker-script-get-settings''),
      (''worker_deployment_latest_matches_planned_versions'', \<lambda>c.
         cap_id c = ''worker-deployments-create-deployment'' \<and> http_method c = ''POST''
         \<and> path c = ''/accounts/{account_id}/workers/scripts/{script_name}/deployments''
         \<and> product c = ''Worker Deployments'' \<and> permissions c = [''Workers Scripts Write'']
         \<and> path_only c \<and> has_required_selectors c ''path'' [''account_id'', ''script_name'']
         \<and> same_path_read_is c (path c) ''worker-deployments-list-deployments''),
      (''worker_cron_schedules_match_planned_crons'', \<lambda>c.
         cap_id c = ''worker-cron-trigger-update-cron-triggers'' \<and> http_method c = ''PUT''
         \<and> path c = ''/accounts/{account_id}/workers/scripts/{script_name}/schedules''
         \<and> product c = ''Worker Cron Trigger'' \<and> permissions c = [''Workers Scripts Write'']
         \<and> path_only c \<and> has_required_selectors c ''path'' [''account_id'', ''script_name'']
         \<and> same_path_read_is c (path c) ''worker-cron-trigger-get-cron-triggers'')]"

text \<open>The arms for created and asynchronously changed resources.\<close>

definition creation_strategies :: "(string \<times> (capability \<Rightarrow> bool)) list" where
  "creation_strategies =
     [(''created_resource_contains_planned_fields_by_returned_id'',
         \<lambda>c. created_resource_creation_method_supported c \<and> created_resource_contract_supported c),
      (''pages_production_deployment_succeeds_by_returned_id'', \<lambda>c.
         cap_id c = ''pages-deployment-create-deployment'' \<and> http_method c = ''POST''
         \<and> path c = ''/accounts/{account_id}/pages/projects/{project_name}/deployments''
         \<and> product c = ''Pages Deployment'' \<and> account_scope c = ''account'' \<and> permissions c = [''Pages Write'']
         \<and> request_schema c = None \<and> risk c = Risk_CrossConfig \<and> effect c = Effect_ReversibleWrite
         \<and> adapter_status c \<in> {Native, DynamicApi}
         \<and> created_resource_contract_structurally_supported pages_deployment_target c),
      (''created_access_application_contains_planned_fields_by_returned_id'',
         \<lambda>c. cap_id c = ''access-applications-add-an-application'' \<and> http_method c = ''POST''
           \<and> path c = ''/accounts/{account_id}/access/apps''
           \<and> created_resource_contract_supported_with_curated_fields [''name'', ''type''] c),
      (''parent_collection_contains_created_resource_id_and_planned_fields'',
         \<lambda>c. http_method c = ''POST'' \<and> created_collection_resource_contract_supported c),
      (''worker_tail_collection_contains_created_lease_id'',
         worker_tail_created_collection_contract_supported),
      (''async_list_operation_completes_and_correlated_member_exists'',
         async_list_mutation_contract_supported True),
      (''async_list_operation_completes_and_members_absent'',
         async_list_mutation_contract_supported False),
      (''parent_object_contains_created_nested_resource_by_correlation'',
         \<lambda>c. http_method c = ''POST'' \<and> created_nested_resource_contract_supported c)]"

text \<open>The arms for analytics rules, cache purges and command-line deliveries.\<close>

definition delivery_strategies :: "(string \<times> (capability \<Rightarrow> bool)) list" where
  "delivery_strategies =
     [(''web_analytics_rule_list_contains_created_id_and_planned_fields'', \<lambda>c.
         cap_id c = ''web-analytics-create-rule'' \<and> http_method c = ''POST''
         \<and> path c = ''/accounts/{account_id}/rum/v2/{ruleset_id}/rule''
         \<and> permissions c = [''Account Settings Read'', ''Account Settings Write'']
         \<and> created_resource_contract_supported c
         \<and> (case created_resource c of None \<Rightarrow> False
            | Some target \<Rightarrow>
                cr_detail_path target = ''/accounts/{account_id}/rum/v2/{ruleset_id}/rule/{rule_id}''
                \<and> cr_identity_selector target = ''rule_id''
                \<and> cr_response_result_identity_pointer target = ''/id''
                \<and> cr_read_capability_id target = ''web-analytics-list-rules''
                \<and> cr_delete_capability_id target = ''web-analytics-delete-rule'')),
      (''web_analytics_rule_list_omits_deleted_id'', \<lambda>c.
         cap_id c = ''web-analytics-delete-rule'' \<and> http_method c = ''DELETE''
         \<and> path c = ''/accounts/{account_id}/rum/v2/{ruleset_id}/rule/{rule_id}'' \<and> request_schema c = None
         \<and> permissions c = [''Account Settings Read'', ''Account Settings Write''] \<and> path_only c
         \<and> same_path_read_is c ''/accounts/{account_id}/rum/v2/{ruleset_id}/rules'' ''web-analytics-list-rules''),
      (''cache_purge_response_reports_target_zone_id'', \<lambda>c. http_method c = ''POST''
         \<and> cap_id c \<in> {''zone-purge'', ''zone-purge-tagged'', ''zone-environment-purge'',
                         ''zone-environment-purge-tagged''}),
      (''wrangler_deployment_status_reports_promoted_version'', \<lambda>c.
         cap_id c = ''wrangler.deploy'' \<and> http_method c = ''CLI'' \<and> path c = ''wrangler deploy''
         \<and> adapter_status c = DelegatedCli \<and> has_required_strings c ''query'' [''config'']),
      (''wrangler_pages_new_deployment_succeeds_by_returned_id'', \<lambda>c.
         cap_id c = ''wrangler.pages-deploy'' \<and> http_method c = ''CLI'' \<and> path c = ''wrangler pages deploy''
         \<and> adapter_status c = DelegatedCli
         \<and> has_required_strings c ''query'' [''argument'', ''project_name'', ''branch'', ''commit_hash'']
         \<and> (case created_resource c of None \<Rightarrow> False | Some target \<Rightarrow> pages_deployment_target target)),
      (''wrangler_worker_version_reports_expected_message'', \<lambda>c.
         cap_id c = ''wrangler.versions-upload'' \<and> http_method c = ''CLI''
         \<and> path c = ''wrangler versions upload'' \<and> adapter_status c = DelegatedCli
         \<and> has_required_strings c ''query'' [''config'', ''message'']),
      (''wrangler_worker_versions_deployment_reports_expected_traffic'', \<lambda>c.
         cap_id c = ''wrangler.versions-deploy'' \<and> http_method c = ''CLI''
         \<and> path c = ''wrangler versions deploy --yes'' \<and> adapter_status c = DelegatedCli
         \<and> has_required_strings c ''query'' [''argument'', ''config'', ''message''])]"

text \<open>The arms for Worker rollback and deployment plans, tunnels and email routing.\<close>

definition release_strategies :: "(string \<times> (capability \<Rightarrow> bool)) list" where
  "release_strategies =
     [(''worker_latest_deployment_is_exact_rollback_target'', \<lambda>c.
         cap_id c = ''worker-version-rollback'' \<and> http_method c = ''POST''
         \<and> path c = ''/accounts/{account_id}/workers/scripts/{script_name}/deployments''
         \<and> adapter_status c = Native \<and> risk c = Risk_Recovery \<and> effect c = Effect_ReversibleWrite
         \<and> permissions c = [''Workers Scripts Write'', ''Workers Scripts Read'']
         \<and> length (selectors c) = 2 \<and> has_required_selectors c ''path'' [''account_id'', ''script_name'']
         \<and> worker_rollback_schema_supported c),
      (''worker_deployment_plan_binds_artifact_config_prior_active_and_post_deploy_verifier'', \<lambda>c.
         cap_id c = ''worker-deployment-plan'' \<and> http_method c = ''POST''
         \<and> path c = ''/cfctl/plans/accounts/{account_id}/workers/deployment''
         \<and> adapter_status c = Native \<and> \<not> execution_supported c \<and> risk c = Risk_CrossConfig
         \<and> effect c = Effect_ReversibleWrite
         \<and> permissions c = [''Workers Scripts Write'', ''Workers Scripts Read'']
         \<and> length (selectors c) = 4
         \<and> list_all (\<lambda>name. list_ex (\<lambda>s. sel_name s = name \<and> sel_required s) (selectors c))
             [''account_id'', ''config'', ''message'', ''name'']),
      (''trycloudflare_https_url_reaches_reviewed_origin'', \<lambda>c.
         cap_id c = ''cloudflared.tunnel'' \<and> http_method c = ''CLI'' \<and> path c = ''cloudflared tunnel''
         \<and> adapter_status c = DelegatedCli \<and> risk c = Risk_ExternalCommunication
         \<and> effect c = Effect_ExternalCommunication \<and> has_required_strings c ''query'' [''url'']
         \<and> list_ex (\<lambda>s. sel_name s = ''health_path'' \<and> sel_location s = ''query'' \<and> \<not> sel_required s
              \<and> sel_value_type s = ''string'') (selectors c)),
      (''email_routing_settings_response_reports_enabled_state'', \<lambda>c. http_method c = ''POST''
         \<and> cap_id c \<in> {''email-routing-settings-enable-email-routing'',
                         ''email-routing-settings-disable-email-routing''})]"

text \<open>The names of the arms that read application-specific contract slots.\<close>

definition application_strategies :: "string list" where
  "application_strategies =
     [''workspace_d1_transition_envelope_v3'', ''custom_challenge_expression_and_unchanged_parent'',
      ''response_header_rule_and_unchanged_parent_readback'',
      ''pages_direct_project_matches_returned_identity_without_git'',
      ''pages_production_variables_added_with_preserved_configuration'',
      ''workspace_d1_migration_ledger_and_schema_assertions'',
      ''workspace_d1_policy_projection_count_and_digest'',
      ''workspace_d1_reply_containment_pre_read_v3'', ''workspace_d1_reply_containment_apply_v3'',
      ''workspace_d1_reply_containment_readback_v3'', ''workspace_d1_reply_admission_exact_readback'',
      ''workspace_d1_reply_admission_body_free_read'', ''workspace_reply_subdomain_ingress_body_free_read'',
      ''workspace_reply_subdomain_ingress_activation_body_free_readback'',
      ''workspace_d1_maildesk_body_free_evidence'', ''workspace_d1_maildesk_inbound_acceptance_body_free_read'',
      ''r2_private_file_upload_etag_and_conditional_read'', ''worker_version_artifact_digest'',
      ''r2_private_object_digest'', ''r2_authenticated_member_conditional_restore'',
      ''email_sending_dns_status_reports_ready'', ''email_routing_subdomain_dns_records_match'',
      ''mln_import_requires_governed_post_import_proof'', ''d1_import_provider_completion_matches_reviewed_source'',
      ''d1_reviewed_schema_batch_reports_every_statement_success'',
      ''osint_research_migration_schema_marker_is_present'', ''d1_current_bookmark_equals_restore_result_bookmark'']"

definition worker_module_upload_id :: string where
  "worker_module_upload_id = ''worker-script-upload-worker-module''"

definition verification_contract_supported :: "application_tables \<Rightarrow> capability \<Rightarrow> bool" where
  "verification_contract_supported app c \<longleftrightarrow>
     (if cap_id c = worker_module_upload_id then False
      else if \<not> mutating c then True
      else if \<not> required (verification c) then
        risk c = Risk_SecretSensitive
        \<and> v_strategy (verification c) = ''sink_write_and_source_response_status''
      else
        (let s = v_strategy (verification c) in
         if s \<in> set application_strategies then verification_table app s c
         else case map_of (identity_strategies @ resource_strategies @ worker_strategies @ creation_strategies
             @ delivery_strategies @ release_strategies) s of
           None \<Rightarrow> False | Some supports \<Rightarrow> supports c))"

definition verification_contract_declared :: "capability \<Rightarrow> bool" where
  "verification_contract_declared c \<longleftrightarrow>
     \<not> required (verification c)
     \<or> v_strategy (verification c) \<notin>
         {[], ''required'', ''post_change_read_or_operation_specific_verifier''}"

section \<open>Rollback strategies\<close>

definition delete_created_resource_rollback_supported :: "capability \<Rightarrow> bool" where
  "delete_created_resource_rollback_supported c \<longleftrightarrow>
     created_resource_creation_method_supported c \<and> cap_id c \<noteq> ''d1-create-database''
     \<and> (created_resource_contract_supported c \<or> created_collection_resource_contract_supported c
        \<or> created_nested_resource_contract_supported c
        \<or> worker_tail_created_collection_contract_supported c
        \<or> (cap_id c = ''access-applications-add-an-application''
           \<and> created_resource_contract_supported_with_curated_fields [''name'', ''type''] c))"

definition global_warp_override_rollback_supported :: "application_tables \<Rightarrow> capability \<Rightarrow> bool" where
  "global_warp_override_rollback_supported app c \<longleftrightarrow>
     cap_id c = ''devices-resilience-set-global-warp-override'' \<and> http_method c = ''POST''
     \<and> path c = ''/accounts/{account_id}/devices/resilience/disconnect'' \<and> account_scope c = ''account''
     \<and> v_strategy (verification c) = ''same_path_result_contains_planned_fields_after_mutation''
     \<and> verification_contract_supported app c
     \<and> (case same_path_read c of None \<Rightarrow> False
        | Some read \<Rightarrow> sp_read_capability_id read = ''devices-resilience-retrieve-global-warp-override''
            \<and> sp_verified_response_fields read = [''disconnect''])"

definition same_path_prior_snapshot_rollback_supported :: "application_tables \<Rightarrow> capability \<Rightarrow> bool" where
  "same_path_prior_snapshot_rollback_supported app c \<longleftrightarrow>
     http_method c \<in> {''PATCH'', ''PUT''}
     \<and> v_strategy (verification c) \<in> {''same_resource_contains_planned_fields_after_update'',
         ''same_path_result_contains_planned_fields_after_update''}
     \<and> verification_contract_supported app c \<and> same_path_readback_selectors_supported c
     \<and> same_path_read_contract_supported True c"

definition application_rollbacks :: "string list" where
  "application_rollbacks =
     [''restore_custom_challenge_expression_from_verified_state'', ''restore_response_header_rule_prior_definition'',
      ''delete_created_empty_d1_database_by_returned_uuid_if_unchanged'',
      ''delete_created_empty_kv_namespace_by_returned_id_if_unchanged'', ''restore_d1_read_replication_prior_mode'',
      ''restore_cloudflare_tunnel_configuration_prior_snapshot'',
      ''restore_warp_connector_configuration_prior_snapshot'', ''restore_web_analytics_rum_prior_value'',
      ''restore_dns_record_prior_snapshot_with_put'',
      ''new_approved_exact_bookmark_restore_from_previous_bookmark'',
      ''no_automatic_rollback_use_separately_approved_bookmark_restore'']"

definition rollback_contract_supported :: "application_tables \<Rightarrow> capability \<Rightarrow> bool" where
  "rollback_contract_supported app c \<longleftrightarrow>
     (if \<not> mutating c \<or> \<not> supported (rollback c) then True
      else case rb_strategy (rollback c) of None \<Rightarrow> False
        | Some s \<Rightarrow>
            if s = ''revoke_created_api_token_by_returned_id_if_downstream_installation_fails'' then
              http_method c = ''POST''
              \<and> cap_id c \<in> {''account-api-tokens-create-token'', ''user-api-tokens-create-token''}
            else if s = ''delete_created_dns_record_by_returned_id'' then
              http_method c = ''POST'' \<and> cap_id c = ''dns-records-for-a-zone-create-dns-record''
            else if s = ''delete_created_resource_by_returned_id'' then
              delete_created_resource_rollback_supported c
            else if s = ''remove_async_created_list_member_by_correlated_id'' then
              async_list_mutation_contract_supported True c
              \<and> v_strategy (verification c) = ''async_list_operation_completes_and_correlated_member_exists''
            else if s = ''restore_global_warp_override_prior_disconnect_state'' then
              global_warp_override_rollback_supported app c
            else if s = ''restore_same_path_prior_snapshot'' then
              same_path_prior_snapshot_rollback_supported app c
            else s \<in> set application_rollbacks \<and> rollback_table app s c)"

definition rollback_contract_declared :: "capability \<Rightarrow> bool" where
  "rollback_contract_declared c \<longleftrightarrow>
     (if supported (rollback c) then
        (case rb_strategy (rollback c) of None \<Rightarrow> False | Some s \<Rightarrow> \<not> trim_is_empty s)
      else
        (case warning (rollback c) of None \<Rightarrow> False
         | Some w \<Rightarrow> \<not> trim_is_empty w \<and> w \<noteq> ''rollback semantics have not been declared''))"

section \<open>Security actions\<close>

definition closed_object_schema :: "json \<Rightarrow> bool" where
  "closed_object_schema schema \<longleftrightarrow>
     json_get schema ''type'' = Some (JString ''object'')
     \<and> bool_entry schema ''additionalProperties'' = Some False
     \<and> (case array_members schema ''required'' of None \<Rightarrow> False | Some ms \<Rightarrow> ms \<noteq> [])"

definition ttl_bounds :: "security_action \<Rightarrow> bool" where
  "ttl_bounds k \<longleftrightarrow> sa_default_ttl_seconds k \<ge> 300
     \<and> sa_max_ttl_seconds k \<ge> sa_default_ttl_seconds k \<and> sa_max_ttl_seconds k \<le> 604800"

definition no_ttl :: "security_action \<Rightarrow> bool" where
  "no_ttl k \<longleftrightarrow> sa_default_ttl_seconds k = 0 \<and> sa_max_ttl_seconds k = 0
     \<and> sa_default_action k = None \<and> sa_allowed_actions k = []"

definition security_action_contract_supported :: "application_tables \<Rightarrow> capability \<Rightarrow> bool" where
  "security_action_contract_supported app c \<longleftrightarrow>
     (case security_action c of None \<Rightarrow> True
      | Some k \<Rightarrow>
          if \<not> (mutating c \<and> closed_object_schema (sa_input_schema k)
                \<and> sa_current_state_capability_id k \<noteq> []) then False
          else case sa_kind k of
            CreateExpiring \<Rightarrow>
              http_method c = ''POST'' \<and> ttl_bounds k
              \<and> (case sa_default_action k of None \<Rightarrow> False
                 | Some action \<Rightarrow> action = ''managed_challenge'' \<and> action \<in> set (sa_allowed_actions k))
              \<and> sa_allowed_target_types k \<noteq> []
              \<and> verification_contract_supported app c \<and> supported (rollback c)
              \<and> rollback_contract_supported app c
          | RemoveExpired \<Rightarrow>
              http_method c = ''DELETE'' \<and> no_ttl k \<and> verification_contract_supported app c
              \<and> \<not> supported (rollback c)
          | AddExpiringListMember \<Rightarrow>
              http_method c = ''POST'' \<and> ttl_bounds k
              \<and> sa_default_action k = Some ''managed_challenge''
              \<and> ''managed_challenge'' \<in> set (sa_allowed_actions k)
              \<and> sa_allowed_target_types k \<noteq> [] \<and> async_list_mutation_contract_supported True c
              \<and> verification_contract_supported app c \<and> supported (rollback c)
              \<and> rollback_contract_supported app c
          | RemoveExpiredListMember \<Rightarrow>
              http_method c = ''DELETE'' \<and> no_ttl k \<and> async_list_mutation_contract_supported False c
              \<and> verification_contract_supported app c \<and> \<not> supported (rollback c))"

section \<open>Gaps\<close>

definition cost_gaps :: "capability \<Rightarrow> string list" where
  "cost_gaps c =
     (if \<not> known (cost c) then
        (if references (cost c) = [] then [''operation-specific incremental cost is unknown'']
         else [''operation-specific cost is not bounded; review official pricing reference(s): ''
                 @ join '', '' (map kr_url (references (cost c)))])
      else if incremental (cost c) then
        (if \<not> (case cost_currency (cost c) of None \<Rightarrow> False | Some x \<Rightarrow> valid_currency_code x)
         then [''known incremental cost has no valid three-letter currency''] else [])
        @ (if \<not> (case maximum (cost c) of None \<Rightarrow> False | Some a \<Rightarrow> valid_non_negative_amount a)
           then [''known incremental cost has no finite non-negative maximum''] else [])
      else [])"

definition entitlement_gaps :: "capability \<Rightarrow> string list" where
  "entitlement_gaps c =
     (if available (entitlement c) \<noteq> Some True then
        (case blocker (entitlement c) of
           Some b \<Rightarrow> [b]
         | None \<Rightarrow>
             if probe (entitlement c) = None \<and> list_ex (\<lambda>(_, a). \<not> a) (plans (entitlement c))
             then [''account entitlement has not been resolved for this plan-gated operation'']
             else [])
      else [])"

definition dynamic_api_contract :: "capability \<Rightarrow> bool" where
  "dynamic_api_contract c \<longleftrightarrow>
     adapter_status c = DynamicApi
     \<or> (adapter_status c = Blocked_Adapter
        \<and> (case blocked_reason c of None \<Rightarrow> False
           | Some r \<Rightarrow> starts_with r ''operation contract incomplete:''))"

definition mutation_contract_gaps :: "application_tables \<Rightarrow> capability \<Rightarrow> string list" where
  "mutation_contract_gaps app c =
     (if \<not> mutating c then []
      else
        (if cap_id c = worker_module_upload_id then
           [''Worker module upload requires a governed multipart source, transport, and module/settings readback contract; generic JSON execution is unsupported'']
         else [])
        @ (if risk c = Risk_Unknown then [''operation-specific risk classification is missing''] else [])
        @ (if effect c = Effect_Unknown then [''operation-specific effect classification is missing''] else [])
        @ cost_gaps c
        @ (if \<not> verification_contract_declared c then [''operation-specific verification is not declared'']
           else if \<not> verification_contract_supported app c then
             [''declared verification strategy is unsupported: '' @ v_strategy (verification c)]
           else [])
        @ (if \<not> rollback_contract_declared c then
             [''operation-specific rollback or irreversibility behavior is not declared'']
           else if \<not> rollback_contract_supported app c then
             [''declared rollback strategy is unsupported: ''
                @ (case rb_strategy (rollback c) of None \<Rightarrow> ''<missing>'' | Some s \<Rightarrow> s)]
           else [])
        @ (if security_action c \<noteq> None \<and> \<not> security_action_contract_supported app c then
             [''telemetry-derived security action safety contract is malformed''] else [])
        @ (if event_batch c \<noteq> None \<and> \<not> event_batch_contract_supported c then
             [''event batch safety contract is malformed or drifted''] else [])
        @ (if probe (entitlement c) \<noteq> None \<and> \<not> entitlement_probe_contract_supported c then
             [''declared live entitlement probe is malformed''] else [])
        @ (if dynamic_api_contract c \<and> permissions c = [] then
             [''required Cloudflare permission lane is not declared''] else [])
        @ entitlement_gaps c)"

section \<open>Facts\<close>

lemma response_pointer_not_secret:
  "response_identity_pointer_supported s pointer \<Longrightarrow> last_segment pointer \<notin> set secret_field_names"
  by (simp add: response_identity_pointer_supported_def pointer_names_secret_field_def)

lemma cost_gaps_Nil_iff:
  "cost_gaps c = [] \<longleftrightarrow> known (cost c) \<and>
     (incremental (cost c) \<longrightarrow>
       (\<exists>x a. cost_currency (cost c) = Some x \<and> maximum (cost c) = Some a \<and> validate_money_fields x a = Inr ()))"
  by (auto simp: cost_gaps_def split: option.splits if_splits)

lemma gaps_Nil_iff:
  "mutating c \<Longrightarrow> mutation_contract_gaps app c = [] \<longleftrightarrow>
     cap_id c \<noteq> worker_module_upload_id \<and> risk c \<noteq> Risk_Unknown \<and> effect c \<noteq> Effect_Unknown \<and>
     cost_gaps c = [] \<and> verification_contract_declared c \<and> verification_contract_supported app c \<and>
     rollback_contract_declared c \<and> rollback_contract_supported app c \<and>
     (security_action c \<noteq> None \<longrightarrow> security_action_contract_supported app c) \<and>
     (event_batch c \<noteq> None \<longrightarrow> event_batch_contract_supported c) \<and>
     (probe (entitlement c) \<noteq> None \<longrightarrow> entitlement_probe_contract_supported c) \<and>
     (dynamic_api_contract c \<longrightarrow> permissions c \<noteq> []) \<and> entitlement_gaps c = []"
  by (simp add: mutation_contract_gaps_def)

lemma rollback_supported_cases:
  "rollback_contract_supported app c \<Longrightarrow> mutating c \<Longrightarrow> supported (rollback c) \<Longrightarrow>
   rb_strategy (rollback c) = Some s \<Longrightarrow> s = ''delete_created_resource_by_returned_id'' \<Longrightarrow>
   delete_created_resource_rollback_supported c"
  "rollback_contract_supported app c \<Longrightarrow> mutating c \<Longrightarrow> supported (rollback c) \<Longrightarrow>
   rb_strategy (rollback c) = Some s \<Longrightarrow> s = ''restore_same_path_prior_snapshot'' \<Longrightarrow>
   same_path_prior_snapshot_rollback_supported app c"
  by (simp_all add: rollback_contract_supported_def)

text \<open>What a slot says of a created resource: how to name it and how to delete it.\<close>

definition compensable :: "capability \<Rightarrow> string \<Rightarrow> string \<Rightarrow> bool" where
  "compensable c pointer delete_id \<longleftrightarrow>
     (\<exists>t. created_resource c = Some t \<and> pointer = cr_response_result_identity_pointer t
        \<and> delete_id = cr_delete_capability_id t)
     \<or> (\<exists>t. created_collection_resource c = Some t \<and> pointer = cc_response_result_identity_pointer t
        \<and> delete_id = cc_delete_capability_id t)
     \<or> (\<exists>t. created_nested_resource c = Some t \<and> pointer = cn_response_item_identity_pointer t
        \<and> delete_id = cn_delete_capability_id t)"

lemma structural_compensable:
  "created_resource_contract_structurally_supported f c \<Longrightarrow>
   \<exists>p d. compensable c p d \<and> d \<noteq> [] \<and> \<not> pointer_names_secret_field p"
  by (auto simp: created_resource_contract_structurally_supported_def compensable_def
      response_identity_pointer_supported_def split: option.splits)

lemma collection_compensable:
  "created_collection_resource_contract_supported c \<Longrightarrow>
   \<exists>p d. compensable c p d \<and> d \<noteq> [] \<and> \<not> pointer_names_secret_field p"
  by (auto simp: created_collection_resource_contract_supported_def compensable_def
      response_identity_pointer_supported_def split: option.splits)

lemma nested_compensable:
  "created_nested_resource_contract_supported c \<Longrightarrow>
   \<exists>p d. compensable c p d \<and> d \<noteq> [] \<and> \<not> pointer_names_secret_field p"
  by (auto simp: created_nested_resource_contract_supported_def compensable_def
      response_identity_pointer_supported_def split: option.splits)

lemma id_pointer_not_secret: "\<not> pointer_names_secret_field ''/id''"
  by (simp add: pointer_names_secret_field_def last_segment_def secret_field_names_def)

lemma tail_compensable:
  assumes "worker_tail_created_collection_contract_supported c"
  shows "\<exists>p d. compensable c p d \<and> d \<noteq> [] \<and> \<not> pointer_names_secret_field p"
proof -
  from assms obtain t where "created_collection_resource c = Some t"
    "cc_response_result_identity_pointer t = ''/id''" "cc_delete_capability_id t = ''worker-tail-logs-delete-tail''"
    by (auto simp: worker_tail_created_collection_contract_supported_def split: option.splits)
  then show ?thesis
    unfolding compensable_def using id_pointer_not_secret by fastforce
qed

lemma delete_rollback_compensable:
  "delete_created_resource_rollback_supported c \<Longrightarrow>
   \<exists>p d. compensable c p d \<and> d \<noteq> [] \<and> \<not> pointer_names_secret_field p"
  unfolding delete_created_resource_rollback_supported_def created_resource_contract_supported_def
    created_resource_contract_supported_with_curated_fields_def
  using structural_compensable collection_compensable nested_compensable tail_compensable by blast

lemma readback_location:
  "readback_selectors prd n ss \<Longrightarrow> s \<in> set ss \<Longrightarrow>
   sel_location s = ''path'' \<or> sel_location s = ''header'' \<and> sel_name s = ''cf-r2-jurisdiction''"
  by (induction prd n ss rule: readback_selectors.induct) (auto split: if_splits)

section \<open>A creation and an update\<close>

definition demo_tables :: application_tables where
  "demo_tables = \<lparr>verification_table = (\<lambda>_ _. False), rollback_table = (\<lambda>_ _. False)\<rparr>"

definition demo_create :: capability where
  "demo_create = (capability_new ''rules-create'' ''Create a rule'' ''POST'' ''/zones/{zone_id}/rules'')
     \<lparr>risk := Risk_ScopedWrite, effect := Effect_ReversibleWrite, cost := cost_default,
      permissions := [''Rules Write''],
      verification := \<lparr>required = True, v_strategy = ''created_resource_contains_planned_fields_by_returned_id''\<rparr>,
      rollback := \<lparr>supported = True, rb_strategy = Some ''delete_created_resource_by_returned_id'', warning = None\<rparr>,
      created_resource := Some \<lparr>cr_detail_path = ''/zones/{zone_id}/rules/{rule_id}'',
        cr_identity_selector = ''rule_id'', cr_response_result_identity_pointer = ''/id'',
        cr_read_capability_id = ''rules-get'', cr_delete_capability_id = ''rules-delete'',
        cr_verified_response_fields = [''mode'']\<rparr>,
      security_action := Some \<lparr>sa_kind = CreateExpiring,
        sa_input_schema = jobj [(''type'', JString ''object''), (''additionalProperties'', JBool False),
          (''required'', JArray [JString ''target''])],
        sa_default_action = Some ''managed_challenge'', sa_allowed_actions = [''managed_challenge''],
        sa_allowed_target_types = [''ip''], sa_default_ttl_seconds = 3600, sa_max_ttl_seconds = 86400,
        sa_current_state_capability_id = ''rules-list''\<rparr>\<rparr>"

definition demo_update :: capability where
  "demo_update = (capability_new ''rules-update'' ''Update a rule'' ''PATCH'' ''/zones/{zone_id}/rules/{rule_id}'')
     \<lparr>risk := Risk_ScopedWrite, effect := Effect_ReversibleWrite, cost := cost_default,
      permissions := [''Rules Write''], request_schema := Some demo_schema,
      verification := \<lparr>required = True, v_strategy = ''same_resource_contains_planned_fields_after_update''\<rparr>,
      rollback := \<lparr>supported = True, rb_strategy = Some ''restore_same_path_prior_snapshot'', warning = None\<rparr>,
      same_path_read := Some \<lparr>sp_path = ''/zones/{zone_id}/rules/{rule_id}'',
        sp_read_capability_id = ''rules-get'', sp_verified_response_fields = [''name'', ''ttl'']\<rparr>\<rparr>"

lemmas strategy_tables =
  verification_contract_supported_def application_strategies_def identity_strategies_def resource_strategies_def
  worker_strategies_def creation_strategies_def

lemma created_verification_supported_iff:
  "mutating c \<Longrightarrow> required (verification c) \<Longrightarrow> cap_id c \<noteq> worker_module_upload_id \<Longrightarrow>
   v_strategy (verification c) = ''created_resource_contains_planned_fields_by_returned_id'' \<Longrightarrow>
   verification_contract_supported app c \<longleftrightarrow>
     created_resource_creation_method_supported c \<and> created_resource_contract_supported c"
  by (simp add: strategy_tables)

lemma updated_verification_supported_iff:
  "mutating c \<Longrightarrow> required (verification c) \<Longrightarrow> cap_id c \<noteq> worker_module_upload_id \<Longrightarrow>
   v_strategy (verification c) = ''same_resource_contains_planned_fields_after_update'' \<Longrightarrow>
   verification_contract_supported app c \<longleftrightarrow>
     http_method c \<in> {''PATCH'', ''PUT''} \<and> path_targets_exact_resource (path c)
     \<and> same_path_readback_selectors_supported c \<and> same_path_read_contract_supported True c"
  by (simp add: strategy_tables)

lemma capability_new_simps:
  "cap_id (capability_new i t m p) = i" "path (capability_new i t m p) = p"
  "http_method (capability_new i t m p) = to_ascii_uppercase m"
  "mutating (capability_new i t m p) \<longleftrightarrow> to_ascii_uppercase m \<notin> {''GET'', ''HEAD'', ''OPTIONS''}"
  "selectors (capability_new i t m p) = []" "request_schema (capability_new i t m p) = None"
  "entitlement (capability_new i t m p) = entitlement_default"
  "adapter_status (capability_new i t m p) = DynamicApi" "blocked_reason (capability_new i t m p) = None"
  "event_batch (capability_new i t m p) = None" "security_action (capability_new i t m p) = None"
  "permissions (capability_new i t m p) = []"
  by (simp_all add: capability_new_def Let_def)

lemma uppercase_methods:
  "to_ascii_uppercase ''POST'' = ''POST''" "to_ascii_uppercase ''PATCH'' = ''PATCH''"
  by code_simp+

lemma demo_create_facts:
  "mutating demo_create" "http_method demo_create = ''POST''" "selectors demo_create = []"
  "cap_id demo_create = ''rules-create''" "path demo_create = ''/zones/{zone_id}/rules''"
  "request_schema demo_create = None" "entitlement demo_create = entitlement_default"
  "adapter_status demo_create = DynamicApi" "event_batch demo_create = None"
  by (simp_all add: demo_create_def capability_new_simps uppercase_methods)

lemma demo_create_contract: "created_resource_contract_supported demo_create"
  unfolding created_resource_contract_supported_def created_resource_contract_structurally_supported_def
    same_path_readback_selectors_supported_def demo_create_facts
  by (simp add: demo_create_def verified_response_fields_match_request_schema_def capability_new_simps
      child_path_def trim_end_slashes_def in_braces_def response_identity_pointer_supported_def
      id_pointer_not_secret selector_can_be_response_id_def ends_with_def plain_fields_def)

lemma demo_update_facts:
  "mutating demo_update" "http_method demo_update = ''PATCH''" "selectors demo_update = []"
  "cap_id demo_update = ''rules-update''" "path demo_update = ''/zones/{zone_id}/rules/{rule_id}''"
  "request_schema demo_update = Some demo_schema" "entitlement demo_update = entitlement_default"
  "adapter_status demo_update = DynamicApi" "event_batch demo_update = None" "security_action demo_update = None"
  by (simp_all add: demo_update_def capability_new_simps uppercase_methods)

lemma demo_update_fields: "verifiable_request_object_fields demo_update = Some [''name'', ''ttl'']"
  using demo_verifiable
  by (simp add: verifiable_request_object_fields_def demo_update_facts demo_schema_capability_def)

lemma demo_update_read: "same_path_read_contract_supported True demo_update"
  unfolding same_path_read_contract_supported_def demo_update_fields demo_update_facts
  by (simp add: demo_update_def)

lemma demo_create_verified: "verification_contract_supported app demo_create"
proof (rule iffD2 [OF created_verification_supported_iff])
  show "created_resource_creation_method_supported demo_create \<and> created_resource_contract_supported demo_create"
    by (simp add: demo_create_contract created_resource_creation_method_supported_def demo_create_facts)
qed (simp_all add: demo_create_facts worker_module_upload_id_def, simp_all add: demo_create_def)

lemma demo_update_verified: "verification_contract_supported app demo_update"
proof (rule iffD2 [OF updated_verification_supported_iff])
  show "http_method demo_update \<in> {''PATCH'', ''PUT''} \<and> path_targets_exact_resource (path demo_update)
     \<and> same_path_readback_selectors_supported demo_update \<and> same_path_read_contract_supported True demo_update"
    unfolding demo_update_facts same_path_readback_selectors_supported_def
    by (simp add: demo_update_read path_targets_exact_resource_def last_segment_def starts_with_def ends_with_def)
qed (simp_all add: demo_update_facts worker_module_upload_id_def, simp_all add: demo_update_def)

lemma demo_rollbacks:
  "supported (rollback demo_create)" "rb_strategy (rollback demo_create) = Some ''delete_created_resource_by_returned_id''"
  "supported (rollback demo_update)" "rb_strategy (rollback demo_update) = Some ''restore_same_path_prior_snapshot''"
  by (simp_all add: demo_create_def demo_update_def)

lemma demo_create_rollback: "rollback_contract_supported app demo_create"
  by (simp add: rollback_contract_supported_def demo_rollbacks delete_created_resource_rollback_supported_def
      demo_create_contract created_resource_creation_method_supported_def demo_create_facts)

lemma demo_update_rollback: "rollback_contract_supported app demo_update"
  using demo_update_verified [of app] demo_update_read
  by (simp add: rollback_contract_supported_def demo_rollbacks same_path_prior_snapshot_rollback_supported_def
      same_path_readback_selectors_supported_def demo_update_facts) (simp add: demo_update_def)

lemma demo_create_security: "security_action_contract_supported app demo_create"
  unfolding security_action_contract_supported_def
  using demo_create_verified [of app] demo_create_rollback [of app]
  by (simp add: demo_create_facts demo_rollbacks)
     (simp add: demo_create_def capability_new_simps uppercase_methods ttl_bounds_def closed_object_schema_def bool_entry_def array_members_def)

lemma strategies_not_blank:
  "\<not> trim_is_empty ''delete_created_resource_by_returned_id''" "\<not> trim_is_empty ''restore_same_path_prior_snapshot''"
  by (simp_all add: white1_def white2_def white3_def)

lemma demo_declared:
  "verification_contract_declared demo_create" "rollback_contract_declared demo_create"
  "verification_contract_declared demo_update" "rollback_contract_declared demo_update"
  by (simp_all add: verification_contract_declared_def rollback_contract_declared_def demo_create_def demo_update_def
      strategies_not_blank del: trim_is_empty.simps)

lemma demo_create_complete: "mutation_contract_gaps app demo_create = []"
  unfolding gaps_Nil_iff [OF demo_create_facts(1)]
  using demo_create_verified [of app] demo_create_rollback [of app] demo_create_security [of app] demo_declared
  by (simp add: demo_create_facts worker_module_upload_id_def entitlement_gaps_def entitlement_default_def)
     (simp add: demo_create_def cost_gaps_def cost_default_def)

lemma demo_update_complete: "mutation_contract_gaps app demo_update = []"
  unfolding gaps_Nil_iff [OF demo_update_facts(1)]
  using demo_update_verified [of app] demo_update_rollback [of app] demo_declared
  by (simp add: demo_update_facts worker_module_upload_id_def entitlement_gaps_def entitlement_default_def)
     (simp add: demo_update_def cost_gaps_def cost_default_def)

section \<open>Properties\<close>

text \<open>
  A capability imported with no curated metadata is denied by default: a mutating one has
  exactly the gaps for risk, effect, cost, verification, rollback and permission lane (and the
  multipart gap for the Worker module upload), a read has none.
\<close>

lemma imported_capability_gaps:
  "mutation_contract_gaps app (capability_new i t m p) =
     (if to_ascii_uppercase m \<in> {''GET'', ''HEAD'', ''OPTIONS''} then []
      else (if i = worker_module_upload_id then
              [''Worker module upload requires a governed multipart source, transport, and module/settings readback contract; generic JSON execution is unsupported'']
            else [])
        @ [''operation-specific risk classification is missing'',
           ''operation-specific effect classification is missing'',
           ''operation-specific incremental cost is unknown'',
           ''operation-specific verification is not declared'',
           ''operation-specific rollback or irreversibility behavior is not declared'',
           ''required Cloudflare permission lane is not declared''])"
  by (simp add: mutation_contract_gaps_def capability_new_def Let_def cost_gaps_def unknown_cost_def
      verification_contract_declared_def rollback_contract_declared_def entitlement_gaps_def
      entitlement_default_def dynamic_api_contract_def del: trim_is_empty.simps)

text \<open>
  A mutating capability without gaps that declares deletion as its rollback has a contract
  slot with a delete capability and an identity pointer, the pointer never ends in the name of a
  secret field, and the capability is a creation: \<^verbatim>\<open>POST\<close>, or the one \<^verbatim>\<open>PUT\<close> that
  attaches a Worker domain.
\<close>

lemma created_resource_compensable:
  assumes "mutating c" "mutation_contract_gaps app c = []" "supported (rollback c)"
    and "rb_strategy (rollback c) = Some ''delete_created_resource_by_returned_id''"
  shows "\<exists>pointer delete_id. compensable c pointer delete_id \<and> delete_id \<noteq> [] \<and>
      last_segment pointer \<notin> set secret_field_names \<and>
      (http_method c = ''POST'' \<or> cap_id c = ''workers.domains.update'' \<and> http_method c = ''PUT'')"
proof -
  from assms(1,2) have "rollback_contract_supported app c" by (simp add: gaps_Nil_iff)
  from rollback_supported_cases(1) [OF this assms(1,3,4) refl]
  have d: "delete_created_resource_rollback_supported c" .
  then have "created_resource_creation_method_supported c"
    by (simp add: delete_created_resource_rollback_supported_def)
  with delete_rollback_compensable [OF d] show ?thesis
    by (auto simp: created_resource_creation_method_supported_def pointer_names_secret_field_def)
qed

text \<open>
  A mutating capability without gaps that rolls back by restoring the prior snapshot reads
  its own path back with another capability; the fields it compares are all the request fields
  that are not omitted from verification, of which there is at least one; and its selectors are
  path parameters, apart from the R2 jurisdiction header.
\<close>

lemma snapshot_rollback_complete:
  assumes "mutating c" "mutation_contract_gaps app c = []" "supported (rollback c)"
    and "rb_strategy (rollback c) = Some ''restore_same_path_prior_snapshot''"
  shows "\<exists>read fs. same_path_read c = Some read \<and> sp_path read = path c \<and> sp_read_capability_id read \<noteq> [] \<and>
      request_object_fields c = Some fs \<and> sp_verified_response_fields read \<noteq> [] \<and>
      set (sp_verified_response_fields read)
        = {n \<in> set fs. \<not> request_object_field_is_verification_omitted c n} \<and>
      (\<forall>s\<in>set (selectors c). sel_location s = ''path''
         \<or> sel_location s = ''header'' \<and> sel_name s = ''cf-r2-jurisdiction'')"
proof -
  from assms(1,2) have "rollback_contract_supported app c" by (simp add: gaps_Nil_iff)
  from rollback_supported_cases(2) [OF this assms(1,3,4) refl]
  have r: "same_path_read_contract_supported True c" and s: "same_path_readback_selectors_supported c"
    by (simp_all add: same_path_prior_snapshot_rollback_supported_def)
  from r obtain read ns where read: "same_path_read c = Some read" "sp_path read = path c"
      "sp_read_capability_id read \<noteq> []" "verifiable_request_object_fields c = Some ns"
      "sp_verified_response_fields read = ns"
    by (auto simp: same_path_read_contract_supported_def split: option.splits if_splits)
  from verifiable_fields_characterised [OF read(4)] read s show ?thesis
    using readback_location by (fastforce simp: same_path_readback_selectors_supported_def)
qed

text \<open>
  A telemetry-derived security action without gaps is either a creation by \<^verbatim>\<open>POST\<close> whose
  time to live lies between five minutes and seven days, whose default action is the managed
  challenge, and which has a supported rollback; or a \<^verbatim>\<open>DELETE\<close> without a time to live, a
  default action or a rollback. Both need a supported verification.
\<close>

lemma security_action_bounded:
  assumes "mutating c" "mutation_contract_gaps app c = []" "security_action c = Some k"
  shows "verification_contract_supported app c \<and> closed_object_schema (sa_input_schema k) \<and>
    (if sa_kind k \<in> {CreateExpiring, AddExpiringListMember} then
       http_method c = ''POST'' \<and> 300 \<le> sa_default_ttl_seconds k \<and>
       sa_default_ttl_seconds k \<le> sa_max_ttl_seconds k \<and> sa_max_ttl_seconds k \<le> 7 * 24 * 60 * 60 \<and>
       sa_default_action k = Some ''managed_challenge'' \<and> ''managed_challenge'' \<in> set (sa_allowed_actions k) \<and>
       supported (rollback c) \<and> rollback_contract_supported app c
     else
       http_method c = ''DELETE'' \<and> sa_max_ttl_seconds k = 0 \<and> sa_default_action k = None \<and>
       \<not> supported (rollback c))"
proof -
  from assms have "security_action_contract_supported app c" by (simp add: gaps_Nil_iff)
  with assms(3) show ?thesis
    by (cases "sa_kind k")
       (auto simp: security_action_contract_supported_def ttl_bounds_def no_ttl_def split: option.splits if_splits)
qed

end
