(* ===== verification/Standing_Authority.thy ===== *)
theory Standing_Authority
  imports Core_Contracts
begin

text \<open>
  The standing authority of \<^verbatim>\<open>cfctl-core\<close> (\<^verbatim>\<open>StandingAuthorityV1\<close>): a grant, approved once,
  under which token-lifecycle plans are consumed unattended. Each call of \<^verbatim>\<open>Utc::now\<close> and
  \<^verbatim>\<open>Uuid::new_v4\<close> is an argument of the operation that makes it.
\<close>

section \<open>State\<close>

datatype standing_status = PendingApproval | Active | Revoked

fun standing_status_str :: "standing_status \<Rightarrow> string" where
  "standing_status_str PendingApproval = ''pending_approval''"
| "standing_status_str Active = ''active''"
| "standing_status_str Revoked = ''revoked''"

record standing_run =
  run_at :: datetime
  run_operation_id :: string
  run_capability_id :: string

record standing_authority =
  auth_schema_version :: nat
  authority_id :: string
  auth_created_at :: datetime
  auth_expires_at :: datetime
  auth_account_id :: string
  zone_id :: "string option"
  capability_ids :: "string list"
  permission_group_ids :: "string list"
  permission_inventory_hash :: string
  max_child_ttl_hours :: nat
  name_prefix :: string
  max_runs_per_day :: nat
  auth_status :: standing_status
  auth_approval :: "approval option"
  minted_token_ids :: "string list"
  run_log :: "standing_run list"
  auth_content_hash :: string

section \<open>Operations\<close>

definition auth_hashable_content :: "env \<Rightarrow> standing_authority \<Rightarrow> json" where
  "auth_hashable_content e a = jobj (
     [(''schema_version'', jnat (auth_schema_version a)),
      (''authority_id'', JString (authority_id a)),
      (''created_at'', jtime e (auth_created_at a)),
      (''expires_at'', jtime e (auth_expires_at a)),
      (''account_id'', JString (auth_account_id a)),
      (''capability_ids'', jlist JString (capability_ids a)),
      (''permission_group_ids'', jlist JString (permission_group_ids a)),
      (''permission_inventory_hash'', JString (permission_inventory_hash a)),
      (''max_child_ttl_hours'', jnat (max_child_ttl_hours a)),
      (''name_prefix'', JString (name_prefix a)),
      (''max_runs_per_day'', jnat (max_runs_per_day a))]
     @ jskip ''zone_id'' JString (zone_id a))"

definition auth_refresh_hash :: "env \<Rightarrow> standing_authority \<Rightarrow> standing_authority" where
  "auth_refresh_hash e a = a\<lparr>auth_content_hash := hash_value e (auth_hashable_content e a)\<rparr>"

definition auth_draft :: "env \<Rightarrow> string \<Rightarrow> datetime \<Rightarrow> string \<Rightarrow> string option \<Rightarrow> string list
    \<Rightarrow> string list \<Rightarrow> string \<Rightarrow> nat \<Rightarrow> string \<Rightarrow> nat \<Rightarrow> datetime \<Rightarrow> standing_authority" where
  "auth_draft e uuid now acct zone caps groups inventory ttl prefix runs expires =
     auth_refresh_hash e
       \<lparr>auth_schema_version = 1, authority_id = uuid, auth_created_at = now,
        auth_expires_at = expires, auth_account_id = acct, zone_id = zone,
        capability_ids = caps, permission_group_ids = remdups_adj (sort groups),
        permission_inventory_hash = inventory, max_child_ttl_hours = ttl,
        name_prefix = prefix, max_runs_per_day = runs, auth_status = PendingApproval,
        auth_approval = None, minted_token_ids = [], run_log = [], auth_content_hash = ''''\<rparr>"

definition allowed_token_resources :: "standing_authority \<Rightarrow> string list" where
  "allowed_token_resources a =
     [''com.cloudflare.api.account.'' @ auth_account_id a]
     @ (case zone_id a of None \<Rightarrow> []
        | Some z \<Rightarrow> [''com.cloudflare.api.account.zone.'' @ z])"

definition auth_approve :: "env \<Rightarrow> datetime \<Rightarrow> datetime \<Rightarrow> bool \<Rightarrow> standing_authority
    \<Rightarrow> core_error + standing_authority" where
  "auth_approve e now recorded explicit_yes a =
     (if \<not> explicit_yes then Inl ExplicitApprovalRequired
      else if auth_status a \<noteq> PendingApproval then
        Inl (InvalidStandingAuthorityState (authority_id a)
              (standing_status_str (auth_status a)) ''pending_approval'')
      else if now > auth_expires_at a then
        Inl (StandingAuthorityExpired (authority_id a) (auth_expires_at a))
      else if hash_value e (auth_hashable_content e a) \<noteq> auth_content_hash a then
        Inl (InvalidStandingAuthorityState (authority_id a) ''hash-drifted''
              ''unchanged hash-bound grant'')
      else Inr (a\<lparr>auth_approval := Some \<lparr>approved_at = recorded,
                    approved_content_hash = auth_content_hash a, max_cost = None\<rparr>,
                  auth_status := Active\<rparr>))"

definition auth_revoke :: "standing_authority \<Rightarrow> standing_authority" where
  "auth_revoke a = a\<lparr>auth_status := Revoked\<rparr>"

definition effective_status :: "standing_authority \<Rightarrow> datetime \<Rightarrow> string" where
  "effective_status a now =
     (if auth_status a = Revoked then standing_status_str Revoked
      else if now > auth_expires_at a then ''expired''
      else standing_status_str (auth_status a))"

definition ensure_operational_at :: "env \<Rightarrow> datetime \<Rightarrow> standing_authority \<Rightarrow> core_error + unit" where
  "ensure_operational_at e now a =
     (if auth_status a \<noteq> Active then
        Inl (InvalidStandingAuthorityState (authority_id a)
              (standing_status_str (auth_status a)) ''active'')
      else if now > auth_expires_at a then
        Inl (StandingAuthorityExpired (authority_id a) (auth_expires_at a))
      else
        (let current_hash = hash_value e (auth_hashable_content e a);
             approval_matches = (case auth_approval a of None \<Rightarrow> False
               | Some ap \<Rightarrow> approved_content_hash ap = current_hash)
         in if current_hash \<noteq> auth_content_hash a \<or> \<not> approval_matches then
              Inl (InvalidStandingAuthorityState (authority_id a) ''hash-drifted''
                    ''approval bound to the current grant content'')
            else Inr ()))"

definition runs_in_last_day :: "standing_authority \<Rightarrow> datetime \<Rightarrow> nat" where
  "runs_in_last_day a now = length (filter (\<lambda>r. now - run_at r \<le> hours 24) (run_log a))"

definition denied :: "standing_authority \<Rightarrow> string \<Rightarrow> core_error" where
  "denied a reason = StandingAuthorityDenied (authority_id a) reason"

definition ensure_run_budget :: "datetime \<Rightarrow> standing_authority \<Rightarrow> core_error + unit" where
  "ensure_run_budget now a =
     (if runs_in_last_day a now \<ge> max_runs_per_day a then
        Inl (denied a (''run budget exhausted: '' @ show_nat (runs_in_last_day a now)
               @ '' runs in the last 24h against a limit of '' @ show_nat (max_runs_per_day a)))
      else Inr ())"

definition validate_permission_inventory :: "env \<Rightarrow> json \<Rightarrow> standing_authority \<Rightarrow> core_error + unit" where
  "validate_permission_inventory e normalized_full_allowlist a =
     ensure (hash_value e normalized_full_allowlist = permission_inventory_hash a)
       (denied a ''complete permission allowlist metadata drifted from the approved inventory hash'')"

fun check_resources :: "standing_authority \<Rightarrow> string list \<Rightarrow> core_error + unit" where
  "check_resources a [] = Inr ()"
| "check_resources a (r # rs) =
     (if r \<notin> set (allowed_token_resources a) then
        Inl (denied a (''child token resource `'' @ r
          @ ''` is outside this authority'' @ [CHR 0x27] @ ''s bound scope ('' @ join '', '' (allowed_token_resources a) @ '')''))
      else check_resources a rs)"

fun check_groups :: "standing_authority \<Rightarrow> string list \<Rightarrow> core_error + unit" where
  "check_groups a [] = Inr ()"
| "check_groups a (g # gs) =
     (if g \<notin> set (permission_group_ids a) then
        Inl (denied a (''permission group `'' @ g @ ''` is outside the approved allowlist''))
      else check_groups a gs)"

definition authorize_token_create :: "env \<Rightarrow> datetime \<Rightarrow> string \<Rightarrow> string list \<Rightarrow> string list
    \<Rightarrow> datetime option \<Rightarrow> standing_authority \<Rightarrow> core_error + unit" where
  "authorize_token_create e now child_name requested_group_ids requested_resources child_expires_at a =
     res_bind (ensure_operational_at e now a) (\<lambda>_.
     res_bind (ensure_run_budget now a) (\<lambda>_.
     if \<not> starts_with child_name (name_prefix a) then
       Inl (denied a (''child token name `'' @ child_name
         @ ''` does not carry the pinned prefix `'' @ name_prefix a @ ''`''))
     else if requested_group_ids = [] then
       Inl (denied a ''child token requests no permission groups'')
     else if requested_resources = [] then Inl (denied a ''child token binds no resource'')
     else res_bind (check_resources a requested_resources) (\<lambda>_.
     res_bind (check_groups a requested_group_ids) (\<lambda>_.
     case child_expires_at of
       None \<Rightarrow> Inl (denied a ''child token declares no expiry; standing mints must be short-lived'')
     | Some t \<Rightarrow>
         if t - now > hours (int (max_child_ttl_hours a)) then
           Inl (denied a (''child token expiry exceeds the '' @ show_nat (max_child_ttl_hours a)
             @ ''h maximum child TTL''))
         else Inr ()))))"

definition authorize_token_delete :: "env \<Rightarrow> datetime \<Rightarrow> string \<Rightarrow> standing_authority
    \<Rightarrow> core_error + unit" where
  "authorize_token_delete e now token a =
     res_bind (ensure_operational_at e now a) (\<lambda>_.
     res_bind (ensure_run_budget now a) (\<lambda>_.
     ensure (token \<in> set (minted_token_ids a))
       (denied a (''token `'' @ token
         @ ''` was not minted under this authority; lineage bound refuses the revoke''))))"

definition reserve_run :: "env \<Rightarrow> datetime \<Rightarrow> string \<Rightarrow> string \<Rightarrow> standing_authority
    \<Rightarrow> core_error + standing_authority" where
  "reserve_run e now operation capability a =
     res_bind (ensure_operational_at e now a) (\<lambda>_.
     if operation \<in> run_operation_id ` set (run_log a) then
       Inl (denied a (''operation `'' @ operation @ ''` is already reserved under this authority''))
     else res_bind (ensure_run_budget now a) (\<lambda>_.
       Inr (a\<lparr>run_log := run_log a @ [\<lparr>run_at = now, run_operation_id = operation,
                                         run_capability_id = capability\<rparr>]\<rparr>)))"

definition record_minted_token :: "string \<Rightarrow> standing_authority \<Rightarrow> standing_authority" where
  "record_minted_token token a =
     (if token \<in> set (minted_token_ids a) then a
      else a\<lparr>minted_token_ids := minted_token_ids a @ [token]\<rparr>)"

section \<open>Steps of a grant\<close>

inductive authority_step :: "env \<Rightarrow> standing_authority \<Rightarrow> standing_authority \<Rightarrow> bool" for e where
  approve: "auth_approve e now recorded explicit_yes a = Inr a' \<Longrightarrow> authority_step e a a'"
| revoke: "authority_step e a (auth_revoke a)"
| reserve: "reserve_run e now operation capability a = Inr a' \<Longrightarrow> authority_step e a a'"
| mint: "authority_step e a (record_minted_token token a)"

inductive authority_reachable :: "env \<Rightarrow> standing_authority \<Rightarrow> bool" for e where
  drafted: "authority_reachable e
     (auth_draft e uuid now acct zone caps groups inventory ttl prefix runs expires)"
| stepped: "authority_reachable e a \<Longrightarrow> authority_step e a a' \<Longrightarrow> authority_reachable e a'"

inductive_cases authority_stepE: "authority_step e a a'"

definition window_runs :: "standing_authority \<Rightarrow> datetime \<Rightarrow> standing_run list" where
  "window_runs a t = filter (\<lambda>r. t - hours 24 \<le> run_at r \<and> run_at r \<le> t) (run_log a)"

section \<open>Facts\<close>

interpretation auth: hash_bound "hash_value e" "auth_hashable_content e" auth_content_hash
  "\<lambda>h. auth_content_hash_update (\<lambda>_. h)" for e
  by unfold_locales (simp_all add: auth_hashable_content_def)

lemma auth_refresh_is_refresh: "auth_refresh_hash e = auth.refresh e"
  by (simp add: fun_eq_iff auth_refresh_hash_def auth.refresh_def)

lemma ensure_operational_iff:
  "ensure_operational_at e now a = Inr () \<longleftrightarrow>
     auth_status a = Active \<and> now \<le> auth_expires_at a \<and> auth.bound e a \<and>
     (\<exists>ap. auth_approval a = Some ap \<and> approved_content_hash ap = auth_content_hash a)"
  by (auto simp: ensure_operational_at_def auth.bound_def Let_def split: option.splits)

lemma ensure_run_budget_iff:
  "ensure_run_budget now a = Inr () \<longleftrightarrow> runs_in_last_day a now < max_runs_per_day a"
  by (simp add: ensure_run_budget_def not_le)

lemma auth_approve_Inr:
  "auth_approve e now recorded y a = Inr a' \<Longrightarrow>
     y \<and> auth_status a = PendingApproval \<and> now \<le> auth_expires_at a \<and> auth.bound e a \<and>
     a' = a\<lparr>auth_approval := Some \<lparr>approved_at = recorded,
              approved_content_hash = auth_content_hash a, max_cost = None\<rparr>,
            auth_status := Active\<rparr>"
  by (auto simp: auth_approve_def auth.bound_def split: if_splits)

lemma reserve_run_Inr:
  "reserve_run e now operation capability a = Inr a' \<Longrightarrow>
     ensure_operational_at e now a = Inr () \<and> operation \<notin> run_operation_id ` set (run_log a) \<and>
     runs_in_last_day a now < max_runs_per_day a \<and>
     a' = a\<lparr>run_log := run_log a @ [\<lparr>run_at = now, run_operation_id = operation,
              run_capability_id = capability\<rparr>]\<rparr>"
  by (auto simp: reserve_run_def result_simps ensure_run_budget_iff split: if_splits)

lemma check_resources_iff [simp]:
  "check_resources a rs = Inr () \<longleftrightarrow> set rs \<subseteq> set (allowed_token_resources a)"
  by (induction rs) auto

lemma check_groups_iff [simp]:
  "check_groups a gs = Inr () \<longleftrightarrow> set gs \<subseteq> set (permission_group_ids a)"
  by (induction gs) auto

lemma record_minted_fields [simp]:
  "run_log (record_minted_token t a) = run_log a"
  "max_runs_per_day (record_minted_token t a) = max_runs_per_day a"
  "auth_status (record_minted_token t a) = auth_status a"
  "auth_approval (record_minted_token t a) = auth_approval a"
  "auth_content_hash (record_minted_token t a) = auth_content_hash a"
  by (simp_all add: record_minted_token_def)

lemma step_content:
  assumes "authority_step e a a'"
  shows "auth_hashable_content e a' = auth_hashable_content e a"
    and "auth_content_hash a' = auth_content_hash a"
    and "max_runs_per_day a' = max_runs_per_day a"
  using assms
  by (auto elim!: authority_stepE dest!: auth_approve_Inr reserve_run_Inr
      simp: auth_hashable_content_def auth_revoke_def record_minted_token_def)

lemma step_revoked: "authority_step e a a' \<Longrightarrow> auth_status a = Revoked \<Longrightarrow> auth_status a' = Revoked"
  by (auto elim!: authority_stepE dest!: auth_approve_Inr reserve_run_Inr simp: auth_revoke_def)

lemma reserved_window_bound:
  assumes budget: "runs_in_last_day a now < max_runs_per_day a"
    and old: "length (window_runs a t) \<le> max_runs_per_day a"
  shows "length (window_runs (a\<lparr>run_log := run_log a @ [\<lparr>run_at = now, run_operation_id = i,
           run_capability_id = c\<rparr>]\<rparr>) t) \<le> max_runs_per_day a"
proof (cases "t - hours 24 \<le> now \<and> now \<le> t")
  case True
  then have "length (window_runs a t) \<le> runs_in_last_day a now"
    by (auto simp: window_runs_def runs_in_last_day_def length_filter_conv_card intro!: card_mono)
  with budget True show ?thesis by (simp add: window_runs_def)
next
  case False
  with old show ?thesis by (auto simp: window_runs_def)
qed

lemma reachable_budget:
  "authority_reachable e a \<Longrightarrow> length (window_runs a t) \<le> max_runs_per_day a"
proof (induction rule: authority_reachable.induct)
  case drafted
  then show ?case by (simp add: auth_draft_def auth_refresh_hash_def window_runs_def)
next
  case (stepped a a')
  from stepped.hyps(2) show ?case
  proof (cases rule: authority_step.cases)
    case (reserve now operation capability)
    with stepped.IH show ?thesis by (auto dest!: reserve_run_Inr intro: reserved_window_bound)
  qed (use stepped.IH in \<open>auto dest!: auth_approve_Inr simp: auth_revoke_def window_runs_def\<close>)
qed

lemma reachable_distinct_runs:
  "authority_reachable e a \<Longrightarrow> distinct (map run_operation_id (run_log a))"
proof (induction rule: authority_reachable.induct)
  case (stepped a a')
  then show ?case
    by (auto elim!: authority_stepE dest!: auth_approve_Inr reserve_run_Inr simp: auth_revoke_def)
qed (simp add: auth_draft_def auth_refresh_hash_def)

lemma reachable_bound: "authority_reachable e a \<Longrightarrow> auth.bound e a"
proof (induction rule: authority_reachable.induct)
  case (stepped a a')
  then show ?case using step_content [OF stepped.hyps(2)] by (simp add: auth.bound_def)
qed (simp add: auth_draft_def auth_refresh_is_refresh auth.bound_refresh)

lemma reachable_active_approved:
  "authority_reachable e a \<Longrightarrow> auth_status a = Active \<Longrightarrow>
     \<exists>ap. auth_approval a = Some ap \<and> approved_content_hash ap = auth_content_hash a"
proof (induction rule: authority_reachable.induct)
  case (stepped a a')
  then show ?case
    by (auto elim!: authority_stepE dest!: auth_approve_Inr reserve_run_Inr simp: auth_revoke_def)
qed (simp add: auth_draft_def auth_refresh_hash_def)

text \<open>The hashed content determines every bound of the grant.\<close>

lemma auth_content_determines:
  assumes "auth_hashable_content e a = auth_hashable_content e b"
  shows "authority_id a = authority_id b \<and> auth_account_id a = auth_account_id b \<and>
    zone_id a = zone_id b \<and> capability_ids a = capability_ids b \<and>
    permission_group_ids a = permission_group_ids b \<and>
    permission_inventory_hash a = permission_inventory_hash b \<and>
    max_child_ttl_hours a = max_child_ttl_hours b \<and> name_prefix a = name_prefix b \<and>
    max_runs_per_day a = max_runs_per_day b \<and>
    rfc3339 e (auth_expires_at a) = rfc3339 e (auth_expires_at b)"
proof -
  note eq = jobj_eqD [OF assms [unfolded auth_hashable_content_def]]
  have zone: "zone_id a = zone_id b"
    using eq [of "''zone_id''"] by (auto simp: jskip_def split: option.splits)
  show ?thesis
    using zone eq [of "''authority_id''"] eq [of "''account_id''"] eq [of "''capability_ids''"]
      eq [of "''permission_group_ids''"] eq [of "''permission_inventory_hash''"]
      eq [of "''max_child_ttl_hours''"] eq [of "''name_prefix''"] eq [of "''max_runs_per_day''"]
      eq [of "''expires_at''"]
    by (auto simp: jskip_def jtime_def split: option.splits)
qed

section \<open>Properties\<close>

definition demo_grant :: standing_authority where
  "demo_grant = auth_draft demo_env ''grant'' 0 ''acct'' (Some ''zone'') [''keys-mint'']
     [''g2'', ''g1'', ''g2''] ''inv'' 2 ''ci-'' 1 (hours 100)"

definition demo_active :: standing_authority where
  "demo_active = demo_grant\<lparr>auth_approval := Some \<lparr>approved_at = 1,
     approved_content_hash = auth_content_hash demo_grant, max_cost = None\<rparr>, auth_status := Active\<rparr>"

definition demo_reserved :: standing_authority where
  "demo_reserved = demo_active\<lparr>run_log := [\<lparr>run_at = 5, run_operation_id = ''op'',
     run_capability_id = ''keys-mint''\<rparr>]\<rparr>"

lemmas demo_grant_defs = demo_grant_def auth_draft_def auth_refresh_hash_def demo_active_def
  demo_reserved_def

lemma demo_active_step: "auth_approve demo_env 1 1 True demo_grant = Inr demo_active"
  by (simp add: auth_approve_def demo_grant_defs auth_hashable_content_def)

lemma demo_active_operational: "ensure_operational_at demo_env 5 demo_active = Inr ()"
  by (simp add: ensure_operational_at_def Let_def demo_grant_defs auth_hashable_content_def)

lemma demo_reserved_step: "reserve_run demo_env 5 ''op'' ''keys-mint'' demo_active = Inr demo_reserved"
  by (simp add: reserve_run_def demo_active_operational ensure_run_budget_def runs_in_last_day_def,
      simp add: demo_grant_defs)

lemma demo_reachable: "authority_reachable demo_env demo_reserved"
  by (metis authority_reachable.drafted authority_reachable.stepped authority_step.approve
      authority_step.reserve demo_active_step demo_grant_def demo_reserved_step)

text \<open>
  C31. The run budget is a sliding limit: in every state a grant can reach, no interval of
  24 hours contains more reserved runs than \<^verbatim>\<open>max_runs_per_day\<close>, whatever the clock did
  between the reservations.
\<close>

theorem standing_rate_limit:
  "authority_reachable e a \<Longrightarrow> length (window_runs a t) \<le> max_runs_per_day a"
  by (rule reachable_budget)

theorem standing_rate_limit_witness:
  "length (window_runs demo_reserved (hours 24)) = 1 \<and>
   length (window_runs demo_reserved (hours 24)) \<le> max_runs_per_day demo_reserved"
  using standing_rate_limit [OF demo_reachable, of "hours 24"]
  by (simp add: window_runs_def demo_grant_defs)

text \<open>
  An operation is reserved at most once under a grant: the operation ids of the run log
  of every reachable grant are distinct, so a repeated admission is refused.
\<close>

lemma standing_reservation_unique:
  assumes "authority_reachable e a" "operation \<in> run_operation_id ` set (run_log a)"
  shows "distinct (map run_operation_id (run_log a)) \<and>
         \<not> is_ok (reserve_run e now operation capability a)"
  using reachable_distinct_runs [OF assms(1)] assms(2) by (auto dest!: reserve_run_Inr)

text \<open>
  In a reachable grant the operational check depends on status and expiry alone: the
  hash and approval conditions it re-examines hold whenever the grant is active, and a
  grant that was never approved, is revoked or has expired fails it.
\<close>

lemma standing_operational_iff:
  assumes "authority_reachable e a"
  shows "ensure_operational_at e now a = Inr () \<longleftrightarrow> auth_status a = Active \<and> now \<le> auth_expires_at a"
  using reachable_bound [OF assms] reachable_active_approved [OF assms]
  by (auto simp: ensure_operational_iff)

text \<open>
  Revocation is final. After any further sequence of steps a revoked grant is still
  revoked, and it admits no reservation, no child token and no token deletion.
\<close>

lemma standing_revocation_final:
  assumes "(authority_step e)\<^sup>*\<^sup>* (auth_revoke a) a'"
  shows "auth_status a' = Revoked \<and> \<not> is_ok (reserve_run e now operation capability a')
    \<and> authorize_token_create e now child groups resources expires a' \<noteq> Inr ()
    \<and> authorize_token_delete e now token a' \<noteq> Inr ()"
proof -
  from assms have "auth_status a' = Revoked"
    by (induction rule: rtranclp_induct) (auto simp: auth_revoke_def intro: step_revoked)
  then have "ensure_operational_at e now a' \<noteq> Inr ()" by (simp add: ensure_operational_iff)
  with \<open>auth_status a' = Revoked\<close> show ?thesis
    by (auto dest!: reserve_run_Inr
        simp: authorize_token_create_def authorize_token_delete_def result_simps)
qed

text \<open>
  The exact bounds on minting a child token: the call is authorised if and only if the
  grant is operational with budget left, the name carries the pinned prefix, the permission
  groups are a non-empty part of the allowlist, the resources are a non-empty part of the
  pinned account and zone, and the child expires within the maximum lifetime.
\<close>

lemma authorize_token_create_iff:
  "authorize_token_create e now child groups resources expires a = Inr () \<longleftrightarrow>
     ensure_operational_at e now a = Inr () \<and> runs_in_last_day a now < max_runs_per_day a \<and>
     starts_with child (name_prefix a) \<and>
     groups \<noteq> [] \<and> set groups \<subseteq> set (permission_group_ids a) \<and>
     resources \<noteq> [] \<and> set resources \<subseteq> set (allowed_token_resources a) \<and>
     (\<exists>t. expires = Some t \<and> t \<le> now + hours (int (max_child_ttl_hours a)))"
  by (auto simp: authorize_token_create_def result_simps ensure_run_budget_iff
      split: option.splits if_splits)

text \<open>
  An approved grant cannot be widened: if two grants with the same content hash both
  pass the operational check, then they agree on account, zone, capabilities, permission
  groups, child lifetime, name prefix and run limit, or their two contents are a collision
  of the content hash.
\<close>

lemma standing_grant_tamper_evident:
  assumes "ensure_operational_at e now a = Inr ()" "ensure_operational_at e now' b = Inr ()"
    and "auth_content_hash a = auth_content_hash b"
  shows "(authority_id a = authority_id b \<and> auth_account_id a = auth_account_id b \<and>
      zone_id a = zone_id b \<and> capability_ids a = capability_ids b \<and>
      permission_group_ids a = permission_group_ids b \<and>
      max_child_ttl_hours a = max_child_ttl_hours b \<and> name_prefix a = name_prefix b \<and>
      max_runs_per_day a = max_runs_per_day b)
    \<or> collides (hash_value e) (auth_hashable_content e a) (auth_hashable_content e b)"
proof -
  have "auth.bound e a" "auth.bound e b" using assms(1,2) by (simp_all add: ensure_operational_iff)
  from auth.equal_content_or_collision [OF this assms(3)] show ?thesis
    by (auto dest: auth_content_determines)
qed

end
