(* ===== verification/Plan_Journal.thy ===== *)
theory Plan_Journal
  imports Standing_Authority
begin

text \<open>
  The reviewed plan of \<^verbatim>\<open>cfctl-core\<close> (\<^verbatim>\<open>PlanV1\<close>) and its transaction journal: the hash-bound
  content, the forward-only chain of checkpoints with their artifacts, the operation that
  appends to the chain and the check that reads it back. A hash chain is stated as a locale
  and interpreted on the checkpoints.
\<close>

section \<open>State\<close>

record checkpoint =
  cp_stage :: transaction_stage
  cp_recorded_at :: datetime
  cp_plan_content_hash :: string
  cp_plan_status :: plan_status
  cp_previous_hash :: "string option"
  cp_artifact_hash :: "string option"
  cp_hash :: string

record plan_content =
  p_schema_version :: nat
  operation_id :: string
  p_created_at :: datetime
  p_expires_at :: datetime
  profile_id :: string
  p_account_id :: string
  catalog_hash :: string
  permission_lane :: string
  precondition_hashes :: "(string, string) btree"
  p_capability :: capability
  targets :: json
  p_input :: json
  affected_repositories :: "string list"
  affected_resources :: "string list"
  local_diffs :: "json list"
  cloudflare_diffs :: "json list"
  verification_steps :: "string list"
  compensation_steps :: "string list"
  non_reversible_warnings :: "string list"
  policy :: policy_decision

record plan = plan_content +
  status :: plan_status
  p_approval :: "approval option"
  cancelled_at :: "datetime option"
  content_hash :: string
  p_stage :: transaction_stage
  journal :: "checkpoint list"
  artifacts :: "(string, json) btree"

section \<open>Hashed documents\<close>

fun disposition_str :: "disposition \<Rightarrow> string" where
  "disposition_str AutoExecute = ''auto_execute''"
| "disposition_str ApprovalRequired = ''approval_required''"
| "disposition_str Blocked = ''blocked''"

definition policy_json :: "policy_decision \<Rightarrow> json" where
  "policy_json d = jobj
     [(''schema_version'', jnat (pd_schema_version d)),
      (''disposition'', JString (disposition_str (pd_disposition d))),
      (''reasons'', jlist JString (pd_reasons d)),
      (''requires_cost_ceiling'', JBool (pd_requires_cost_ceiling d))]"

definition hashable_content :: "env \<Rightarrow> 'a plan_content_scheme \<Rightarrow> json" where
  "hashable_content e p = jobj
     [(''schema_version'', jnat (p_schema_version p)),
      (''operation_id'', JString (operation_id p)),
      (''created_at'', jtime e (p_created_at p)),
      (''expires_at'', jtime e (p_expires_at p)),
      (''profile_id'', JString (profile_id p)),
      (''account_id'', JString (p_account_id p)),
      (''catalog_hash'', JString (catalog_hash p)),
      (''permission_lane'', JString (permission_lane p)),
      (''precondition_hashes'', jmap JString (precondition_hashes p)),
      (''capability'', capability_value e (p_capability p)),
      (''targets'', targets p),
      (''input'', p_input p),
      (''affected_repositories'', jlist JString (affected_repositories p)),
      (''affected_resources'', jlist JString (affected_resources p)),
      (''local_diffs'', JArray (local_diffs p)),
      (''cloudflare_diffs'', JArray (cloudflare_diffs p)),
      (''verification_steps'', jlist JString (verification_steps p)),
      (''compensation_steps'', jlist JString (compensation_steps p)),
      (''non_reversible_warnings'', jlist JString (non_reversible_warnings p)),
      (''policy'', policy_json (policy p))]"

definition refresh_hash :: "env \<Rightarrow> plan \<Rightarrow> plan" where
  "refresh_hash e p = p\<lparr>content_hash := hash_value e (hashable_content e p)\<rparr>"

definition approval_receipt :: "env \<Rightarrow> plan \<Rightarrow> approval \<Rightarrow> json" where
  "approval_receipt e p a = jobj
     [(''schema_version'', jnat 1),
      (''operation_id'', JString (operation_id p)),
      (''approved_at'', jtime e (approved_at a)),
      (''approved_content_hash'', JString (approved_content_hash a)),
      (''max_cost'', jopt money_json (max_cost a))]"

text \<open>The value \<^verbatim>\<open>transaction_checkpoint_hash\<close> builds, then its hash.\<close>

definition checkpoint_value :: "env \<Rightarrow> string \<Rightarrow> transaction_stage \<Rightarrow> datetime \<Rightarrow> string
    \<Rightarrow> plan_status \<Rightarrow> string option \<Rightarrow> string option \<Rightarrow> json" where
  "checkpoint_value e operation stage recorded_at plan_content_hash plan_status previous artifact_hash = jobj (
     [(''operation_id'', JString operation),
      (''plan_content_hash'', JString plan_content_hash),
      (''plan_status'', JString (plan_status_str plan_status)),
      (''stage'', JString (stage_str stage)),
      (''recorded_at'', jtime e recorded_at),
      (''previous_checkpoint_hash'', jopt JString previous)]
     @ jskip ''artifact_hash'' JString artifact_hash)"

definition transaction_checkpoint_hash :: "env \<Rightarrow> string \<Rightarrow> transaction_stage \<Rightarrow> datetime \<Rightarrow> string
    \<Rightarrow> plan_status \<Rightarrow> string option \<Rightarrow> string option \<Rightarrow> string" where
  "transaction_checkpoint_hash e operation stage recorded_at plan_content_hash plan_status previous artifact_hash =
     hash_value e (checkpoint_value e operation stage recorded_at plan_content_hash plan_status
       previous artifact_hash)"

definition invalid_transaction_journal :: "plan \<Rightarrow> string \<Rightarrow> core_error" where
  "invalid_transaction_journal p reason = InvalidTransactionJournal (operation_id p) reason"

section \<open>Validation\<close>

text \<open>
  One checkpoint of the loop of \<^verbatim>\<open>validate_transaction_journal_inner\<close>: the result says whether the
  checkpoint carried an artifact.
\<close>

definition check_artifact :: "env \<Rightarrow> plan \<Rightarrow> checkpoint \<Rightarrow> core_error + bool" where
  "check_artifact e p c =
     (case (cp_artifact_hash c, bt_get (artifacts p) (stage_str (cp_stage c))) of
        (Some expected_hash, Some artifact) \<Rightarrow>
          if redact_json artifact \<noteq> artifact \<or> hash_value e artifact \<noteq> expected_hash
          then Inl (invalid_transaction_journal p
            (''checkpoint '' @ stage_debug (cp_stage c) @ '' artifact hash does not match''))
          else Inr True
      | (None, None) \<Rightarrow> Inr False
      | _ \<Rightarrow> Inl (invalid_transaction_journal p
            (''checkpoint '' @ stage_debug (cp_stage c) @ '' artifact presence does not match'')))"

fun check_checkpoints :: "env \<Rightarrow> plan \<Rightarrow> transaction_stage option \<Rightarrow> string option \<Rightarrow> nat
    \<Rightarrow> checkpoint list \<Rightarrow> core_error + (transaction_stage option \<times> nat)" where
  "check_checkpoints e p previous_stage previous_hash artifact_count [] =
     Inr (previous_stage, artifact_count)"
| "check_checkpoints e p previous_stage previous_hash artifact_count (c # cs) =
     (if (case previous_stage of None \<Rightarrow> False
          | Some stage \<Rightarrow> stage_rank (cp_stage c) \<le> stage_rank stage) then
        Inl (invalid_transaction_journal p
          (''checkpoint '' @ stage_debug (cp_stage c) @ '' is not forward-only''))
      else if cp_previous_hash c \<noteq> previous_hash then
        Inl (invalid_transaction_journal p
          (''checkpoint '' @ stage_debug (cp_stage c) @ '' does not link to its predecessor''))
      else res_bind (check_artifact e p c) (\<lambda>counted.
        if cp_hash c \<noteq> transaction_checkpoint_hash e (operation_id p) (cp_stage c) (cp_recorded_at c)
             (cp_plan_content_hash c) (cp_plan_status c) (cp_previous_hash c) (cp_artifact_hash c) then
          Inl (invalid_transaction_journal p
            (''checkpoint '' @ stage_debug (cp_stage c) @ '' hash does not match''))
        else check_checkpoints e p (Some (cp_stage c)) (Some (cp_hash c))
               (artifact_count + (if counted then 1 else 0)) cs))"

definition validate_approval_checkpoint :: "env \<Rightarrow> bool \<Rightarrow> plan \<Rightarrow> core_error + unit" where
  "validate_approval_checkpoint e bind_current_status p =
     (if list_ex (\<lambda>c. cp_stage c = ApprovalPersisted) (journal p) then
        res_bind (ok_or (p_approval p)
          (invalid_transaction_journal p ''approval checkpoint has no current approval'')) (\<lambda>approval.
        if approved_content_hash approval \<noteq> content_hash p then
          Inl (invalid_transaction_journal p
            ''approval content hash does not match the current plan'')
        else case (case max_cost approval of None \<Rightarrow> Inr () | Some m \<Rightarrow> validate_money m) of
          Inl reason \<Rightarrow> Inl (invalid_transaction_journal p
            (''approval cost ceiling is invalid: '' @ reason))
        | Inr _ \<Rightarrow>
          if bt_get (artifacts p) (stage_str ApprovalPersisted) \<noteq> Some (approval_receipt e p approval) then
            Inl (invalid_transaction_journal p
              ''approval checkpoint does not bind the current approval'')
          else Inr ())
      else if bind_current_status \<and> p_approval p \<noteq> None then
        Inl (invalid_transaction_journal p ''current approval has no approval checkpoint'')
      else Inr ())"

definition validate_transaction_journal_inner :: "env \<Rightarrow> bool \<Rightarrow> plan \<Rightarrow> core_error + unit" where
  "validate_transaction_journal_inner e bind_current_status p =
     (if journal p = [] then
        (if status p = Draft \<and> p_stage p = PlanPrepared then Inr ()
         else Inl (invalid_transaction_journal p ''a non-draft plan has no checkpoints''))
      else res_bind (check_checkpoints e p None None 0 (journal p)) (\<lambda>(previous_stage, artifact_count).
        if artifact_count \<noteq> length (artifacts p) then
          Inl (invalid_transaction_journal p
            ''transaction artifacts contain a receipt without a matching checkpoint'')
        else if previous_stage \<noteq> Some (p_stage p) then
          Inl (invalid_transaction_journal p
            ''current transaction stage does not match the journal tail'')
        else res_bind (validate_approval_checkpoint e bind_current_status p) (\<lambda>_.
          if bind_current_status \<and> cp_plan_status (last (journal p)) \<noteq> status p then
            Inl (invalid_transaction_journal p
              ''current plan status does not match the journal tail'')
          else Inr ())))"

definition validate_transaction_journal :: "env \<Rightarrow> plan \<Rightarrow> core_error + unit" where
  "validate_transaction_journal e p = validate_transaction_journal_inner e True p"

section \<open>Recording\<close>

text \<open>The checkpoint that is appended: linked to the tail, with its own hash.\<close>

definition next_checkpoint :: "env \<Rightarrow> datetime \<Rightarrow> transaction_stage \<Rightarrow> json option \<Rightarrow> plan \<Rightarrow> checkpoint" where
  "next_checkpoint e recorded_at stage artifact p =
     (let previous = (if journal p = [] then None else Some (cp_hash (last (journal p))));
          artifact_hash = map_option (hash_value e) artifact
      in \<lparr>cp_stage = stage, cp_recorded_at = recorded_at, cp_plan_content_hash = content_hash p,
          cp_plan_status = status p, cp_previous_hash = previous, cp_artifact_hash = artifact_hash,
          cp_hash = transaction_checkpoint_hash e (operation_id p) stage recorded_at
            (content_hash p) (status p) previous artifact_hash\<rparr>)"

definition record_transaction_stage_inner :: "env \<Rightarrow> datetime \<Rightarrow> transaction_stage \<Rightarrow> json option
    \<Rightarrow> plan \<Rightarrow> core_error + plan" where
  "record_transaction_stage_inner e recorded_at stage artifact p =
     res_bind
       (if journal p = [] then
          ensure (stage = PlanPrepared)
            (invalid_transaction_journal p ''the first checkpoint must be plan_prepared'')
        else res_bind (validate_transaction_journal_inner e False p) (\<lambda>_.
          ensure (\<not> stage_rank stage \<le> stage_rank (p_stage p))
            (invalid_transaction_journal p (''checkpoint '' @ stage_debug stage
               @ '' does not advance past '' @ stage_debug (p_stage p)))))
     (\<lambda>_.
     if (case artifact of None \<Rightarrow> False | Some v \<Rightarrow> redact_json v \<noteq> v) then
       Inl (invalid_transaction_journal p (''checkpoint '' @ stage_debug stage
         @ '' artifact contains secret-bearing fields''))
     else
       Inr (p\<lparr>artifacts := (case artifact of None \<Rightarrow> artifacts p
                 | Some v \<Rightarrow> bt_insert (stage_str stage) v (artifacts p)),
               journal := journal p @ [next_checkpoint e recorded_at stage artifact p],
               p_stage := stage\<rparr>))"

definition record_transaction_stage :: "env \<Rightarrow> datetime \<Rightarrow> transaction_stage \<Rightarrow> plan \<Rightarrow> core_error + plan" where
  "record_transaction_stage e now stage p = record_transaction_stage_inner e now stage None p"

definition record_transaction_stage_with_artifact :: "env \<Rightarrow> datetime \<Rightarrow> transaction_stage \<Rightarrow> json
    \<Rightarrow> plan \<Rightarrow> core_error + plan" where
  "record_transaction_stage_with_artifact e now stage artifact p =
     record_transaction_stage_inner e now stage (Some artifact) p"

definition transaction_artifact :: "plan \<Rightarrow> transaction_stage \<Rightarrow> json option" where
  "transaction_artifact p stage = bt_get (artifacts p) (stage_str stage)"

section \<open>Drafting\<close>

definition draft :: "env \<Rightarrow> string \<Rightarrow> datetime \<Rightarrow> datetime \<Rightarrow> string \<Rightarrow> string \<Rightarrow> string \<Rightarrow> capability
    \<Rightarrow> json \<Rightarrow> core_error + plan" where
  "draft e uuid now recorded_at profile acct catalog cap tgts =
     record_transaction_stage e recorded_at PlanPrepared (refresh_hash e
       \<lparr>p_schema_version = 1, operation_id = uuid, p_created_at = now,
        p_expires_at = now + hours 24, profile_id = profile, p_account_id = acct,
        catalog_hash = catalog, permission_lane = ''unspecified'', precondition_hashes = [],
        p_capability = cap, targets = tgts, p_input = JNull, affected_repositories = [],
        affected_resources = [], local_diffs = [], cloudflare_diffs = [],
        verification_steps = [], compensation_steps = [], non_reversible_warnings = [],
        policy = \<lparr>pd_schema_version = 1, pd_disposition = ApprovalRequired,
          pd_reasons = [''policy has not classified this operation''],
          pd_requires_cost_ceiling = False\<rparr>,
        status = Draft, p_approval = None, cancelled_at = None, content_hash = [],
        p_stage = PlanPrepared, journal = [], artifacts = []\<rparr>)"

section \<open>Hash chains\<close>

text \<open>
  A chain of entries, each holding the digest of its own value and of its predecessor. The
  law is that the value covers the predecessor's digest. Two chains with the same head then
  consist of the same values, unless two of their entries are a collision.
\<close>

locale hash_chain =
  fixes hash :: "json \<Rightarrow> string"
    and val :: "'c \<Rightarrow> json"
    and prev :: "'c \<Rightarrow> string option"
    and digest :: "'c \<Rightarrow> string"
  assumes val_covers_prev: "val c = val d \<Longrightarrow> prev c = prev d"
begin

fun chain_from :: "string option \<Rightarrow> 'c list \<Rightarrow> bool" where
  "chain_from h [] = True"
| "chain_from h (c # cs) = (prev c = h \<and> digest c = hash (val c) \<and> chain_from (Some (digest c)) cs)"

definition chain_head :: "string option \<Rightarrow> 'c list \<Rightarrow> string option" where
  "chain_head h cs = foldl (\<lambda>_ c. Some (digest c)) h cs"

lemma chain_head_simps [simp]:
  "chain_head h [] = h"
  "chain_head h (cs @ [c]) = Some (digest c)"
  "chain_head h (c # cs) = chain_head (Some (digest c)) cs"
  by (simp_all add: chain_head_def)

lemma chain_from_snoc [simp]:
  "chain_from h (cs @ [c]) \<longleftrightarrow>
     chain_from h cs \<and> prev c = chain_head h cs \<and> digest c = hash (val c)"
  by (induction cs arbitrary: h) auto

lemma chain_digest: "chain_from h cs \<Longrightarrow> c \<in> set cs \<Longrightarrow> digest c = hash (val c)"
  by (induction cs arbitrary: h) auto

lemma chain_tamper_evident:
  "chain_from None cs \<Longrightarrow> chain_from None ds \<Longrightarrow> chain_head None cs = chain_head None ds \<Longrightarrow>
     map val cs = map val ds \<or> (\<exists>c\<in>set cs. \<exists>d\<in>set ds. collides hash (val c) (val d))"
proof (induction cs arbitrary: ds rule: rev_induct)
  case Nil
  then show ?case by (cases ds rule: rev_cases) auto
next
  case (snoc c cs)
  then obtain d ds' where ds: "ds = ds' @ [d]" by (cases ds rule: rev_cases) auto
  with snoc.prems have "hash (val c) = hash (val d)" by simp
  from collidesI [of hash, OF this] show ?case
  proof
    assume same: "val c = val d"
    with snoc.prems ds have "chain_head None cs = chain_head None ds'"
      using val_covers_prev [OF same] by simp
    with snoc.IH [of ds'] snoc.prems ds same show ?thesis by auto
  qed (use ds in auto)
qed

end

section \<open>Facts\<close>

abbreviation cp_value :: "env \<Rightarrow> string \<Rightarrow> checkpoint \<Rightarrow> json" where
  "cp_value e operation c \<equiv> checkpoint_value e operation (cp_stage c) (cp_recorded_at c)
     (cp_plan_content_hash c) (cp_plan_status c) (cp_previous_hash c) (cp_artifact_hash c)"

text \<open>The hashed value of a checkpoint determines every field of it up to the printed time.\<close>

lemma cp_value_determines:
  assumes "cp_value e i c = cp_value e j d"
  shows "i = j \<and> cp_stage c = cp_stage d \<and> cp_plan_content_hash c = cp_plan_content_hash d \<and>
    cp_plan_status c = cp_plan_status d \<and> cp_previous_hash c = cp_previous_hash d \<and>
    cp_artifact_hash c = cp_artifact_hash d \<and>
    rfc3339 e (cp_recorded_at c) = rfc3339 e (cp_recorded_at d)"
proof -
  note eq = jobj_eqD [OF assms [unfolded checkpoint_value_def]]
  have "cp_previous_hash c = cp_previous_hash d"
    using eq [of "''previous_checkpoint_hash''"]
    by (auto simp: jskip_def jopt_def split: option.splits)
  moreover have "cp_artifact_hash c = cp_artifact_hash d"
    using eq [of "''artifact_hash''"] by (auto simp: jskip_def split: option.splits)
  ultimately show ?thesis
    using eq [of "''operation_id''"] eq [of "''stage''"] eq [of "''plan_content_hash''"]
      eq [of "''plan_status''"] eq [of "''recorded_at''"]
    by (auto simp: jskip_def jtime_def split: option.splits)
qed

interpretation chain: hash_chain "hash_value e" "cp_value e operation" cp_previous_hash cp_hash
  for e operation
  by unfold_locales (use cp_value_determines in blast)

interpretation plan: hash_bound "hash_value e" "hashable_content e :: plan \<Rightarrow> json" content_hash
  "\<lambda>h. content_hash_update (\<lambda>_. h)" for e
  by unfold_locales (simp_all add: hashable_content_def)

lemma refresh_hash_is_refresh: "refresh_hash e = plan.refresh e"
  by (simp add: fun_eq_iff refresh_hash_def plan.refresh_def)

text \<open>What the validation loop accepts, as a specification of the journal.\<close>

definition artifact_ok :: "env \<Rightarrow> (string, json) btree \<Rightarrow> checkpoint \<Rightarrow> bool" where
  "artifact_ok e arts c \<longleftrightarrow>
     (case cp_artifact_hash c of
        None \<Rightarrow> bt_get arts (stage_str (cp_stage c)) = None
      | Some h \<Rightarrow> (\<exists>v. bt_get arts (stage_str (cp_stage c)) = Some v \<and> redact_json v = v \<and> hash_value e v = h))"

abbreviation with_artifact :: "checkpoint \<Rightarrow> bool" where
  "with_artifact c \<equiv> cp_artifact_hash c \<noteq> None"

definition journal_sound :: "env \<Rightarrow> plan \<Rightarrow> bool" where
  "journal_sound e p \<longleftrightarrow>
     sorted_wrt (<) (map cp_stage (journal p)) \<and>
     chain.chain_from e (operation_id p) None (journal p) \<and>
     list_all (artifact_ok e (artifacts p)) (journal p) \<and>
     length (filter with_artifact (journal p)) = length (artifacts p) \<and>
     cp_stage (last (journal p)) = p_stage p"

lemma check_artifact_iff:
  "check_artifact e p c = Inr b \<longleftrightarrow> artifact_ok e (artifacts p) c \<and> b = with_artifact c"
  by (auto simp: check_artifact_def artifact_ok_def split: option.splits if_splits)

lemma check_checkpoints_iff:
  "check_checkpoints e p ps ph n cs = Inr (ps', n') \<longleftrightarrow>
     (\<forall>s\<in>set_option ps. \<forall>c\<in>set cs. s < cp_stage c) \<and>
     sorted_wrt (<) (map cp_stage cs) \<and> chain.chain_from e (operation_id p) ph cs \<and>
     list_all (artifact_ok e (artifacts p)) cs \<and>
     ps' = (if cs = [] then ps else Some (cp_stage (last cs))) \<and>
     n' = n + length (filter with_artifact cs)"
proof (induction cs arbitrary: ps ph n)
  case (Cons c cs)
  show ?case
    by (cases ps)
      (auto simp: Cons.IH result_simps check_artifact_iff transaction_checkpoint_hash_def
        less_transaction_stage_def split: if_splits)
qed auto

lemma validate_inner_iff:
  "journal p \<noteq> [] \<Longrightarrow> validate_transaction_journal_inner e b p = Inr () \<longleftrightarrow>
     journal_sound e p \<and> validate_approval_checkpoint e b p = Inr () \<and>
     (b \<longrightarrow> cp_plan_status (last (journal p)) = status p)"
  by (auto simp: validate_transaction_journal_inner_def result_simps check_checkpoints_iff
      journal_sound_def split: if_splits)

lemma sound_artifact_keys:
  assumes "journal_sound e p" "bt_invar (artifacts p)"
  shows "dom (bt_get (artifacts p)) = stage_str ` cp_stage ` set (filter with_artifact (journal p))"
proof (rule card_subset_eq [symmetric])
  let ?f = "filter with_artifact (journal p)"
  have "sorted_wrt (<) (map cp_stage ?f)"
    using assms(1) by (simp add: journal_sound_def sorted_wrt_map sorted_wrt_filter)
  then have "distinct (map (stage_str \<circ> cp_stage) ?f)"
    by (simp add: strict_sorted_iff distinct_map inj_on_def)
  from distinct_card [OF this]
  show "card (stage_str ` cp_stage ` set ?f) = card (dom (bt_get (artifacts p)))"
    using assms by (simp add: journal_sound_def image_comp bt_length_card)
  show "stage_str ` cp_stage ` set ?f \<subseteq> dom (bt_get (artifacts p))"
    using assms(1) by (auto simp: journal_sound_def list_all_iff artifact_ok_def split: option.splits)
qed simp

lemma sound_stage_bound:
  assumes "journal_sound e p" "c \<in> set (journal p)"
  shows "cp_stage c \<le> p_stage p"
proof -
  from assms(2) have "journal p \<noteq> []" by auto
  then obtain cs d where j: "journal p = cs @ [d]" by (cases "journal p" rule: rev_cases) auto
  with assms show ?thesis by (auto simp: journal_sound_def sorted_wrt_append)
qed

text \<open>The representation invariant of a stored plan that deserialisation guarantees.\<close>

definition plan_rep :: "plan \<Rightarrow> bool" where
  "plan_rep p \<longleftrightarrow> bt_invar (artifacts p) \<and> (journal p = [] \<longrightarrow> artifacts p = [])"

lemma chain_head_last: "chain.chain_head h cs = (if cs = [] then h else Some (cp_hash (last cs)))"
  by (cases cs rule: rev_cases) simp_all

lemma next_checkpoint_fields [simp]:
  "cp_stage (next_checkpoint e t s a p) = s"
  "cp_recorded_at (next_checkpoint e t s a p) = t"
  "cp_plan_content_hash (next_checkpoint e t s a p) = content_hash p"
  "cp_plan_status (next_checkpoint e t s a p) = status p"
  "cp_previous_hash (next_checkpoint e t s a p) = chain.chain_head None (journal p)"
  "cp_artifact_hash (next_checkpoint e t s a p) = map_option (hash_value e) a"
  "cp_hash (next_checkpoint e t s a p) =
     hash_value e (cp_value e (operation_id p) (next_checkpoint e t s a p))"
  by (simp_all add: next_checkpoint_def Let_def transaction_checkpoint_hash_def chain_head_last)

definition recorded :: "env \<Rightarrow> datetime \<Rightarrow> transaction_stage \<Rightarrow> json option \<Rightarrow> plan \<Rightarrow> plan" where
  "recorded e t s a p =
     p\<lparr>artifacts := (case a of None \<Rightarrow> artifacts p | Some v \<Rightarrow> bt_insert (stage_str s) v (artifacts p)),
       journal := journal p @ [next_checkpoint e t s a p], p_stage := s\<rparr>"

lemma record_Inr_iff:
  "record_transaction_stage_inner e t s a p = Inr p' \<longleftrightarrow>
     p' = recorded e t s a p \<and> (\<forall>v\<in>set_option a. redact_json v = v) \<and>
     (if journal p = [] then s = PlanPrepared
      else p_stage p < s \<and> validate_transaction_journal_inner e False p = Inr ())"
  by (auto simp: record_transaction_stage_inner_def recorded_def result_simps
      less_transaction_stage_def not_le split: if_splits option.splits)

lemma recorded_fields [simp]:
  "operation_id (recorded e t s a p) = operation_id p"
  "status (recorded e t s a p) = status p"
  "p_approval (recorded e t s a p) = p_approval p"
  "cancelled_at (recorded e t s a p) = cancelled_at p"
  "content_hash (recorded e t s a p) = content_hash p"
  "catalog_hash (recorded e t s a p) = catalog_hash p"
  "policy (recorded e t s a p) = policy p"
  "p_capability (recorded e t s a p) = p_capability p"
  "p_account_id (recorded e t s a p) = p_account_id p"
  "p_expires_at (recorded e t s a p) = p_expires_at p"
  "p_stage (recorded e t s a p) = s"
  "journal (recorded e t s a p) = journal p @ [next_checkpoint e t s a p]"
  "hashable_content e' (recorded e t s a p) = hashable_content e' p"
  by (simp_all add: recorded_def hashable_content_def)

lemma bound_recorded: "plan.bound e (recorded e' t s a p) = plan.bound e p"
  by (simp add: plan.bound_def)

lemma artifacts_recorded:
  "artifacts (recorded e t s a p) =
     (case a of None \<Rightarrow> artifacts p | Some v \<Rightarrow> bt_insert (stage_str s) v (artifacts p))"
  by (simp add: recorded_def)

lemma get_recorded_artifact:
  "bt_invar (artifacts p) \<Longrightarrow> bt_get (artifacts (recorded e t s a p)) k =
     (if k = stage_str s \<and> a \<noteq> None then a else bt_get (artifacts p) k)"
  by (auto simp: artifacts_recorded bt_get_insert split: option.splits)

lemma sound_fresh_stage:
  assumes "journal_sound e p" "bt_invar (artifacts p)" "p_stage p < s"
  shows "bt_get (artifacts p) (stage_str s) = None"
proof (rule ccontr)
  assume "bt_get (artifacts p) (stage_str s) \<noteq> None"
  then have "stage_str s \<in> dom (bt_get (artifacts p))" by (auto simp: domIff)
  then obtain c where "c \<in> set (journal p)" "cp_stage c = s"
    by (auto simp: sound_artifact_keys [OF assms(1,2)])
  with sound_stage_bound [OF assms(1)] assms(3) show False by fastforce
qed

lemma recorded_rep: "plan_rep p \<Longrightarrow> plan_rep (recorded e t s a p)"
  by (auto simp: plan_rep_def artifacts_recorded bt_invar_insert split: option.splits)

lemma recorded_sound_first:
  assumes "journal p = []" "artifacts p = []" "\<forall>v\<in>set_option a. redact_json v = v"
  shows "journal_sound e (recorded e t s a p)"
  using assms
  by (cases a) (auto simp: journal_sound_def artifact_ok_def artifacts_recorded chain.chain_head_def bt_get_def)

lemma recorded_sound_next:
  assumes sound: "journal_sound e p" and rep: "bt_invar (artifacts p)" and fwd: "p_stage p < s"
    and clean: "\<forall>v\<in>set_option a. redact_json v = v"
  shows "journal_sound e (recorded e t s a p)"
proof -
  have below: "cp_stage c < s" if "c \<in> set (journal p)" for c
    using sound_stage_bound [OF sound that] fwd by simp
  have fresh: "bt_get (artifacts p) (stage_str s) = None"
    by (rule sound_fresh_stage [OF sound rep fwd])
  have ok: "artifact_ok e (artifacts (recorded e t s a p)) c = artifact_ok e (artifacts p) c"
    if "c \<in> set (journal p)" for c
    using below [OF that]
    by (simp add: artifact_ok_def get_recorded_artifact [OF rep] less_imp_neq split: option.splits)
  have new: "artifact_ok e (artifacts (recorded e t s a p)) (next_checkpoint e t s a p)"
    using clean fresh by (cases a) (auto simp: artifact_ok_def get_recorded_artifact [OF rep])
  have len: "length (artifacts (recorded e t s a p)) = length (artifacts p) + (if a = None then 0 else 1)"
    using bt_length_insert [OF rep fresh] by (auto simp: artifacts_recorded split: option.splits)
  show ?thesis
    using sound ok new len below
    by (auto simp: journal_sound_def list_all_iff sorted_wrt_append)
qed

lemma record_sound:
  assumes "record_transaction_stage_inner e t s a p = Inr p'" "plan_rep p"
  shows "journal_sound e p' \<and> plan_rep p'"
proof (cases "journal p = []")
  case True
  with assms have "artifacts p = []" by (simp add: plan_rep_def)
  with True assms show ?thesis by (auto simp: record_Inr_iff intro: recorded_sound_first recorded_rep)
next
  case False
  with assms have "journal_sound e p" by (auto simp: record_Inr_iff validate_inner_iff)
  moreover have "bt_invar (artifacts p)" using assms(2) by (simp add: plan_rep_def)
  ultimately show ?thesis
    using False assms by (auto simp: record_Inr_iff intro: recorded_sound_next recorded_rep)
qed

lemma record_validates:
  assumes "record_transaction_stage_inner e t s a p = Inr p'" "plan_rep p"
  shows "validate_transaction_journal e p' = Inr () \<longleftrightarrow> validate_approval_checkpoint e True p' = Inr ()"
proof -
  have "journal p' \<noteq> []" "cp_plan_status (last (journal p')) = status p'"
    using assms(1) by (auto simp: record_Inr_iff)
  then show ?thesis
    using record_sound [OF assms] by (simp add: validate_transaction_journal_def validate_inner_iff)
qed

text \<open>A checkpoint other than the approval keeps what the approval check established.\<close>

lemma approval_iff:
  "validate_approval_checkpoint e b p = Inr () \<longleftrightarrow>
     (if ApprovalPersisted \<in> cp_stage ` set (journal p)
      then \<exists>a. p_approval p = Some a \<and> approved_content_hash a = content_hash p \<and>
             (\<forall>m\<in>set_option (max_cost a). validate_money m = Inr ()) \<and>
             bt_get (artifacts p) (stage_str ApprovalPersisted) = Some (approval_receipt e p a)
      else b \<longrightarrow> p_approval p = None)"
proof -
  have ex: "list_ex (\<lambda>c. cp_stage c = ApprovalPersisted) (journal p) \<longleftrightarrow>
      ApprovalPersisted \<in> cp_stage ` set (journal p)"
    unfolding list_ex_iff image_iff by metis
  have "(case (case max_cost a of None \<Rightarrow> Inr () | Some m \<Rightarrow> validate_money m) of
      Inl r \<Rightarrow> Inl (f r) | Inr _ \<Rightarrow> x) = Inr () \<longleftrightarrow>
      (\<forall>m\<in>set_option (max_cost a). validate_money m = Inr ()) \<and> x = Inr ()"
    for a :: approval and f :: "string \<Rightarrow> core_error" and x
    by (cases "max_cost a"; cases "validate_money (the (max_cost a))")
      (auto simp del: validate_money_ok_iff)
  then show ?thesis
    by (cases "p_approval p")
      (auto simp: validate_approval_checkpoint_def ex simp del: validate_money_ok_iff)
qed

lemma receipt_recorded [simp]: "approval_receipt e (recorded e' t s a p) = approval_receipt e p"
  by (simp add: fun_eq_iff approval_receipt_def)

lemma record_keeps_approval:
  assumes "s \<noteq> ApprovalPersisted" "bt_invar (artifacts p)"
  shows "validate_approval_checkpoint e b (recorded e t s a p) = Inr () \<longleftrightarrow>
         validate_approval_checkpoint e b p = Inr ()"
proof -
  have "stage_str ApprovalPersisted \<noteq> stage_str s" using assms(1) by (metis stage_str_inject)
  then show ?thesis
    using assms(1) by (simp add: approval_iff get_recorded_artifact [OF assms(2)])
qed

lemma validate_journal_status:
  "validate_approval_checkpoint e b (p\<lparr>status := st\<rparr>) = Inr () \<longleftrightarrow>
     validate_approval_checkpoint e b p = Inr ()"
  "journal_sound e (p\<lparr>status := st\<rparr>) = journal_sound e p"
  "plan_rep (p\<lparr>status := st\<rparr>) = plan_rep p"
  by (simp_all add: approval_iff journal_sound_def plan_rep_def approval_receipt_def)

text \<open>Records the runtime makes: a status is set, then a stage past consumption is appended.\<close>

lemma record_after_status_valid:
  assumes valid: "validate_transaction_journal e p = Inr ()" and rep: "plan_rep p" "journal p \<noteq> []"
    and stage: "s \<noteq> ApprovalPersisted"
    and rec: "record_transaction_stage_inner e t s a (p\<lparr>status := st\<rparr>) = Inr p'"
  shows "validate_transaction_journal e p' = Inr () \<and> plan_rep p'"
proof -
  have "validate_approval_checkpoint e True (p\<lparr>status := st\<rparr>) = Inr ()"
    using valid rep by (simp add: validate_transaction_journal_def validate_inner_iff validate_journal_status)
  moreover have "bt_invar (artifacts (p\<lparr>status := st\<rparr>))" using rep by (simp add: plan_rep_def)
  moreover have "p' = recorded e t s a (p\<lparr>status := st\<rparr>)" using rec by (simp add: record_Inr_iff)
  ultimately have "validate_approval_checkpoint e True p' = Inr ()"
    by (simp add: record_keeps_approval [OF stage])
  then show ?thesis
    using record_validates [OF rec] record_sound [OF rec] rep by (simp add: validate_journal_status)
qed

lemma sound_length_bound: "journal_sound e p \<Longrightarrow> length (journal p) \<le> 11"
proof -
  assume "journal_sound e p"
  then have "distinct (map (stage_rank \<circ> cp_stage) (journal p))"
    by (simp add: journal_sound_def strict_sorted_iff distinct_map inj_on_def)
  then have "length (journal p) = card (set (map (stage_rank \<circ> cp_stage) (journal p)))"
    by (metis distinct_card length_map)
  also have "\<dots> \<le> card {0..10::nat}" by (rule card_mono) auto
  finally show ?thesis by simp
qed

lemma valid_sound:
  "validate_transaction_journal e p = Inr () \<Longrightarrow> journal p \<noteq> [] \<Longrightarrow> journal_sound e p"
  by (simp add: validate_transaction_journal_def validate_inner_iff)

lemma draft_Inr:
  "draft e uuid now t profile acct catalog cap tgts = Inr p \<Longrightarrow>
     operation_id p = uuid \<and> p_capability p = cap \<and> p_account_id p = acct \<and> catalog_hash p = catalog \<and>
     status p = Draft \<and> p_approval p = None \<and> p_expires_at p = now + hours 24 \<and>
     plan.bound e p \<and> map cp_stage (journal p) = [PlanPrepared] \<and> p_stage p = PlanPrepared \<and>
     pd_disposition (policy p) = ApprovalRequired \<and> cancelled_at p = None \<and>
     artifacts p = [] \<and> validate_transaction_journal e p = Inr () \<and> plan_rep p"
proof -
  assume d: "draft e uuid now t profile acct catalog cap tgts = Inr p"
  note fields = d [unfolded draft_def record_transaction_stage_def record_Inr_iff refresh_hash_def]
  have "plan_rep p \<and> (validate_transaction_journal e p = Inr () \<longleftrightarrow> validate_approval_checkpoint e True p = Inr ())"
    using record_validates [OF d [unfolded draft_def record_transaction_stage_def]]
      record_sound [OF d [unfolded draft_def record_transaction_stage_def]]
    by (simp add: plan_rep_def refresh_hash_def bt_invar_def)
  moreover have "validate_approval_checkpoint e True p = Inr ()"
    using fields by (auto simp: approval_iff)
  moreover have "artifacts p = []" using fields by (auto simp: artifacts_recorded)
  moreover have "plan.bound e p"
    using d plan.bound_refresh
    by (auto simp: draft_def record_transaction_stage_def record_Inr_iff refresh_hash_is_refresh bound_recorded)
  ultimately show ?thesis using fields by auto
qed

lemma draft_total: "is_ok (draft e uuid now t profile acct catalog cap tgts)"
  by (auto simp: draft_def record_transaction_stage_def record_Inr_iff refresh_hash_def)

section \<open>Tamper evidence\<close>

text \<open>The values whose hashes a journal relies on: its checkpoints and its artifacts.\<close>

definition journal_documents :: "env \<Rightarrow> plan \<Rightarrow> json set" where
  "journal_documents e p =
     cp_value e (operation_id p) ` set (journal p) \<union> ran (bt_get (artifacts p))"

definition journal_collision :: "env \<Rightarrow> plan \<Rightarrow> plan \<Rightarrow> bool" where
  "journal_collision e p q \<longleftrightarrow>
     (\<exists>v\<in>journal_documents e p. \<exists>w\<in>journal_documents e q. collides (hash_value e) v w)"

definition checkpoint_facts ::
    "checkpoint \<Rightarrow> transaction_stage \<times> string \<times> plan_status \<times> string option \<times> string option" where
  "checkpoint_facts c = (cp_stage c, cp_plan_content_hash c, cp_plan_status c, cp_previous_hash c,
     cp_artifact_hash c)"

lemma same_values_same_facts:
  "map (cp_value e i) cs = map (cp_value e i) ds \<Longrightarrow> map checkpoint_facts cs = map checkpoint_facts ds"
proof (induction cs arbitrary: ds)
  case (Cons c cs)
  then obtain d ds' where ds: "ds = d # ds'" by (cases ds) auto
  with Cons.prems have "checkpoint_facts c = checkpoint_facts d"
    using cp_value_determines [of e i c i d] by (simp add: checkpoint_facts_def)
  with Cons ds show ?case by simp
qed simp

lemma same_head_same_checkpoints:
  assumes sound: "journal_sound e p" "journal_sound e q" and ne: "journal p \<noteq> []" "journal q \<noteq> []"
    and head: "cp_hash (last (journal p)) = cp_hash (last (journal q))"
    and nc: "\<not> journal_collision e p q"
  shows "operation_id p = operation_id q \<and>
         map (cp_value e (operation_id p)) (journal p) = map (cp_value e (operation_id p)) (journal q)"
proof -
  let ?c = "last (journal p)" and ?d = "last (journal q)"
  have ins: "?c \<in> set (journal p)" "?d \<in> set (journal q)" using ne by simp_all
  have chains: "chain.chain_from e (operation_id p) None (journal p)"
    "chain.chain_from e (operation_id q) None (journal q)"
    using sound by (simp_all add: journal_sound_def)
  have "hash_value e (cp_value e (operation_id p) ?c) = hash_value e (cp_value e (operation_id q) ?d)"
    using trans [OF trans [OF chain.chain_digest [OF chains(1) ins(1), symmetric] head] chain.chain_digest [OF chains(2) ins(2)]]
    by assumption
  moreover have "cp_value e (operation_id p) ?c \<in> journal_documents e p"
    "cp_value e (operation_id q) ?d \<in> journal_documents e q"
    using ins by (simp_all add: journal_documents_def)
  ultimately have "cp_value e (operation_id p) ?c = cp_value e (operation_id q) ?d"
    using nc collidesI unfolding journal_collision_def by blast
  then have ids: "operation_id p = operation_id q" using cp_value_determines by blast
  moreover have "chain.chain_head None (journal p) = chain.chain_head None (journal q)"
    using ne head by (simp add: chain_head_last)
  ultimately show ?thesis
    using nc chain.chain_tamper_evident [OF chains(1) chains(2) [folded ids]] ids
    unfolding journal_collision_def journal_documents_def by auto
qed

lemma same_checkpoints_same_artifacts:
  assumes sound: "journal_sound e p" "journal_sound e q" and rep: "plan_rep p" "plan_rep q"
    and facts: "map checkpoint_facts (journal p) = map checkpoint_facts (journal q)"
    and nc: "\<not> journal_collision e p q"
  shows "artifacts p = artifacts q"
proof (rule bt.map_ext)
  fix k
  have inv: "bt_invar (artifacts p)" "bt_invar (artifacts q)" using rep by (simp_all add: plan_rep_def)
  have "map (\<lambda>c. (cp_stage c, cp_artifact_hash c)) (journal p)
      = map (\<lambda>c. (cp_stage c, cp_artifact_hash c)) (journal q)"
    using arg_cong [OF facts, of "map (\<lambda>(s, _, _, _, h). (s, h))"]
    by (simp add: checkpoint_facts_def o_def)
  then have pairs: "(\<lambda>c. (cp_stage c, cp_artifact_hash c)) ` set (journal p)
      = (\<lambda>c. (cp_stage c, cp_artifact_hash c)) ` set (journal q)"
    by (metis list.set_map)
  have "cp_stage ` set (filter with_artifact cs)
      = fst ` {x \<in> (\<lambda>c. (cp_stage c, cp_artifact_hash c)) ` set cs. snd x \<noteq> None}" for cs
    by force
  with pairs have "cp_stage ` set (filter with_artifact (journal p)) = cp_stage ` set (filter with_artifact (journal q))"
    by simp
  then have dom: "dom (bt_get (artifacts p)) = dom (bt_get (artifacts q))"
    by (simp add: sound_artifact_keys [OF sound(1) inv(1)] sound_artifact_keys [OF sound(2) inv(2)])
  show "bt_get (artifacts p) k = bt_get (artifacts q) k"
  proof (cases "bt_get (artifacts p) k")
    case None
    with dom show ?thesis by (metis domIff)
  next
    case (Some v)
    with dom obtain w where w: "bt_get (artifacts q) k = Some w" by blast
    from Some have "k \<in> dom (bt_get (artifacts p))" by blast
    then obtain c where c: "c \<in> set (journal p)" "k = stage_str (cp_stage c)"
      by (auto simp: sound_artifact_keys [OF sound(1) inv(1)])
    with pairs have "(cp_stage c, cp_artifact_hash c)
        \<in> (\<lambda>c. (cp_stage c, cp_artifact_hash c)) ` set (journal q)" by blast
    then obtain d where d: "d \<in> set (journal q)" "cp_stage d = cp_stage c"
      "cp_artifact_hash d = cp_artifact_hash c" by auto
    have "artifact_ok e (artifacts p) c" "artifact_ok e (artifacts q) d"
      using sound c d by (auto simp: journal_sound_def list_all_iff)
    then have "hash_value e v = hash_value e w"
      using Some w c d by (auto simp: artifact_ok_def split: option.splits)
    moreover have "v \<in> journal_documents e p" "w \<in> journal_documents e q"
      using Some w by (auto simp: journal_documents_def ran_def)
    ultimately show ?thesis using nc Some w collidesI unfolding journal_collision_def by metis
  qed
qed (use rep in \<open>simp_all add: plan_rep_def\<close>)

lemma approval_receipt_determines:
  assumes "approval_receipt e p a = approval_receipt e q b"
    and "\<forall>m\<in>set_option (max_cost a). validate_money m = Inr ()"
    and "\<forall>m\<in>set_option (max_cost b). validate_money m = Inr ()"
  shows "approved_content_hash a = approved_content_hash b \<and> max_cost a = max_cost b"
proof -
  note eq = jobj_eqD [OF assms(1) [unfolded approval_receipt_def]]
  have "jopt money_json (max_cost a) = jopt money_json (max_cost b)"
    using eq [of "''max_cost''"] by simp
  then have "max_cost a = max_cost b"
    using assms(2,3) by (auto simp: jopt_def money_json_inject split: option.splits)
      (simp_all add: money_json_def jobj_def)
  then show ?thesis using eq [of "''approved_content_hash''"] by simp
qed

lemma same_approval:
  assumes "validate_approval_checkpoint e True p = Inr ()" "validate_approval_checkpoint e True q = Inr ()"
    and stages: "cp_stage ` set (journal p) = cp_stage ` set (journal q)" and arts: "artifacts p = artifacts q"
  shows "map_option approved_content_hash (p_approval p) = map_option approved_content_hash (p_approval q) \<and>
      map_option max_cost (p_approval p) = map_option max_cost (p_approval q)"
proof (cases "ApprovalPersisted \<in> cp_stage ` set (journal q)")
  case True
  with assms(1) stages obtain a where a: "p_approval p = Some a"
    "\<forall>m\<in>set_option (max_cost a). validate_money m = Inr ()"
    "bt_get (artifacts p) (stage_str ApprovalPersisted) = Some (approval_receipt e p a)"
    unfolding approval_iff by auto
  from True assms(2) obtain b where b: "p_approval q = Some b"
    "\<forall>m\<in>set_option (max_cost b). validate_money m = Inr ()"
    "bt_get (artifacts q) (stage_str ApprovalPersisted) = Some (approval_receipt e q b)"
    unfolding approval_iff by auto
  from a b arts have "approval_receipt e p a = approval_receipt e q b" by simp
  from approval_receipt_determines [OF this a(2) b(2)] a b show ?thesis by simp
next
  case False
  with assms show ?thesis by (simp add: approval_iff)
qed

section \<open>Properties\<close>

definition demo_plan :: plan where
  "demo_plan = projr (draft demo_env ''op-1'' 0 1 ''default'' ''acct'' ''catalog''
     (capability_new ''dns-create'' ''Create a record'' ''POST'' ''/zones/{zone_id}/dns_records'') JNull)"

lemma demo_plan_draft:
  "draft demo_env ''op-1'' 0 1 ''default'' ''acct'' ''catalog''
     (capability_new ''dns-create'' ''Create a record'' ''POST'' ''/zones/{zone_id}/dns_records'') JNull
   = Inr demo_plan"
  using draft_total [of demo_env "''op-1''" 0 1 "''default''" "''acct''" "''catalog''"
      "capability_new ''dns-create'' ''Create a record'' ''POST'' ''/zones/{zone_id}/dns_records''" JNull]
  by (auto simp: demo_plan_def)

lemmas demo_plan_facts = draft_Inr [OF demo_plan_draft]

lemma demo_plan_journal: "journal demo_plan \<noteq> []"
  using demo_plan_facts by auto

definition demo_closed :: plan where
  "demo_closed = recorded demo_env 7 Closed (Some (jobj [(''result'', JString ''ok'')]))
     (demo_plan\<lparr>status := Cancelled\<rparr>)"

lemma demo_closed_record:
  "record_transaction_stage_inner demo_env 7 Closed (Some (jobj [(''result'', JString ''ok'')]))
     (demo_plan\<lparr>status := Cancelled\<rparr>) = Inr demo_closed"
proof -
  have "validate_transaction_journal_inner demo_env False (demo_plan\<lparr>status := Cancelled\<rparr>) = Inr ()"
    using demo_plan_facts
    by (auto simp: validate_transaction_journal_def validate_inner_iff validate_journal_status approval_iff)
  moreover have "redact_json (jobj [(''result'', JString ''ok'')]) = jobj [(''result'', JString ''ok'')]"
    by code_simp
  ultimately show ?thesis
    using demo_plan_facts demo_plan_journal
    by (simp add: record_Inr_iff demo_closed_def less_transaction_stage_def)
qed

text \<open>
  The exact condition for appending a checkpoint to a journal that has started: the
  existing chain validates, the stage advances past the current one, and the artifact, if
  any, carries no secret-bearing field. In every other case the plan is refused.
\<close>

lemma record_accepts_iff:
  "is_ok (record_transaction_stage_inner e t s a p) \<longleftrightarrow>
     (if journal p = [] then s = PlanPrepared
      else stage_rank (p_stage p) < stage_rank s \<and> validate_transaction_journal_inner e False p = Inr ())
     \<and> (case a of None \<Rightarrow> True | Some v \<Rightarrow> redact_json v = v)"
  by (cases a) (auto simp: record_Inr_iff less_transaction_stage_def)

text \<open>
  A valid journal is strictly forward-only, so no stage occurs twice and there are at
  most eleven checkpoints; every artifact belongs to the stage of one of them and is free
  of secret-bearing fields.
\<close>

lemma journal_forward_only:
  assumes "validate_transaction_journal e p = Inr ()" "plan_rep p" "journal p \<noteq> []"
  shows "sorted_wrt (<) (map (stage_rank \<circ> cp_stage) (journal p)) \<and> length (journal p) \<le> 11 \<and>
    (k \<in> dom (bt_get (artifacts p)) \<longrightarrow>
       k \<in> (stage_str \<circ> cp_stage) ` set (journal p) \<and>
       redact_json (the (bt_get (artifacts p) k)) = the (bt_get (artifacts p) k))"
proof -
  have sound: "journal_sound e p" by (rule valid_sound [OF assms(1,3)])
  then have "sorted_wrt (<) (map (stage_rank \<circ> cp_stage) (journal p))"
    by (simp add: journal_sound_def less_transaction_stage_def sorted_wrt_map)
  moreover have "k \<in> (stage_str \<circ> cp_stage) ` set (journal p) \<and>
       redact_json (the (bt_get (artifacts p) k)) = the (bt_get (artifacts p) k)"
    if "k \<in> dom (bt_get (artifacts p))"
  proof -
    from that obtain c where c: "c \<in> set (journal p)" "with_artifact c" "k = stage_str (cp_stage c)"
      using assms(2) by (auto simp: sound_artifact_keys [OF sound] plan_rep_def)
    with sound have "artifact_ok e (artifacts p) c" by (simp add: journal_sound_def list_all_iff)
    with c show ?thesis by (auto simp: artifact_ok_def)
  qed
  ultimately show ?thesis using sound_length_bound [OF sound] by blast
qed

text \<open>
  C30. The journal is tamper-evident. If two plans validate and their last checkpoints carry
  the same hash, then they describe the same operation with the same stages, statuses,
  content hashes and links, the same artifacts, the same approval hash and cost ceiling and
  the same current state, unless two of the documents they hash are a collision.
\<close>

theorem journal_tamper_evident:
  assumes "validate_transaction_journal e p = Inr ()" "plan_rep p" "journal p \<noteq> []"
    and "validate_transaction_journal e q = Inr ()" "plan_rep q" "journal q \<noteq> []"
    and "cp_hash (last (journal p)) = cp_hash (last (journal q))"
  shows "operation_id p = operation_id q \<and>
      map checkpoint_facts (journal p) = map checkpoint_facts (journal q) \<and>
      artifacts p = artifacts q \<and> p_stage p = p_stage q \<and> status p = status q \<and>
      map_option approved_content_hash (p_approval p) = map_option approved_content_hash (p_approval q) \<and>
      map_option max_cost (p_approval p) = map_option max_cost (p_approval q)
    \<or> journal_collision e p q"
proof (cases "journal_collision e p q")
  case False
  have sound: "journal_sound e p" "journal_sound e q" using assms valid_sound by blast+
  from same_head_same_checkpoints [OF sound assms(3,6,7) False]
  have ids: "operation_id p = operation_id q"
    and facts: "map checkpoint_facts (journal p) = map checkpoint_facts (journal q)"
    by (auto intro: same_values_same_facts)
  have arts: "artifacts p = artifacts q"
    by (rule same_checkpoints_same_artifacts [OF sound assms(2,5) facts False])
  have "checkpoint_facts (last (journal p)) = checkpoint_facts (last (journal q))"
    using arg_cong [OF facts, of last] assms(3,6) by (simp add: last_map)
  then have "p_stage p = p_stage q" "status p = status q"
    using assms sound
    by (simp_all add: validate_transaction_journal_def validate_inner_iff journal_sound_def checkpoint_facts_def)
  moreover have "cp_stage ` set (journal p) = cp_stage ` set (journal q)"
    using arg_cong [OF facts, of "\<lambda>xs. fst ` set xs"] by (simp add: checkpoint_facts_def image_image)
  then have "map_option approved_content_hash (p_approval p) = map_option approved_content_hash (p_approval q) \<and>
      map_option max_cost (p_approval p) = map_option max_cost (p_approval q)"
    using assms(1,3,4,6) arts
    by (intro same_approval [of e]) (simp_all add: validate_transaction_journal_def validate_inner_iff)
  ultimately show ?thesis using ids facts arts by blast
qed simp

theorem journal_tamper_evident_witness:
  "artifacts demo_plan = artifacts (demo_plan\<lparr>non_reversible_warnings := [''w'']\<rparr>)
   \<or> journal_collision demo_env demo_plan (demo_plan\<lparr>non_reversible_warnings := [''w'']\<rparr>)"
proof -
  let ?q = "demo_plan\<lparr>non_reversible_warnings := [''w'']\<rparr>"
  have "journal p \<noteq> [] \<Longrightarrow> validate_transaction_journal e (p\<lparr>non_reversible_warnings := w\<rparr>) = Inr () \<longleftrightarrow>
      validate_transaction_journal e p = Inr ()" for e p w
    by (simp add: validate_transaction_journal_def validate_inner_iff journal_sound_def
        approval_iff approval_receipt_def)
  moreover have "plan_rep (p\<lparr>non_reversible_warnings := w\<rparr>) = plan_rep p" for p w
    by (simp add: plan_rep_def)
  ultimately have "validate_transaction_journal demo_env ?q = Inr ()" "plan_rep ?q" "journal ?q \<noteq> []"
    using demo_plan_facts demo_plan_journal by auto
  then show ?thesis
    using journal_tamper_evident [of demo_env demo_plan ?q] demo_plan_facts demo_plan_journal by auto
qed

end
