(* ===== verification/Admission_Policy.thy ===== *)
theory Admission_Policy
  imports Plan_Journal
begin

text \<open>
  Admission policy bundles of \<^verbatim>\<open>cfctl-core\<close> (\<^verbatim>\<open>AdmissionPolicyBundleV1\<close>): approved data that
  may tighten the decision of the compiled policy and never broaden it.
\<close>

section \<open>State\<close>

datatype bundle_status = Bundle_Pending | Bundle_Approved | Bundle_Active | Bundle_Superseded | Bundle_Revoked

fun bundle_status_str :: "bundle_status \<Rightarrow> string" where
  "bundle_status_str Bundle_Pending = ''pending''"
| "bundle_status_str Bundle_Approved = ''approved''"
| "bundle_status_str Bundle_Active = ''active''"
| "bundle_status_str Bundle_Superseded = ''superseded''"
| "bundle_status_str Bundle_Revoked = ''revoked''"

fun effect_str :: "effect_class \<Rightarrow> string" where
  "effect_str Effect_ReadOnly = ''read_only''"
| "effect_str Effect_DataWrite = ''data_write''"
| "effect_str Effect_ReversibleWrite = ''reversible_write''"
| "effect_str Effect_Destructive = ''destructive''"
| "effect_str Effect_ExternalCommunication = ''external_communication''"
| "effect_str Effect_IdentityOrOwnership = ''identity_or_ownership''"
| "effect_str Effect_Spend = ''spend''"
| "effect_str Effect_Irreversible = ''irreversible''"
| "effect_str Effect_Unknown = ''unknown''"

fun risk_str :: "risk_class \<Rightarrow> string" where
  "risk_str Risk_Read = ''read''"
| "risk_str Risk_Recovery = ''recovery''"
| "risk_str Risk_ScopedWrite = ''scoped_write''"
| "risk_str Risk_CrossConfig = ''cross_config''"
| "risk_str Risk_Destructive = ''destructive''"
| "risk_str Risk_SecretSensitive = ''secret_sensitive''"
| "risk_str Risk_ExternalCommunication = ''external_communication''"
| "risk_str Risk_IdentityOrOwnership = ''identity_or_ownership''"
| "risk_str Risk_Spend = ''spend''"
| "risk_str Risk_Irreversible = ''irreversible''"
| "risk_str Risk_Unknown = ''unknown''"

record policy_rule =
  rule_id :: string
  rule_capability_id :: "string option"
  rule_product :: "string option"
  rule_effect :: "effect_class option"
  rule_risk :: "risk_class option"
  rule_disposition :: disposition
  rule_reason :: string

record policy_bundle =
  b_schema_version :: nat
  bundle_id :: string
  bundle_name :: string
  b_created_at :: datetime
  bundle_status :: bundle_status
  rules :: "policy_rule list"
  b_content_hash :: string
  b_approved_at :: "datetime option"
  b_approved_content_hash :: "string option"

section \<open>Operations\<close>

definition rule_matches :: "policy_rule \<Rightarrow> capability \<Rightarrow> bool" where
  "rule_matches r c \<longleftrightarrow>
     (case rule_capability_id r of None \<Rightarrow> True | Some i \<Rightarrow> i = cap_id c) \<and>
     (case rule_product r of None \<Rightarrow> True | Some p \<Rightarrow> p = product c) \<and>
     (case rule_effect r of None \<Rightarrow> True | Some x \<Rightarrow> x = effect c) \<and>
     (case rule_risk r of None \<Rightarrow> True | Some x \<Rightarrow> x = risk c)"

definition rule_json :: "policy_rule \<Rightarrow> json" where
  "rule_json r = jobj (
     [(''rule_id'', JString (rule_id r)),
      (''disposition'', JString (disposition_str (rule_disposition r))),
      (''reason'', JString (rule_reason r))]
     @ jskip ''capability_id'' JString (rule_capability_id r)
     @ jskip ''product'' JString (rule_product r)
     @ jskip ''effect'' (JString \<circ> effect_str) (rule_effect r)
     @ jskip ''risk'' (JString \<circ> risk_str) (rule_risk r))"

definition bundle_content :: "env \<Rightarrow> policy_bundle \<Rightarrow> json" where
  "bundle_content e b = JArray
     [jnat (b_schema_version b), JString (bundle_id b), JString (bundle_name b),
      jtime e (b_created_at b), jlist rule_json (rules b)]"

definition bundle_refresh_hash :: "env \<Rightarrow> policy_bundle \<Rightarrow> policy_bundle" where
  "bundle_refresh_hash e b = b\<lparr>b_content_hash := canonical_hash_value e (bundle_content e b)\<rparr>"

definition bundle_pending :: "env \<Rightarrow> string \<Rightarrow> datetime \<Rightarrow> string \<Rightarrow> policy_rule list
    \<Rightarrow> core_error + policy_bundle" where
  "bundle_pending e uuid now name rs =
     (if list_ex (\<lambda>r. rule_disposition r = AutoExecute) rs then
        Inl (AdmissionPolicyBroadened ''pending-bundle'')
      else Inr (bundle_refresh_hash e
        \<lparr>b_schema_version = 1, bundle_id = uuid, bundle_name = name, b_created_at = now,
         bundle_status = Bundle_Pending, rules = rs, b_content_hash = [], b_approved_at = None,
         b_approved_content_hash = None\<rparr>))"

definition bundle_validate :: "env \<Rightarrow> policy_bundle \<Rightarrow> core_error + unit" where
  "bundle_validate e b =
     (if b_schema_version b \<noteq> 1 then Inl (AdmissionPolicyBroadened (bundle_id b))
      else if list_ex (\<lambda>r. rule_disposition r = AutoExecute) (rules b) then
        Inl (AdmissionPolicyBroadened (bundle_id b))
      else if canonical_hash_value e (bundle_content e b) \<noteq> b_content_hash b then
        Inl (AdmissionPolicyBroadened (bundle_id b))
      else if bundle_status b \<noteq> Bundle_Pending \<and> b_approved_content_hash b \<noteq> Some (b_content_hash b) then
        Inl (AdmissionPolicyBroadened (bundle_id b))
      else Inr ())"

definition bundle_approve :: "env \<Rightarrow> datetime \<Rightarrow> bool \<Rightarrow> policy_bundle \<Rightarrow> core_error + policy_bundle" where
  "bundle_approve e now explicit_yes b =
     (if bundle_status b \<noteq> Bundle_Pending then
        Inl (InvalidAdmissionPolicyState (bundle_id b) (bundle_status_str (bundle_status b)) ''pending'')
      else if \<not> explicit_yes then Inl ExplicitApprovalRequired
      else res_bind (bundle_validate e b) (\<lambda>_.
        Inr (b\<lparr>bundle_status := Bundle_Approved, b_approved_at := Some now,
               b_approved_content_hash := Some (b_content_hash b)\<rparr>)))"

definition bundle_activate :: "env \<Rightarrow> policy_bundle \<Rightarrow> core_error + policy_bundle" where
  "bundle_activate e b =
     (if bundle_status b \<notin> {Bundle_Approved, Bundle_Superseded} then
        Inl (InvalidAdmissionPolicyState (bundle_id b) (bundle_status_str (bundle_status b))
              ''approved or superseded'')
      else res_bind (bundle_validate e b) (\<lambda>_. Inr (b\<lparr>bundle_status := Bundle_Active\<rparr>)))"

definition bundle_supersede :: "policy_bundle \<Rightarrow> policy_bundle" where
  "bundle_supersede b =
     (if bundle_status b = Bundle_Active then b\<lparr>bundle_status := Bundle_Superseded\<rparr> else b)"

definition bundle_revoke :: "policy_bundle \<Rightarrow> policy_bundle" where
  "bundle_revoke b = b\<lparr>bundle_status := Bundle_Revoked\<rparr>"

fun apply_rules :: "string \<Rightarrow> disposition \<Rightarrow> policy_rule list \<Rightarrow> policy_decision \<Rightarrow> core_error + policy_decision" where
  "apply_rules i floor_disposition [] d = Inr d"
| "apply_rules i floor_disposition (r # rs) d =
     (if restriction_rank (rule_disposition r) < restriction_rank floor_disposition then
        Inl (AdmissionPolicyBroadened i)
      else
        (let d' = (if restriction_rank (rule_disposition r) > restriction_rank (pd_disposition d)
                   then d\<lparr>pd_disposition := rule_disposition r\<rparr> else d)
         in apply_rules i floor_disposition rs
              (d'\<lparr>pd_reasons := pd_reasons d'
                  @ [''admission rule '' @ rule_id r @ '': '' @ rule_reason r]\<rparr>)))"

definition tighten :: "env \<Rightarrow> policy_decision \<Rightarrow> capability \<Rightarrow> policy_bundle \<Rightarrow> core_error + policy_decision" where
  "tighten e floor_decision c b =
     res_bind (bundle_validate e b) (\<lambda>_.
     if bundle_status b \<noteq> Bundle_Active then
       Inl (InvalidAdmissionPolicyState (bundle_id b) (bundle_status_str (bundle_status b)) ''active'')
     else apply_rules (bundle_id b) (pd_disposition floor_decision)
            (filter (\<lambda>r. rule_matches r c) (rules b)) floor_decision)"

section \<open>Steps of a bundle\<close>

inductive bundle_step :: "env \<Rightarrow> policy_bundle \<Rightarrow> policy_bundle \<Rightarrow> bool" for e where
  approve: "bundle_approve e now explicit_yes b = Inr b' \<Longrightarrow> bundle_step e b b'"
| activate: "bundle_activate e b = Inr b' \<Longrightarrow> bundle_step e b b'"
| supersede: "bundle_step e b (bundle_supersede b)"
| revoke: "bundle_step e b (bundle_revoke b)"

inductive bundle_reachable :: "env \<Rightarrow> policy_bundle \<Rightarrow> bool" for e where
  staged: "bundle_pending e uuid now name rs = Inr b \<Longrightarrow> bundle_reachable e b"
| stepped: "bundle_reachable e b \<Longrightarrow> bundle_step e b b' \<Longrightarrow> bundle_reachable e b'"

section \<open>Facts\<close>

interpretation pol: hash_bound "canonical_hash_value e" "bundle_content e" b_content_hash
  "\<lambda>h. b_content_hash_update (\<lambda>_. h)" for e
  by unfold_locales (simp_all add: bundle_content_def)

lemma bundle_refresh_is_refresh: "bundle_refresh_hash e = pol.refresh e"
  by (simp add: fun_eq_iff bundle_refresh_hash_def pol.refresh_def)

lemma bundle_validate_iff:
  "bundle_validate e b = Inr () \<longleftrightarrow>
     b_schema_version b = 1 \<and> list_all (\<lambda>r. rule_disposition r \<noteq> AutoExecute) (rules b) \<and>
     pol.bound e b \<and>
     (bundle_status b \<noteq> Bundle_Pending \<longrightarrow> b_approved_content_hash b = Some (b_content_hash b))"
  by (auto simp: bundle_validate_def pol.bound_def list_ex_iff list_all_iff)

lemma bundle_approve_iff:
  "bundle_approve e now y b = Inr b' \<longleftrightarrow>
     y \<and> bundle_status b = Bundle_Pending \<and> bundle_validate e b = Inr () \<and>
     b' = b\<lparr>bundle_status := Bundle_Approved, b_approved_at := Some now,
            b_approved_content_hash := Some (b_content_hash b)\<rparr>"
  by (auto simp: bundle_approve_def result_simps)

lemma bundle_activate_iff:
  "bundle_activate e b = Inr b' \<longleftrightarrow>
     bundle_status b \<in> {Bundle_Approved, Bundle_Superseded} \<and> bundle_validate e b = Inr () \<and>
     b' = b\<lparr>bundle_status := Bundle_Active\<rparr>"
  by (auto simp: bundle_activate_def result_simps)

lemma apply_rules_bounds:
  "apply_rules i fl rs d = Inr d' \<Longrightarrow> fl \<le> pd_disposition d \<Longrightarrow>
     fl \<le> pd_disposition d' \<and> pd_disposition d \<le> pd_disposition d' \<and>
     (\<forall>r\<in>set rs. rule_disposition r \<le> pd_disposition d') \<and>
     pd_disposition d' \<in> insert (pd_disposition d) (rule_disposition ` set rs) \<and>
     pd_requires_cost_ceiling d' = pd_requires_cost_ceiling d \<and>
     pd_schema_version d' = pd_schema_version d \<and>
     pd_reasons d' = pd_reasons d @ map (\<lambda>r. ''admission rule '' @ rule_id r @ '': '' @ rule_reason r) rs"
proof (induction rs arbitrary: d)
  case (Cons r rs)
  let ?d = "(if rule_disposition r > pd_disposition d then d\<lparr>pd_disposition := rule_disposition r\<rparr> else d)"
  let ?e = "?d\<lparr>pd_reasons := pd_reasons ?d @ [''admission rule '' @ rule_id r @ '': '' @ rule_reason r]\<rparr>"
  have rest: "apply_rules i fl rs ?e = Inr d'" and ge: "fl \<le> rule_disposition r"
    using Cons.prems(1) by (auto simp: Let_def less_disposition_def less_eq_disposition_def not_less split: if_splits)
  have d: "pd_disposition ?e = max (pd_disposition d) (rule_disposition r)"
    by (auto simp: max_def)
  from Cons.IH [OF rest] Cons.prems(2) ge
  have IH: "pd_disposition ?e \<le> pd_disposition d'"
    "\<forall>r\<in>set rs. rule_disposition r \<le> pd_disposition d'"
    "pd_disposition d' \<in> insert (pd_disposition ?e) (rule_disposition ` set rs)"
    "pd_requires_cost_ceiling d' = pd_requires_cost_ceiling d" "pd_schema_version d' = pd_schema_version d"
    "pd_reasons d' = pd_reasons ?e @ map (\<lambda>r. ''admission rule '' @ rule_id r @ '': '' @ rule_reason r) rs"
    by (auto simp: d le_max_iff_disj split: if_splits)
  then show ?case using d Cons.prems(2) by (auto simp: max_def split: if_splits)
qed auto

lemma apply_rules_ok_iff:
  "is_ok (apply_rules i fl rs d) \<longleftrightarrow> list_all (\<lambda>r. fl \<le> rule_disposition r) rs"
  by (induction rs arbitrary: d) (auto simp: Let_def less_eq_disposition_def)

lemma tighten_Inr:
  "tighten e fl c b = Inr d \<Longrightarrow>
     bundle_validate e b = Inr () \<and> bundle_status b = Bundle_Active \<and>
     apply_rules (bundle_id b) (pd_disposition fl) (filter (\<lambda>r. rule_matches r c) (rules b)) fl = Inr d"
  by (auto simp: tighten_def result_simps split: if_splits)

definition approved_bundle :: "env \<Rightarrow> policy_bundle \<Rightarrow> bool" where
  "approved_bundle e b \<longleftrightarrow> pol.bound e b \<and> b_schema_version b = 1 \<and>
     list_all (\<lambda>r. rule_disposition r \<noteq> AutoExecute) (rules b) \<and>
     (bundle_status b \<in> {Bundle_Approved, Bundle_Active, Bundle_Superseded} \<longrightarrow>
        b_approved_content_hash b = Some (b_content_hash b))"

lemma bundle_step_inv: "bundle_step e b b' \<Longrightarrow> approved_bundle e b \<Longrightarrow> approved_bundle e b'"
  by (induction rule: bundle_step.induct)
    (auto simp: approved_bundle_def bundle_approve_iff bundle_activate_iff bundle_supersede_def
      bundle_revoke_def pol.bound_def bundle_content_def)

lemma bundle_reachable_inv: "bundle_reachable e b \<Longrightarrow> approved_bundle e b"
proof (induction rule: bundle_reachable.induct)
  case (staged uuid now name rs b)
  then have "pol.bound e b"
    by (auto simp: bundle_pending_def bundle_refresh_is_refresh pol.bound_refresh split: if_splits)
  with staged show ?case
    by (auto simp: bundle_pending_def approved_bundle_def bundle_refresh_hash_def list_ex_iff list_all_iff
        split: if_splits)
qed (rule bundle_step_inv)

lemma bundle_step_content:
  "bundle_step e b b' \<Longrightarrow> rules b' = rules b \<and> b_content_hash b' = b_content_hash b \<and>
     (bundle_status b = Bundle_Revoked \<longrightarrow> bundle_status b' = Bundle_Revoked)"
  by (induction rule: bundle_step.induct)
    (auto simp: bundle_approve_iff bundle_activate_iff bundle_supersede_def bundle_revoke_def)

lemma bundle_path_content:
  "(bundle_step e)\<^sup>*\<^sup>* b b' \<Longrightarrow> rules b' = rules b \<and> b_content_hash b' = b_content_hash b \<and>
     (bundle_status b = Bundle_Revoked \<longrightarrow> bundle_status b' = Bundle_Revoked)"
  by (induction rule: rtranclp_induct) (auto dest: bundle_step_content)

section \<open>Properties\<close>

definition demo_rule :: policy_rule where
  "demo_rule = \<lparr>rule_id = ''r1'', rule_capability_id = Some ''dns-create'', rule_product = None,
     rule_effect = None, rule_risk = None, rule_disposition = Blocked, rule_reason = ''frozen''\<rparr>"

definition demo_bundle :: policy_bundle where
  "demo_bundle = projr (bundle_pending demo_env ''b1'' 0 ''freeze'' [demo_rule])"

definition demo_active_bundle :: policy_bundle where
  "demo_active_bundle = demo_bundle\<lparr>bundle_status := Bundle_Active, b_approved_at := Some 1,
     b_approved_content_hash := Some (b_content_hash demo_bundle)\<rparr>"

definition demo_capability :: capability where
  "demo_capability = capability_new ''dns-create'' ''Create a record'' ''POST'' ''/zones/{zone_id}/dns_records''"

definition demo_floor :: policy_decision where
  "demo_floor = \<lparr>pd_schema_version = 1, pd_disposition = ApprovalRequired, pd_reasons = [''write''],
     pd_requires_cost_ceiling = False\<rparr>"

lemma demo_bundle_staged: "bundle_pending demo_env ''b1'' 0 ''freeze'' [demo_rule] = Inr demo_bundle"
  by (simp add: demo_bundle_def bundle_pending_def demo_rule_def)

lemma demo_bundle_valid: "bundle_status demo_bundle = Bundle_Pending" "bundle_validate demo_env demo_bundle = Inr ()"
  by (simp_all add: demo_bundle_def bundle_pending_def demo_rule_def bundle_validate_def bundle_refresh_hash_def
      bundle_content_def)

lemma demo_active_reachable: "bundle_reachable demo_env demo_active_bundle"
proof -
  have "bundle_approve demo_env 1 True demo_bundle = Inr (demo_active_bundle\<lparr>bundle_status := Bundle_Approved\<rparr>)"
    by (simp add: bundle_approve_iff demo_bundle_valid demo_active_bundle_def)
  moreover have "bundle_validate demo_env (demo_active_bundle\<lparr>bundle_status := Bundle_Approved\<rparr>) = Inr ()"
    using demo_bundle_valid by (auto simp: bundle_validate_iff demo_active_bundle_def pol.bound_def bundle_content_def)
  then have "bundle_activate demo_env (demo_active_bundle\<lparr>bundle_status := Bundle_Approved\<rparr>) = Inr demo_active_bundle"
    by (simp add: bundle_activate_iff demo_active_bundle_def)
  ultimately show ?thesis
    using bundle_reachable.staged [OF demo_bundle_staged]
    by (meson bundle_reachable.stepped bundle_step.activate bundle_step.approve)
qed

lemma demo_tighten:
  "tighten demo_env demo_floor demo_capability demo_active_bundle =
     Inr (demo_floor\<lparr>pd_disposition := Blocked, pd_reasons := [''write'', ''admission rule r1: frozen'']\<rparr>)"
proof -
  have "rules demo_active_bundle = [demo_rule]" "bundle_status demo_active_bundle = Bundle_Active"
    by (simp_all add: demo_active_bundle_def demo_bundle_def bundle_pending_def demo_rule_def bundle_refresh_hash_def)
  moreover have "bundle_validate demo_env demo_active_bundle = Inr ()"
    using bundle_reachable_inv [OF demo_active_reachable]
    by (simp add: bundle_validate_iff approved_bundle_def \<open>bundle_status demo_active_bundle = Bundle_Active\<close>)
  ultimately show ?thesis
    by (simp add: tighten_def rule_matches_def demo_rule_def demo_capability_def capability_new_def Let_def
        demo_floor_def)
qed

text \<open>
  An admission bundle never broadens the compiled decision. Whenever tightening returns a
  decision, its disposition is exactly the most restrictive among the compiled one and those
  of the bundle's matching rules, its cost-ceiling demand is unchanged, the compiled reasons
  come first, and the bundle is active with an approval of exactly its current content.
\<close>

lemma tighten_never_broadens:
  assumes "tighten e fl c b = Inr d"
  shows "pd_disposition fl \<le> pd_disposition d \<and>
    pd_disposition d = Max (insert (pd_disposition fl) (rule_disposition ` {r \<in> set (rules b). rule_matches r c})) \<and>
    pd_requires_cost_ceiling d = pd_requires_cost_ceiling fl \<and>
    take (length (pd_reasons fl)) (pd_reasons d) = pd_reasons fl \<and>
    bundle_status b = Bundle_Active \<and> b_approved_content_hash b = Some (b_content_hash b)"
proof -
  note t = tighten_Inr [OF assms]
  let ?M = "insert (pd_disposition fl) (rule_disposition ` {r \<in> set (rules b). rule_matches r c})"
  have "apply_rules (bundle_id b) (pd_disposition fl) (filter (\<lambda>r. rule_matches r c) (rules b)) fl = Inr d"
    using t by blast
  from apply_rules_bounds [OF this order_refl]
  have b: "pd_disposition fl \<le> pd_disposition d" "pd_disposition d \<in> ?M" "\<forall>x\<in>?M. x \<le> pd_disposition d"
    "pd_requires_cost_ceiling d = pd_requires_cost_ceiling fl"
    "take (length (pd_reasons fl)) (pd_reasons d) = pd_reasons fl"
    by auto
  have "pd_disposition d = Max ?M" using b(2,3) by (intro Max_eqI [symmetric]) auto
  then show ?thesis using b t by (simp add: bundle_validate_iff)
qed

text \<open>
  When tightening succeeds: the bundle validates, is active, and no matching rule asks for
  less than the compiled disposition. A matching rule below the compiled disposition makes
  the whole decision fail, so it can never lower it.
\<close>

lemma tighten_ok_iff:
  "is_ok (tighten e fl c b) \<longleftrightarrow>
     bundle_validate e b = Inr () \<and> bundle_status b = Bundle_Active \<and>
     list_all (\<lambda>r. pd_disposition fl \<le> rule_disposition r) (filter (\<lambda>r. rule_matches r c) (rules b))"
  using apply_rules_ok_iff [of "bundle_id b" "pd_disposition fl" "filter (\<lambda>r. rule_matches r c) (rules b)" fl]
  by (auto simp: tighten_def result_simps)

text \<open>
  The life of a bundle: in every reachable state its content is the one that was staged, it
  holds no rule that executes without approval, and an approved, active or superseded bundle
  carries an approval of exactly that content; a revoked bundle stays revoked and decides nothing.
\<close>

lemma bundle_lifecycle:
  assumes "bundle_reachable e b" "(bundle_step e)\<^sup>*\<^sup>* b b'"
  shows "rules b' = rules b \<and> b_content_hash b' = canonical_hash_value e (bundle_content e b') \<and>
    list_all (\<lambda>r. rule_disposition r \<noteq> AutoExecute) (rules b') \<and>
    (bundle_status b' \<in> {Bundle_Approved, Bundle_Active, Bundle_Superseded} \<longrightarrow>
       b_approved_content_hash b' = Some (b_content_hash b)) \<and>
    (bundle_status b = Bundle_Revoked \<longrightarrow> bundle_status b' = Bundle_Revoked \<and> \<not> is_ok (tighten e fl c b'))"
proof -
  from assms(2,1) have "bundle_reachable e b'"
    by (induction rule: rtranclp_induct) (auto intro: bundle_reachable.stepped)
  from bundle_reachable_inv [OF this] bundle_path_content [OF assms(2)] show ?thesis
    by (auto simp: approved_bundle_def pol.bound_def dest!: tighten_Inr)
qed

end
