(* ===== verification/Planner_Policy.thy ===== *)
theory Planner_Policy
  imports Capability_Contracts Admission_Policy
begin

text \<open>
  The policy engine of \<^verbatim>\<open>cfctl-planner\<close>: the compiled decision for a capability under an
  impact, with its blocking checks in the order of the code, and the way the command line
  tightens that decision with the active admission bundle before a plan is drafted.
\<close>

section \<open>The engine\<close>

record impact_context =
  ic_affected_repositories :: nat
  ic_affected_resources :: nat
  dependent_configurations :: nat
  has_unmanaged_dependencies :: bool
  has_dirty_overlap :: bool
  selector_ambiguous :: bool

definition incremental_cost_reason :: string where
  "incremental_cost_reason = ''operation can incur incremental cost''"

text \<open>The derived \<^verbatim>\<open>Debug\<close> names, which appear in reasons.\<close>

fun effect_debug :: "effect_class \<Rightarrow> string" where
  "effect_debug Effect_ReadOnly = ''ReadOnly''"
| "effect_debug Effect_DataWrite = ''DataWrite''"
| "effect_debug Effect_ReversibleWrite = ''ReversibleWrite''"
| "effect_debug Effect_Destructive = ''Destructive''"
| "effect_debug Effect_ExternalCommunication = ''ExternalCommunication''"
| "effect_debug Effect_IdentityOrOwnership = ''IdentityOrOwnership''"
| "effect_debug Effect_Spend = ''Spend''"
| "effect_debug Effect_Irreversible = ''Irreversible''"
| "effect_debug Effect_Unknown = ''Unknown''"

definition decision :: "disposition \<Rightarrow> string list \<Rightarrow> bool \<Rightarrow> policy_decision" where
  "decision d rs ceil = \<lparr>pd_schema_version = 1, pd_disposition = d, pd_reasons = rs,
     pd_requires_cost_ceiling = ceil\<rparr>"

text \<open>The step every rule of the engine takes: approval is required, for one more reason.\<close>

definition require_approval :: "string \<Rightarrow> policy_decision \<Rightarrow> policy_decision" where
  "require_approval reason d = d\<lparr>pd_disposition := ApprovalRequired, pd_reasons := pd_reasons d @ [reason]\<rparr>"

definition require_incremental_cost_approval :: "capability \<Rightarrow> policy_decision \<Rightarrow> policy_decision" where
  "require_incremental_cost_approval c d =
     (if incremental (cost c) then
        (require_approval incremental_cost_reason d)\<lparr>pd_requires_cost_ceiling := True\<rparr>
      else d)"

fun apply_effect_policy :: "effect_class \<Rightarrow> capability \<Rightarrow> policy_decision \<Rightarrow> policy_decision" where
  "apply_effect_policy Effect_ReadOnly c d = d"
| "apply_effect_policy Effect_DataWrite c d = require_approval ''operation writes database state'' d"
| "apply_effect_policy Effect_ReversibleWrite c d =
     (if risk c \<noteq> Risk_ScopedWrite \<or> \<not> supported (rollback c) then
        require_approval ''write is not both known-scoped and backed by a declared rollback'' d
      else d)"
| "apply_effect_policy Effect_Spend c d =
     d\<lparr>pd_disposition := ApprovalRequired, pd_requires_cost_ceiling := True,
       pd_reasons := (if incremental_cost_reason \<in> set (pd_reasons d) then pd_reasons d
                      else pd_reasons d @ [incremental_cost_reason])\<rparr>"
| "apply_effect_policy f c d =
     require_approval (''operation has '' @ effect_debug f @ '' effects'') d"

definition impact_policy :: "impact_context \<Rightarrow> policy_decision \<Rightarrow> policy_decision" where
  "impact_policy im d =
     (let d1 = (if ic_affected_repositories im > 1
                then require_approval ''operation affects multiple repositories'' d else d)
      in if dependent_configurations im > 0 \<or> has_unmanaged_dependencies im
         then require_approval ''operation has dependent or unmanaged configuration'' d1 else d1)"

definition risk_policy :: "capability \<Rightarrow> policy_decision \<Rightarrow> policy_decision" where
  "risk_policy c d =
     (let d1 = (if risk c \<in> {Risk_Unknown, Risk_CrossConfig}
                then require_approval ''risk is unknown or crosses configuration boundaries'' d else d)
      in if pd_reasons d1 = [] then d1\<lparr>pd_reasons := [''known scoped reversible write'']\<rparr> else d1)"

definition evaluate :: "application_tables \<Rightarrow> capability \<Rightarrow> impact_context \<Rightarrow> policy_decision" where
  "evaluate app c im =
     (if selector_ambiguous im then decision Blocked [''selectors resolve ambiguously''] False
      else if has_dirty_overlap im then
        decision Blocked [''a proposed repository patch overlaps uncommitted work''] False
      else if adapter_status c = Blocked_Adapter then
        decision Blocked [''the capability adapter is blocked''] False
      else
        (let contract_gaps = mutation_contract_gaps app c in
         if contract_gaps \<noteq> [] then
           decision Blocked contract_gaps (incremental (cost c) \<and> \<not> known (cost c))
         else if effect c = Effect_Spend \<and> incremental (cost c) \<and> \<not> known (cost c) then
           decision Blocked [''incremental cost is unknown and cannot satisfy a hard ceiling''] True
         else
           (let d = require_incremental_cost_approval c (decision AutoExecute [] False) in
            if effect c = Effect_ReadOnly \<and> risk c = Risk_Read \<and> \<not> incremental (cost c) then
              decision AutoExecute [''read-only operation''] False
            else risk_policy c (apply_effect_policy (effect c) c (impact_policy im d)))))"

section \<open>Admission\<close>

text \<open>
  The head of \<^verbatim>\<open>persist_prepared_plan\<close>: the compiled decision, tightened when a bundle is
  active. A blocked decision is answered with its joined reasons and without a plan; otherwise
  the plan carries the decision.
\<close>

definition admit :: "env \<Rightarrow> application_tables \<Rightarrow> capability \<Rightarrow> impact_context \<Rightarrow> policy_bundle option
    \<Rightarrow> core_error + policy_decision" where
  "admit e app c im active =
     (let compiled_policy = evaluate app c im
      in case active of None \<Rightarrow> Inr compiled_policy | Some b \<Rightarrow> tighten e compiled_policy c b)"

definition blocked_reply :: "policy_decision \<Rightarrow> string option" where
  "blocked_reply d = (if pd_disposition d = Blocked then Some (join ''; '' (pd_reasons d)) else None)"

section \<open>Facts\<close>

lemma decision_simps [simp]:
  "pd_disposition (decision d rs b) = d" "pd_reasons (decision d rs b) = rs"
  "pd_requires_cost_ceiling (decision d rs b) = b"
  by (simp_all add: decision_def)

lemma require_approval_simps [simp]:
  "pd_disposition (require_approval r d) = ApprovalRequired"
  "pd_reasons (require_approval r d) = pd_reasons d @ [r]"
  "pd_requires_cost_ceiling (require_approval r d) = pd_requires_cost_ceiling d"
  by (simp_all add: require_approval_def)

text \<open>What the engine keeps of the decision it builds: never blocked, and a reason whenever approval is asked for.\<close>

definition open_decision :: "policy_decision \<Rightarrow> bool" where
  "open_decision d \<longleftrightarrow> (pd_disposition d = AutoExecute \<longleftrightarrow> pd_reasons d = []) \<and> pd_disposition d \<noteq> Blocked"

lemma open_start: "open_decision (require_incremental_cost_approval c (decision AutoExecute [] False))"
  by (simp add: open_decision_def require_incremental_cost_approval_def)

lemma open_impact: "open_decision d \<Longrightarrow> open_decision (impact_policy im d)"
  by (simp add: open_decision_def impact_policy_def Let_def)

lemma open_effect: "open_decision d \<Longrightarrow> open_decision (apply_effect_policy f c d)"
  by (cases f) (auto simp: open_decision_def)

lemma impact_auto_iff:
  "pd_disposition (impact_policy im d) = AutoExecute \<longleftrightarrow>
     pd_disposition d = AutoExecute \<and> ic_affected_repositories im \<le> 1 \<and> dependent_configurations im = 0 \<and>
     \<not> has_unmanaged_dependencies im"
  "pd_requires_cost_ceiling (impact_policy im d) = pd_requires_cost_ceiling d"
  by (auto simp: impact_policy_def Let_def)

lemma effect_auto_iff:
  "pd_disposition (apply_effect_policy f c d) = AutoExecute \<longleftrightarrow>
     pd_disposition d = AutoExecute \<and>
     (f = Effect_ReadOnly \<or> f = Effect_ReversibleWrite \<and> risk c = Risk_ScopedWrite \<and> supported (rollback c))"
  "pd_requires_cost_ceiling (apply_effect_policy f c d) \<longleftrightarrow> pd_requires_cost_ceiling d \<or> f = Effect_Spend"
  by (cases f; simp)+

lemma risk_policy_facts:
  "pd_disposition (risk_policy c d) = AutoExecute \<longleftrightarrow>
     pd_disposition d = AutoExecute \<and> risk c \<notin> {Risk_Unknown, Risk_CrossConfig}"
  "pd_requires_cost_ceiling (risk_policy c d) = pd_requires_cost_ceiling d"
  "pd_reasons (risk_policy c d) \<noteq> []"
  "pd_disposition d \<noteq> Blocked \<Longrightarrow> pd_disposition (risk_policy c d) \<noteq> Blocked"
  by (auto simp: risk_policy_def Let_def)

lemma start_facts:
  "pd_disposition (require_incremental_cost_approval c (decision AutoExecute [] False)) = AutoExecute
     \<longleftrightarrow> \<not> incremental (cost c)"
  "pd_requires_cost_ceiling (require_incremental_cost_approval c (decision AutoExecute [] False))
     \<longleftrightarrow> incremental (cost c)"
  by (simp_all add: require_incremental_cost_approval_def)

lemmas auto_iffs = impact_auto_iff effect_auto_iff risk_policy_facts start_facts

text \<open>The blocking checks, in one predicate.\<close>

definition refused :: "application_tables \<Rightarrow> capability \<Rightarrow> impact_context \<Rightarrow> bool" where
  "refused app c im \<longleftrightarrow>
     selector_ambiguous im \<or> has_dirty_overlap im \<or> adapter_status c = Blocked_Adapter \<or>
     mutation_contract_gaps app c \<noteq> [] \<or> effect c = Effect_Spend \<and> incremental (cost c) \<and> \<not> known (cost c)"

lemma evaluate_open:
  "\<not> refused app c im \<Longrightarrow>
   evaluate app c im =
     (if effect c = Effect_ReadOnly \<and> risk c = Risk_Read \<and> \<not> incremental (cost c) then
        decision AutoExecute [''read-only operation''] False
      else risk_policy c (apply_effect_policy (effect c) c (impact_policy im
             (require_incremental_cost_approval c (decision AutoExecute [] False)))))"
  by (auto simp: evaluate_def refused_def Let_def)

lemma evaluate_blocked_iff: "pd_disposition (evaluate app c im) = Blocked \<longleftrightarrow> refused app c im"
proof (cases "refused app c im")
  case True
  then show ?thesis by (auto simp: evaluate_def refused_def Let_def)
next
  case False
  have "pd_disposition (apply_effect_policy (effect c) c (impact_policy im
      (require_incremental_cost_approval c (decision AutoExecute [] False)))) \<noteq> Blocked"
    using open_effect [OF open_impact [OF open_start]] by (simp add: open_decision_def)
  with False show ?thesis by (simp add: evaluate_open risk_policy_facts)
qed

lemma evaluate_auto_iff:
  "pd_disposition (evaluate app c im) = AutoExecute \<longleftrightarrow>
     \<not> refused app c im \<and> \<not> incremental (cost c) \<and>
     (effect c = Effect_ReadOnly \<and> risk c = Risk_Read \<or>
      ic_affected_repositories im \<le> 1 \<and> dependent_configurations im = 0 \<and> \<not> has_unmanaged_dependencies im \<and>
      risk c \<notin> {Risk_Unknown, Risk_CrossConfig} \<and>
      (effect c = Effect_ReadOnly \<or>
       effect c = Effect_ReversibleWrite \<and> risk c = Risk_ScopedWrite \<and> supported (rollback c)))"
  using evaluate_blocked_iff [of app c im]
  by (cases "refused app c im") (auto simp: evaluate_open auto_iffs)

lemma evaluate_reasons: "pd_reasons (evaluate app c im) \<noteq> []"
  by (auto simp: evaluate_def Let_def risk_policy_facts)

lemma evaluate_ceiling_iff:
  "\<not> refused app c im \<Longrightarrow>
   pd_requires_cost_ceiling (evaluate app c im) \<longleftrightarrow> incremental (cost c) \<or> effect c = Effect_Spend"
  by (auto simp: evaluate_open auto_iffs)

lemma admit_bounds:
  assumes "admit e app c im active = Inr d"
  shows "pd_disposition (evaluate app c im) \<le> pd_disposition d"
    "pd_requires_cost_ceiling d = pd_requires_cost_ceiling (evaluate app c im)"
    "active = Some b \<Longrightarrow> r \<in> set (rules b) \<Longrightarrow> rule_matches r c \<Longrightarrow> rule_disposition r \<le> pd_disposition d"
    "active = Some b \<Longrightarrow> bundle_validate e b = Inr ()"
proof -
  have "pd_disposition (evaluate app c im) \<le> pd_disposition d \<and>
      pd_requires_cost_ceiling d = pd_requires_cost_ceiling (evaluate app c im) \<and>
      (\<forall>b. active = Some b \<longrightarrow> bundle_validate e b = Inr () \<and>
         (\<forall>r\<in>set (rules b). rule_matches r c \<longrightarrow> rule_disposition r \<le> pd_disposition d))"
  proof (cases active)
    case None
    then show ?thesis using assms by (simp add: admit_def)
  next
    case (Some b)
    then have t: "tighten e (evaluate app c im) c b = Inr d" using assms by (simp add: admit_def)
    from tighten_Inr [OF t] apply_rules_bounds [OF _ order_refl] Some show ?thesis by fastforce
  qed
  then show "pd_disposition (evaluate app c im) \<le> pd_disposition d"
    "pd_requires_cost_ceiling d = pd_requires_cost_ceiling (evaluate app c im)"
    "active = Some b \<Longrightarrow> r \<in> set (rules b) \<Longrightarrow> rule_matches r c \<Longrightarrow> rule_disposition r \<le> pd_disposition d"
    "active = Some b \<Longrightarrow> bundle_validate e b = Inr ()"
    by blast+
qed

lemma validated_rule_not_auto:
  "bundle_validate e b = Inr () \<Longrightarrow> r \<in> set (rules b) \<Longrightarrow> rule_disposition r \<noteq> AutoExecute"
  by (auto simp: bundle_validate_iff list_all_iff)

lemma disposition_le_Auto: "d \<le> AutoExecute \<longleftrightarrow> d = AutoExecute"
  by (cases d) (simp_all add: less_eq_disposition_def)

lemma disposition_ge_Blocked: "Blocked \<le> d \<longleftrightarrow> d = Blocked"
  by (cases d) (simp_all add: less_eq_disposition_def)

section \<open>Properties\<close>

definition demo_impact :: impact_context where
  "demo_impact = \<lparr>ic_affected_repositories = 1, ic_affected_resources = 3, dependent_configurations = 0,
     has_unmanaged_dependencies = False, has_dirty_overlap = False, selector_ambiguous = False\<rparr>"

text \<open>
  C29. When the compiled policy executes without approval: no blocking check fires, nothing can
  be charged, and the operation is either a plain read, or touches at most one repository and no
  dependent or unmanaged configuration, its risk is known and stays inside one configuration, and
  its effect is read-only or a scoped reversible write with a declared rollback. The number of
  affected resources plays no part.
\<close>

theorem auto_execute_iff:
  "pd_disposition (evaluate app c im) = AutoExecute \<longleftrightarrow>
     \<not> selector_ambiguous im \<and> \<not> has_dirty_overlap im \<and> adapter_status c \<noteq> Blocked_Adapter \<and>
     mutation_contract_gaps app c = [] \<and> \<not> incremental (cost c) \<and>
     (effect c = Effect_ReadOnly \<and> risk c = Risk_Read \<or>
      ic_affected_repositories im \<le> 1 \<and> dependent_configurations im = 0 \<and> \<not> has_unmanaged_dependencies im \<and>
      risk c \<notin> {Risk_Unknown, Risk_CrossConfig} \<and>
      (effect c = Effect_ReadOnly \<or>
       effect c = Effect_ReversibleWrite \<and> risk c = Risk_ScopedWrite \<and> supported (rollback c)))"
  unfolding evaluate_auto_iff refused_def by auto

text \<open>
  C33. The compiled policy blocks exactly when a selector is ambiguous, a patch overlaps
  uncommitted work, the adapter is blocked, a mutation contract has a gap, or spending has an
  unknown price; a decision always carries a reason, and a contract gap is reported in full.
\<close>

theorem blocked_iff:
  "(pd_disposition (evaluate app c im) = Blocked \<longleftrightarrow>
      selector_ambiguous im \<or> has_dirty_overlap im \<or> adapter_status c = Blocked_Adapter \<or>
      mutation_contract_gaps app c \<noteq> [] \<or>
      effect c = Effect_Spend \<and> incremental (cost c) \<and> \<not> known (cost c)) \<and>
   pd_reasons (evaluate app c im) \<noteq> [] \<and>
   (\<not> selector_ambiguous im \<and> \<not> has_dirty_overlap im \<and> adapter_status c \<noteq> Blocked_Adapter \<and>
      mutation_contract_gaps app c \<noteq> [] \<longrightarrow> pd_reasons (evaluate app c im) = mutation_contract_gaps app c)"
  using evaluate_blocked_iff [of app c im] evaluate_reasons [of app c im]
  by (auto simp: refused_def evaluate_def Let_def)

theorem blocked_iff_witness:
  "pd_disposition (evaluate demo_tables (demo_create\<lparr>adapter_status := Blocked_Adapter\<rparr>) demo_impact) = Blocked"
  using blocked_iff [of demo_tables "demo_create\<lparr>adapter_status := Blocked_Adapter\<rparr>" demo_impact] by simp

text \<open>
  Money: a decision that is not blocked asks for a cost ceiling exactly when the operation can
  be charged or its effect is spending, it then requires approval, and for a mutation that can be
  charged the declared maximum is a finite non-negative amount in a valid currency.
\<close>

lemma cost_ceiling_policy:
  assumes "pd_disposition (evaluate app c im) \<noteq> Blocked"
  shows "(pd_requires_cost_ceiling (evaluate app c im) \<longleftrightarrow> incremental (cost c) \<or> effect c = Effect_Spend) \<and>
    (pd_requires_cost_ceiling (evaluate app c im) \<longrightarrow> pd_disposition (evaluate app c im) = ApprovalRequired) \<and>
    (mutating c \<and> incremental (cost c) \<longrightarrow>
       (\<exists>x a. cost_currency (cost c) = Some x \<and> maximum (cost c) = Some a \<and> validate_money_fields x a = Inr ()))"
proof -
  from assms have r: "\<not> refused app c im" by (simp add: evaluate_blocked_iff)
  have "pd_disposition (evaluate app c im) = ApprovalRequired" if "incremental (cost c) \<or> effect c = Effect_Spend"
    using that assms evaluate_auto_iff [of app c im] by (cases "pd_disposition (evaluate app c im)") auto
  moreover have "mutating c \<Longrightarrow> cost_gaps c = []" using r gaps_Nil_iff [of c app] by (simp add: refused_def)
  ultimately show ?thesis using evaluate_ceiling_iff [OF r] by (auto simp: cost_gaps_Nil_iff)
qed

lemma demo_create_auto: "pd_disposition (evaluate demo_tables demo_create demo_impact) = AutoExecute"
  unfolding evaluate_auto_iff refused_def
  by (simp add: demo_create_complete demo_create_facts demo_rollbacks demo_impact_def)
     (simp add: demo_create_def cost_default_def)

text \<open>
  C28. What admission guarantees of a plan: the decision is at least as strict as the compiled one;
  a plan that is not blocked has no contract gap; and one that may execute without approval cannot
  be charged, has no destructive, identity, communication, spending or irreversible effect, and is
  matched by no rule of the active bundle; when it writes, its rollback and verification strategies
  are both implemented.
\<close>

theorem admission_sound:
  assumes "admit e app c im active = Inr d"
  shows "pd_disposition (evaluate app c im) \<le> pd_disposition d \<and>
    (blocked_reply d = None \<longrightarrow> mutation_contract_gaps app c = [] \<and> adapter_status c \<noteq> Blocked_Adapter) \<and>
    (pd_disposition d = AutoExecute \<longrightarrow>
       \<not> incremental (cost c) \<and> effect c \<in> {Effect_ReadOnly, Effect_ReversibleWrite} \<and>
       (\<forall>b. active = Some b \<longrightarrow> \<not> list_ex (\<lambda>r. rule_matches r c) (rules b)) \<and>
       (mutating c \<and> effect c = Effect_ReversibleWrite \<longrightarrow> supported (rollback c) \<and>
          rollback_contract_supported app c \<and> verification_contract_supported app c))"
proof -
  note b = admit_bounds [OF assms]
  have n: "blocked_reply d = None \<longleftrightarrow> pd_disposition d \<noteq> Blocked" by (simp add: blocked_reply_def)
  have gap: "\<not> refused app c im" if "pd_disposition d \<noteq> Blocked"
    using b(1) that evaluate_blocked_iff [of app c im] by (auto simp: disposition_ge_Blocked)
  have auto: "pd_disposition (evaluate app c im) = AutoExecute" if "pd_disposition d = AutoExecute"
    using b(1) that by (simp add: disposition_le_Auto)
  have "\<not> list_ex (\<lambda>r. rule_matches r c) (rules bd)" if "pd_disposition d = AutoExecute" "active = Some bd" for bd
    using b(3) [OF that(2)] validated_rule_not_auto [OF b(4) [OF that(2)]] that(1)
    by (auto simp: list_ex_iff disposition_le_Auto)
  then show ?thesis
    using b(1) n gap auto gaps_Nil_iff [of c app] evaluate_auto_iff [of app c im] by (auto simp: refused_def)
qed

theorem admission_sound_witness:
  "\<not> incremental (cost demo_create) \<and> rollback_contract_supported demo_tables demo_create"
proof -
  have "admit demo_env demo_tables demo_create demo_impact None = Inr (evaluate demo_tables demo_create demo_impact)"
    by (simp add: admit_def)
  from admission_sound [OF this] demo_create_auto demo_create_facts(1) show ?thesis
    by (simp add: demo_create_def)
qed

end
