(* ===== verification/Plan_Lifecycle.thy ===== *)
theory Plan_Lifecycle
  imports Plan_Journal
begin

text \<open>
  Approval, consumption and cancellation of a plan (the methods of \<^verbatim>\<open>PlanV1\<close> from
  \<^verbatim>\<open>approve\<close> to \<^verbatim>\<open>cancel\<close>), and the step relation of a plan's life. These methods take
  \<^verbatim>\<open>&mut self\<close> and some of them change the plan before they fail, so each returns its
  result together with the plan it leaves behind. Each call of \<^verbatim>\<open>Utc::now\<close> is an argument.
\<close>

section \<open>Approval\<close>

definition approved_money :: "plan \<Rightarrow> money option \<Rightarrow> core_error + money option" where
  "approved_money p requested =
     (case requested of None \<Rightarrow> Inr None
      | Some approved \<Rightarrow>
          res_bind (map_err (InvalidCostCeiling (operation_id p)) (validate_money approved)) (\<lambda>_.
            Inr (Some (approved\<lparr>currency := to_ascii_uppercase (currency approved)\<rparr>))))"

definition check_declared_cost :: "plan \<Rightarrow> money option \<Rightarrow> core_error + unit" where
  "check_declared_cost p requested =
     (let c = cost (p_capability p) in
      if incremental c \<and> known c then
        res_bind (ok_or (maximum c) (InvalidCostCeiling (operation_id p)
          ''known incremental cost has no declared maximum'')) (\<lambda>required_amount.
        res_bind (ok_or (cost_currency c) (InvalidCostCeiling (operation_id p)
          ''known incremental cost has no declared currency'')) (\<lambda>required_currency.
        res_bind (map_err (\<lambda>reason. InvalidCostCeiling (operation_id p)
            (''declared catalog maximum is invalid: '' @ reason))
          (validate_money_fields required_currency required_amount)) (\<lambda>_.
        case requested of
          None \<Rightarrow> Inr ()
        | Some approved \<Rightarrow>
            if \<not> eq_ignore_ascii_case (currency approved) required_currency
               \<or> f64_less (amount approved) required_amount
            then Inl (CostCeilingTooLow (operation_id p) required_currency required_amount)
            else Inr ())))
      else Inr ())"

definition approve_cost :: "plan \<Rightarrow> money option \<Rightarrow> core_error + money option" where
  "approve_cost p requested =
     (if pd_requires_cost_ceiling (policy p) \<and> requested = None
      then Inl (CostCeilingRequired (operation_id p))
      else res_bind (approved_money p requested) (\<lambda>mc.
        res_bind (check_declared_cost p mc) (\<lambda>_. Inr mc)))"

definition approve :: "env \<Rightarrow> datetime \<Rightarrow> datetime \<Rightarrow> datetime \<Rightarrow> bool \<Rightarrow> money option \<Rightarrow> plan
    \<Rightarrow> (core_error + unit) \<times> plan" where
  "approve e now approved_now recorded_now explicit_yes requested p =
     (if \<not> explicit_yes then (Inl ExplicitApprovalRequired, p)
      else if status p \<noteq> Draft then
        (Inl (InvalidPlanState (operation_id p) (status p) ''draft''), p)
      else if now > p_expires_at p then
        (Inl (PlanExpired (operation_id p) (p_expires_at p)), p\<lparr>status := Expired\<rparr>)
      else case approve_cost p requested of
        Inl err \<Rightarrow> (Inl err, p)
      | Inr granted \<Rightarrow>
          if hash_value e (hashable_content e p) \<noteq> content_hash p then
            (Inl (InvalidPlanState (operation_id p) (status p) ''unchanged hash-bound draft''), p)
          else
            (let a = \<lparr>approved_at = approved_now, approved_content_hash = content_hash p,
                      max_cost = granted\<rparr>;
                 receipt = approval_receipt e p a;
                 q = p\<lparr>p_approval := Some a, status := Approved\<rparr>
             in case record_transaction_stage_with_artifact e recorded_now ApprovalPersisted receipt q of
                  Inl err \<Rightarrow> (Inl err, q\<lparr>p_approval := None, status := Draft\<rparr>)
                | Inr q' \<Rightarrow> (Inr (), q')))"

section \<open>Consumption\<close>

definition check_consumable :: "plan \<Rightarrow> core_error + unit" where
  "check_consumable p =
     (case status p of
        Approved \<Rightarrow>
          ensure (case p_approval p of None \<Rightarrow> False
                  | Some a \<Rightarrow> approved_content_hash a = content_hash p)
            (PlanDrifted (operation_id p))
      | s \<Rightarrow>
          if s = Draft \<and> pd_disposition (policy p) = AutoExecute \<and> p_approval p = None then Inr ()
          else Inl (InvalidPlanState (operation_id p) s
                     ''approved or policy-authorized auto-execute draft''))"

definition mark_consumed :: "env \<Rightarrow> datetime \<Rightarrow> datetime \<Rightarrow> plan \<Rightarrow> (core_error + unit) \<times> plan" where
  "mark_consumed e now recorded_now p =
     (if now > p_expires_at p then
        (Inl (PlanExpired (operation_id p) (p_expires_at p)), p\<lparr>status := Expired\<rparr>)
      else if hash_value e (hashable_content e p) \<noteq> content_hash p then
        (Inl (PlanDrifted (operation_id p)), p)
      else case check_consumable p of
        Inl err \<Rightarrow> (Inl err, p)
      | Inr _ \<Rightarrow>
          (let q = p\<lparr>status := Consumed\<rparr>
           in case record_transaction_stage e recorded_now ConsumptionPersisted q of
                Inl err \<Rightarrow> (Inl err, q)
              | Inr q' \<Rightarrow> (Inr (), q')))"

definition standing_artifact :: "standing_authority \<Rightarrow> json" where
  "standing_artifact a = jobj
     [(''standing_authority_id'', JString (authority_id a)),
      (''standing_authority_content_hash'', JString (auth_content_hash a))]"

definition check_standing :: "env \<Rightarrow> datetime \<Rightarrow> standing_authority \<Rightarrow> plan \<Rightarrow> core_error + unit" where
  "check_standing e auth_now a p =
     (if status p \<noteq> Draft \<or> p_approval p \<noteq> None \<or> pd_disposition (policy p) \<noteq> ApprovalRequired then
        Inl (InvalidPlanState (operation_id p) (status p)
          ''unapproved approval-required draft for standing-authority consumption'')
      else res_bind (ensure_operational_at e auth_now a) (\<lambda>_.
        if auth_account_id a \<noteq> p_account_id p then
          Inl (StandingAuthorityDenied (authority_id a) (''plan account `'' @ p_account_id p
            @ ''` is outside the authority'' @ [CHR 0x27] @ ''s pinned account''))
        else if cap_id (p_capability p) \<notin> set (capability_ids a) then
          Inl (StandingAuthorityDenied (authority_id a) (''capability `'' @ cap_id (p_capability p)
            @ ''` is outside the authority'' @ [CHR 0x27] @ ''s allowlist''))
        else Inr ()))"

definition mark_consumed_via_standing_authority :: "env \<Rightarrow> datetime \<Rightarrow> datetime \<Rightarrow> datetime
    \<Rightarrow> standing_authority \<Rightarrow> plan \<Rightarrow> (core_error + unit) \<times> plan" where
  "mark_consumed_via_standing_authority e now auth_now recorded_now a p =
     (if now > p_expires_at p then
        (Inl (PlanExpired (operation_id p) (p_expires_at p)), p\<lparr>status := Expired\<rparr>)
      else if hash_value e (hashable_content e p) \<noteq> content_hash p then
        (Inl (PlanDrifted (operation_id p)), p)
      else case check_standing e auth_now a p of
        Inl err \<Rightarrow> (Inl err, p)
      | Inr _ \<Rightarrow>
          (let q = p\<lparr>status := Consumed\<rparr>
           in case record_transaction_stage_with_artifact e recorded_now ConsumptionPersisted
                     (standing_artifact a) q of
                Inl err \<Rightarrow> (Inl err, q\<lparr>status := Draft\<rparr>)
              | Inr q' \<Rightarrow> (Inr (), q')))"

section \<open>Cancellation\<close>

definition cancel :: "env \<Rightarrow> datetime \<Rightarrow> datetime \<Rightarrow> plan \<Rightarrow> (core_error + unit) \<times> plan" where
  "cancel e now recorded_now p =
     (if status p \<in> {Draft, Approved, Expired} then
        (let q = p\<lparr>status := Cancelled, cancelled_at := Some now\<rparr>
         in case record_transaction_stage e recorded_now Closed q of
              Inl err \<Rightarrow> (Inl err, q\<lparr>status := status p, cancelled_at := None\<rparr>)
            | Inr q' \<Rightarrow> (Inr (), q'))
      else if status p = Cancelled then (Inr (), p)
      else (Inl (InvalidPlanState (operation_id p) (status p) ''draft, approved, or expired''), p))"

section \<open>Preparation\<close>

text \<open>
  What \<^verbatim>\<open>persist_prepared_plan\<close> writes into a fresh draft before it is stored: the request,
  the pinned preconditions, the computed impact and the policy decision. The inputs are
  computed elsewhere; the capability's own strategies are appended here.
\<close>

definition prepare_plan :: "env \<Rightarrow> string \<Rightarrow> json \<Rightarrow> json \<Rightarrow> (string, string) btree \<Rightarrow> string list
    \<Rightarrow> string list \<Rightarrow> json list \<Rightarrow> json \<Rightarrow> policy_decision \<Rightarrow> plan \<Rightarrow> plan" where
  "prepare_plan e lane input tgts preconditions repositories resources changes cloudflare_diff decision p =
     refresh_hash e (p\<lparr>permission_lane := lane, p_input := input, targets := tgts,
       precondition_hashes := preconditions, affected_repositories := repositories,
       affected_resources := resources, local_diffs := changes,
       cloudflare_diffs := cloudflare_diffs p @ [cloudflare_diff],
       verification_steps := verification_steps p @ [v_strategy (verification (p_capability p))],
       compensation_steps := compensation_steps p
         @ (case rb_strategy (rollback (p_capability p)) of None \<Rightarrow> [] | Some s \<Rightarrow> [s]),
       non_reversible_warnings := non_reversible_warnings p
         @ (case warning (rollback (p_capability p)) of None \<Rightarrow> [] | Some w \<Rightarrow> [w]),
       policy := decision\<rparr>)"

section \<open>Steps of a plan\<close>

text \<open>
  The life of a durable plan. A caller that gets an error drops the plan it holds, so a step
  is a successful call. Before it is consumed only the methods above act on a plan.
  Afterwards the executors set one of the execution states and record the stage they have
  reached; \<open>advance\<close> stands for all of them, without regard to which executor runs. A
  plan whose policy decision is to block is never stored.
\<close>

definition executed :: "plan_status \<Rightarrow> bool" where
  "executed s \<longleftrightarrow> s \<in> {Consumed, Running, Verified, Failed, RectificationRequired, Rectified}"

inductive plan_step :: "env \<Rightarrow> plan \<Rightarrow> plan \<Rightarrow> bool" for e where
  approve: "approve e now t1 t2 explicit_yes requested p = (Inr (), p') \<Longrightarrow> plan_step e p p'"
| consume: "mark_consumed e now t p = (Inr (), p') \<Longrightarrow> plan_step e p p'"
| consume_standing:
    "mark_consumed_via_standing_authority e now t1 t2 a p = (Inr (), p') \<Longrightarrow> plan_step e p p'"
| cancel: "cancel e now t p = (Inr (), p') \<Longrightarrow> plan_step e p p'"
| advance: "executed (status p) \<Longrightarrow> executed s \<Longrightarrow>
    record_transaction_stage_inner e t stage artifact (p\<lparr>status := s\<rparr>) = Inr p' \<Longrightarrow> plan_step e p p'"

inductive plan_reachable :: "env \<Rightarrow> plan \<Rightarrow> bool" for e where
  prepared: "draft e uuid now t profile acct catalog cap tgts0 = Inr p \<Longrightarrow>
    pd_disposition decision \<noteq> Blocked \<Longrightarrow>
    plan_reachable e (prepare_plan e lane input tgts preconditions repositories resources changes
      cloudflare_diff decision p)"
| stepped: "plan_reachable e p \<Longrightarrow> plan_step e p p' \<Longrightarrow> plan_reachable e p'"

inductive_cases plan_stepE: "plan_step e p p'"

section \<open>Facts\<close>

lemma secret_free_jobj:
  "list_all (\<lambda>(k, v). \<not> is_sensitive_key k \<and> secret_free v) kvs \<Longrightarrow> secret_free (jobj kvs)"
  by (auto simp: jobj_def list_all_iff secret_entry_def dest!: bt_collect_set)

lemma secret_free_wf_redact: "wf_json v \<Longrightarrow> secret_free v \<Longrightarrow> redact_json v = v"
  by (rule redact_json_fixed)

lemma receipt_keys_public [simp]:
  "\<not> is_sensitive_key ''schema_version''" "\<not> is_sensitive_key ''operation_id''"
  "\<not> is_sensitive_key ''approved_at''" "\<not> is_sensitive_key ''approved_content_hash''"
  "\<not> is_sensitive_key ''max_cost''" "\<not> is_sensitive_key ''currency''"
  "\<not> is_sensitive_key ''amount''" "\<not> is_sensitive_key ''standing_authority_id''"
  "\<not> is_sensitive_key ''standing_authority_content_hash''"
  by code_simp+

lemma money_json_clean [simp]: "wf_json (money_json m)" "secret_free (money_json m)"
  unfolding money_json_def
  by (rule wf_json_jobj secret_free_jobj; cases "amount m"; simp)+

lemma approval_receipt_clean [simp]: "redact_json (approval_receipt e p a) = approval_receipt e p a"
  unfolding approval_receipt_def
  by (rule redact_json_fixed; (rule wf_json_jobj | rule secret_free_jobj))
    (auto simp: jnat_def jtime_def jopt_def split: option.splits)

lemma standing_artifact_clean [simp]: "redact_json (standing_artifact a) = standing_artifact a"
  unfolding standing_artifact_def
  by (rule redact_json_fixed; (rule wf_json_jobj | rule secret_free_jobj)) auto

abbreviation new_approval :: "plan \<Rightarrow> datetime \<Rightarrow> money option \<Rightarrow> approval" where
  "new_approval p t granted \<equiv>
     \<lparr>approved_at = t, approved_content_hash = content_hash p, max_cost = granted\<rparr>"

lemma approve_ok_iff:
  "approve e now t1 t2 y requested p = (Inr (), p') \<longleftrightarrow>
     y \<and> status p = Draft \<and> now \<le> p_expires_at p \<and> plan.bound e p \<and>
     (\<exists>g. approve_cost p requested = Inr g \<and>
       record_transaction_stage_inner e t2 ApprovalPersisted
         (Some (approval_receipt e p (new_approval p t1 g)))
         (p\<lparr>p_approval := Some (new_approval p t1 g), status := Approved\<rparr>) = Inr p')"
  by (auto simp: approve_def Let_def plan.bound_def record_transaction_stage_with_artifact_def
      split: sum.splits if_splits)

lemma check_consumable_iff:
  "check_consumable p = Inr () \<longleftrightarrow>
     (status p = Approved \<and> (\<exists>a. p_approval p = Some a \<and> approved_content_hash a = content_hash p)) \<or>
     (status p = Draft \<and> pd_disposition (policy p) = AutoExecute \<and> p_approval p = None)"
  by (auto simp: check_consumable_def split: plan_status.splits option.splits if_splits)

lemma mark_consumed_ok_iff:
  "mark_consumed e now t p = (Inr (), p') \<longleftrightarrow>
     now \<le> p_expires_at p \<and> plan.bound e p \<and> check_consumable p = Inr () \<and>
     record_transaction_stage_inner e t ConsumptionPersisted None (p\<lparr>status := Consumed\<rparr>) = Inr p'"
  by (auto simp: mark_consumed_def Let_def plan.bound_def record_transaction_stage_def
      split: sum.splits if_splits)

lemma check_standing_iff:
  "check_standing e t a p = Inr () \<longleftrightarrow>
     status p = Draft \<and> p_approval p = None \<and> pd_disposition (policy p) = ApprovalRequired \<and>
     ensure_operational_at e t a = Inr () \<and> auth_account_id a = p_account_id p \<and>
     cap_id (p_capability p) \<in> set (capability_ids a)"
  by (auto simp: check_standing_def result_simps)

lemma standing_ok_iff:
  "mark_consumed_via_standing_authority e now t1 t2 a p = (Inr (), p') \<longleftrightarrow>
     now \<le> p_expires_at p \<and> plan.bound e p \<and> check_standing e t1 a p = Inr () \<and>
     record_transaction_stage_inner e t2 ConsumptionPersisted (Some (standing_artifact a))
       (p\<lparr>status := Consumed\<rparr>) = Inr p'"
  by (auto simp: mark_consumed_via_standing_authority_def Let_def plan.bound_def
      record_transaction_stage_with_artifact_def split: sum.splits if_splits)

lemma cancel_ok_iff:
  "cancel e now t p = (Inr (), p') \<longleftrightarrow>
     (status p = Cancelled \<and> p' = p) \<or>
     (status p \<in> {Draft, Approved, Expired} \<and>
      record_transaction_stage_inner e t Closed None
        (p\<lparr>status := Cancelled, cancelled_at := Some now\<rparr>) = Inr p')"
  by (auto simp: cancel_def Let_def record_transaction_stage_def split: sum.splits if_splits)

lemmas step_iffs = approve_ok_iff mark_consumed_ok_iff standing_ok_iff cancel_ok_iff

text \<open>Fields of a plan that the journal does not read.\<close>

lemma unread_fields [simp]:
  "journal_sound e (p\<lparr>p_approval := a\<rparr>) = journal_sound e p"
  "journal_sound e (p\<lparr>cancelled_at := t\<rparr>) = journal_sound e p"
  "journal_sound e (p\<lparr>status := s\<rparr>) = journal_sound e p"
  "plan_rep (p\<lparr>p_approval := a\<rparr>) = plan_rep p"
  "plan_rep (p\<lparr>cancelled_at := t\<rparr>) = plan_rep p"
  "plan_rep (p\<lparr>status := s\<rparr>) = plan_rep p"
  "plan.bound e (p\<lparr>p_approval := a\<rparr>) = plan.bound e p"
  "plan.bound e (p\<lparr>cancelled_at := t\<rparr>) = plan.bound e p"
  "plan.bound e (p\<lparr>status := s\<rparr>) = plan.bound e p"
  by (simp_all add: journal_sound_def plan_rep_def plan.bound_def hashable_content_def)

lemma approval_check_unread [simp]:
  "validate_approval_checkpoint e b (p\<lparr>cancelled_at := t\<rparr>) = Inr () \<longleftrightarrow>
     validate_approval_checkpoint e b p = Inr ()"
  "validate_approval_checkpoint e b (p\<lparr>status := s\<rparr>) = Inr () \<longleftrightarrow>
     validate_approval_checkpoint e b p = Inr ()"
  by (simp_all add: approval_iff approval_receipt_def)

section \<open>The invariant of a durable plan\<close>

abbreviation stages :: "plan \<Rightarrow> transaction_stage set" where
  "stages p \<equiv> cp_stage ` set (journal p)"

definition journal_ready :: "env \<Rightarrow> plan \<Rightarrow> bool" where
  "journal_ready e p \<longleftrightarrow> journal p \<noteq> [] \<and> plan_rep p \<and> journal_sound e p \<and> plan.bound e p \<and>
     validate_approval_checkpoint e True p = Inr () \<and> cp_plan_status (last (journal p)) = status p"

fun status_inv :: "plan_status \<Rightarrow> plan \<Rightarrow> bool" where
  "status_inv Draft p = (p_stage p = PlanPrepared \<and> p_approval p = None)"
| "status_inv Approved p = (p_stage p = ApprovalPersisted \<and> ApprovalPersisted \<in> stages p)"
| "status_inv Expired p = False"
| "status_inv Cancelled p = (p_stage p = Closed \<and> ConsumptionPersisted \<notin> stages p)"
| "status_inv _ p = (ConsumptionPersisted \<in> stages p)"

definition plan_inv :: "env \<Rightarrow> plan \<Rightarrow> bool" where
  "plan_inv e p \<longleftrightarrow> journal_ready e p \<and> status_inv (status p) p \<and> pd_disposition (policy p) \<noteq> Blocked"

lemma status_inv_executed: "executed s \<Longrightarrow> status_inv s p \<longleftrightarrow> ConsumptionPersisted \<in> stages p"
  by (cases s) (simp_all add: executed_def)

lemma ready_valid: "journal_ready e p \<longleftrightarrow>
    journal p \<noteq> [] \<and> plan_rep p \<and> plan.bound e p \<and> validate_transaction_journal e p = Inr ()"
  by (auto simp: journal_ready_def validate_transaction_journal_def validate_inner_iff)

text \<open>
  In a ready plan an append succeeds whenever the stage advances, and keeps the plan ready.
  The error branches that undo a status after a failed append are never taken.
\<close>

lemma ready_append_ok:
  assumes "journal_ready e p" "p_stage p < s" "\<forall>v\<in>set_option a. redact_json v = v"
    and "journal q = journal p" "artifacts q = artifacts p" "operation_id q = operation_id p"
    "p_stage q = p_stage p" "validate_approval_checkpoint e False q = Inr ()"
  shows "record_transaction_stage_inner e t s a q = Inr (recorded e t s a q)"
  using assms by (auto simp: record_Inr_iff journal_ready_def validate_inner_iff journal_sound_def)

lemma ready_append:
  assumes "plan_rep q" "plan.bound e q" "record_transaction_stage_inner e t s a q = Inr p'"
    and "validate_approval_checkpoint e True p' = Inr ()"
  shows "journal_ready e p'"
  using assms record_sound [OF assms(3,1)]
  by (auto simp: journal_ready_def record_Inr_iff bound_recorded)

lemma ready_append_other:
  assumes "journal_ready e p" "s \<noteq> ApprovalPersisted"
    and "record_transaction_stage_inner e t s a (p\<lparr>status := st, cancelled_at := ct\<rparr>) = Inr p'"
  shows "journal_ready e p'"
proof (rule ready_append [OF _ _ assms(3)])
  show "validate_approval_checkpoint e True p' = Inr ()"
    using assms record_keeps_approval [OF assms(2), of "p\<lparr>status := st, cancelled_at := ct\<rparr>"]
    by (auto simp: record_Inr_iff journal_ready_def plan_rep_def)
qed (use assms(1) in \<open>simp_all add: journal_ready_def\<close>)

lemma ready_append_status:
  assumes "journal_ready e p" "s \<noteq> ApprovalPersisted"
    and "record_transaction_stage_inner e t s a (p\<lparr>status := st\<rparr>) = Inr p'"
  shows "journal_ready e p'"
  using ready_append_other [where p = p and st = st and ct = "cancelled_at p"] assms by simp

lemma ready_stage_bound: "journal_ready e p \<Longrightarrow> s \<in> stages p \<Longrightarrow> s \<le> p_stage p"
  by (auto simp: journal_ready_def intro: sound_stage_bound)

lemma ready_stage_in: "journal_ready e p \<Longrightarrow> p_stage p \<in> stages p"
  by (metis image_eqI journal_ready_def journal_sound_def last_in_set)

text \<open>What an accepted cost ceiling guarantees.\<close>

definition covers_declared_cost :: "capability \<Rightarrow> money option \<Rightarrow> bool" where
  "covers_declared_cost cap granted \<longleftrightarrow>
     (incremental (cost cap) \<and> known (cost cap) \<longrightarrow>
       (\<exists>r c. maximum (cost cap) = Some r \<and> cost_currency (cost cap) = Some c \<and>
          validate_money_fields c r = Inr () \<and>
          (\<forall>m\<in>set_option granted. eq_ignore_ascii_case (currency m) c \<and> \<not> f64_less (amount m) r)))"

lemma check_declared_cost_iff:
  "check_declared_cost p g = Inr () \<longleftrightarrow> covers_declared_cost (p_capability p) g"
  by (cases g)
    (auto simp: check_declared_cost_def covers_declared_cost_def Let_def result_simps
      simp del: validate_money_fields_ok_iff split: if_splits)

lemma approve_cost_ok_iff:
  "approve_cost p requested = Inr g \<longleftrightarrow>
     g = map_option (\<lambda>m. m\<lparr>currency := to_ascii_uppercase (currency m)\<rparr>) requested \<and>
     (pd_requires_cost_ceiling (policy p) \<longrightarrow> requested \<noteq> None) \<and>
     (\<forall>m\<in>set_option requested. validate_money m = Inr ()) \<and>
     covers_declared_cost (p_capability p) g"
  by (cases requested)
    (auto simp: approve_cost_def approved_money_def check_declared_cost_iff result_simps
      simp del: validate_money_ok_iff)

lemma approve_cost_money: "approve_cost p requested = Inr g \<Longrightarrow> \<forall>m\<in>set_option g. validate_money m = Inr ()"
  by (auto simp: approve_cost_ok_iff validate_money_uppercase simp del: validate_money_ok_iff)

lemma approve_inv:
  assumes inv: "plan_inv e p" and ok: "approve e now t1 t2 y requested p = (Inr (), p')"
  shows "plan_inv e p'"
proof -
  from ok obtain g where g: "approve_cost p requested = Inr g"
    and rec: "record_transaction_stage_inner e t2 ApprovalPersisted
         (Some (approval_receipt e p (new_approval p t1 g)))
         (p\<lparr>p_approval := Some (new_approval p t1 g), status := Approved\<rparr>) = Inr p'"
    by (auto simp: approve_ok_iff)
  let ?q = "p\<lparr>p_approval := Some (new_approval p t1 g), status := Approved\<rparr>"
  have rep: "plan_rep ?q" "plan.bound e ?q" using inv by (simp_all add: plan_inv_def journal_ready_def)
  have p': "p' = recorded e t2 ApprovalPersisted (Some (approval_receipt e p (new_approval p t1 g))) ?q"
    using rec by (simp add: record_Inr_iff)
  have "validate_approval_checkpoint e True p' = Inr ()"
    using approve_cost_money [OF g] rep(1)
    by (simp add: p' approval_iff get_recorded_artifact plan_rep_def approval_receipt_def del: validate_money_ok_iff)
  then have "journal_ready e p'" by (rule ready_append [OF rep rec])
  then show ?thesis using inv by (simp add: plan_inv_def p')
qed

lemma consume_inv:
  assumes inv: "plan_inv e p"
    and rec: "record_transaction_stage_inner e t ConsumptionPersisted a (p\<lparr>status := Consumed\<rparr>) = Inr p'"
  shows "plan_inv e p'"
proof -
  have "journal_ready e p'"
    using inv by (intro ready_append_status [OF _ _ rec]) (simp_all add: plan_inv_def)
  then show ?thesis using inv rec by (auto simp: plan_inv_def record_Inr_iff)
qed

lemma unconsumed_stages:
  assumes inv: "plan_inv e p" and "\<not> executed (status p)"
  shows "ConsumptionPersisted \<notin> stages p"
proof
  assume cons: "ConsumptionPersisted \<in> stages p"
  have "ConsumptionPersisted \<le> p_stage p"
    using inv by (intro ready_stage_bound [of e, OF _ cons]) (simp add: plan_inv_def)
  with assms cons show False
    by (cases "status p") (auto simp: plan_inv_def executed_def less_eq_transaction_stage_def)
qed

lemma cancel_inv:
  assumes inv: "plan_inv e p" and ok: "cancel e now t p = (Inr (), p')"
  shows "plan_inv e p'"
proof (cases "status p = Cancelled")
  case True
  with ok inv show ?thesis by (auto simp: cancel_ok_iff)
next
  case False
  with ok have st: "status p \<in> {Draft, Approved, Expired}"
    and rec: "record_transaction_stage_inner e t Closed None
        (p\<lparr>status := Cancelled, cancelled_at := Some now\<rparr>) = Inr p'"
    by (auto simp: cancel_ok_iff)
  have ready: "journal_ready e p" using inv by (simp add: plan_inv_def)
  have "journal_ready e p'" by (rule ready_append_other [OF ready _ rec]) simp
  moreover have "ConsumptionPersisted \<notin> stages p"
    using st unconsumed_stages [OF inv] by (auto simp: executed_def)
  ultimately show ?thesis using inv rec by (auto simp: plan_inv_def record_Inr_iff)
qed

lemma advance_inv:
  assumes inv: "plan_inv e p" and ex: "executed (status p)" "executed s"
    and rec: "record_transaction_stage_inner e t stage a (p\<lparr>status := s\<rparr>) = Inr p'"
  shows "plan_inv e p'"
proof -
  have ready: "journal_ready e p" and cons: "ConsumptionPersisted \<in> stages p"
    using inv ex by (simp_all add: plan_inv_def status_inv_executed)
  have "ConsumptionPersisted < stage"
    using ready_stage_bound [OF ready cons] rec ready
    by (auto simp: record_Inr_iff journal_ready_def intro: le_less_trans)
  then have "stage \<noteq> ApprovalPersisted" by (auto simp: less_transaction_stage_def)
  from ready_append_status [OF ready this rec] have "journal_ready e p'" .
  then show ?thesis
    using inv rec cons by (auto simp: plan_inv_def record_Inr_iff status_inv_executed [OF ex(2)])
qed

lemma step_inv: "plan_step e p p' \<Longrightarrow> plan_inv e p \<Longrightarrow> plan_inv e p'"
proof (induction rule: plan_step.induct)
  case (approve now t1 t2 y requested p p')
  then show ?case by (blast intro: approve_inv)
next
  case (cancel now t p p')
  then show ?case by (blast intro: cancel_inv)
qed (auto simp: mark_consumed_ok_iff standing_ok_iff intro: consume_inv advance_inv)

lemma prepare_inv:
  assumes d: "draft e uuid now t profile acct catalog cap tgts0 = Inr p" and nb: "pd_disposition decision \<noteq> Blocked"
  shows "plan_inv e (prepare_plan e lane input tgts pre repos ress changes cdiff decision p)"
    (is "plan_inv e ?p")
proof -
  note f = draft_Inr [OF d]
  have j: "journal p \<noteq> []" using f by auto
  have fields: "journal ?p = journal p" "artifacts ?p = artifacts p" "status ?p = status p"
    "p_approval ?p = p_approval p" "p_stage ?p = p_stage p" "operation_id ?p = operation_id p" "policy ?p = decision"
    by (simp_all add: prepare_plan_def refresh_hash_def)
  have "plan.bound e ?p" by (simp add: prepare_plan_def refresh_hash_is_refresh plan.bound_refresh)
  moreover have "ApprovalPersisted \<notin> stages p" using f by (metis image_set list.set(1,2) singletonD transaction_stage.distinct(1))
  then have "validate_approval_checkpoint e True ?p = Inr ()" using f by (simp add: approval_iff fields)
  ultimately show ?thesis
    using f j nb fields
    by (auto simp: plan_inv_def journal_ready_def plan_rep_def journal_sound_def
        validate_transaction_journal_def validate_inner_iff)
qed

lemma reachable_inv: "plan_reachable e p \<Longrightarrow> plan_inv e p"
  by (induction rule: plan_reachable.induct) (auto intro: prepare_inv step_inv)

section \<open>What authorised an execution\<close>

definition approved_within :: "plan \<Rightarrow> bool" where
  "approved_within p \<longleftrightarrow>
     (\<exists>a. p_approval p = Some a \<and> approved_content_hash a = content_hash p \<and>
        ApprovalPersisted \<in> stages p \<and>
        (pd_requires_cost_ceiling (policy p) \<longrightarrow> max_cost a \<noteq> None) \<and>
        covers_declared_cost (p_capability p) (max_cost a))"

definition policy_auto :: "plan \<Rightarrow> bool" where
  "policy_auto p \<longleftrightarrow> pd_disposition (policy p) = AutoExecute \<and> p_approval p = None \<and>
     transaction_artifact p ConsumptionPersisted = None"

definition under_authority :: "env \<Rightarrow> plan \<Rightarrow> bool" where
  "under_authority e p \<longleftrightarrow> pd_disposition (policy p) = ApprovalRequired \<and> p_approval p = None \<and>
     (\<exists>a t. ensure_operational_at e t a = Inr () \<and> auth_account_id a = p_account_id p \<and>
        cap_id (p_capability p) \<in> set (capability_ids a) \<and>
        transaction_artifact p ConsumptionPersisted = Some (standing_artifact a))"

definition authorised :: "env \<Rightarrow> plan \<Rightarrow> bool" where
  "authorised e p \<longleftrightarrow> approved_within p \<or> policy_auto p \<or> under_authority e p"

lemmas authorised_defs = authorised_def approved_within_def policy_auto_def under_authority_def
  transaction_artifact_def

lemma approve_within:
  "approve e now t1 t2 y requested p = (Inr (), p') \<Longrightarrow> approved_within p'"
  by (auto simp: approve_ok_iff record_Inr_iff approve_cost_ok_iff approved_within_def)

lemma authorised_recorded:
  assumes "authorised e p" "bt_invar (artifacts p)" "s \<noteq> ConsumptionPersisted"
  shows "authorised e (recorded e t s a (p\<lparr>status := st\<rparr>))"
proof -
  have "stage_str ConsumptionPersisted \<noteq> stage_str s" using assms(3) by (metis stage_str_inject)
  then have "transaction_artifact (recorded e t s a (p\<lparr>status := st\<rparr>)) ConsumptionPersisted
      = transaction_artifact p ConsumptionPersisted"
    using assms(2) by (simp add: transaction_artifact_def get_recorded_artifact)
  with assms(1) show ?thesis
    by (auto simp: authorised_def approved_within_def policy_auto_def under_authority_def)
qed

lemma consume_authorised:
  assumes inv: "plan_inv e p" and within: "status p = Approved \<Longrightarrow> approved_within p"
    and ok: "mark_consumed e now t p = (Inr (), p')"
  shows "authorised e p'"
proof (cases "status p = Approved")
  case True
  from within [OF this] ok show ?thesis
    by (auto simp: mark_consumed_ok_iff record_Inr_iff authorised_def approved_within_def)
next
  case False
  have sound: "journal_sound e p" "bt_invar (artifacts p)"
    using inv by (simp_all add: plan_inv_def journal_ready_def plan_rep_def)
  from False ok have draft: "status p = Draft" "pd_disposition (policy p) = AutoExecute" "p_approval p = None"
    by (auto simp: mark_consumed_ok_iff check_consumable_iff)
  then have "p_stage p < ConsumptionPersisted"
    using inv by (simp add: plan_inv_def less_transaction_stage_def)
  from sound_fresh_stage [OF sound this]
  have "transaction_artifact p' ConsumptionPersisted = None"
    using ok sound(2)
    by (auto simp: mark_consumed_ok_iff record_Inr_iff transaction_artifact_def get_recorded_artifact)
  with draft ok show ?thesis
    by (auto simp: mark_consumed_ok_iff record_Inr_iff authorised_def policy_auto_def)
qed

lemma standing_authorised:
  assumes inv: "plan_inv e p" and ok: "mark_consumed_via_standing_authority e now t1 t2 a p = (Inr (), p')"
  shows "authorised e p'"
proof -
  have rep: "bt_invar (artifacts p)" using inv by (simp add: plan_inv_def journal_ready_def plan_rep_def)
  from ok have p': "p' = recorded e t2 ConsumptionPersisted (Some (standing_artifact a)) (p\<lparr>status := Consumed\<rparr>)"
    by (simp add: standing_ok_iff record_Inr_iff)
  have "transaction_artifact p' ConsumptionPersisted = Some (standing_artifact a)"
    using rep by (simp add: p' transaction_artifact_def get_recorded_artifact)
  with ok show ?thesis
    by (auto simp: standing_ok_iff check_standing_iff authorised_def under_authority_def p')
qed

lemma step_authorised:
  assumes "plan_step e p p'" "plan_inv e p"
    and "status p = Approved \<longrightarrow> approved_within p" "executed (status p) \<longrightarrow> authorised e p"
  shows "(status p' = Approved \<longrightarrow> approved_within p') \<and> (executed (status p') \<longrightarrow> authorised e p')"
  using assms
proof (cases rule: plan_step.cases)
  case (approve now t1 t2 y requested)
  then have "status p' = Approved" by (auto simp: approve_ok_iff record_Inr_iff)
  then show ?thesis using approve_within [OF approve] by (simp add: executed_def)
next
  case (consume now t)
  then have "status p' = Consumed" by (auto simp: mark_consumed_ok_iff record_Inr_iff)
  then show ?thesis using consume_authorised [OF assms(2) _ consume] assms(3) by simp
next
  case (consume_standing now t1 t2 a)
  then have "status p' = Consumed" by (auto simp: standing_ok_iff record_Inr_iff)
  then show ?thesis using standing_authorised [OF assms(2) consume_standing] by simp
next
  case (cancel now t)
  then have "status p' = Cancelled" by (auto simp: cancel_ok_iff record_Inr_iff)
  then show ?thesis by (simp add: executed_def)
next
  case (advance s t stage artifact)
  have ready: "journal_ready e p" and cons: "ConsumptionPersisted \<in> stages p"
    using assms(2) advance(1) by (simp_all add: plan_inv_def status_inv_executed)
  then have "ConsumptionPersisted < stage"
    using ready_stage_bound [OF ready cons] advance(3)
    by (auto simp: record_Inr_iff journal_ready_def intro: le_less_trans)
  then have "authorised e p'"
    using assms(4) advance ready
    by (auto simp: record_Inr_iff journal_ready_def plan_rep_def intro!: authorised_recorded)
  moreover have "status p' = s" using advance(3) by (simp add: record_Inr_iff)
  ultimately show ?thesis using advance(2) by (auto simp: executed_def)
qed

lemma reachable_authorised:
  "plan_reachable e p \<Longrightarrow>
     (status p = Approved \<longrightarrow> approved_within p) \<and> (executed (status p) \<longrightarrow> authorised e p)"
proof (induction rule: plan_reachable.induct)
  case (prepared uuid now t profile acct catalog cap tgts0 p)
  then have "status p = Draft" using draft_Inr by blast
  then show ?case by (simp add: prepare_plan_def refresh_hash_def executed_def)
next
  case (stepped p p')
  then show ?case using step_authorised [OF stepped.hyps(2) reachable_inv [OF stepped.hyps(1)]] by blast
qed

section \<open>When the calls succeed\<close>

lemma inv_ready: "plan_inv e p \<Longrightarrow> journal_ready e p"
  by (simp add: plan_inv_def)

lemma inv_approval_unbound:
  "plan_inv e p \<Longrightarrow> validate_approval_checkpoint e False (p\<lparr>status := s, cancelled_at := c\<rparr>) = Inr ()"
  by (auto simp: plan_inv_def journal_ready_def approval_iff approval_receipt_def)

lemma approve_fst_iff:
  assumes inv: "plan_inv e p"
  shows "fst (approve e now t1 t2 y requested p) = Inr () \<longleftrightarrow>
    y \<and> status p = Draft \<and> now \<le> p_expires_at p \<and> is_ok (approve_cost p requested)"
    (is "?l \<longleftrightarrow> ?r")
proof
  assume ?l
  then have "approve e now t1 t2 y requested p = (Inr (), snd (approve e now t1 t2 y requested p))"
    by (metis prod.collapse)
  then show ?r by (auto simp: approve_ok_iff)
next
  assume ?r
  then obtain g where g: "approve_cost p requested = Inr g" and d: "status p = Draft"
    and r: "y" "now \<le> p_expires_at p" by blast
  have draft: "p_stage p = PlanPrepared" "ApprovalPersisted \<notin> stages p"
    using inv d ready_stage_bound [OF inv_ready [OF inv], of ApprovalPersisted]
    by (auto simp: plan_inv_def less_eq_transaction_stage_def)
  have "record_transaction_stage_inner e t2 ApprovalPersisted (Some (approval_receipt e p (new_approval p t1 g)))
      (p\<lparr>p_approval := Some (new_approval p t1 g), status := Approved\<rparr>)
    = Inr (recorded e t2 ApprovalPersisted (Some (approval_receipt e p (new_approval p t1 g)))
      (p\<lparr>p_approval := Some (new_approval p t1 g), status := Approved\<rparr>))"
    using draft by (intro ready_append_ok [OF inv_ready [OF inv]])
      (simp_all add: approval_iff less_transaction_stage_def)
  then have "\<exists>p'. approve e now t1 t2 y requested p = (Inr (), p')"
    using g d r inv by (auto simp: approve_ok_iff plan_inv_def journal_ready_def)
  then show ?l by auto
qed

lemma consume_append_ok:
  assumes inv: "plan_inv e p" and "status p \<in> {Draft, Approved}" "\<forall>v\<in>set_option a. redact_json v = v"
  shows "record_transaction_stage_inner e t ConsumptionPersisted a (p\<lparr>status := Consumed\<rparr>)
    = Inr (recorded e t ConsumptionPersisted a (p\<lparr>status := Consumed\<rparr>))"
proof (rule ready_append_ok [OF inv_ready [OF inv]])
  show "p_stage p < ConsumptionPersisted"
    using assms(1,2) by (auto simp: plan_inv_def less_transaction_stage_def)
  show "validate_approval_checkpoint e False (p\<lparr>status := Consumed\<rparr>) = Inr ()"
    using inv_approval_unbound [OF inv, where s = Consumed and c = "cancelled_at p"] by simp
qed (use assms(3) in simp_all)

lemma mark_consumed_fst_iff:
  assumes inv: "plan_inv e p"
  shows "fst (mark_consumed e now t p) = Inr () \<longleftrightarrow>
    now \<le> p_expires_at p \<and>
    (status p = Approved \<or> status p = Draft \<and> pd_disposition (policy p) = AutoExecute)"
    (is "?l \<longleftrightarrow> ?r")
proof
  assume ?l
  then have "mark_consumed e now t p = (Inr (), snd (mark_consumed e now t p))" by (metis prod.collapse)
  then show ?r by (auto simp: mark_consumed_ok_iff check_consumable_iff)
next
  assume r: ?r
  have "check_consumable p = Inr ()"
    using r inv by (auto simp: check_consumable_iff plan_inv_def journal_ready_def approval_iff)
  then have "\<exists>p'. mark_consumed e now t p = (Inr (), p')"
    using r inv consume_append_ok [OF inv, of None]
    by (auto simp: mark_consumed_ok_iff plan_inv_def journal_ready_def)
  then show ?l by auto
qed

lemma cancel_fst_iff:
  assumes inv: "plan_inv e p"
  shows "fst (cancel e now t p) = Inr () \<longleftrightarrow> status p \<in> {Draft, Approved, Cancelled}" (is "?l \<longleftrightarrow> ?r")
proof
  assume ?l
  then have "cancel e now t p = (Inr (), snd (cancel e now t p))" by (metis prod.collapse)
  then show ?r using inv by (auto simp: cancel_ok_iff plan_inv_def)
next
  assume r: ?r
  have "\<exists>p'. cancel e now t p = (Inr (), p')"
  proof (cases "status p = Cancelled")
    case False
    have "record_transaction_stage_inner e t Closed None (p\<lparr>status := Cancelled, cancelled_at := Some now\<rparr>)
      = Inr (recorded e t Closed None (p\<lparr>status := Cancelled, cancelled_at := Some now\<rparr>))"
      using False r inv inv_approval_unbound [OF inv, where s = Cancelled and c = "Some now"]
      by (intro ready_append_ok [OF inv_ready [OF inv]]) (auto simp: plan_inv_def less_transaction_stage_def)
    with False r show ?thesis by (auto simp: cancel_ok_iff)
  qed (auto simp: cancel_ok_iff)
  then show ?l by auto
qed

lemma approve_fields:
  "approve e now t1 t2 y requested p = (Inr (), p') \<Longrightarrow>
     status p' = Approved \<and> p_expires_at p' = p_expires_at p \<and> p_stage p' = ApprovalPersisted \<and>
     operation_id p' = operation_id p \<and> p_account_id p' = p_account_id p"
  by (auto simp: approve_ok_iff record_Inr_iff)

lemma consume_fields:
  "mark_consumed e now t p = (Inr (), p') \<Longrightarrow>
     status p' = Consumed \<and> p_expires_at p' = p_expires_at p \<and> p_stage p' = ConsumptionPersisted"
  by (auto simp: mark_consumed_ok_iff record_Inr_iff)

text \<open>What a failing call leaves behind.\<close>

lemma failed_approve_frame:
  assumes inv: "plan_inv e p" and err: "fst (approve e now t1 t2 y requested p) \<noteq> Inr ()"
  shows "snd (approve e now t1 t2 y requested p) \<in> {p, p\<lparr>status := Expired\<rparr>}"
proof (cases "approve_cost p requested")
  case (Inl x)
  then show ?thesis by (simp add: approve_def)
next
  case (Inr g)
  with err approve_fst_iff [OF inv, of now t1 t2 y requested]
  have "\<not> (y \<and> status p = Draft \<and> now \<le> p_expires_at p)" by simp
  then show ?thesis by (auto simp: approve_def)
qed

lemma failed_consume_frame:
  assumes inv: "plan_inv e p" and err: "fst (mark_consumed e now t p) \<noteq> Inr ()"
  shows "snd (mark_consumed e now t p) \<in> {p, p\<lparr>status := Expired\<rparr>}"
proof (cases "check_consumable p")
  case (Inr u)
  then have "status p \<in> {Draft, Approved}" by (auto simp: check_consumable_iff)
  from consume_append_ok [OF inv this, of None t] Inr err show ?thesis
    by (auto simp: mark_consumed_def Let_def record_transaction_stage_def)
qed (simp add: mark_consumed_def)

lemma failed_standing_frame:
  assumes inv: "plan_inv e p" and err: "fst (mark_consumed_via_standing_authority e now t1 t2 a p) \<noteq> Inr ()"
  shows "snd (mark_consumed_via_standing_authority e now t1 t2 a p) \<in> {p, p\<lparr>status := Expired\<rparr>}"
proof (cases "check_standing e t1 a p")
  case (Inr u)
  then have "status p \<in> {Draft, Approved}" by (auto simp: check_standing_iff)
  from consume_append_ok [OF inv this, of "Some (standing_artifact a)" t2] Inr err show ?thesis
    by (auto simp: mark_consumed_via_standing_authority_def Let_def
        record_transaction_stage_with_artifact_def)
qed (simp add: mark_consumed_via_standing_authority_def)

lemma failed_cancel_frame:
  assumes inv: "plan_inv e p" and err: "fst (cancel e now t p) \<noteq> Inr ()"
  shows "snd (cancel e now t p) = p"
proof -
  have "status p \<notin> {Draft, Approved, Cancelled}" "status p \<noteq> Expired"
    using err cancel_fst_iff [OF inv, of now t] inv by (auto simp: plan_inv_def)
  then show ?thesis by (auto simp: cancel_def)
qed

text \<open>Histories only grow, and an executed plan stays executed.\<close>

lemma step_history:
  assumes "plan_step e p p'"
  shows "\<exists>cs. journal p' = journal p @ cs"
  using assms by (cases rule: plan_step.cases) (auto simp: step_iffs record_Inr_iff)

lemma executed_step:
  assumes "plan_step e p p'" "plan_inv e p" "executed (status p)"
  shows "executed (status p')"
  using assms
  by (cases rule: plan_step.cases)
    (auto simp: step_iffs record_Inr_iff check_consumable_iff check_standing_iff executed_def)

lemma executed_path:
  "(plan_step e)\<^sup>*\<^sup>* p p' \<Longrightarrow> plan_inv e p \<Longrightarrow> executed (status p) \<Longrightarrow>
     plan_inv e p' \<and> executed (status p') \<and> (\<exists>cs. journal p' = journal p @ cs)"
proof (induction rule: rtranclp_induct)
  case (step q r)
  then obtain cs where cs: "journal q = journal p @ cs" by blast
  from step_history [OF step.hyps(2)] obtain ds where "journal r = journal q @ ds" by blast
  with cs step show ?case by (auto intro: step_inv executed_step)
qed auto

lemma cancelled_step: "plan_step e p p' \<Longrightarrow> status p = Cancelled \<Longrightarrow> p' = p"
  by (erule plan_stepE) (auto simp: step_iffs check_consumable_iff check_standing_iff executed_def)

lemma cancelled_path: "(plan_step e)\<^sup>*\<^sup>* p p' \<Longrightarrow> status p = Cancelled \<Longrightarrow> p' = p"
  by (induction rule: rtranclp_induct) (auto dest: cancelled_step)

section \<open>Properties\<close>

definition demo_prepared :: plan where
  "demo_prepared = prepare_plan demo_env ''oauth'' JNull JNull [] [] [] [] JNull
     \<lparr>pd_schema_version = 1, pd_disposition = ApprovalRequired, pd_reasons = [], pd_requires_cost_ceiling = True\<rparr>
     demo_plan"

definition demo_ceiling :: money where
  "demo_ceiling = \<lparr>currency = ''usd'', amount = Finite 5\<rparr>"

definition demo_approved :: plan where
  "demo_approved = snd (approve demo_env 5 6 7 True (Some demo_ceiling) demo_prepared)"

definition demo_consumed :: plan where
  "demo_consumed = snd (mark_consumed demo_env 8 9 demo_approved)"

lemma demo_prepared_reachable: "plan_reachable demo_env demo_prepared"
  unfolding demo_prepared_def by (rule plan_reachable.prepared [OF demo_plan_draft]) simp

lemma demo_prepared_fields:
  "status demo_prepared = Draft" "p_expires_at demo_prepared = hours 24"
  "operation_id demo_prepared = ''op-1''" "p_account_id demo_prepared = ''acct''"
  "p_approval demo_prepared = None" "p_capability demo_prepared = p_capability demo_plan"
  "pd_disposition (policy demo_prepared) = ApprovalRequired"
  using demo_plan_facts by (simp_all add: demo_prepared_def prepare_plan_def refresh_hash_def)

lemma demo_approve_cost: "is_ok (approve_cost demo_prepared (Some demo_ceiling))"
proof -
  have "to_ascii_uppercase ''POST'' = ''POST''" by code_simp
  then have "cost (p_capability demo_prepared) = unknown_cost"
    using demo_plan_facts by (simp add: demo_prepared_fields capability_new_def Let_def)
  then have "covers_declared_cost (p_capability demo_prepared) g" for g
    by (simp add: covers_declared_cost_def unknown_cost_def)
  moreover have "validate_money demo_ceiling = Inr ()" by code_simp
  ultimately show ?thesis by (simp add: approve_cost_ok_iff del: validate_money_ok_iff)
qed

lemma demo_approve: "approve demo_env 5 6 7 True (Some demo_ceiling) demo_prepared = (Inr (), demo_approved)"
  using approve_fst_iff [OF reachable_inv [OF demo_prepared_reachable], of 5 6 7 True "Some demo_ceiling"]
    demo_approve_cost
  by (simp add: demo_prepared_fields demo_approved_def prod_eq_iff)

lemma demo_approved_reachable: "plan_reachable demo_env demo_approved"
  by (rule plan_reachable.stepped [OF demo_prepared_reachable plan_step.approve [OF demo_approve]])

lemma demo_approved_fields:
  "status demo_approved = Approved" "p_expires_at demo_approved = hours 24"
  using approve_fields [OF demo_approve] by (simp_all add: demo_prepared_fields)

lemma demo_consume: "mark_consumed demo_env 8 9 demo_approved = (Inr (), demo_consumed)"
  using mark_consumed_fst_iff [OF reachable_inv [OF demo_approved_reachable], of 8 9]
  by (simp add: demo_approved_fields demo_consumed_def prod_eq_iff)

lemma demo_consumed_reachable: "plan_reachable demo_env demo_consumed"
  by (rule plan_reachable.stepped [OF demo_approved_reachable plan_step.consume [OF demo_consume]])

lemma demo_consumed_fields:
  "status demo_consumed = Consumed" "p_expires_at demo_consumed = hours 24"
  "p_stage demo_consumed = ConsumptionPersisted"
  using consume_fields [OF demo_consume] by (simp_all add: demo_approved_fields)

text \<open>
  C5. Nothing executes without authority. Every durable plan that has been consumed or has
  gone on from there was either explicitly approved, with an approval bound to its exact
  content hash, journalled, with a cost ceiling where the policy asks for one and never below
  the declared maximum cost in its currency; or its policy decision was to execute without
  approval; or it was consumed under a standing authority that was operational, pinned to
  the plan's account and allowed its capability, and whose identity is in the journal.
\<close>

theorem execution_authorised:
  assumes "plan_reachable e p" "executed (status p)"
  shows "approved_within p \<or> policy_auto p \<or> under_authority e p"
  using reachable_authorised [OF assms(1)] assms(2) by (simp add: authorised_def)

theorem execution_authorised_witness:
  "approved_within demo_consumed \<or> policy_auto demo_consumed \<or> under_authority demo_env demo_consumed"
  by (rule execution_authorised [OF demo_consumed_reachable]) (simp add: demo_consumed_fields executed_def)

text \<open>
  C6. A plan is consumed at most once. From a consumed plan, whatever happens afterwards, the
  plan stays in an execution state, its journal keeps its history as a prefix, and every
  further approval, consumption of either kind and cancellation is refused.
\<close>

theorem no_replay:
  assumes "plan_reachable e p" "executed (status p)" "(plan_step e)\<^sup>*\<^sup>* p p'"
  shows "executed (status p') \<and> take (length (journal p)) (journal p') = journal p
    \<and> fst (approve e now t1 t2 y requested p') \<noteq> Inr ()
    \<and> fst (mark_consumed e now t1 p') \<noteq> Inr ()
    \<and> fst (mark_consumed_via_standing_authority e now t1 t2 a p') \<noteq> Inr ()
    \<and> fst (cancel e now t1 p') \<noteq> Inr ()"
proof -
  from executed_path [OF assms(3) reachable_inv [OF assms(1)] assms(2)]
  have inv: "plan_inv e p'" and ex: "executed (status p')" and "\<exists>cs. journal p' = journal p @ cs"
    by blast+
  moreover have "fst (mark_consumed_via_standing_authority e now t1 t2 a p') \<noteq> Inr ()"
  proof
    assume "fst (mark_consumed_via_standing_authority e now t1 t2 a p') = Inr ()"
    then have "\<exists>q. mark_consumed_via_standing_authority e now t1 t2 a p' = (Inr (), q)"
      by (metis prod.collapse)
    with ex show False by (auto simp: standing_ok_iff check_standing_iff executed_def)
  qed
  ultimately show ?thesis
    by (auto simp: approve_fst_iff [OF inv] mark_consumed_fst_iff [OF inv] cancel_fst_iff [OF inv] executed_def)
qed

theorem no_replay_witness:
  "fst (mark_consumed demo_env 10 11 demo_consumed) \<noteq> Inr () \<and> fst (cancel demo_env 10 11 demo_consumed) \<noteq> Inr ()"
  using no_replay [OF demo_consumed_reachable _ rtranclp.rtrancl_refl, of 10 11]
  by (simp add: demo_consumed_fields executed_def)

text \<open>
  Every durable plan is well formed: its journal validates, its content hash is the hash
  of its content, its status is never the transient \<^verbatim>\<open>expired\<close>, its policy decision is not
  to block, and its current stage is the last one recorded.
\<close>

lemma durable_plan_valid:
  assumes "plan_reachable e p"
  shows "validate_transaction_journal e p = Inr () \<and> content_hash p = hash_value e (hashable_content e p)
    \<and> status p \<noteq> Expired \<and> pd_disposition (policy p) \<noteq> Blocked
    \<and> journal p \<noteq> [] \<and> cp_stage (last (journal p)) = p_stage p \<and> length (journal p) \<le> 11"
proof -
  have inv: "plan_inv e p" by (rule reachable_inv [OF assms])
  then have "journal_sound e p" "plan.bound e p" by (simp_all add: plan_inv_def journal_ready_def)
  with inv sound_length_bound show ?thesis
    by (auto simp: plan_inv_def ready_valid plan.bound_def journal_sound_def)
qed

text \<open>
  Approving a durable plan succeeds exactly when the yes is explicit, the plan is an
  unexpired draft and the requested ceiling is acceptable: present where the policy requires
  one, a valid amount, in the declared currency and not below the declared maximum of a known
  incremental cost. The drift and journal checks never refuse it.
\<close>

lemma approve_succeeds_iff:
  assumes "plan_reachable e p"
  shows "fst (approve e now t1 t2 y requested p) = Inr () \<longleftrightarrow>
    y \<and> status p = Draft \<and> now \<le> p_expires_at p \<and>
    (pd_requires_cost_ceiling (policy p) \<longrightarrow> requested \<noteq> None) \<and>
    (\<forall>m\<in>set_option requested. validate_money m = Inr ()) \<and>
    covers_declared_cost (p_capability p)
      (map_option (\<lambda>m. m\<lparr>currency := to_ascii_uppercase (currency m)\<rparr>) requested)"
  by (auto simp: approve_fst_iff [OF reachable_inv [OF assms]] approve_cost_ok_iff simp del: validate_money_ok_iff)

text \<open>
  Consuming a durable plan succeeds exactly when it has not expired and is approved, or is
  a draft its policy lets execute without approval.
\<close>

lemma consume_succeeds_iff:
  assumes "plan_reachable e p"
  shows "fst (mark_consumed e now t p) = Inr () \<longleftrightarrow>
    now \<le> p_expires_at p \<and>
    (status p = Approved \<or> status p = Draft \<and> pd_disposition (policy p) = AutoExecute)"
  by (rule mark_consumed_fst_iff [OF reachable_inv [OF assms]])

text \<open>
  Cancellation retires a plan for good: it succeeds exactly on durable plans that are
  drafts, approved or already cancelled, and no later step changes a cancelled plan, so
  repeating it is a no-op and nothing can execute it.
\<close>

lemma cancel_retires:
  assumes "plan_reachable e p"
  shows "(fst (cancel e now t p) = Inr () \<longleftrightarrow> status p \<in> {Draft, Approved, Cancelled}) \<and>
    (fst (cancel e now t p) = Inr () \<longrightarrow> (plan_step e)\<^sup>*\<^sup>* (snd (cancel e now t p)) p' \<longrightarrow>
       status p' = Cancelled \<and> p' = snd (cancel e now t p))"
proof -
  have "status (snd (cancel e now t p)) = Cancelled" if ok: "fst (cancel e now t p) = Inr ()"
  proof -
    from ok have "cancel e now t p = (Inr (), snd (cancel e now t p))" by (metis prod.collapse)
    then show ?thesis by (auto simp: cancel_ok_iff record_Inr_iff)
  qed
  then show ?thesis
    using cancel_fst_iff [OF reachable_inv [OF assms]] by (auto dest: cancelled_path)
qed

text \<open>
  Drift is refused. Take a document whose reviewed content differs from that of a durable
  plan although it carries the same content hash. Unless the two contents are a collision
  of the hash, no approval and no consumption of either kind of it succeeds, and before its
  expiry the consumptions report the drift.
\<close>

lemma drift_refused:
  assumes "plan_reachable e p" "content_hash q = content_hash p"
    and "hashable_content e q \<noteq> hashable_content e p"
  shows "(fst (approve e now t1 t2 y requested q) \<noteq> Inr () \<and>
      fst (mark_consumed e now t1 q) = (if now > p_expires_at q
        then Inl (PlanExpired (operation_id q) (p_expires_at q)) else Inl (PlanDrifted (operation_id q))) \<and>
      fst (mark_consumed_via_standing_authority e now t1 t2 a q) = (if now > p_expires_at q
        then Inl (PlanExpired (operation_id q) (p_expires_at q)) else Inl (PlanDrifted (operation_id q))))
    \<or> collides (hash_value e) (hashable_content e p) (hashable_content e q)"
proof -
  have "plan.bound e p" using reachable_inv [OF assms(1)] by (simp add: plan_inv_def journal_ready_def)
  from plan.drift_detected_or_collision [OF this assms(2,3)] show ?thesis
  proof
    assume "\<not> plan.bound e q"
    moreover from this have "fst (approve e now t1 t2 y requested q) \<noteq> Inr ()"
      by (metis approve_ok_iff prod.collapse)
    ultimately show ?thesis
      by (simp add: mark_consumed_def mark_consumed_via_standing_authority_def plan.bound_def)
  qed simp
qed

text \<open>
  Failed calls are harmless. When a call on a durable plan fails, the plan object it
  leaves is the one it was given, or that one marked expired; and a plan marked expired does
  not validate, so it can never replace the stored document.
\<close>

lemma failed_call_frame:
  assumes "plan_reachable e p"
  shows "(fst (approve e now t1 t2 y requested p) \<noteq> Inr () \<longrightarrow>
      snd (approve e now t1 t2 y requested p) \<in> {p, p\<lparr>status := Expired\<rparr>}) \<and>
    (fst (mark_consumed e now t1 p) \<noteq> Inr () \<longrightarrow>
      snd (mark_consumed e now t1 p) \<in> {p, p\<lparr>status := Expired\<rparr>}) \<and>
    (fst (mark_consumed_via_standing_authority e now t1 t2 a p) \<noteq> Inr () \<longrightarrow>
      snd (mark_consumed_via_standing_authority e now t1 t2 a p) \<in> {p, p\<lparr>status := Expired\<rparr>}) \<and>
    (fst (cancel e now t1 p) \<noteq> Inr () \<longrightarrow> snd (cancel e now t1 p) = p) \<and>
    validate_transaction_journal e (p\<lparr>status := Expired\<rparr>) \<noteq> Inr ()"
proof -
  have inv: "plan_inv e p" by (rule reachable_inv [OF assms])
  then have "validate_transaction_journal e (p\<lparr>status := Expired\<rparr>) \<noteq> Inr ()"
    by (auto simp: plan_inv_def journal_ready_def validate_transaction_journal_def validate_inner_iff)
  then show ?thesis
    using failed_approve_frame [OF inv] failed_consume_frame [OF inv]
      failed_standing_frame [OF inv] failed_cancel_frame [OF inv] by blast
qed

text \<open>
  The exact condition for consuming a durable plan under a standing authority: before the
  plan's expiry, an unapproved draft whose policy asks for approval, with an authority that
  is operational, pinned to the plan's account and allows its capability.
\<close>

lemma standing_consume_succeeds_iff:
  assumes "plan_reachable e p"
  shows "fst (mark_consumed_via_standing_authority e now t1 t2 a p) = Inr () \<longleftrightarrow>
    now \<le> p_expires_at p \<and> status p = Draft \<and> pd_disposition (policy p) = ApprovalRequired \<and>
    ensure_operational_at e t1 a = Inr () \<and> auth_account_id a = p_account_id p \<and>
    cap_id (p_capability p) \<in> set (capability_ids a)" (is "?l \<longleftrightarrow> ?r")
proof
  assume ?l
  then have "\<exists>q. mark_consumed_via_standing_authority e now t1 t2 a p = (Inr (), q)" by (metis prod.collapse)
  then show ?r by (auto simp: standing_ok_iff check_standing_iff)
next
  assume r: ?r
  have inv: "plan_inv e p" by (rule reachable_inv [OF assms])
  with r have "\<exists>q. mark_consumed_via_standing_authority e now t1 t2 a p = (Inr (), q)"
    using consume_append_ok [OF inv, of "Some (standing_artifact a)" t2]
    by (auto simp: standing_ok_iff check_standing_iff plan_inv_def journal_ready_def)
  then show ?l by auto
qed

text \<open>
  C40. An executed plan can be relabelled in memory. After its expiry, a further consumption
  attempt on a consumed plan fails but leaves it marked expired, and cancelling that object
  then succeeds: it ends cancelled and closed although its journal records the consumption.
\<close>

theorem late_replay_relabels:
  assumes "plan_reachable e p" "executed (status p)" "p_stage p < Closed" "now > p_expires_at p"
  shows "fst (mark_consumed e now t1 p) = Inl (PlanExpired (operation_id p) (p_expires_at p)) \<and>
    fst (cancel e t2 t3 (snd (mark_consumed e now t1 p))) = Inr () \<and>
    status (snd (cancel e t2 t3 (snd (mark_consumed e now t1 p)))) = Cancelled \<and>
    ConsumptionPersisted \<in> stages (snd (cancel e t2 t3 (snd (mark_consumed e now t1 p))))"
proof -
  have inv: "plan_inv e p" by (rule reachable_inv [OF assms(1)])
  let ?q = "p\<lparr>status := Cancelled, cancelled_at := Some t2\<rparr>"
  have mc: "mark_consumed e now t1 p = (Inl (PlanExpired (operation_id p) (p_expires_at p)), p\<lparr>status := Expired\<rparr>)"
    using assms(4) by (simp add: mark_consumed_def)
  have rec: "record_transaction_stage_inner e t3 Closed None ?q = Inr (recorded e t3 Closed None ?q)"
    using assms(3) inv_approval_unbound [OF inv, where s = Cancelled and c = "Some t2"]
    by (intro ready_append_ok [OF inv_ready [OF inv]]) simp_all
  then have c: "cancel e t2 t3 (p\<lparr>status := Expired\<rparr>) = (Inr (), recorded e t3 Closed None ?q)"
    by (simp add: cancel_ok_iff)
  have "ConsumptionPersisted \<in> stages p"
    using inv assms(2) by (simp add: plan_inv_def status_inv_executed)
  then show ?thesis by (simp add: mc c)
qed

theorem late_replay_relabels_witness:
  "status (snd (cancel demo_env 1 2 (snd (mark_consumed demo_env (hours 25) 0 demo_consumed)))) = Cancelled"
  using late_replay_relabels [OF demo_consumed_reachable, of "hours 25" 0 1 2]
  by (simp add: demo_consumed_fields executed_def less_transaction_stage_def)

end
