(* ===== verification/Plan_V2.thy ===== *)
theory Plan_V2
  imports Plan_Lifecycle
begin

text \<open>
  The second plan version (\<^verbatim>\<open>PlanV2\<close>): a plan together with the pins of the execution
  context it was reviewed in, under one content hash over the canonical form of both.
\<close>

section \<open>Serialised plans\<close>

definition approval_json :: "env \<Rightarrow> approval \<Rightarrow> json" where
  "approval_json e a = jobj
     [(''approved_at'', jtime e (approved_at a)),
      (''approved_content_hash'', JString (approved_content_hash a)),
      (''max_cost'', jopt money_json (max_cost a))]"

definition checkpoint_json :: "env \<Rightarrow> checkpoint \<Rightarrow> json" where
  "checkpoint_json e c = jobj (
     [(''stage'', JString (stage_str (cp_stage c))),
      (''recorded_at'', jtime e (cp_recorded_at c)),
      (''plan_content_hash'', JString (cp_plan_content_hash c)),
      (''plan_status'', JString (plan_status_str (cp_plan_status c))),
      (''previous_checkpoint_hash'', jopt JString (cp_previous_hash c)),
      (''checkpoint_hash'', JString (cp_hash c))]
     @ jskip ''artifact_hash'' JString (cp_artifact_hash c))"

definition plan_json :: "env \<Rightarrow> plan \<Rightarrow> json" where
  "plan_json e p = jobj (
     [(''schema_version'', jnat (p_schema_version p)),
      (''operation_id'', JString (operation_id p)),
      (''created_at'', jtime e (p_created_at p)),
      (''expires_at'', jtime e (p_expires_at p)),
      (''profile_id'', JString (profile_id p)),
      (''account_id'', JString (p_account_id p)),
      (''catalog_hash'', JString (catalog_hash p)),
      (''permission_lane'', JString (permission_lane p)),
      (''precondition_hashes'', jmap JString (precondition_hashes p)),
      (''capability'', capability_value e (p_capability p)),
      (''targets'', targets p),
      (''input'', p_input p),
      (''affected_repositories'', jlist JString (affected_repositories p)),
      (''affected_resources'', jlist JString (affected_resources p)),
      (''local_diffs'', JArray (local_diffs p)),
      (''cloudflare_diffs'', JArray (cloudflare_diffs p)),
      (''verification_steps'', jlist JString (verification_steps p)),
      (''compensation_steps'', jlist JString (compensation_steps p)),
      (''non_reversible_warnings'', jlist JString (non_reversible_warnings p)),
      (''policy'', policy_json (policy p)),
      (''status'', JString (plan_status_str (status p))),
      (''approval'', jopt (approval_json e) (p_approval p)),
      (''content_hash'', JString (content_hash p)),
      (''transaction_stage'', JString (stage_str (p_stage p))),
      (''transaction_journal'', jlist (checkpoint_json e) (journal p))]
     @ jskip ''cancelled_at'' (jtime e) (cancelled_at p)
     @ (if artifacts p = [] then [] else [(''transaction_artifacts'', JObject (artifacts p))]))"

section \<open>Pins\<close>

record plan_pins =
  build_identity_hash :: string
  pin_catalog_hash :: string
  credential_generation_id :: string
  admission_policy_hash :: string
  authority_hash :: "string option"
  workspace_graph_hash :: string
  resource_observation_hashes :: "(string, string) btree"
  cost_budget :: "money option"

definition pins_json :: "plan_pins \<Rightarrow> json" where
  "pins_json q = jobj (
     [(''build_identity_hash'', JString (build_identity_hash q)),
      (''catalog_hash'', JString (pin_catalog_hash q)),
      (''credential_generation_id'', JString (credential_generation_id q)),
      (''admission_policy_hash'', JString (admission_policy_hash q)),
      (''workspace_graph_hash'', JString (workspace_graph_hash q))]
     @ jskip ''authority_hash'' JString (authority_hash q)
     @ (if resource_observation_hashes q = [] then []
        else [(''resource_observation_hashes'', jmap JString (resource_observation_hashes q))])
     @ jskip ''cost_budget'' money_json (cost_budget q))"

record plan_v2 =
  v2_schema_version :: nat
  v2_plan :: plan
  pins :: plan_pins
  v2_content_hash :: string

definition v2_document :: "env \<Rightarrow> plan_v2 \<Rightarrow> json" where
  "v2_document e d = JArray [jnat (v2_schema_version d), plan_json e (v2_plan d), pins_json (pins d)]"

section \<open>Operations\<close>

definition v2_refresh_hash :: "env \<Rightarrow> plan_v2 \<Rightarrow> plan_v2" where
  "v2_refresh_hash e d = d\<lparr>v2_content_hash := canonical_hash_value e (v2_document e d)\<rparr>"

definition v2_validate :: "env \<Rightarrow> plan_v2 \<Rightarrow> core_error + unit" where
  "v2_validate e d =
     res_bind (validate_transaction_journal e (v2_plan d)) (\<lambda>_.
     if v2_schema_version d \<noteq> 2 \<or> build_identity_hash (pins d) = []
        \<or> pin_catalog_hash (pins d) \<noteq> catalog_hash (v2_plan d)
        \<or> credential_generation_id (pins d) = [] \<or> admission_policy_hash (pins d) = []
        \<or> workspace_graph_hash (pins d) = [] then
       Inl (InvalidPlanV2 ''required execution pins are missing or drifted'')
     else if canonical_hash_value e (v2_document e d) \<noteq> v2_content_hash d then
       Inl (InvalidPlanV2 ''document content hash drifted'')
     else Inr ())"

definition v2_new :: "env \<Rightarrow> plan \<Rightarrow> plan_pins \<Rightarrow> core_error + plan_v2" where
  "v2_new e p q =
     (let d = v2_refresh_hash e \<lparr>v2_schema_version = 2, v2_plan = p, pins = q, v2_content_hash = []\<rparr>
      in res_bind (v2_validate e d) (\<lambda>_. Inr d))"

definition refresh_from_plan :: "env \<Rightarrow> plan \<Rightarrow> plan_v2 \<Rightarrow> core_error + plan_v2" where
  "refresh_from_plan e p d =
     (let d' = v2_refresh_hash e (d\<lparr>v2_plan := p, pins := (pins d)\<lparr>cost_budget :=
            (case p_approval p of None \<Rightarrow> None | Some a \<Rightarrow> max_cost a)\<rparr>\<rparr>)
      in res_bind (v2_validate e d') (\<lambda>_. Inr d'))"

definition bind_authority_hash :: "env \<Rightarrow> string \<Rightarrow> plan_v2 \<Rightarrow> core_error + plan_v2" where
  "bind_authority_hash e h d =
     (if h = [] then Inl (InvalidPlanV2 ''authority hash cannot be empty'')
      else case authority_hash (pins d) of
        Some existing \<Rightarrow>
          if existing \<noteq> h then Inl (InvalidPlanV2 ''a PlanV2 authority pin cannot be replaced'')
          else Inr d
      | None \<Rightarrow>
          if status (v2_plan d) \<noteq> Draft \<or> p_approval (v2_plan d) \<noteq> None then
            Inl (InvalidPlanV2 ''authority must be bound before plan approval or consumption'')
          else
            (let d' = v2_refresh_hash e (d\<lparr>pins := (pins d)\<lparr>authority_hash := Some h\<rparr>\<rparr>)
             in res_bind (v2_validate e d') (\<lambda>_. Inr d')))"

section \<open>Steps of a document\<close>

text \<open>
  A stored document changes when its plan takes a step and when the authority lane binds it.
\<close>

inductive v2_step :: "env \<Rightarrow> plan_v2 \<Rightarrow> plan_v2 \<Rightarrow> bool" for e where
  refresh: "plan_step e (v2_plan d) p \<Longrightarrow> refresh_from_plan e p d = Inr d' \<Longrightarrow> v2_step e d d'"
| bind: "bind_authority_hash e h d = Inr d' \<Longrightarrow> v2_step e d d'"

inductive v2_reachable :: "env \<Rightarrow> plan_v2 \<Rightarrow> bool" for e where
  created: "plan_reachable e p \<Longrightarrow> v2_new e p q = Inr d \<Longrightarrow> v2_reachable e d"
| stepped: "v2_reachable e d \<Longrightarrow> v2_step e d d' \<Longrightarrow> v2_reachable e d'"

section \<open>Facts\<close>

interpretation v2: hash_bound "canonical_hash_value e" "v2_document e" v2_content_hash
  "\<lambda>h. v2_content_hash_update (\<lambda>_. h)" for e
  by unfold_locales (simp_all add: v2_document_def)

lemma v2_refresh_is_refresh: "v2_refresh_hash e = v2.refresh e"
  by (simp add: fun_eq_iff v2_refresh_hash_def v2.refresh_def)

definition pins_complete :: "plan_v2 \<Rightarrow> bool" where
  "pins_complete d \<longleftrightarrow> v2_schema_version d = 2 \<and> build_identity_hash (pins d) \<noteq> []
     \<and> pin_catalog_hash (pins d) = catalog_hash (v2_plan d) \<and> credential_generation_id (pins d) \<noteq> []
     \<and> admission_policy_hash (pins d) \<noteq> [] \<and> workspace_graph_hash (pins d) \<noteq> []"

lemma v2_validate_iff:
  "v2_validate e d = Inr () \<longleftrightarrow>
     validate_transaction_journal e (v2_plan d) = Inr () \<and> pins_complete d \<and> v2.bound e d"
  by (auto simp: v2_validate_def result_simps pins_complete_def v2.bound_def)

lemma v2_refresh_fields [simp]:
  "v2_schema_version (v2_refresh_hash e d) = v2_schema_version d"
  "v2_plan (v2_refresh_hash e d) = v2_plan d"
  "pins (v2_refresh_hash e d) = pins d"
  "v2.bound e (v2_refresh_hash e d)"
  "pins_complete (v2_refresh_hash e d) = pins_complete d"
  using v2.bound_refresh [of e d] by (simp_all add: v2_refresh_is_refresh)
    (simp_all add: v2.refresh_def pins_complete_def)

lemma v2_new_iff:
  "v2_new e p q = Inr d \<longleftrightarrow>
     d = v2_refresh_hash e \<lparr>v2_schema_version = 2, v2_plan = p, pins = q, v2_content_hash = []\<rparr> \<and>
     v2_validate e d = Inr ()"
  by (auto simp: v2_new_def Let_def result_simps)

lemma refresh_from_plan_iff:
  "refresh_from_plan e p d = Inr d' \<longleftrightarrow>
     d' = v2_refresh_hash e (d\<lparr>v2_plan := p, pins := (pins d)\<lparr>cost_budget :=
            (case p_approval p of None \<Rightarrow> None | Some a \<Rightarrow> max_cost a)\<rparr>\<rparr>) \<and>
     v2_validate e d' = Inr ()"
  by (auto simp: refresh_from_plan_def Let_def result_simps)

lemma bind_authority_iff:
  "bind_authority_hash e h d = Inr d' \<longleftrightarrow>
     h \<noteq> [] \<and>
     (authority_hash (pins d) = Some h \<and> d' = d \<or>
      authority_hash (pins d) = None \<and> status (v2_plan d) = Draft \<and> p_approval (v2_plan d) = None \<and>
      d' = v2_refresh_hash e (d\<lparr>pins := (pins d)\<lparr>authority_hash := Some h\<rparr>\<rparr>) \<and>
      v2_validate e d' = Inr ())"
  by (auto simp: bind_authority_hash_def Let_def result_simps split: option.splits if_splits)

lemma v2_reachable_inv:
  "v2_reachable e d \<Longrightarrow> v2_validate e d = Inr () \<and> plan_reachable e (v2_plan d)"
proof (induction rule: v2_reachable.induct)
  case (created p q d)
  then show ?case by (auto simp: v2_new_iff)
next
  case (stepped d d')
  from stepped.hyps(2) stepped.IH show ?case
  proof (induction rule: v2_step.induct)
    case (refresh d p d')
    then show ?case by (auto simp: refresh_from_plan_iff intro: plan_reachable.stepped)
  next
    case (bind h d d')
    then show ?case by (auto simp: bind_authority_iff)
  qed
qed

lemma canonical_jobj_get:
  "json_get (canonical_json_value (jobj kvs)) k = map_option canonical_json_value (map_of (rev kvs) k)"
proof -
  have inv: "bt_invar (bt_collect kvs)" by (rule bt.invar_collect)
  have "bt_get (map (\<lambda>(k, v). (k, canonical_json_value v)) (bt_collect kvs)) k
      = map_option canonical_json_value (bt_get (bt_collect kvs) k)"
    by (simp add: bt_get_def map_of_map)
  then show ?thesis
    using bt_collect_map_values [OF inv, of "\<lambda>_. canonical_json_value"]
    by (simp add: jobj_def bt.get_collect)
qed

lemma canonical_jobj_eqD:
  "canonical_json_value (jobj kvs) = canonical_json_value (jobj kvs') \<Longrightarrow>
     map_option canonical_json_value (map_of (rev kvs) k) = map_option canonical_json_value (map_of (rev kvs') k)"
  by (metis canonical_jobj_get)

lemma canonical_leaves [simp]:
  "canonical_json_value (jnat n) = jnat n"
  "canonical_json_value (jlist JString xs) = jlist JString xs"
  by (simp_all add: jnat_def jlist_def)

lemma checkpoint_json_hash:
  assumes "canonical_json_value (checkpoint_json e c) = canonical_json_value (checkpoint_json e d)"
  shows "cp_hash c = cp_hash d"
  using canonical_jobj_eqD [OF assms [unfolded checkpoint_json_def], of "''checkpoint_hash''"]
  by (auto simp: jskip_def split: option.splits)

lemma journal_json_hashes:
  "map (\<lambda>c. canonical_json_value (checkpoint_json e c)) cs
     = map (\<lambda>c. canonical_json_value (checkpoint_json e c)) ds \<Longrightarrow> map cp_hash cs = map cp_hash ds"
proof (induction cs arbitrary: ds)
  case (Cons c cs)
  then obtain d ds' where ds: "ds = d # ds'" by (cases ds) auto
  with Cons.prems have "canonical_json_value (checkpoint_json e c) = canonical_json_value (checkpoint_json e d)"
    and rest: "map (\<lambda>c. canonical_json_value (checkpoint_json e c)) cs
      = map (\<lambda>c. canonical_json_value (checkpoint_json e c)) ds'"
    by simp_all
  from checkpoint_json_hash [OF this(1)] Cons.IH [OF rest] ds show ?case by simp
qed simp

lemma plan_json_determines:
  assumes "canonical_json_value (plan_json e p) = canonical_json_value (plan_json e q)"
  shows "operation_id p = operation_id q \<and> content_hash p = content_hash q \<and> status p = status q \<and>
    p_stage p = p_stage q \<and> map cp_hash (journal p) = map cp_hash (journal q)"
proof -
  note eq = canonical_jobj_eqD [OF assms [unfolded plan_json_def], unfolded record_lookups]
  have "map cp_hash (journal p) = map cp_hash (journal q)"
    using eq [of "''transaction_journal''"]
    by (intro journal_json_hashes [of e]) (simp add: jlist_def o_def)
  then show ?thesis
    using eq [of "''operation_id''"] eq [of "''content_hash''"] eq [of "''status''"] eq [of "''transaction_stage''"]
    by simp
qed

lemma pins_json_determines:
  assumes "canonical_json_value (pins_json q) = canonical_json_value (pins_json r)"
  shows "build_identity_hash q = build_identity_hash r \<and> pin_catalog_hash q = pin_catalog_hash r \<and>
    credential_generation_id q = credential_generation_id r \<and>
    admission_policy_hash q = admission_policy_hash r \<and> authority_hash q = authority_hash r \<and>
    workspace_graph_hash q = workspace_graph_hash r"
proof -
  note eq = canonical_jobj_eqD [OF assms [unfolded pins_json_def], unfolded record_lookups]
  have "authority_hash q = authority_hash r"
    using eq [of "''authority_hash''"] by (auto simp: map_option_case split: option.splits)
  then show ?thesis
    using eq [of "''build_identity_hash''"] eq [of "''catalog_hash''"] eq [of "''credential_generation_id''"]
      eq [of "''admission_policy_hash''"] eq [of "''workspace_graph_hash''"]
    by simp
qed

lemma plan_step_catalog: "plan_step e p p' \<Longrightarrow> catalog_hash p' = catalog_hash p"
  by (cases rule: plan_step.cases) (auto simp: step_iffs record_Inr_iff)

lemma plan_step_not_draft: "plan_step e p p' \<Longrightarrow> status p' \<noteq> Draft"
  by (cases rule: plan_step.cases) (auto simp: step_iffs record_Inr_iff executed_def)

lemma v2_step_pins:
  assumes "v2_step e d d'"
  shows "build_identity_hash (pins d') = build_identity_hash (pins d)"
    and "pin_catalog_hash (pins d') = pin_catalog_hash (pins d)"
    and "credential_generation_id (pins d') = credential_generation_id (pins d)"
    and "admission_policy_hash (pins d') = admission_policy_hash (pins d)"
    and "workspace_graph_hash (pins d') = workspace_graph_hash (pins d)"
    and "resource_observation_hashes (pins d') = resource_observation_hashes (pins d)"
    and "authority_hash (pins d) = Some h \<Longrightarrow> authority_hash (pins d') = Some h"
    and "status (v2_plan d) \<noteq> Draft \<Longrightarrow> authority_hash (pins d') = authority_hash (pins d)"
    and "status (v2_plan d) \<noteq> Draft \<Longrightarrow> status (v2_plan d') \<noteq> Draft"
  using assms by (cases rule: v2_step.cases;
    auto simp: refresh_from_plan_iff bind_authority_iff dest: plan_step_not_draft)+

lemma v2_path_pins:
  "(v2_step e)\<^sup>*\<^sup>* d d' \<Longrightarrow>
     build_identity_hash (pins d') = build_identity_hash (pins d) \<and>
     pin_catalog_hash (pins d') = pin_catalog_hash (pins d) \<and>
     credential_generation_id (pins d') = credential_generation_id (pins d) \<and>
     admission_policy_hash (pins d') = admission_policy_hash (pins d) \<and>
     workspace_graph_hash (pins d') = workspace_graph_hash (pins d) \<and>
     resource_observation_hashes (pins d') = resource_observation_hashes (pins d) \<and>
     (\<forall>h. authority_hash (pins d) = Some h \<longrightarrow> authority_hash (pins d') = Some h) \<and>
     (status (v2_plan d) \<noteq> Draft \<longrightarrow>
        authority_hash (pins d') = authority_hash (pins d) \<and> status (v2_plan d') \<noteq> Draft)"
proof (induction rule: rtranclp_induct)
  case (step d' d'')
  note s = v2_step_pins [OF step.hyps(2)]
  show ?case using step.IH s by metis
qed simp

text \<open>The cost budget is kept until the plan takes a step, and is then that of its approval.\<close>

lemma v2_path_budget:
  "(v2_step e)\<^sup>*\<^sup>* d d' \<Longrightarrow> cost_budget (pins d') = cost_budget (pins d) \<or>
     cost_budget (pins d') = (case p_approval (v2_plan d') of None \<Rightarrow> None | Some a \<Rightarrow> max_cost a)"
proof (induction rule: rtranclp_induct)
  case (step d' d'')
  from step.hyps(2) show ?case
  proof cases
    case (refresh p)
    then show ?thesis by (auto simp: refresh_from_plan_iff)
  next
    case (bind h)
    then have "cost_budget (pins d'') = cost_budget (pins d')" "v2_plan d'' = v2_plan d'"
      by (auto simp: bind_authority_iff)
    with step.IH show ?thesis by simp
  qed
qed simp

text \<open>The canonical document can follow every step of its plan.\<close>

lemma refresh_follows_plan:
  assumes "v2_reachable e d" "plan_step e (v2_plan d) p"
  shows "\<exists>d'. refresh_from_plan e p d = Inr d' \<and> v2_plan d' = p \<and>
    cost_budget (pins d') = (case p_approval p of None \<Rightarrow> None | Some a \<Rightarrow> max_cost a)"
proof -
  note inv = v2_reachable_inv [OF assms(1)]
  have "plan_reachable e p" using inv assms(2) by (blast intro: plan_reachable.stepped)
  then have "validate_transaction_journal e p = Inr ()"
    using reachable_inv by (auto simp: plan_inv_def ready_valid)
  moreover have "catalog_hash p = catalog_hash (v2_plan d)" by (rule plan_step_catalog [OF assms(2)])
  ultimately show ?thesis
    using inv by (auto simp: refresh_from_plan_iff v2_validate_iff) (simp_all add: pins_complete_def)
qed

section \<open>Properties\<close>

definition demo_pins :: plan_pins where
  "demo_pins = \<lparr>build_identity_hash = ''b'', pin_catalog_hash = ''catalog'', credential_generation_id = ''g'',
     admission_policy_hash = ''p'', authority_hash = None, workspace_graph_hash = ''w'',
     resource_observation_hashes = [], cost_budget = None\<rparr>"

definition demo_v2 :: plan_v2 where
  "demo_v2 = v2_refresh_hash demo_env
     \<lparr>v2_schema_version = 2, v2_plan = demo_prepared, pins = demo_pins, v2_content_hash = []\<rparr>"

lemma demo_prepared_catalog: "catalog_hash demo_prepared = ''catalog''"
  using demo_plan_facts by (simp add: demo_prepared_def prepare_plan_def refresh_hash_def)

lemma demo_v2_new: "v2_new demo_env demo_prepared demo_pins = Inr demo_v2"
proof -
  have "validate_transaction_journal demo_env demo_prepared = Inr ()"
    using reachable_inv [OF demo_prepared_reachable] by (simp add: plan_inv_def ready_valid)
  then show ?thesis
    by (simp add: v2_new_iff demo_v2_def v2_validate_iff)
      (simp add: pins_complete_def demo_pins_def demo_prepared_catalog)
qed

lemma demo_v2_reachable: "v2_reachable demo_env demo_v2"
  by (rule v2_reachable.created [OF demo_prepared_reachable demo_v2_new])

text \<open>
  C32. Execution pins are immutable. Whatever happens to a canonical plan document after it is
  created, its build identity, catalog, credential generation, admission policy, workspace
  graph and resource observations stay as reviewed, and the catalog is still that of its plan; an
  authority pin is never replaced, and none is added once the plan has left the draft state. The cost
  budget is the one pin that follows the plan: after a step of the plan it is the ceiling of its approval.
\<close>

theorem execution_pins_immutable:
  assumes "v2_reachable e d" "(v2_step e)\<^sup>*\<^sup>* d d'"
  shows "v2_validate e d' = Inr () \<and>
    build_identity_hash (pins d') = build_identity_hash (pins d) \<and>
    pin_catalog_hash (pins d') = pin_catalog_hash (pins d) \<and> pin_catalog_hash (pins d') = catalog_hash (v2_plan d') \<and>
    credential_generation_id (pins d') = credential_generation_id (pins d) \<and>
    admission_policy_hash (pins d') = admission_policy_hash (pins d) \<and>
    workspace_graph_hash (pins d') = workspace_graph_hash (pins d) \<and>
    resource_observation_hashes (pins d') = resource_observation_hashes (pins d) \<and>
    (authority_hash (pins d) \<noteq> None \<or> status (v2_plan d) \<noteq> Draft \<longrightarrow>
       authority_hash (pins d') = authority_hash (pins d)) \<and>
    (cost_budget (pins d') = cost_budget (pins d) \<or>
       cost_budget (pins d') = (case p_approval (v2_plan d') of None \<Rightarrow> None | Some a \<Rightarrow> max_cost a))"
proof -
  from assms(2,1) have "v2_reachable e d'"
    by (induction rule: rtranclp_induct) (auto intro: v2_reachable.stepped)
  then have "v2_validate e d' = Inr ()" using v2_reachable_inv by blast
  moreover from this have "pin_catalog_hash (pins d') = catalog_hash (v2_plan d')"
    by (simp add: v2_validate_iff pins_complete_def)
  ultimately show ?thesis using v2_path_pins [OF assms(2)] v2_path_budget [OF assms(2)] by auto
qed

theorem execution_pins_immutable_witness:
  "v2_validate demo_env demo_v2 = Inr () \<and> pin_catalog_hash (pins demo_v2) = catalog_hash (v2_plan demo_v2)"
  using execution_pins_immutable [OF demo_v2_reachable rtranclp.rtrancl_refl] by blast

text \<open>
  The canonical document is tamper-evident: two valid documents with the same content hash
  pin the same build, catalog, credential generation, policy, authority and workspace, and
  hold plans with the same operation, reviewed content hash, status, stage and checkpoint
  hashes, or their canonical forms are a collision.
\<close>

lemma v2_tamper_evident:
  assumes "v2_validate e d = Inr ()" "v2_validate e d' = Inr ()" "v2_content_hash d = v2_content_hash d'"
  shows "(build_identity_hash (pins d) = build_identity_hash (pins d') \<and>
      pin_catalog_hash (pins d) = pin_catalog_hash (pins d') \<and>
      credential_generation_id (pins d) = credential_generation_id (pins d') \<and>
      admission_policy_hash (pins d) = admission_policy_hash (pins d') \<and>
      authority_hash (pins d) = authority_hash (pins d') \<and>
      workspace_graph_hash (pins d) = workspace_graph_hash (pins d') \<and>
      operation_id (v2_plan d) = operation_id (v2_plan d') \<and>
      content_hash (v2_plan d) = content_hash (v2_plan d') \<and> status (v2_plan d) = status (v2_plan d') \<and>
      p_stage (v2_plan d) = p_stage (v2_plan d') \<and>
      map cp_hash (journal (v2_plan d)) = map cp_hash (journal (v2_plan d')))
    \<or> collides (hash_value e) (canonical_json_value (v2_document e d)) (canonical_json_value (v2_document e d'))"
proof -
  have "hash_value e (canonical_json_value (v2_document e d)) = hash_value e (canonical_json_value (v2_document e d'))"
    using assms by (simp add: v2_validate_iff v2.bound_def canonical_hash_value_def)
  from collidesI [of "hash_value e", OF this] show ?thesis
    by (auto simp: v2_document_def dest: plan_json_determines pins_json_determines)
qed

end
