(* ===== verification/Schema_Redaction.thy ===== *)
theory Schema_Redaction
  imports Json_Value
begin

text \<open>
  Redaction of catalog-owned JSON Schema documents (\<^verbatim>\<open>redact_json_schema\<close> in
  \<^verbatim>\<open>crates/cfctl-core/src/lib.rs\<close>): property names are public, but what annotates a sensitive
  property, directly or through a local reference, is not.
\<close>

section \<open>JSON pointers\<close>

text \<open>\<^verbatim>\<open>str::replace\<close> of a pair of characters, and \<^verbatim>\<open>Value::pointer\<close>.\<close>

fun replace_pair :: "char \<Rightarrow> char \<Rightarrow> char \<Rightarrow> string \<Rightarrow> string" where
  "replace_pair a b c (x # y # s) =
     (if x = a \<and> y = b then c # replace_pair a b c s else x # replace_pair a b c (y # s))"
| "replace_pair a b c s = s"

definition unescape_token :: "string \<Rightarrow> string" where
  "unescape_token s = replace_pair (CHR ''~'') (CHR ''0'') (CHR ''~'') (replace_pair (CHR ''~'') (CHR ''1'') (CHR ''/'') s)"

definition parse_index :: "string \<Rightarrow> nat option" where
  "parse_index s =
     (if s = [] \<or> starts_with s ''0'' \<and> length s \<noteq> 1 \<or> \<not> list_all (\<lambda>c. byte c \<ge> 48 \<and> byte c \<le> 57) s then None
      else Some (foldl (\<lambda>n c. 10 * n + (byte c - 48)) 0 s))"

fun pointer_step :: "json \<Rightarrow> string \<Rightarrow> json option" where
  "pointer_step (JObject m) token = bt_get m token"
| "pointer_step (JArray vs) token =
     (case parse_index token of None \<Rightarrow> None | Some i \<Rightarrow> if i < length vs then Some (vs ! i) else None)"
| "pointer_step _ token = None"

fun pointer_walk :: "json \<Rightarrow> string list \<Rightarrow> json option" where
  "pointer_walk v [] = Some v"
| "pointer_walk v (t # ts) = (case pointer_step v t of None \<Rightarrow> None | Some w \<Rightarrow> pointer_walk w ts)"

definition json_pointer :: "json \<Rightarrow> string \<Rightarrow> json option" where
  "json_pointer v p =
     (if p = [] then Some v
      else if \<not> starts_with p ''/'' then None
      else pointer_walk v (map unescape_token (tl (split_char (CHR ''/'') p))))"

section \<open>Redaction\<close>

definition json_pointer_escape_token :: "string \<Rightarrow> string" where
  "json_pointer_escape_token token =
     concat (map (\<lambda>c. if c = CHR ''/'' then ''~1'' else [c])
       (concat (map (\<lambda>c. if c = CHR ''~'' then ''~0'' else [c]) token)))"

definition is_json_schema_name_map :: "string \<Rightarrow> bool" where
  "is_json_schema_name_map key \<longleftrightarrow>
     key \<in> {''properties'', ''patternProperties'', ''dependentSchemas'', ''definitions'', ''$defs''}"

definition is_json_schema_instance_annotation :: "string \<Rightarrow> bool" where
  "is_json_schema_instance_annotation key \<longleftrightarrow>
     key \<in> {''const'', ''default'', ''enum'', ''example'', ''examples'', ''x-example'', ''x-examples''}"

fun schema_shaped :: "json \<Rightarrow> bool" where
  "schema_shaped (JObject _) = True"
| "schema_shaped (JBool _) = True"
| "schema_shaped _ = False"

lemma size_enumerated_less: "(i, v) \<in> set (enumerate 0 vs) \<Longrightarrow> size v < size (JArray vs)"
  by (rule size_item_less) (auto simp: in_set_enumerate_eq)

text \<open>The pointer of a local \<^verbatim>\<open>$ref\<close>.\<close>

definition local_reference :: "(string \<times> json) list \<Rightarrow> string option" where
  "local_reference m =
     (case bt_get m ''$ref'' of
        Some (JString r) \<Rightarrow> strip_prefix r ''#''
      | _ \<Rightarrow> None)"

text \<open>
  The collector follows a reference once, so its recursion is bounded by the number of references
  of the document; the first argument counts the references it may still follow in a chain.
\<close>

function collect_references :: "nat \<Rightarrow> json \<Rightarrow> json \<Rightarrow> bool \<Rightarrow> bool \<Rightarrow> string set \<Rightarrow> string set" where
  "collect_references n document (JObject m) schema_names sensitive refs =
     foldl (\<lambda>refs (key, item).
         if schema_names \<and> schema_shaped item then
           collect_references n document item False (sensitive \<or> is_sensitive_key key) refs
         else collect_references n document item (is_json_schema_name_map key) sensitive refs)
       (case (if sensitive then local_reference m else None) of
          None \<Rightarrow> refs
        | Some pointer \<Rightarrow>
            if pointer \<in> refs then refs
            else case n of
              0 \<Rightarrow> insert pointer refs
            | Suc n' \<Rightarrow>
                (case json_pointer document pointer of
                   None \<Rightarrow> insert pointer refs
                 | Some resolved \<Rightarrow>
                     collect_references n' document resolved False True (insert pointer refs)))
       m"
| "collect_references n document (JArray items) schema_names sensitive refs =
     foldl (\<lambda>refs item. collect_references n document item False sensitive refs) refs items"
| "collect_references n document JNull schema_names sensitive refs = refs"
| "collect_references n document (JBool _) schema_names sensitive refs = refs"
| "collect_references n document (JNumber _) schema_names sensitive refs = refs"
| "collect_references n document (JString _) schema_names sensitive refs = refs"
  by pat_completeness auto
termination
  by (relation "measures [\<lambda>(n, _). n, \<lambda>(_, _, v, _). size v]")
     (auto dest: size_entry_less size_item_less)

fun all_references :: "json \<Rightarrow> string list" where
  "all_references (JObject m) =
     (case local_reference m of None \<Rightarrow> [] | Some p \<Rightarrow> [p]) @ concat (map (\<lambda>(k, v). all_references v) m)"
| "all_references (JArray vs) = concat (map all_references vs)"
| "all_references _ = []"

definition collect_sensitive_schema_references :: "json \<Rightarrow> string set" where
  "collect_sensitive_schema_references document =
     collect_references (length (all_references document)) document document False False {}"

text \<open>
  A key and an item of an object: whether the item is a named schema, or is replaced, or is
  traversed as an ordinary member.
\<close>

function redact_json_schema_inner :: "string set \<Rightarrow> json \<Rightarrow> string \<Rightarrow> bool \<Rightarrow> bool \<Rightarrow> json" where
  "redact_json_schema_inner refs (JObject m) pointer schema_names sensitive0 =
     (let sensitive = (sensitive0 \<or> pointer \<in> refs) in
      JObject (bt_collect (map (\<lambda>(key, item).
        let item_pointer = pointer @ ''/'' @ json_pointer_escape_token key in
        (key,
         if schema_names \<and> schema_shaped item then
           redact_json_schema_inner refs item item_pointer False (sensitive \<or> is_sensitive_key key)
         else if (sensitive \<and> is_json_schema_instance_annotation key) \<or> is_sensitive_key key then redacted
         else redact_json_schema_inner refs item item_pointer (is_json_schema_name_map key) sensitive)) m)))"
| "redact_json_schema_inner refs (JArray items) pointer schema_names sensitive0 =
     (let sensitive = (sensitive0 \<or> pointer \<in> refs) in
      JArray (map (\<lambda>(index, item).
        redact_json_schema_inner refs item (pointer @ ''/'' @ show_nat index) False sensitive)
        (enumerate 0 items)))"
| "redact_json_schema_inner refs JNull pointer schema_names sensitive0 = JNull"
| "redact_json_schema_inner refs (JBool b) pointer schema_names sensitive0 = JBool b"
| "redact_json_schema_inner refs (JNumber n) pointer schema_names sensitive0 = JNumber n"
| "redact_json_schema_inner refs (JString s) pointer schema_names sensitive0 = JString s"
  by pat_completeness auto
termination
  by (relation "measure (\<lambda>(_, v, _). size v)")
     (auto dest: size_entry_less size_enumerated_less)

definition redact_json_schema :: "json \<Rightarrow> json" where
  "redact_json_schema value =
     redact_json_schema_inner (collect_sensitive_schema_references value) value [] False False"

section \<open>The collector\<close>

lemma foldl_subset:
  "(\<And>S x. x \<in> set xs \<Longrightarrow> S \<subseteq> f S x) \<Longrightarrow> (S :: 'a set) \<subseteq> foldl f S xs"
  by (induction xs arbitrary: S) (simp, metis foldl_Cons list.set_intros subset_trans)

text \<open>Induction over a value whose references may still be followed \<open>n\<close> deep.\<close>

lemma reference_induct [case_names object array scalar]:
  assumes obj: "\<And>n m. (\<And>n' r. n = Suc n' \<Longrightarrow> P n' r) \<Longrightarrow> (\<And>k v. (k, v) \<in> set m \<Longrightarrow> P n v) \<Longrightarrow> P n (JObject m)"
    and arr: "\<And>n vs. (\<And>v. v \<in> set vs \<Longrightarrow> P n v) \<Longrightarrow> P n (JArray vs)"
    and scl: "\<And>n v. (\<And>m. v \<noteq> JObject m) \<Longrightarrow> (\<And>vs. v \<noteq> JArray vs) \<Longrightarrow> P n v"
  shows "P n v"
proof (induction "(n, v)" arbitrary: n v rule: wf_induct_rule [OF wf_measures [of "[fst, size \<circ> snd]"]])
  case (1 n v)
  then have IH: "\<And>n' w. n' < n \<Longrightarrow> P n' w" "\<And>w. size w < size v \<Longrightarrow> P n w" by auto
  show ?case
  proof (cases v)
    case (JArray vs)
    then show ?thesis using IH(2) size_item_less by (metis arr)
  next
    case (JObject m)
    then show ?thesis using IH size_entry_less by (metis obj lessI)
  qed (simp_all add: scl)
qed

lemma collect_scalar:
  "(\<And>m. v \<noteq> JObject m) \<Longrightarrow> (\<And>vs. v \<noteq> JArray vs) \<Longrightarrow> collect_references n document v names sens refs = refs"
  by (cases v) auto

text \<open>The two parts of the object case: what following a reference adds, and one member.\<close>

definition follow_reference :: "nat \<Rightarrow> json \<Rightarrow> (string \<times> json) list \<Rightarrow> bool \<Rightarrow> string set \<Rightarrow> string set" where
  "follow_reference n document m sens refs =
     (case (if sens then local_reference m else None) of None \<Rightarrow> refs
      | Some p \<Rightarrow> if p \<in> refs then refs else case n of 0 \<Rightarrow> insert p refs
        | Suc n' \<Rightarrow> (case json_pointer document p of None \<Rightarrow> insert p refs
          | Some r \<Rightarrow> collect_references n' document r False True (insert p refs)))"

definition collect_member :: "nat \<Rightarrow> json \<Rightarrow> bool \<Rightarrow> bool \<Rightarrow> string set \<Rightarrow> string \<times> json \<Rightarrow> string set" where
  "collect_member n document names sens refs = (\<lambda>(key, item).
     if names \<and> schema_shaped item then
       collect_references n document item False (sens \<or> is_sensitive_key key) refs
     else collect_references n document item (is_json_schema_name_map key) sens refs)"

lemma collect_object:
  "collect_references n document (JObject m) names sens refs =
     foldl (collect_member n document names sens) (follow_reference n document m sens refs) m"
  by (simp add: follow_reference_def collect_member_def [abs_def])

declare collect_references.simps(1) [simp del]

lemma collect_references_mono: "refs \<subseteq> collect_references n document v names sens refs"
proof (induction n v arbitrary: names sens refs rule: reference_induct)
  case (object n m)
  have "refs \<subseteq> follow_reference n document m sens refs"
    unfolding follow_reference_def using object(1)
    by (fastforce split: option.splits nat.splits)
  moreover have "S \<subseteq> collect_member n document names sens S x" if "x \<in> set m" for S x
    using object(2) that by (cases x) (auto simp: collect_member_def)
  ultimately show ?case unfolding collect_object by (metis foldl_subset subset_trans)
next
  case (array n vs)
  then show ?case by (simp add: foldl_subset)
qed (simp add: collect_scalar)

lemma collect_member_mono: "S \<subseteq> collect_member n document names sens S x"
  by (cases x) (simp add: collect_member_def collect_references_mono)

lemma local_reference_listed: "local_reference m = Some p \<Longrightarrow> p \<in> set (all_references (JObject m))"
  by simp

lemma member_references: "(k, v) \<in> set m \<Longrightarrow> set (all_references v) \<subseteq> set (all_references (JObject m))"
  by auto

lemma pointer_step_references: "pointer_step v t = Some w \<Longrightarrow> set (all_references w) \<subseteq> set (all_references v)"
  by (cases "(v, t)" rule: pointer_step.cases)
     (auto simp: bt_get_def split: option.splits if_splits dest!: map_of_SomeD intro: nth_mem)

lemma pointer_walk_references: "pointer_walk v ts = Some w \<Longrightarrow> set (all_references w) \<subseteq> set (all_references v)"
  by (induction v ts rule: pointer_walk.induct) (auto split: option.splits dest: pointer_step_references)

lemma json_pointer_references: "json_pointer v p = Some w \<Longrightarrow> set (all_references w) \<subseteq> set (all_references v)"
  by (auto simp: json_pointer_def dest: pointer_walk_references split: if_splits)

lemma foldl_cong_inv:
  assumes "\<And>S x. x \<in> set xs \<Longrightarrow> I S \<Longrightarrow> f S x = g S x" and "\<And>S x. x \<in> set xs \<Longrightarrow> I S \<Longrightarrow> I (f S x)" and "I S"
  shows "foldl f S xs = foldl g S xs"
  using assms by (induction xs arbitrary: S) simp_all

text \<open>
  The bound is large enough: when it covers the references that are not collected yet, a larger
  one gives the same result, so the branch at bound \<open>0\<close> is never taken for a new reference that
  could be followed.
\<close>

lemma pending_le:
  assumes "card ((D \<union> V) - S) \<le> n" "V' \<subseteq> D \<union> V" "S \<subseteq> S'" "finite D" "finite V"
  shows "card ((D \<union> V') - S') \<le> (n :: nat)"
  by (rule order_trans [OF card_mono assms(1)]) (use assms in auto)

lemma pending_insert:
  assumes "card ((D \<union> V) - S) \<le> Suc n" "p \<in> V" "p \<notin> S" "V' \<subseteq> D" "finite D" "finite V"
  shows "card ((D \<union> V') - insert p S) \<le> n"
proof -
  have "(D \<union> V') - insert p S \<subseteq> ((D \<union> V) - S) - {p}" using assms(4) by blast
  then have "card ((D \<union> V') - insert p S) \<le> card (((D \<union> V) - S) - {p})"
    by (rule card_mono [rotated]) (simp add: assms(5,6))
  also have "\<dots> < card ((D \<union> V) - S)"
    by (rule card_Diff1_less) (simp_all add: assms)
  finally show ?thesis using assms(1) by linarith
qed

lemma collect_fuel_enough:
  "card ((set (all_references document) \<union> set (all_references v)) - refs) \<le> n \<Longrightarrow>
   collect_references (Suc n) document v names sens refs = collect_references n document v names sens refs"
proof (induction n v arbitrary: names sens refs rule: reference_induct)
  case (object n m)
  let ?D = "set (all_references document)" and ?V = "set (all_references (JObject m))"
  have follow: "follow_reference (Suc n) document m sens refs = follow_reference n document m sens refs"
  proof (cases "if sens then local_reference m else None")
    case (Some p)
    then have p: "p \<in> ?V" by (metis local_reference_listed option.distinct(1))
    show ?thesis
    proof (cases "p \<in> refs")
      case False
      then have "p \<in> (?D \<union> ?V) - refs" using p by blast
      then have "card ((?D \<union> ?V) - refs) \<noteq> 0" by (metis List.finite_set card_0_eq empty_iff finite_Diff finite_Un)
      with object.prems obtain n' where n': "n = Suc n'" by (cases n) auto
      have "collect_references (Suc n') document r False True (insert p refs)
          = collect_references n' document r False True (insert p refs)"
        if "json_pointer document p = Some r" for r
        by (rule object(1) [OF n']) (rule pending_insert [OF object.prems [unfolded n'] p False],
          simp_all add: json_pointer_references [OF that] del: all_references.simps)
      then show ?thesis using Some False n' by (auto simp: follow_reference_def split: option.splits)
    qed (simp add: follow_reference_def Some)
  qed (simp add: follow_reference_def)
  have step: "collect_member (Suc n) document names sens S x = collect_member n document names sens S x"
    if x: "x \<in> set m" and S: "refs \<subseteq> S" for S x
  proof (cases x)
    case (Pair k v)
    have "card ((?D \<union> set (all_references v)) - S) \<le> n"
      by (rule pending_le [OF object.prems _ S], rule subset_trans [OF member_references [of k v m]])
         (use x Pair in \<open>simp_all del: all_references.simps\<close>)
    from object(2) [OF x [unfolded Pair], OF this] Pair show ?thesis by (simp add: collect_member_def)
  qed
  have "refs \<subseteq> follow_reference n document m sens refs"
    using collect_references_mono by (fastforce simp: follow_reference_def split: option.splits nat.splits)
  then have "foldl (collect_member (Suc n) document names sens) (follow_reference n document m sens refs) m
      = foldl (collect_member n document names sens) (follow_reference n document m sens refs) m"
    by (rule foldl_cong_inv [where I = "\<lambda>S. refs \<subseteq> S", rotated 2])
       (use step in blast, use subset_trans collect_member_mono in fast)
  then show ?case by (simp add: collect_object follow)
next
  case (array n vs)
  have "collect_references (Suc n) document v False sens S = collect_references n document v False sens S"
    if "v \<in> set vs" "refs \<subseteq> S" for v S
    by (rule array(1) [OF that(1)], rule pending_le [OF array.prems _ that(2)]) (use that in auto)
  then show ?case
    using collect_references_mono
    by (simp, intro foldl_cong_inv [where I = "\<lambda>S. refs \<subseteq> S"]) (simp_all, meson subset_trans)
qed (simp add: collect_scalar)

lemma collect_fuel_stable:
  "length (all_references document) \<le> n \<Longrightarrow>
   collect_references n document document False False {} = collect_sensitive_schema_references document"
proof (induction n rule: dec_induct)
  case (step n)
  have "card (set (all_references document)) \<le> n" using step(1) card_length order_trans by blast
  with step(3) show ?case by (simp add: collect_fuel_enough)
qed (simp add: collect_sensitive_schema_references_def)

section \<open>What the collector finds\<close>

text \<open>
  The schemas that a walk over a document visits, without a set of visited references: whether the
  visit is at a map of names, and whether it is below a sensitive name, directly or through references.
\<close>

inductive visits :: "json \<Rightarrow> json \<Rightarrow> bool \<Rightarrow> bool \<Rightarrow> bool" for document where
  whole: "visits document document False False"
| named: "visits document (JObject m) True sens \<Longrightarrow> (key, item) \<in> set m \<Longrightarrow> schema_shaped item \<Longrightarrow>
    visits document item False (sens \<or> is_sensitive_key key)"
| member: "visits document (JObject m) names sens \<Longrightarrow> (key, item) \<in> set m \<Longrightarrow> \<not> (names \<and> schema_shaped item) \<Longrightarrow>
    visits document item (is_json_schema_name_map key) sens"
| item: "visits document (JArray items) names sens \<Longrightarrow> v \<in> set items \<Longrightarrow> visits document v False sens"
| referred: "visits document (JObject m) names True \<Longrightarrow> local_reference m = Some pointer \<Longrightarrow>
    json_pointer document pointer = Some resolved \<Longrightarrow> visits document resolved False True"

text \<open>A set covers a value when it has every reference at a sensitive place inside the value.\<close>

fun covers :: "string set \<Rightarrow> bool \<Rightarrow> bool \<Rightarrow> json \<Rightarrow> bool" where
  "covers R names sens (JObject m) \<longleftrightarrow>
     (\<forall>p. sens \<longrightarrow> local_reference m = Some p \<longrightarrow> p \<in> R) \<and>
     (\<forall>(k, v) \<in> set m. if names \<and> schema_shaped v then covers R False (sens \<or> is_sensitive_key k) v
        else covers R (is_json_schema_name_map k) sens v)"
| "covers R names sens (JArray vs) \<longleftrightarrow> (\<forall>v \<in> set vs. covers R False sens v)"
| "covers R names sens _ \<longleftrightarrow> True"

lemma covers_mono: "covers R names sens v \<Longrightarrow> R \<subseteq> S \<Longrightarrow> covers S names sens v"
proof (induction R names sens v rule: covers.induct)
  case (1 R names sens m)
  have "if names \<and> schema_shaped v then covers S False (sens \<or> is_sensitive_key k) v else covers S (is_json_schema_name_map k) sens v"
    if "(k, v) \<in> set m" for k v
    using 1(1,2) [OF that refl] "1.prems" that by (auto split: if_splits)
  then have "\<forall>(k, v) \<in> set m. if names \<and> schema_shaped v then covers S False (sens \<or> is_sensitive_key k) v
      else covers S (is_json_schema_name_map k) sens v" by fast
  moreover have "\<forall>p. sens \<longrightarrow> local_reference m = Some p \<longrightarrow> p \<in> S" using "1.prems" by auto
  ultimately show ?case by (simp only: covers.simps)
qed auto

text \<open>What a call adds is followed to its end: its targets are covered as well.\<close>

definition closed_from :: "json \<Rightarrow> string set \<Rightarrow> string set \<Rightarrow> bool" where
  "closed_from document R S \<longleftrightarrow>
     (\<forall>p r. p \<in> S \<longrightarrow> p \<notin> R \<longrightarrow> json_pointer document p = Some r \<longrightarrow> covers S False True r)"

lemma closed_from_trans: "closed_from document R S \<Longrightarrow> closed_from document S T \<Longrightarrow> S \<subseteq> T \<Longrightarrow> closed_from document R T"
  unfolding closed_from_def using covers_mono by blast

lemma closed_from_refl [simp]: "closed_from document R R"
  by (simp add: closed_from_def)

lemma foldl_closed:
  assumes "\<And>S x. x \<in> set xs \<Longrightarrow> R \<subseteq> S \<Longrightarrow> S \<subseteq> f S x \<and> closed_from document S (f S x) \<and> Q (f S x) x"
    and "\<And>S T x. Q S x \<Longrightarrow> S \<subseteq> T \<Longrightarrow> Q T x"
  shows "R \<subseteq> foldl f R xs \<and> closed_from document R (foldl f R xs) \<and> (\<forall>x \<in> set xs. Q (foldl f R xs) x)"
  using assms(1)
proof (induction xs arbitrary: R)
  case (Cons x xs)
  let ?S = "f R x"
  have x: "R \<subseteq> ?S" "closed_from document R ?S" "Q ?S x" using Cons.prems [of x R] by simp_all
  have rest: "?S \<subseteq> foldl f ?S xs \<and> closed_from document ?S (foldl f ?S xs) \<and> (\<forall>x \<in> set xs. Q (foldl f ?S xs) x)"
  proof (rule Cons.IH)
    fix S y assume "y \<in> set xs" "f R x \<subseteq> S"
    then show "S \<subseteq> f S y \<and> closed_from document S (f S y) \<and> Q (f S y) y" using Cons.prems [of y S] x(1) by auto
  qed
  with x assms(2) closed_from_trans show ?case by auto
qed simp

lemma collect_covers:
  "card ((set (all_references document) \<union> set (all_references v)) - refs) \<le> n \<Longrightarrow>
   closed_from document refs (collect_references n document v names sens refs) \<and>
   covers (collect_references n document v names sens refs) names sens v"
proof (induction n v arbitrary: names sens refs rule: reference_induct)
  case (object n m)
  let ?D = "set (all_references document)" and ?V = "set (all_references (JObject m))"
  let ?F = "follow_reference n document m sens refs"
  have follow: "refs \<subseteq> ?F \<and> closed_from document refs ?F \<and> (\<forall>p. sens \<longrightarrow> local_reference m = Some p \<longrightarrow> p \<in> ?F)"
  proof (cases "if sens then local_reference m else None")
    case (Some p)
    then have p: "p \<in> ?V" and lr: "local_reference m = Some p" by (auto split: if_splits)
    show ?thesis
    proof (cases "p \<in> refs")
      case False
      then have "p \<in> (?D \<union> ?V) - refs" using p by blast
      then have "card ((?D \<union> ?V) - refs) \<noteq> 0" by (metis List.finite_set card_0_eq empty_iff finite_Diff finite_Un)
      with object.prems obtain n' where n': "n = Suc n'" by (cases n) auto
      show ?thesis
      proof (cases "json_pointer document p")
        case None
        then have "?F = insert p refs" using Some False n' by (simp add: follow_reference_def)
        then show ?thesis using None lr by (auto simp: closed_from_def)
      next
        case (Some r)
        let ?S = "collect_references n' document r False True (insert p refs)"
        have F: "?F = ?S" using \<open>(if sens then local_reference m else None) = Some p\<close> False n' Some by (simp add: follow_reference_def)
        have "closed_from document (insert p refs) ?S \<and> covers ?S False True r"
          by (rule object(1) [OF n']) (rule pending_insert [OF object.prems [unfolded n'] p False],
            simp_all add: json_pointer_references [OF Some] del: all_references.simps)
        moreover have "insert p refs \<subseteq> ?S" by (rule collect_references_mono)
        ultimately show ?thesis unfolding F using Some lr by (auto simp: closed_from_def)
      qed
    qed (use Some lr in \<open>auto simp: follow_reference_def\<close>)
  qed (auto simp: follow_reference_def split: if_splits)
  let ?Q = "\<lambda>S (k, v). if names \<and> schema_shaped v then covers S False (sens \<or> is_sensitive_key k) v
      else covers S (is_json_schema_name_map k) sens v"
  let ?T = "foldl (collect_member n document names sens) ?F m"
  have members: "?F \<subseteq> ?T \<and> closed_from document ?F ?T \<and> (\<forall>x \<in> set m. ?Q ?T x)"
  proof (rule foldl_closed)
    fix S x assume x: "x \<in> set m" and S: "?F \<subseteq> S"
    obtain k v where kv: "x = (k, v)" by (cases x)
    have "card ((?D \<union> set (all_references v)) - S) \<le> n"
      by (rule pending_le [OF object.prems, of _ S], rule subset_trans [OF member_references [of k v m]])
         (use x kv S follow in \<open>auto simp del: all_references.simps\<close>)
    from object(2) [OF x [unfolded kv], OF this] kv
    show "S \<subseteq> collect_member n document names sens S x \<and> closed_from document S (collect_member n document names sens S x) \<and>
        ?Q (collect_member n document names sens S x) x"
      using collect_references_mono [of S n document v] by (simp add: collect_member_def)
  qed (auto split: if_splits intro: covers_mono)
  show ?case unfolding collect_object covers.simps using follow members closed_from_trans by fast
next
  case (array n vs)
  have "refs \<subseteq> foldl (\<lambda>refs v. collect_references n document v False sens refs) refs vs \<and>
      closed_from document refs (foldl (\<lambda>refs v. collect_references n document v False sens refs) refs vs) \<and>
      (\<forall>v \<in> set vs. covers (foldl (\<lambda>refs v. collect_references n document v False sens refs) refs vs) False sens v)"
  proof (rule foldl_closed)
    fix S v assume v: "v \<in> set vs" "refs \<subseteq> S"
    have "card ((set (all_references document) \<union> set (all_references v)) - S) \<le> n"
      by (rule pending_le [OF array.prems _ v(2)]) (use v in auto)
    from array(1) [OF v(1) this] show "S \<subseteq> collect_references n document v False sens S \<and>
        closed_from document S (collect_references n document v False sens S) \<and> covers (collect_references n document v False sens S) False sens v"
      using collect_references_mono by blast
  qed (rule covers_mono)
  then show ?case by simp
next
  case (scalar n v)
  then show ?case by (cases v) (simp_all add: collect_scalar, blast+)
qed

lemma visited_covered: "visits document v names sens \<Longrightarrow> covers (collect_sensitive_schema_references document) names sens v"
proof (induction rule: visits.induct)
  let ?R = "collect_sensitive_schema_references document"
  have "card (set (all_references document)) \<le> length (all_references document)" by (rule card_length)
  then have all: "closed_from document {} ?R \<and> covers ?R False False document"
    unfolding collect_sensitive_schema_references_def by (intro collect_covers) simp
  {
    case whole
    show ?case using all by blast
  next
    case (referred m names pointer resolved)
    then have "pointer \<in> ?R" by simp
    with referred(3) all show ?case by (auto simp: closed_from_def)
  }
qed (auto split: if_splits)

text \<open>The collector is complete: every reference at a sensitive place is found, through any chain of them.\<close>

lemma sensitive_reference_collected:
  assumes "visits document (JObject m) names True" "local_reference m = Some p"
  shows "p \<in> collect_sensitive_schema_references document"
  using visited_covered [OF assms(1)] assms(2) by simp

section \<open>What redaction leaves\<close>

text \<open>
  A schema is safe when every sensitive member outside a name map is replaced, and so is every
  annotation of an instance that is sensitive, either from the start or below a sensitive name.
\<close>

fun schema_safe :: "bool \<Rightarrow> bool \<Rightarrow> json \<Rightarrow> bool" where
  "schema_safe names sens (JObject m) =
     list_all (\<lambda>(key, item).
       if names \<and> schema_shaped item then schema_safe False (sens \<or> is_sensitive_key key) item
       else if sens \<and> is_json_schema_instance_annotation key \<or> is_sensitive_key key then item = redacted
       else schema_safe (is_json_schema_name_map key) sens item) m"
| "schema_safe names sens (JArray vs) = list_all (schema_safe False sens) vs"
| "schema_safe names sens _ = True"

definition entry_safe :: "bool \<Rightarrow> bool \<Rightarrow> string \<Rightarrow> json \<Rightarrow> bool" where
  "entry_safe names sens key item =
     (if names \<and> schema_shaped item then schema_safe False (sens \<or> is_sensitive_key key) item
      else if sens \<and> is_json_schema_instance_annotation key \<or> is_sensitive_key key then item = redacted
      else schema_safe (is_json_schema_name_map key) sens item)"

lemma schema_safe_object:
  "schema_safe names sens (JObject m) \<longleftrightarrow> (\<forall>(k, v)\<in>set m. entry_safe names sens k v)"
  by (simp add: entry_safe_def list_all_iff)

lemma schema_safe_redacted [simp]: "schema_safe names sens redacted"
  by (simp add: redacted_def)

lemma not_shaped_redacted [simp]: "\<not> schema_shaped redacted"
  by (simp add: redacted_def)

lemma schema_safe_mono: "schema_safe names sens v \<Longrightarrow> (sens' \<Longrightarrow> sens) \<Longrightarrow> schema_safe names sens' v"
proof (induction names sens v arbitrary: sens' rule: schema_safe.induct)
  case (1 names sens m)
  have "if names \<and> schema_shaped v then schema_safe False (sens' \<or> is_sensitive_key k) v
      else if sens' \<and> is_json_schema_instance_annotation k \<or> is_sensitive_key k then v = redacted
      else schema_safe (is_json_schema_name_map k) sens' v" if kv: "(k, v) \<in> set m" for k v
    using 1(1) [OF kv refl] 1(2) [OF kv refl] "1.prems" kv
    by (fastforce simp: list_all_iff split: if_splits)
  then show ?case by (simp only: schema_safe.simps list_all_iff Ball_def split_paired_All prod.case) blast
qed (auto simp: list_all_iff)

lemma shaped_inner [simp]: "schema_shaped (redact_json_schema_inner R v p names sens) = schema_shaped v"
  by (cases v) (simp_all add: Let_def)

lemma inner_safe: "schema_safe names (sens \<or> p \<in> R) (redact_json_schema_inner R v p names sens)"
proof (induction R v p names sens rule: redact_json_schema_inner.induct)
  case (1 R m p names sens)
  let ?s = "sens \<or> p \<in> R" and ?p = "\<lambda>k. p @ ''/'' @ json_pointer_escape_token k"
  have a: "schema_safe False (?s \<or> is_sensitive_key k)
      (redact_json_schema_inner R v (?p k) False (?s \<or> is_sensitive_key k))"
    if "(k, v) \<in> set m" "names \<and> schema_shaped v" for k v
    by (rule schema_safe_mono [OF 1(1) [OF refl that(1) refl refl that(2)]]) simp
  have b: "schema_safe (is_json_schema_name_map k) ?s
      (redact_json_schema_inner R v (?p k) (is_json_schema_name_map k) ?s)"
    if "(k, v) \<in> set m" "\<not> (names \<and> schema_shaped v)"
      "\<not> (?s \<and> is_json_schema_instance_annotation k \<or> is_sensitive_key k)" for k v
    by (rule schema_safe_mono [OF 1(2) [OF refl that(1) refl refl that(2,3)]]) simp
  let ?x = "\<lambda>k v. if names \<and> schema_shaped v then
      redact_json_schema_inner R v (?p k) False (?s \<or> is_sensitive_key k)
    else if ?s \<and> is_json_schema_instance_annotation k \<or> is_sensitive_key k then redacted
    else redact_json_schema_inner R v (?p k) (is_json_schema_name_map k) ?s"
  have e: "entry_safe names ?s k (?x k v)" if "(k, v) \<in> set m" for k v
    using a [OF that] b [OF that] by (cases "names \<and> schema_shaped v") (auto simp: entry_safe_def)
  have "redact_json_schema_inner R (JObject m) p names sens = JObject (bt_collect (map (\<lambda>(k, v). (k, ?x k v)) m))"
    by (simp only: redact_json_schema_inner.simps Let_def)
  moreover have "entry_safe names ?s k y"
    if "(k, y) \<in> set (bt_collect (map (\<lambda>(k, v). (k, ?x k v)) m))" for k y
  proof -
    from bt_collect_set [OF that] obtain v where "(k, v) \<in> set m" "y = ?x k v" by auto
    with e show ?thesis by blast
  qed
  ultimately show ?case by (simp only: schema_safe_object) fast
next
  case (2 R items p names sens)
  have "schema_safe False (sens \<or> p \<in> R)
      (redact_json_schema_inner R v (p @ ''/'' @ show_nat i) False (sens \<or> p \<in> R))"
    if "(i, v) \<in> set (enumerate 0 items)" for i v
    by (rule schema_safe_mono [OF 2(1) [OF refl that refl]]) simp
  then show ?case by (auto simp: Let_def list_all_iff)
qed simp_all

section \<open>References\<close>

lemma digits_value:
  assumes "s \<noteq> []" "\<not> starts_with s ''0'' \<or> length s = 1" "list_all (\<lambda>c. byte c \<ge> 48 \<and> byte c \<le> 57) s"
  shows "s = show_nat (foldl (\<lambda>n c. 10 * n + (byte c - 48)) 0 s) \<and>
    (\<not> starts_with s ''0'' \<longrightarrow> 0 < foldl (\<lambda>n c. 10 * n + (byte c - 48)) 0 s)"
  using assms
proof (induction s rule: rev_induct)
  case (snoc c s)
  let ?v = "foldl (\<lambda>n c. 10 * n + (byte c - 48)) 0 s"
  have c: "48 \<le> byte c" "byte c \<le> 57" "digit_char (byte c - 48) = c"
    using snoc.prems by (simp_all add: digit_char_def)
  show ?case
  proof (cases "s = []")
    case True
    moreover have "c = CHR ''0''" if "byte c = 48"
    proof -
      have "byte c = byte (CHR ''0'')" using that by simp
      then show ?thesis by (simp only: of_char_eq_iff)
    qed
    ultimately show ?thesis using c by (auto simp: show_nat.simps starts_with_def le_less)
  next
    case False
    then have nz: "\<not> starts_with s ''0''" using snoc.prems(2) by (cases s) (auto simp: starts_with_def)
    define d where "d = byte c - 48"
    have "d < 10" "digit_char d = c" using c by (auto simp: d_def)
    then have "show_nat (10 * ?v + d) = show_nat ?v @ [c]" if "0 < ?v"
      using that by (simp add: show_nat.simps [of "10 * ?v + d"])
    with nz snoc False show ?thesis by (simp add: d_def)
  qed
qed simp

lemma parse_index_show: "parse_index t = Some i \<Longrightarrow> t = show_nat i"
  using digits_value [of t] by (auto simp: parse_index_def split: if_splits)

lemma escape_digits:
  "list_all (\<lambda>c. byte c \<ge> 48 \<and> byte c \<le> 57) s \<Longrightarrow> json_pointer_escape_token s = s"
  by (induction s) (auto simp: json_pointer_escape_token_def)

lemma parse_index_escape: "parse_index t = Some i \<Longrightarrow> json_pointer_escape_token t = show_nat i"
  using parse_index_show [of t i] escape_digits [of t] by (auto simp: parse_index_def split: if_splits)

definition pointer_of :: "string list \<Rightarrow> string" where
  "pointer_of ts = concat (map (\<lambda>t. ''/'' @ json_pointer_escape_token t) ts)"

lemma pointer_of_simps [simp]:
  "pointer_of [] = []" "pointer_of (t # ts) = ''/'' @ json_pointer_escape_token t @ pointer_of ts"
  by (simp_all add: pointer_of_def)

lemma walk_redacted: "pointer_walk redacted ts = Some w \<Longrightarrow> w = redacted"
  by (cases ts) (simp_all add: redacted_def)

lemma inner_step:
  assumes "pointer_step (redact_json_schema_inner R v p names sens) t = Some w"
  shows "w = redacted \<or> (\<exists>v' names' sens'. w = redact_json_schema_inner R v' (p @ ''/'' @ json_pointer_escape_token t) names' sens' \<and>
    (names' \<longrightarrow> is_json_schema_name_map t))"
proof (cases v)
  case (JArray vs)
  from assms JArray obtain i where i: "parse_index t = Some i" "i < length vs"
    "w = redact_json_schema_inner R (vs ! i) (p @ ''/'' @ show_nat i) False (sens \<or> p \<in> R)"
    by (auto simp: Let_def nth_enumerate_eq split: option.splits if_splits)
  with parse_index_escape [OF i(1)] show ?thesis by metis
next
  case (JObject m)
  from assms have "\<exists>v'. (t, v') \<in> set m \<and>
      (w = redact_json_schema_inner R v' (p @ ''/'' @ json_pointer_escape_token t) False
          ((sens \<or> p \<in> R) \<or> is_sensitive_key t)
       \<or> w = redacted \<or> w = redact_json_schema_inner R v' (p @ ''/'' @ json_pointer_escape_token t)
          (is_json_schema_name_map t) (sens \<or> p \<in> R))"
    unfolding JObject redact_json_schema_inner.simps pointer_step.simps Let_def bt.get_collect
    by (fastforce dest!: map_of_SomeD split: if_splits)
  then show ?thesis by metis
qed (use assms in simp_all)

lemma inner_walk:
  "pointer_walk (redact_json_schema_inner R v p names sens) ts = Some w \<Longrightarrow>
   w = redacted \<or> (\<exists>v' names' sens'. w = redact_json_schema_inner R v' (p @ pointer_of ts) names' sens' \<and>
     (names' \<longrightarrow> (if ts = [] then names else is_json_schema_name_map (last ts))))"
proof (induction ts arbitrary: v p names sens)
  case (Cons t ts)
  then obtain u where u: "pointer_step (redact_json_schema_inner R v p names sens) t = Some u"
      "pointer_walk u ts = Some w"
    by (auto split: option.splits)
  from inner_step [OF u(1)] show ?case
  proof
    assume "u = redacted"
    then show ?thesis using u(2) walk_redacted by blast
  next
    assume "\<exists>v' names' sens'. u = redact_json_schema_inner R v' (p @ ''/'' @ json_pointer_escape_token t) names' sens' \<and>
      (names' \<longrightarrow> is_json_schema_name_map t)"
    then obtain v' names' sens' where u': "u = redact_json_schema_inner R v' (p @ ''/'' @ json_pointer_escape_token t) names' sens'"
      "names' \<longrightarrow> is_json_schema_name_map t" by blast
    from Cons.IH [OF u(2) [unfolded u'(1)]] u'(2) show ?thesis by (auto split: if_splits)
  qed
qed auto

lemma referenced_safe:
  assumes "pointer_of ts \<in> collect_sensitive_schema_references v" "pointer_walk (redact_json_schema v) ts = Some w"
    and "ts = [] \<or> \<not> is_json_schema_name_map (last ts)"
  shows "schema_safe False True w"
proof -
  from inner_walk [OF assms(2) [unfolded redact_json_schema_def]] show ?thesis
  proof
    assume "\<exists>v' names' sens'. w = redact_json_schema_inner (collect_sensitive_schema_references v) v' ([] @ pointer_of ts) names' sens' \<and>
      (names' \<longrightarrow> (if ts = [] then False else is_json_schema_name_map (last ts)))"
    then obtain v' sens' where
      "w = redact_json_schema_inner (collect_sensitive_schema_references v) v' (pointer_of ts) False sens'"
      using assms(3) by (auto split: if_splits)
    with inner_safe [of False sens' "pointer_of ts" "collect_sensitive_schema_references v" v'] assms(1)
    show ?thesis by auto
  qed auto
qed

section \<open>Properties\<close>

text \<open>A schema whose sensitive property points, through a local reference, at a shared definition.\<close>

definition demo_ref_schema :: "string \<Rightarrow> string \<Rightarrow> json" where
  "demo_ref_schema reference name = jobj
     [(''properties'', jobj [(''api_token'', jobj [(''$ref'', JString (''#/$defs/'' @ reference))])]),
      (''$defs'', jobj [(name, jobj [(''default'', JString ''hunter2'')])])]"

lemma demo_ref_collected: "collect_sensitive_schema_references (demo_ref_schema ''key'' ''key'') = {''/$defs/key''}"
  by code_simp

lemma demo_ref_redacted:
  "pointer_walk (redact_json_schema (demo_ref_schema ''key'' ''key'')) [''$defs'', ''key'']
     = Some (jobj [(''default'', redacted)])"
  by code_simp


definition demo_definitions :: "(string \<times> json) list" where
  "demo_definitions = [(''inner'', JObject [(''default'', JString ''hunter2'')]), (''outer'', JObject [(''$ref'', JString ''#/$defs/inner'')])]"

definition demo_chain_schema :: json where
  "demo_chain_schema = JObject [(''$defs'', JObject demo_definitions),
     (''properties'', JObject [(''api_token'', JObject [(''$ref'', JString ''#/$defs/outer'')])])]"


text \<open>
  The collector ends because it follows a pointer only once: with as many steps as the
  document has references its result no longer depends on the bound, whatever cycles they form.
\<close>

lemma reference_collection_bounded:
  assumes "length (all_references document) \<le> n"
  shows "collect_references n document document False False {} = collect_sensitive_schema_references document"
  by (rule collect_fuel_stable [OF assms])

text \<open>
  A pointer that is not in canonical form escapes this: the reference resolves, because the reader
  of pointers keeps a tilde it cannot decode, but the redactor compares escaped paths.
\<close>

lemma unescaped_reference_exposed:
  "json_pointer (demo_ref_schema ''a~b'' ''a~b'') ''/$defs/a~b'' = Some (jobj [(''default'', JString ''hunter2'')])"
  "redact_json_schema (demo_ref_schema ''a~b'' ''a~b'') = demo_ref_schema ''a~b'' ''a~b''"
  by code_simp+

end
