(* ===== verification/Durable_Files.thy ===== *)
theory Durable_Files
  imports Plan_V2 Admission_Policy Schema_Redaction
begin

text \<open>
  The durable state of \<^verbatim>\<open>cfctl-storage\<close>: managed documents under identifier-named paths,
  atomic writes that may fail before or after the replacement is visible, and the errors of
  the state store. The stores for plans, authorities and admission bundles build on it.
\<close>

section \<open>Errors\<close>

text \<open>
  The variants of \<^verbatim>\<open>StorageError\<close> that the modelled calls return (those of evidence, workspaces and
  locks are left out), without the paths and operating system errors that only appear in messages.
  Where the source keeps the rendered text of an error as a reason, the error itself is kept.
\<close>

datatype storage_error =
    Io
  | Io_AlreadyExists
  | WriteDurabilityUnknown
  | InvalidJson
  | SensitiveData
  | InvalidPlan core_error
  | PlanNotFound string
  | PlanV2NotFound string
  | PlanProjectionDrift string
  | CorruptPlan string storage_error
  | PlanProjectionWriteFailed string storage_error
  | AuthorityNotFound string
  | InvalidPlanId string
  | InvalidAuthorityId string
  | UnsafeManagedDocument
  | ManagedDocumentIdentityMismatch string string string
  | AuthorityAlreadyExists string
  | AdmissionBundleNotFound string
  | AdmissionBundleAlreadyExists string
  | InvalidAdmissionBundleId string
  | InvalidAdmissionPointer string
  | AuthorityLockMismatch string
  | AuthorityRevocationRollback string
  | ArchivedOperation string
  | EvidenceAuthentication
  | DeploymentPlanSetNotFound string
  | DeploymentPlanSetAlreadyExists string
  | InvalidDeploymentPlanSetId string

section \<open>The disk\<close>

text \<open>
  What a managed path holds: a parsed document, bytes that do not parse as one, something that is
  not a regular file (a symbolic link or a directory), or a file the process cannot inspect. A document
  is the typed value: writing it and reading it again is taken to give the value back, so numbers that
  the JSON text would not carry exactly are outside the model.
\<close>

datatype 'a document = Document 'a | Unparsable | Irregular | Unreadable

record admission_pointer =
  ptr_schema_version :: nat
  ptr_bundle_id :: string
  ptr_content_hash :: string

text \<open>The preserved history of an earlier runtime, if this one was created from it.\<close>

datatype private_history = No_Origin | History_Unreadable | History "string list"

text \<open>
  What happens to the coming writes: a write succeeds, fails with the old document in place, or
  replaces the document but cannot confirm it. An empty list means that all of them succeed; a
  crash is a failure of every write from some point on.
\<close>

datatype write_fault = Write_Ok | Write_Failed | Write_Unsynced

record disk =
  data_dir :: string
  plan_file :: "string \<Rightarrow> plan document option"
  plan_v2_file :: "string \<Rightarrow> plan_v2 document option"
  authority_file :: "string \<Rightarrow> standing_authority document option"
  bundle_file :: "string \<Rightarrow> policy_bundle document option"
  pointer_file :: "admission_pointer document option"
  private_origin :: private_history
  faults :: "write_fault list"

definition write_plan :: "string \<Rightarrow> plan \<Rightarrow> disk \<Rightarrow> disk" where
  "write_plan i p d = d\<lparr>plan_file := (plan_file d)(i \<mapsto> Document p)\<rparr>"

definition write_plan_v2 :: "string \<Rightarrow> plan_v2 \<Rightarrow> disk \<Rightarrow> disk" where
  "write_plan_v2 i q d = d\<lparr>plan_v2_file := (plan_v2_file d)(i \<mapsto> Document q)\<rparr>"

definition write_authority :: "string \<Rightarrow> standing_authority \<Rightarrow> disk \<Rightarrow> disk" where
  "write_authority i a d = d\<lparr>authority_file := (authority_file d)(i \<mapsto> Document a)\<rparr>"

definition write_bundle :: "string \<Rightarrow> policy_bundle \<Rightarrow> disk \<Rightarrow> disk" where
  "write_bundle i b d = d\<lparr>bundle_file := (bundle_file d)(i \<mapsto> Document b)\<rparr>"

definition write_pointer :: "admission_pointer \<Rightarrow> disk \<Rightarrow> disk" where
  "write_pointer p d = d\<lparr>pointer_file := Some (Document p)\<rparr>"

section \<open>Actions on the disk\<close>

type_synonym ('e, 'a) fallible_action = "disk \<Rightarrow> ('e + 'a) \<times> disk"

type_synonym 'a action = "(storage_error, 'a) fallible_action"

definition act_bind :: "('e, 'a) fallible_action \<Rightarrow> ('a \<Rightarrow> ('e, 'b) fallible_action) \<Rightarrow> ('e, 'b) fallible_action" where
  "act_bind m f d = (case m d of (Inl err, d') \<Rightarrow> (Inl err, d') | (Inr x, d') \<Rightarrow> f x d')"

definition act_return :: "'a \<Rightarrow> ('e, 'a) fallible_action" where
  "act_return x d = (Inr x, d)"

definition act_check :: "(disk \<Rightarrow> 'e + 'a) \<Rightarrow> ('e, 'a) fallible_action" where
  "act_check r d = (r d, d)"

definition atomic_write :: "(disk \<Rightarrow> disk) \<Rightarrow> unit action" where
  "atomic_write put d =
     (let d' = d\<lparr>faults := tl (faults d)\<rparr>
      in case (case faults d of [] \<Rightarrow> Write_Ok | f # _ \<Rightarrow> f) of
           Write_Ok \<Rightarrow> (Inr (), put d')
         | Write_Failed \<Rightarrow> (Inl Io, d')
         | Write_Unsynced \<Rightarrow> (Inl WriteDurabilityUnknown, put d'))"

text \<open>\<^verbatim>\<open>persist_noclobber\<close> refuses to replace whatever is at the path.\<close>

definition atomic_create :: "(disk \<Rightarrow> 'a document option) \<Rightarrow> (disk \<Rightarrow> disk) \<Rightarrow> unit action" where
  "atomic_create get put d =
     (if get d = None then atomic_write put d
      else let d' = d\<lparr>faults := tl (faults d)\<rparr>
           in case (case faults d of [] \<Rightarrow> Write_Ok | f # _ \<Rightarrow> f) of
                Write_Failed \<Rightarrow> (Inl Io, d')
              | _ \<Rightarrow> (Inl Io_AlreadyExists, d'))"

definition managed_exists :: "'a document option \<Rightarrow> storage_error + bool" where
  "managed_exists f =
     (case f of None \<Rightarrow> Inr False
      | Some Irregular \<Rightarrow> Inl UnsafeManagedDocument
      | Some Unreadable \<Rightarrow> Inl Io
      | Some _ \<Rightarrow> Inr True)"

definition read_document :: "'a document option \<Rightarrow> storage_error + 'a" where
  "read_document f =
     (case f of Some (Document x) \<Rightarrow> Inr x | Some Unparsable \<Rightarrow> Inl InvalidJson | _ \<Rightarrow> Inl Io)"

definition reject_archived_operation :: "string \<Rightarrow> disk \<Rightarrow> storage_error + unit" where
  "reject_archived_operation i d =
     (case private_origin d of
        No_Origin \<Rightarrow> Inr ()
      | History_Unreadable \<Rightarrow> Inl EvidenceAuthentication
      | History ids \<Rightarrow> ensure (i \<notin> set ids) (ArchivedOperation i))"

section \<open>Documents without secrets\<close>

text \<open>\<^verbatim>\<open>Value::pointer_mut\<close> with an assignment, for a path of object keys.\<close>

fun set_pointer :: "string list \<Rightarrow> json \<Rightarrow> json \<Rightarrow> json" where
  "set_pointer [] w v = w"
| "set_pointer (t # ts) w (JObject m) =
     JObject (map (\<lambda>(k, v). (k, if k = t then set_pointer ts w v else v)) m)"
| "set_pointer (t # ts) w v = v"

definition plan_document_contains_sensitive_data :: "json \<Rightarrow> string list \<Rightarrow> bool" where
  "plan_document_contains_sensitive_data value request_schema_pointer =
     (case pointer_walk value request_schema_pointer of
        None \<Rightarrow> redact_json value \<noteq> value
      | Some schema \<Rightarrow>
          if redact_json_schema schema \<noteq> schema then True
          else let v = set_pointer request_schema_pointer JNull value in redact_json v \<noteq> v)"

definition v2_json :: "env \<Rightarrow> plan_v2 \<Rightarrow> json" where
  "v2_json e q = jobj
     [(''schema_version'', jnat (v2_schema_version q)), (''plan'', plan_json e (v2_plan q)),
      (''pins'', pins_json (pins q)), (''content_hash'', JString (v2_content_hash q))]"

definition run_json :: "env \<Rightarrow> standing_run \<Rightarrow> json" where
  "run_json e r = jobj
     [(''at'', jtime e (run_at r)), (''operation_id'', JString (run_operation_id r)),
      (''capability_id'', JString (run_capability_id r))]"

definition authority_json :: "env \<Rightarrow> standing_authority \<Rightarrow> json" where
  "authority_json e a = jobj (
     [(''schema_version'', jnat (auth_schema_version a)),
      (''authority_id'', JString (authority_id a)),
      (''created_at'', jtime e (auth_created_at a)),
      (''expires_at'', jtime e (auth_expires_at a)),
      (''account_id'', JString (auth_account_id a)),
      (''capability_ids'', jlist JString (capability_ids a)),
      (''permission_group_ids'', jlist JString (permission_group_ids a)),
      (''permission_inventory_hash'', JString (permission_inventory_hash a)),
      (''max_child_ttl_hours'', jnat (max_child_ttl_hours a)),
      (''name_prefix'', JString (name_prefix a)),
      (''max_runs_per_day'', jnat (max_runs_per_day a)),
      (''status'', JString (standing_status_str (auth_status a))),
      (''approval'', jopt (approval_json e) (auth_approval a)),
      (''minted_token_ids'', jlist JString (minted_token_ids a)),
      (''run_log'', jlist (run_json e) (run_log a)),
      (''content_hash'', JString (auth_content_hash a))]
     @ jskip ''zone_id'' JString (zone_id a))"

definition bundle_json :: "env \<Rightarrow> policy_bundle \<Rightarrow> json" where
  "bundle_json e b = jobj (
     [(''schema_version'', jnat (b_schema_version b)),
      (''bundle_id'', JString (bundle_id b)),
      (''name'', JString (bundle_name b)),
      (''created_at'', jtime e (b_created_at b)),
      (''status'', JString (bundle_status_str (bundle_status b))),
      (''rules'', jlist rule_json (rules b)),
      (''content_hash'', JString (b_content_hash b))]
     @ jskip ''approved_at'' (jtime e) (b_approved_at b)
     @ jskip ''approved_content_hash'' JString (b_approved_content_hash b))"

section \<open>Facts\<close>

lemma act_bind_simps [simp]:
  "m d = (Inl err, d') \<Longrightarrow> act_bind m f d = (Inl err, d')"
  "m d = (Inr x, d') \<Longrightarrow> act_bind m f d = f x d'"
  by (simp_all add: act_bind_def)

lemma act_bind_check [simp]:
  "act_bind (act_check r) f d = (case r d of Inl err \<Rightarrow> (Inl err, d) | Inr x \<Rightarrow> f x d)"
  by (simp add: act_bind_def act_check_def split: sum.splits)

lemma act_bind_Inr_iff:
  "act_bind m f d = (Inr y, d'') \<longleftrightarrow> (\<exists>x d'. m d = (Inr x, d') \<and> f x d' = (Inr y, d''))"
  by (auto simp: act_bind_def split: prod.splits sum.splits)

lemma act_bind_snd:
  "snd (act_bind m f d) = (case fst (m d) of Inl _ \<Rightarrow> snd (m d) | Inr x \<Rightarrow> snd (f x (snd (m d))))"
  by (simp add: act_bind_def split: prod.splits sum.splits)

lemma managed_exists_iff [simp]:
  "managed_exists f = Inr True \<longleftrightarrow> f = Some Unparsable \<or> (\<exists>x. f = Some (Document x))"
  "managed_exists f = Inr False \<longleftrightarrow> f = None"
  by (auto simp: managed_exists_def split: option.splits document.splits)

lemma managed_exists_Document [simp]: "managed_exists (Some (Document x)) = Inr True"
  by simp

lemma read_document_Inr [simp]: "read_document f = Inr x \<longleftrightarrow> f = Some (Document x)"
  by (auto simp: read_document_def split: option.splits document.splits)

text \<open>
  The contract of a table of managed documents: writing one entry changes that entry, and whether
  writes fail is no part of a table. What a client of an atomic write uses of it is proved once.
\<close>

locale file_table =
  fixes get :: "disk \<Rightarrow> string \<Rightarrow> 'a document option"
    and put :: "string \<Rightarrow> 'a \<Rightarrow> disk \<Rightarrow> disk"
  assumes get_put: "get (put k x d) = (get d)(k \<mapsto> Document x)"
    and get_faults: "get (faults_update f d) = get d"
    and faults_put: "faults (put k x d) = faults d"
begin

lemma write_cases:
  "get (snd (atomic_write (put k x) d)) = get d \<and> fst (atomic_write (put k x) d) \<noteq> Inr () \<or>
   get (snd (atomic_write (put k x) d)) = (get d)(k \<mapsto> Document x)"
  by (auto simp: atomic_write_def Let_def get_put get_faults split: list.splits write_fault.splits)

lemma write_Inr:
  "atomic_write (put k x) d = (Inr (), d') \<Longrightarrow> get d' = (get d)(k \<mapsto> Document x)"
  by (auto simp: atomic_write_def Let_def get_put get_faults split: list.splits write_fault.splits)

lemma write_without_faults:
  "faults d = [] \<Longrightarrow> fst (atomic_write (put k x) d) = Inr () \<and> faults (snd (atomic_write (put k x) d)) = []"
  by (simp add: atomic_write_def Let_def faults_put)

lemma write_other: "k' \<noteq> k \<Longrightarrow> get (snd (atomic_write (put k x) d)) k' = get d k'"
  using write_cases [of k x d] by auto

lemma create_keeps:
  "get d k' \<noteq> None \<Longrightarrow> get (snd (atomic_create (\<lambda>d. get d k) (put k x) d)) k' = get d k'"
proof (cases "get d k = None")
  case True
  assume "get d k' \<noteq> None"
  with True have "k' \<noteq> k" by auto
  with True show ?thesis by (simp add: atomic_create_def write_other)
next
  case False
  then show ?thesis
    by (auto simp: atomic_create_def Let_def get_faults split: list.splits write_fault.splits)
qed

end

interpretation plans: file_table plan_file write_plan
  by unfold_locales (simp_all add: write_plan_def)

interpretation plans_v2: file_table plan_v2_file write_plan_v2
  by unfold_locales (simp_all add: write_plan_v2_def)

interpretation authorities: file_table authority_file write_authority
  by unfold_locales (simp_all add: write_authority_def)

interpretation bundles: file_table bundle_file write_bundle
  by unfold_locales (simp_all add: write_bundle_def)

text \<open>A write to one table leaves the others.\<close>

definition same_elsewhere :: "(disk \<Rightarrow> disk) \<Rightarrow> (disk \<Rightarrow> 'a) \<Rightarrow> bool" where
  "same_elsewhere put get \<longleftrightarrow> (\<forall>d. get (put d) = get d) \<and> (\<forall>f d. get (faults_update f d) = get d)"

lemma write_elsewhere: "same_elsewhere put get \<Longrightarrow> get (snd (atomic_write put d)) = get d"
  by (auto simp: same_elsewhere_def atomic_write_def Let_def split: list.splits write_fault.splits)

lemma tables_apart [simp]:
  "same_elsewhere (write_plan i p) plan_v2_file" "same_elsewhere (write_plan_v2 i q) plan_file"
  "same_elsewhere (write_bundle i b) pointer_file" "same_elsewhere (write_pointer r) bundle_file"
  "same_elsewhere (write_plan i p) private_origin" "same_elsewhere (write_plan_v2 i q) private_origin"
  "same_elsewhere (write_plan i p) authority_file" "same_elsewhere (write_plan_v2 i q) authority_file"
  "same_elsewhere (write_authority i a) plan_file" "same_elsewhere (write_authority i a) plan_v2_file"
  "same_elsewhere (write_authority i a) private_origin"
  by (simp_all add: same_elsewhere_def write_plan_def write_plan_v2_def write_bundle_def write_pointer_def
      write_authority_def)

text \<open>Actions that leave a part of the disk alone.\<close>

definition keeps :: "(disk \<Rightarrow> 'b) \<Rightarrow> ('e, 'a) fallible_action \<Rightarrow> bool" where
  "keeps get m \<longleftrightarrow> (\<forall>d. get (snd (m d)) = get d)"

lemma keeps_bind: "keeps get m \<Longrightarrow> (\<And>x. keeps get (f x)) \<Longrightarrow> keeps get (act_bind m f)"
  by (simp add: keeps_def act_bind_snd split: sum.splits)

lemma keeps_pure [simp]: "keeps get (act_check r)" "keeps get (act_return x)"
  by (simp_all add: keeps_def act_check_def act_return_def)

lemma keeps_write: "same_elsewhere put get \<Longrightarrow> keeps get (atomic_write put)"
  by (simp add: keeps_def write_elsewhere)

lemma keeps_create: "same_elsewhere put get \<Longrightarrow> keeps get (\<lambda>d. case atomic_create place put d of
    (Inl Io_AlreadyExists, d') \<Rightarrow> (Inl err, d') | r \<Rightarrow> r)"
proof -
  assume s: "same_elsewhere put get"
  then have "get (snd (atomic_create place put d)) = get d" for d
    using write_elsewhere [OF s, of d]
    by (auto simp: atomic_create_def Let_def same_elsewhere_def split: list.splits write_fault.splits)
  moreover have "snd (case x of (Inl Io_AlreadyExists, d') \<Rightarrow> (Inl err, d') | r \<Rightarrow> r) = snd x"
    for x :: "(storage_error + unit) \<times> disk"
    by (cases x; cases "fst x") (auto split: storage_error.splits)
  ultimately show ?thesis unfolding keeps_def by presburger
qed

section \<open>Public documents\<close>

text \<open>
  A value that redaction leaves alone. The documents of the store are public up to the JSON values
  their callers supply: none of their own fields has a sensitive name.
\<close>

definition public_json :: "json \<Rightarrow> bool" where
  "public_json v \<longleftrightarrow> wf_json v \<and> secret_free v"

named_theorems public

lemma public_json_redact: "public_json v \<Longrightarrow> redact_json v = v"
  by (simp add: public_json_def redact_json_fixed)

lemma public_leaf [simp, public]:
  "public_json JNull" "public_json (JBool b)" "public_json (JNumber n)" "public_json (JString s)"
  "public_json (JArray vs) \<longleftrightarrow> list_all public_json vs"
  by (auto simp: public_json_def list_all_iff)

lemma public_jobj [public]:
  "list_all (\<lambda>(k, v). \<not> is_sensitive_key k \<and> public_json v) kvs \<Longrightarrow> public_json (jobj kvs)"
  using wf_json_jobj [of kvs]
  by (auto simp: public_json_def list_all_iff secret_entry_def jobj_def dest!: bt_collect_set)

lemma public_parts [public]:
  "public_json (jnat n)" "public_json (jtime e t)"
  "(\<And>x. y = Some x \<Longrightarrow> public_json (f x)) \<Longrightarrow> public_json (jopt f y)"
  "(\<And>x. x \<in> set xs \<Longrightarrow> public_json (f x)) \<Longrightarrow> public_json (jlist f xs)"
  by (auto simp: jnat_def jtime_def jopt_def jlist_def list_all_iff split: option.splits)

lemma public_f64 [simp, public]: "public_json (jf64 x)"
  by (cases x) auto

lemma public_jskip [public]:
  "list_all (\<lambda>(k, v). \<not> is_sensitive_key k \<and> public_json v) (jskip k f y) \<longleftrightarrow>
     (\<forall>x. y = Some x \<longrightarrow> \<not> is_sensitive_key k \<and> public_json (f x))"
  by (auto simp: jskip_def split: option.splits)

text \<open>Comparing reversed names decides most keys at their last letter.\<close>

fun leads :: "string \<Rightarrow> string \<Rightarrow> bool" where
  "leads [] _ = True"
| "leads (_ # _) [] = False"
| "leads (x # xs) (y # ys) = (x = y \<and> leads xs ys)"

definition secret_endings :: "string list" where
  "secret_endings =
     [''nekot'', ''yek'', ''terces'', ''fnoc'', ''egnellahc'', ''noitazirohtua'', ''drowssap'', ''eikooc'']"

lemma leads_iff: "leads xs ys \<longleftrightarrow> take (length xs) ys = xs"
  by (induction xs ys rule: leads.induct) auto

lemma leads_append: "leads (xs @ zs) ys \<Longrightarrow> leads xs ys"
  by (induction xs ys rule: leads.induct) auto

lemma leads_trans: "leads xs ys \<Longrightarrow> leads ys zs \<Longrightarrow> leads xs zs"
proof (induction xs ys arbitrary: zs rule: leads.induct)
  case (3 x xs y ys)
  then show ?case by (cases zs) auto
qed auto

lemma ends_with_leads: "ends_with s p \<longleftrightarrow> leads (rev p) (rev s)"
  by (auto simp: ends_with_def leads_iff take_rev) (metis diff_le_self length_drop)

lemma sensitive_endings: "s \<in> set sensitive_names \<Longrightarrow> \<exists>r\<in>set secret_endings. leads r (rev s)"
  by (simp add: secret_endings_def sensitive_names_def) (elim disjE; simp)

lemma lowercase_fixed: "to_ascii_lowercase s = s \<longleftrightarrow> list_all (\<lambda>c. ascii_lower c = c) s"
  by (induction s) (auto simp: to_ascii_lowercase_def)

lemma lowercase_letters: "list_all (\<lambda>c. ascii_lower c = c) ''abcdefghijklmnopqrstuvwxyz_''"
  by code_simp

lemma public_key:
  assumes "list_all (\<lambda>c. ascii_lower c = c) k" "\<not> list_ex (\<lambda>r. leads r (rev k)) secret_endings"
  shows "\<not> is_sensitive_key k"
proof
  assume "is_sensitive_key k"
  then obtain s where "s \<in> set sensitive_names" "leads (rev s) (rev k)"
    using assms(1) unfolding lowercase_fixed [symmetric]
    by (auto simp: is_sensitive_key_def Let_def list_ex_iff ends_with_leads leads_append)
       (auto simp: leads_iff)
  with assms(2) sensitive_endings leads_trans show False unfolding list_ex_iff by blast
qed

lemma public_all:
  "list_all (\<lambda>k. list_all (\<lambda>c. ascii_lower c = c) k \<and> \<not> list_ex (\<lambda>r. leads r (rev k)) secret_endings) ks \<Longrightarrow>
   list_all (\<lambda>k. \<not> is_sensitive_key k) ks"
  using public_key by (auto simp: list_all_iff)

lemma public_keys:
  "list_all (\<lambda>k. \<not> is_sensitive_key k)
     [''schema_version'', ''operation_id'', ''created_at'', ''expires_at'', ''profile_id'', ''account_id'',
      ''catalog_hash'', ''permission_lane'', ''precondition_hashes'', ''capability'', ''targets'', ''input'',
      ''affected_repositories'', ''affected_resources'', ''local_diffs'', ''cloudflare_diffs'',
      ''verification_steps'', ''compensation_steps'', ''non_reversible_warnings'', ''policy'', ''status'',
      ''approval'', ''content_hash'', ''transaction_stage'', ''transaction_journal'', ''cancelled_at'',
      ''transaction_artifacts'', ''disposition'', ''reasons'', ''requires_cost_ceiling'']"
  "list_all (\<lambda>k. \<not> is_sensitive_key k)
     [''approved_at'', ''approved_content_hash'', ''max_cost'', ''stage'', ''recorded_at'',
      ''plan_content_hash'', ''plan_status'', ''previous_checkpoint_hash'', ''checkpoint_hash'', ''artifact_hash'',
      ''build_identity_hash'', ''credential_generation_id'', ''admission_policy_hash'', ''workspace_graph_hash'',
      ''authority_hash'', ''resource_observation_hashes'', ''cost_budget'', ''plan'', ''pins'', ''currency'', ''amount'',
      ''id'', ''method'', ''path'']"
  "list_all (\<lambda>k. \<not> is_sensitive_key k)
     [''authority_id'', ''capability_ids'', ''permission_group_ids'', ''permission_inventory_hash'',
      ''max_child_ttl_hours'', ''name_prefix'', ''max_runs_per_day'', ''minted_token_ids'', ''run_log'', ''at'',
      ''capability_id'', ''zone_id'', ''consumption_persisted'']"
  by (rule public_all; simp add: secret_endings_def lowercase_letters [simplified])+

lemma public_document:
  assumes "public_json v" "pointer_walk v ptr = None"
  shows "\<not> plan_document_contains_sensitive_data v ptr"
  using assms by (simp add: plan_document_contains_sensitive_data_def public_json_redact)

lemma public_money [public]: "public_json (money_json m)"
  unfolding money_json_def by (rule public_jobj) (use public_keys in simp)

lemma public_plan_json:
  assumes "public_json (capability_value e (p_capability p))" "public_json (targets p)" "public_json (p_input p)"
    "list_all public_json (local_diffs p)" "list_all public_json (cloudflare_diffs p)"
    "precondition_hashes p = []" "artifacts p = [] \<or> public_json (JObject (artifacts p))"
  shows "public_json (plan_json e p)"
proof -
  have approval: "public_json (approval_json e a)" for a
    unfolding approval_json_def by (rule public_jobj) (use public_keys in \<open>simp add: public\<close>)
  have checkpoint: "public_json (checkpoint_json e c)" for c
    unfolding checkpoint_json_def by (rule public_jobj) (use public_keys in \<open>simp add: public\<close>)
  have policy: "public_json (policy_json r)" for r
    unfolding policy_json_def by (rule public_jobj) (use public_keys in \<open>simp add: public\<close>)
  have hashes: "public_json (jmap JString [])" by (simp add: jmap_def jobj_def public_json_def bt_invar_def)
  show ?thesis
    unfolding plan_json_def using assms public_keys approval checkpoint policy hashes
    by (intro public_jobj) (auto simp: public)
qed

lemma public_pins_json:
  assumes "resource_observation_hashes r = []"
  shows "public_json (pins_json r)"
  unfolding pins_json_def using assms public_keys by (intro public_jobj) (simp add: public)

lemma public_authority_json: "public_json (authority_json e a)"
proof -
  have approval: "public_json (approval_json e ap)" for ap
    unfolding approval_json_def by (rule public_jobj) (use public_keys in \<open>simp add: public\<close>)
  have run: "public_json (run_json e r)" for r
    unfolding run_json_def by (rule public_jobj) (use public_keys in \<open>simp add: public\<close>)
  show ?thesis
    unfolding authority_json_def using public_keys approval run by (intro public_jobj) (simp add: public)
qed

lemma public_v2_json:
  "public_json (plan_json e (v2_plan q)) \<Longrightarrow> public_json (pins_json (pins q)) \<Longrightarrow> public_json (v2_json e q)"
  unfolding v2_json_def using public_keys by (intro public_jobj) (simp add: public)

lemma pointer_walk_jobj: "pointer_walk (jobj kvs) (t # ts) = Option.bind (map_of (rev kvs) t) (\<lambda>v. pointer_walk v ts)"
  using json_get_jobj [of kvs t] by (simp add: jobj_def split: option.splits)

end
