(* ===== verification/Plan_Store.thy ===== *)
theory Plan_Store
  imports Durable_Files
begin

text \<open>
  Durable plans (\<^verbatim>\<open>StateStore\<close> in \<^verbatim>\<open>crates/cfctl-storage/src/lib.rs\<close>): the second plan version
  is the canonical document, the first a compatibility projection that is written after it. The
  test for a canonical identifier (\<^verbatim>\<open>Uuid::parse_str\<close> and printing back) is the parameter \<open>u\<close>.
\<close>

section \<open>Identifiers\<close>

definition validate_plan_id :: "(string \<Rightarrow> bool) \<Rightarrow> string \<Rightarrow> storage_error + unit" where
  "validate_plan_id u i = ensure (u i) (InvalidPlanId i)"

definition ensure_plan_identity :: "(string \<Rightarrow> bool) \<Rightarrow> plan \<Rightarrow> string \<Rightarrow> storage_error + unit" where
  "ensure_plan_identity u p filename_id =
     res_bind (validate_plan_id u (operation_id p)) (\<lambda>_.
     ensure (operation_id p = filename_id)
       (ManagedDocumentIdentityMismatch ''plan'' filename_id (operation_id p)))"

text \<open>Midnight of 22 July 2026.\<close>

definition plan_v2_activated_at :: datetime where
  "plan_v2_activated_at = seconds 1784678400"

definition plan_v2_is_required :: "plan \<Rightarrow> bool" where
  "plan_v2_is_required p \<longleftrightarrow> mutating (p_capability p) \<and> p_created_at p \<ge> plan_v2_activated_at"

section \<open>Records\<close>

datatype stored_plan_record =
    Current plan_v2
  | LegacyReadable plan
  | RequiredSidecarMissing plan
  | ProjectionDrift plan_v2 plan
  | Corrupt string storage_error

fun execution_compatible :: "stored_plan_record \<Rightarrow> bool" where
  "execution_compatible (Current _) = True"
| "execution_compatible _ = False"

fun execution_incompatibility_reason :: "stored_plan_record \<Rightarrow> string option" where
  "execution_incompatibility_reason (Current _) = None"
| "execution_incompatibility_reason (LegacyReadable _) = Some ''legacy_plan_v1''"
| "execution_incompatibility_reason (RequiredSidecarMissing _) = Some ''required_plan_v2_missing''"
| "execution_incompatibility_reason (ProjectionDrift _ _) = Some ''plan_v2_projection_drift''"
| "execution_incompatibility_reason (Corrupt _ _) = Some ''corrupt_plan_record''"

fun readable_plan :: "stored_plan_record \<Rightarrow> plan option" where
  "readable_plan (Current q) = Some (v2_plan q)"
| "readable_plan (LegacyReadable p) = Some p"
| "readable_plan (RequiredSidecarMissing p) = Some p"
| "readable_plan (ProjectionDrift q _) = Some (v2_plan q)"
| "readable_plan (Corrupt _ _) = None"

section \<open>Loading\<close>

definition read_plan :: "env \<Rightarrow> (string \<Rightarrow> bool) \<Rightarrow> string \<Rightarrow> disk \<Rightarrow> storage_error + plan" where
  "read_plan e u i d =
     res_bind (read_document (plan_file d i)) (\<lambda>p.
     res_bind (ensure_plan_identity u p i) (\<lambda>_.
     res_bind (map_err InvalidPlan (validate_transaction_journal e p)) (\<lambda>_. Inr p)))"

definition read_plan_v2 :: "env \<Rightarrow> (string \<Rightarrow> bool) \<Rightarrow> string \<Rightarrow> disk \<Rightarrow> storage_error + plan_v2" where
  "read_plan_v2 e u i d =
     res_bind (read_document (plan_v2_file d i)) (\<lambda>q.
     res_bind (ensure_plan_identity u (v2_plan q) i) (\<lambda>_.
     res_bind (map_err InvalidPlan (v2_validate e q)) (\<lambda>_. Inr q)))"

definition has_plan_v2 :: "(string \<Rightarrow> bool) \<Rightarrow> string \<Rightarrow> disk \<Rightarrow> storage_error + bool" where
  "has_plan_v2 u i d = res_bind (validate_plan_id u i) (\<lambda>_. managed_exists (plan_v2_file d i))"

definition load_plan_v2 :: "env \<Rightarrow> (string \<Rightarrow> bool) \<Rightarrow> string \<Rightarrow> disk \<Rightarrow> storage_error + plan_v2" where
  "load_plan_v2 e u i d =
     res_bind (has_plan_v2 u i d) (\<lambda>present.
     if \<not> present then Inl (PlanV2NotFound i) else read_plan_v2 e u i d)"

definition classify_plan :: "plan option \<Rightarrow> plan_v2 \<Rightarrow> stored_plan_record" where
  "classify_plan projection current =
     (case projection of
        None \<Rightarrow> Current current
      | Some p \<Rightarrow> if p \<noteq> v2_plan current then ProjectionDrift current p else Current current)"

definition load_stored_plan_record :: "env \<Rightarrow> (string \<Rightarrow> bool) \<Rightarrow> string \<Rightarrow> disk
    \<Rightarrow> storage_error + stored_plan_record" where
  "load_stored_plan_record e u i d =
     res_bind (validate_plan_id u i) (\<lambda>_.
     res_bind (managed_exists (plan_file d i)) (\<lambda>projection_exists.
     res_bind (managed_exists (plan_v2_file d i)) (\<lambda>current_exists.
     if \<not> projection_exists \<and> \<not> current_exists then
       res_bind (reject_archived_operation i d) (\<lambda>_. Inl (PlanNotFound i))
     else
       case (if projection_exists then res_bind (read_plan e u i d) (Inr \<circ> Some) else Inr None) of
         Inl err \<Rightarrow> Inr (Corrupt i err)
       | Inr projection \<Rightarrow>
           if current_exists then
             (case read_plan_v2 e u i d of
                Inl err \<Rightarrow> Inr (Corrupt i err)
              | Inr current \<Rightarrow> Inr (classify_plan projection current))
           else
             (case projection of None \<Rightarrow> Inl (PlanNotFound i)
              | Some p \<Rightarrow> Inr (if plan_v2_is_required p then RequiredSidecarMissing p else LegacyReadable p)))))"

definition load_plan :: "env \<Rightarrow> (string \<Rightarrow> bool) \<Rightarrow> string \<Rightarrow> disk \<Rightarrow> storage_error + plan" where
  "load_plan e u i d =
     res_bind (load_stored_plan_record e u i d) (\<lambda>r. case r of
        Current q \<Rightarrow> Inr (v2_plan q)
      | LegacyReadable p \<Rightarrow> Inr p
      | RequiredSidecarMissing p \<Rightarrow> Inr p
      | ProjectionDrift _ _ \<Rightarrow> Inl (PlanProjectionDrift i)
      | Corrupt _ _ \<Rightarrow>
          res_bind (has_plan_v2 u i d) (\<lambda>present.
          if present then res_bind (load_plan_v2 e u i d) (\<lambda>q. Inr (v2_plan q))
          else read_plan e u i d))"

section \<open>Saving\<close>

definition write_current_plan :: "env \<Rightarrow> plan_v2 \<Rightarrow> unit action" where
  "write_current_plan e q =
     act_bind (act_check (\<lambda>_. ensure
       (\<not> plan_document_contains_sensitive_data (v2_json e q) [''plan'', ''capability'', ''request_schema''])
       SensitiveData)) (\<lambda>_.
     act_bind (atomic_write (write_plan_v2 (operation_id (v2_plan q)) q)) (\<lambda>_ d.
       case atomic_write (write_plan (operation_id (v2_plan q)) (v2_plan q)) d of
         (Inl err, d') \<Rightarrow> (Inl (PlanProjectionWriteFailed (operation_id (v2_plan q)) err), d')
       | (Inr x, d') \<Rightarrow> (Inr x, d')))"

definition save_plan :: "env \<Rightarrow> (string \<Rightarrow> bool) \<Rightarrow> plan \<Rightarrow> unit action" where
  "save_plan e u p =
     act_bind (act_check (\<lambda>_. validate_plan_id u (operation_id p))) (\<lambda>_.
     act_bind (act_check (\<lambda>_. map_err InvalidPlan (validate_transaction_journal e p))) (\<lambda>_.
     act_bind (act_check (\<lambda>_. ensure
       (\<not> plan_document_contains_sensitive_data (plan_json e p) [''capability'', ''request_schema''])
       SensitiveData)) (\<lambda>_.
     act_bind (act_check (has_plan_v2 u (operation_id p))) (\<lambda>current_exists.
     if current_exists then
       act_bind (act_check (load_plan_v2 e u (operation_id p))) (\<lambda>current.
       act_bind (act_check (\<lambda>_. map_err InvalidPlan (refresh_from_plan e p current))) (\<lambda>refreshed.
       write_current_plan e refreshed))
     else
       act_bind (act_check (\<lambda>d. managed_exists (plan_file d (operation_id p)))) (\<lambda>stored.
       act_bind (act_check (\<lambda>d. if stored then res_bind (read_plan e u (operation_id p) d) (\<lambda>_. Inr ())
                                else Inr ())) (\<lambda>_.
       atomic_write (write_plan (operation_id p) p)))))))"

definition save_plan_v2 :: "env \<Rightarrow> (string \<Rightarrow> bool) \<Rightarrow> plan_v2 \<Rightarrow> unit action" where
  "save_plan_v2 e u q =
     (let i = operation_id (v2_plan q) in
      act_bind (act_check (\<lambda>_. validate_plan_id u i)) (\<lambda>_.
      act_bind (act_check (\<lambda>_. map_err InvalidPlan (v2_validate e q))) (\<lambda>_.
      act_bind (act_check (has_plan_v2 u i)) (\<lambda>current_exists.
      act_bind (act_check (\<lambda>d.
        if current_exists then
          res_bind (load_plan_v2 e u i d) (\<lambda>stored.
          ensure (pins stored = pins q)
            (InvalidPlan (InvalidPlanV2 ''canonical execution pins cannot be replaced'')))
        else
          res_bind (managed_exists (plan_file d i)) (\<lambda>projection_exists.
          if projection_exists then
            res_bind (read_plan e u i d) (\<lambda>projection.
            ensure (projection = v2_plan q)
              (InvalidPlan (InvalidPlanV2 ''v2 wrapper does not match the stored PlanV1 projection'')))
          else Inr ()))) (\<lambda>_.
      write_current_plan e q)))))"

definition bind_plan_authority_hash :: "env \<Rightarrow> (string \<Rightarrow> bool) \<Rightarrow> string \<Rightarrow> string \<Rightarrow> unit action" where
  "bind_plan_authority_hash e u i h =
     act_bind (act_check (\<lambda>d. res_bind (load_stored_plan_record e u i d) (\<lambda>r. case r of
        Current q \<Rightarrow> Inr q
      | LegacyReadable _ \<Rightarrow> res_bind (reject_archived_operation i d) (\<lambda>_. Inl (PlanV2NotFound i))
      | RequiredSidecarMissing _ \<Rightarrow> res_bind (reject_archived_operation i d) (\<lambda>_. Inl (PlanV2NotFound i))
      | ProjectionDrift _ _ \<Rightarrow> Inl (PlanProjectionDrift i)
      | Corrupt _ reason \<Rightarrow> Inl (CorruptPlan i reason)))) (\<lambda>q.
     act_bind (act_check (\<lambda>_. map_err InvalidPlan (bind_authority_hash e h q))) (\<lambda>bound.
     write_current_plan e bound))"

section \<open>Steps of the plan store\<close>

text \<open>Any call, with whatever outcome and whatever write faults.\<close>

inductive plan_store_step :: "env \<Rightarrow> (string \<Rightarrow> bool) \<Rightarrow> disk \<Rightarrow> disk \<Rightarrow> bool" for e u where
  saved: "plan_store_step e u d (snd (save_plan e u p d))"
| saved_v2: "plan_store_step e u d (snd (save_plan_v2 e u q d))"
| bound: "plan_store_step e u d (snd (bind_plan_authority_hash e u i h d))"
| faulty: "plan_store_step e u d (d\<lparr>faults := fs\<rparr>)"

inductive_cases plan_store_stepE: "plan_store_step e u d d'"

section \<open>Facts\<close>

definition stored_v2 :: "env \<Rightarrow> (string \<Rightarrow> bool) \<Rightarrow> string \<Rightarrow> plan_v2 \<Rightarrow> bool" where
  "stored_v2 e u i q \<longleftrightarrow> u i \<and> operation_id (v2_plan q) = i \<and> v2_validate e q = Inr ()"

lemma read_plan_iff:
  "read_plan e u i d = Inr p \<longleftrightarrow>
     plan_file d i = Some (Document p) \<and> u i \<and> operation_id p = i \<and> validate_transaction_journal e p = Inr ()"
  by (auto simp: read_plan_def result_simps ensure_plan_identity_def validate_plan_id_def)

lemma read_plan_v2_iff:
  "read_plan_v2 e u i d = Inr q \<longleftrightarrow> plan_v2_file d i = Some (Document q) \<and> stored_v2 e u i q"
  by (auto simp: read_plan_v2_def result_simps ensure_plan_identity_def validate_plan_id_def stored_v2_def)

lemma load_plan_v2_iff:
  "load_plan_v2 e u i d = Inr q \<longleftrightarrow> plan_v2_file d i = Some (Document q) \<and> stored_v2 e u i q"
  by (auto simp: load_plan_v2_def has_plan_v2_def validate_plan_id_def result_simps read_plan_v2_iff)
     (auto simp: stored_v2_def)

lemma stored_v2_journal: "stored_v2 e u i q \<Longrightarrow> validate_transaction_journal e (v2_plan q) = Inr ()"
  by (simp add: stored_v2_def v2_validate_iff)

text \<open>What the record of a plan is when its canonical document is in place.\<close>

lemma record_of_canonical:
  assumes "plan_v2_file d i = Some (Document q)" "stored_v2 e u i q"
    and "plan_file d i = None \<or> (\<exists>p. plan_file d i = Some (Document p) \<and> operation_id p = i \<and>
           validate_transaction_journal e p = Inr ())"
  shows "load_stored_plan_record e u i d =
    Inr (classify_plan (case plan_file d i of Some (Document p) \<Rightarrow> Some p | _ \<Rightarrow> None) q)"
proof -
  have q: "read_plan_v2 e u i d = Inr q" using assms(1,2) by (simp add: read_plan_v2_iff)
  have u: "validate_plan_id u i = Inr ()" using assms(2) by (simp add: stored_v2_def validate_plan_id_def)
  from assms(3) show ?thesis
  proof
    assume "plan_file d i = None"
    then show ?thesis
      using q u assms(1) by (simp add: load_stored_plan_record_def managed_exists_def)
  next
    assume "\<exists>p. plan_file d i = Some (Document p) \<and> operation_id p = i \<and> validate_transaction_journal e p = Inr ()"
    then obtain p where "plan_file d i = Some (Document p)" "read_plan e u i d = Inr p"
      using assms(2) by (auto simp: read_plan_iff stored_v2_def)
    then show ?thesis using q u assms(1) by (simp add: load_stored_plan_record_def managed_exists_def)
  qed
qed

lemma current_record_iff:
  "load_stored_plan_record e u i d = Inr (Current q) \<longleftrightarrow>
     plan_v2_file d i = Some (Document q) \<and> stored_v2 e u i q \<and>
     (plan_file d i = None \<or> plan_file d i = Some (Document (v2_plan q)))" (is "?l \<longleftrightarrow> ?r")
proof
  assume l: ?l
  have v: "validate_plan_id u i = Inr ()"
    using l by (cases "validate_plan_id u i") (simp_all add: load_stored_plan_record_def)
  from l v obtain pe where pe: "managed_exists (plan_file d i) = Inr pe"
    by (cases "managed_exists (plan_file d i)") (simp_all add: load_stored_plan_record_def)
  from l v pe obtain ce where ce: "managed_exists (plan_v2_file d i) = Inr ce"
    by (cases "managed_exists (plan_v2_file d i)") (simp_all add: load_stored_plan_record_def)
  note run = l [unfolded load_stored_plan_record_def v pe ce res_bind_simps]
  have "ce" using run
    by (cases ce; cases pe; cases "read_plan e u i d"; cases "reject_archived_operation i d")
       (simp_all split: if_splits)
  with run have "read_plan_v2 e u i d = Inr q \<and> (pe \<longrightarrow> read_plan e u i d = Inr (v2_plan q))"
    by (cases pe; cases "read_plan e u i d"; cases "read_plan_v2 e u i d")
       (simp_all add: classify_plan_def split: if_splits)
  moreover have "\<not> pe \<longrightarrow> plan_file d i = None" using pe by (cases pe) simp_all
  ultimately have "read_plan_v2 e u i d = Inr q" "plan_file d i = None \<or> read_plan e u i d = Inr (v2_plan q)"
    by blast+
  then show ?r by (auto simp: read_plan_v2_iff read_plan_iff)
next
  assume ?r
  then have "load_stored_plan_record e u i d =
      Inr (classify_plan (case plan_file d i of Some (Document p) \<Rightarrow> Some p | _ \<Rightarrow> None) q)"
    by (intro record_of_canonical) (auto simp: stored_v2_journal stored_v2_def v2_validate_iff)
  with \<open>?r\<close> show ?l by (auto simp: classify_plan_def)
qed

section \<open>Writing a canonical plan\<close>

lemma write_current_cases:
  fixes e q d
  defines "i \<equiv> operation_id (v2_plan q)" and "d' \<equiv> snd (write_current_plan e q d)"
  shows "plan_v2_file d' = plan_v2_file d \<and> plan_file d' = plan_file d \<and> fst (write_current_plan e q d) \<noteq> Inr () \<or>
    plan_v2_file d' = (plan_v2_file d)(i \<mapsto> Document q) \<and>
      (plan_file d' = plan_file d \<and> fst (write_current_plan e q d) \<noteq> Inr () \<or>
       plan_file d' = (plan_file d)(i \<mapsto> Document (v2_plan q)))"
proof (cases "plan_document_contains_sensitive_data (v2_json e q) [''plan'', ''capability'', ''request_schema'']")
  case True
  then show ?thesis by (simp add: write_current_plan_def d'_def)
next
  case False
  let ?w = "atomic_write (write_plan_v2 i q) d"
  let ?x = "atomic_write (write_plan i (v2_plan q)) (snd ?w)"
  have w: "plan_file (snd ?w) = plan_file d" by (simp add: write_elsewhere)
  have x: "plan_v2_file (snd ?x) = plan_v2_file (snd ?w)" by (simp add: write_elsewhere)
  show ?thesis
  proof (cases "fst ?w")
    case (Inl err)
    then have "write_current_plan e q d = ?w"
      using False by (cases ?w) (simp add: write_current_plan_def i_def)
    then show ?thesis using plans_v2.write_cases [of i q d] w Inl by (auto simp: d'_def)
  next
    case (Inr r)
    then have run: "d' = snd ?x" "fst (write_current_plan e q d) = Inr () \<longleftrightarrow> fst ?x = Inr ()"
      using False by (cases ?w; cases ?x; auto simp: write_current_plan_def i_def d'_def split: sum.splits)+
    have "plan_v2_file d' = (plan_v2_file d)(i \<mapsto> Document q)"
      using plans_v2.write_cases [of i q d] Inr x run(1) by simp
    then show ?thesis
      using plans.write_cases [of i "v2_plan q" "snd ?w"] w run by auto
  qed
qed

section \<open>What a call may do\<close>

lemma failed_check: "act_bind (act_check r) f d = x \<Longrightarrow> (\<exists>err. r d = Inl err \<and> x = (Inl err, d)) \<or> (\<exists>y. r d = Inr y \<and> f y d = x)"
  by (cases "r d") simp_all

lemma save_plan_outcome:
  "(\<exists>err. save_plan e u p d = (Inl err, d)) \<or>
   (\<exists>q r. load_plan_v2 e u (operation_id p) d = Inr q \<and> refresh_from_plan e p q = Inr r \<and>
      save_plan e u p d = write_current_plan e r d) \<or>
   (plan_v2_file d (operation_id p) = None \<and> u (operation_id p) \<and> validate_transaction_journal e p = Inr () \<and>
      save_plan e u p d = atomic_write (write_plan (operation_id p) p) d)"
  by (auto simp: save_plan_def validate_plan_id_def has_plan_v2_def result_simps
      split: sum.splits simp del: managed_exists_iff) (auto simp: ensure_def split: if_splits)

lemma save_plan_v2_outcome:
  "(\<exists>err. save_plan_v2 e u q d = (Inl err, d)) \<or>
   (stored_v2 e u (operation_id (v2_plan q)) q \<and> save_plan_v2 e u q d = write_current_plan e q d \<and>
    (\<forall>s. plan_v2_file d (operation_id (v2_plan q)) = Some (Document s) \<longrightarrow> pins s = pins q))"
proof (cases "(\<exists>err. save_plan_v2 e u q d = (Inl err, d))")
  case False
  let ?i = "operation_id (v2_plan q)"
  have u: "u ?i" using False by (rule contrapos_np) (simp add: save_plan_v2_def Let_def validate_plan_id_def)
  have v: "v2_validate e q = Inr ()"
    using False by (rule contrapos_np) (cases "v2_validate e q", simp_all add: save_plan_v2_def Let_def validate_plan_id_def u)
  obtain c where c: "has_plan_v2 u ?i d = Inr c"
    using False by (cases "has_plan_v2 u ?i d") (simp_all add: save_plan_v2_def Let_def validate_plan_id_def u v)
  note run = save_plan_v2_def Let_def validate_plan_id_def u v c
  show ?thesis
  proof (cases c)
    case True
    obtain s where s: "load_plan_v2 e u ?i d = Inr s"
      using False True by (cases "load_plan_v2 e u ?i d") (simp_all add: run)
    with False True have "pins s = pins q" by (auto simp: run ensure_def split: if_splits)
    with True s have "save_plan_v2 e u q d = write_current_plan e q d" by (simp add: run)
    moreover have "plan_v2_file d ?i = Some (Document s)" using s by (simp add: load_plan_v2_iff)
    ultimately show ?thesis using \<open>pins s = pins q\<close> u v by (simp add: stored_v2_def)
  next
    case not_c: False
    then have none: "plan_v2_file d ?i = None" using c u by (auto simp: has_plan_v2_def validate_plan_id_def)
    let ?chk = "res_bind (managed_exists (plan_file d ?i)) (\<lambda>projection_exists.
        if projection_exists then res_bind (read_plan e u ?i d) (\<lambda>projection.
          ensure (projection = v2_plan q)
            (InvalidPlan (InvalidPlanV2 ''v2 wrapper does not match the stored PlanV1 projection'')))
        else Inr ())"
    have "?chk = Inr ()" using False not_c by (cases ?chk) (simp_all add: run)
    then show ?thesis using not_c u v none by (simp add: run stored_v2_def)
  qed
qed simp

lemma bind_outcome:
  "(\<exists>err. bind_plan_authority_hash e u i h d = (Inl err, d)) \<or>
   (\<exists>q r. load_stored_plan_record e u i d = Inr (Current q) \<and> bind_authority_hash e h q = Inr r \<and>
      bind_plan_authority_hash e u i h d = write_current_plan e r d)"
proof (cases "load_stored_plan_record e u i d")
  case (Inr rec)
  then show ?thesis
    by (cases rec; cases "reject_archived_operation i d")
       (auto simp: bind_plan_authority_hash_def result_simps split: sum.splits)
qed (simp add: bind_plan_authority_hash_def)

text \<open>What stays of the execution pins of a canonical plan.\<close>

definition pins_kept :: "plan_v2 \<Rightarrow> plan_v2 \<Rightarrow> bool" where
  "pins_kept q q' \<longleftrightarrow>
     build_identity_hash (pins q') = build_identity_hash (pins q) \<and>
     pin_catalog_hash (pins q') = pin_catalog_hash (pins q) \<and>
     credential_generation_id (pins q') = credential_generation_id (pins q) \<and>
     admission_policy_hash (pins q') = admission_policy_hash (pins q) \<and>
     workspace_graph_hash (pins q') = workspace_graph_hash (pins q) \<and>
     resource_observation_hashes (pins q') = resource_observation_hashes (pins q) \<and>
     (authority_hash (pins q) \<noteq> None \<longrightarrow> authority_hash (pins q') = authority_hash (pins q))"

lemma pins_kept_refl [simp]: "pins_kept q q"
  by (simp add: pins_kept_def)

lemma pins_kept_trans: "pins_kept q r \<Longrightarrow> pins_kept r s \<Longrightarrow> pins_kept q s"
  by (auto simp: pins_kept_def)

lemma refresh_keeps: "refresh_from_plan e p q = Inr r \<Longrightarrow> pins_kept q r \<and> v2_plan r = p \<and> v2_validate e r = Inr ()"
  by (auto simp: refresh_from_plan_iff pins_kept_def)

lemma bind_keeps:
  "bind_authority_hash e h q = Inr r \<Longrightarrow> v2_validate e q = Inr () \<Longrightarrow>
   pins_kept q r \<and> v2_plan r = v2_plan q \<and> v2_validate e r = Inr ()"
  by (auto simp: bind_authority_iff pins_kept_def)

text \<open>The canonical document under one call: it stays, or a valid successor takes its place.\<close>

definition canonical_next :: "env \<Rightarrow> (string \<Rightarrow> bool) \<Rightarrow> string \<Rightarrow> plan_v2 \<Rightarrow> disk \<Rightarrow> disk \<Rightarrow> bool" where
  "canonical_next e u i q d d' \<longleftrightarrow>
     (\<exists>q'. plan_v2_file d' i = Some (Document q') \<and> stored_v2 e u i q' \<and> pins_kept q q' \<and>
        (plan_file d' i = plan_file d i \<or> plan_file d' i = Some (Document (v2_plan q'))))"

lemma write_current_next:
  assumes "plan_v2_file d i = Some (Document q)" "stored_v2 e u i q"
    and "operation_id (v2_plan r) = i \<Longrightarrow> stored_v2 e u i r \<and> pins_kept q r"
  shows "canonical_next e u i q d (snd (write_current_plan e r d))"
  using write_current_cases [where e = e and q = r and d = d] assms
  by (cases "operation_id (v2_plan r) = i") (auto simp: canonical_next_def)

lemma plan_store_step_next:
  assumes "load_plan_v2 e u i d = Inr q" "plan_store_step e u d d'"
  shows "canonical_next e u i q d d'"
proof -
  have q: "plan_v2_file d i = Some (Document q)" "stored_v2 e u i q" using assms(1) by (simp_all add: load_plan_v2_iff)
  then have stay: "canonical_next e u i q d d" by (auto simp: canonical_next_def)
  note next_rule = write_current_next [OF q]
  from assms(2) show ?thesis
  proof cases
    case (saved p)
    from save_plan_outcome [of e u p d] show ?thesis
    proof (elim disjE exE conjE)
      fix s r assume s: "load_plan_v2 e u (operation_id p) d = Inr s" "refresh_from_plan e p s = Inr r"
        "save_plan e u p d = write_current_plan e r d"
      have "operation_id (v2_plan r) = i \<Longrightarrow> stored_v2 e u i r \<and> pins_kept q r"
        using s(1) q refresh_keeps [OF s(2)] by (auto simp: load_plan_v2_iff stored_v2_def)
      from next_rule [OF this] show ?thesis using saved s(3) by simp
    next
      assume w: "plan_v2_file d (operation_id p) = None" "save_plan e u p d = atomic_write (write_plan (operation_id p) p) d"
      with q(1) have "operation_id p \<noteq> i" by auto
      then have "plan_file (snd (save_plan e u p d)) i = plan_file d i" using w(2) by (simp add: plans.write_other)
      moreover have "plan_v2_file (snd (save_plan e u p d)) = plan_v2_file d" using w(2) by (simp add: write_elsewhere)
      ultimately show ?thesis using q saved by (auto simp: canonical_next_def)
    qed (use stay saved in simp)
  next
    case (saved_v2 r)
    from save_plan_v2_outcome [of e u r d] show ?thesis
    proof (elim disjE exE conjE)
      assume r: "stored_v2 e u (operation_id (v2_plan r)) r" "save_plan_v2 e u r d = write_current_plan e r d"
        "\<forall>s. plan_v2_file d (operation_id (v2_plan r)) = Some (Document s) \<longrightarrow> pins s = pins r"
      have "operation_id (v2_plan r) = i \<Longrightarrow> stored_v2 e u i r \<and> pins_kept q r"
        using r(1,3) q(1) by (auto simp: pins_kept_def)
      from next_rule [OF this] show ?thesis using saved_v2 r(2) by simp
    qed (use stay saved_v2 in simp)
  next
    case (bound j h)
    from bind_outcome [of e u j h d] show ?thesis
    proof (elim disjE exE conjE)
      fix s r assume s: "load_stored_plan_record e u j d = Inr (Current s)" "bind_authority_hash e h s = Inr r"
        "bind_plan_authority_hash e u j h d = write_current_plan e r d"
      have "operation_id (v2_plan r) = i \<Longrightarrow> stored_v2 e u i r \<and> pins_kept q r"
        using s(1) q bind_keeps [OF s(2)] by (auto simp: current_record_iff stored_v2_def)
      from next_rule [OF this] show ?thesis using bound s(3) by simp
    qed (use stay bound in simp)
  qed (use q in \<open>auto simp: canonical_next_def\<close>)
qed

lemma canonical_next_load: "canonical_next e u i q d d' \<Longrightarrow> \<exists>q'. load_plan_v2 e u i d' = Inr q' \<and> pins_kept q q'"
  by (auto simp: canonical_next_def load_plan_v2_iff)

text \<open>After a successful write of a valid canonical plan both documents are in place.\<close>

lemma write_current_ok:
  assumes "fst (write_current_plan e q d) = Inr ()" "stored_v2 e u i q"
  shows "load_stored_plan_record e u i (snd (write_current_plan e q d)) = Inr (Current q)"
  using write_current_cases [where e = e and q = q and d = d] assms
  by (auto simp: current_record_iff stored_v2_def)

lemma write_current_faults: "faults d = [] \<Longrightarrow> faults (snd (write_current_plan e q d)) = []"
  by (auto simp: write_current_plan_def act_bind_def act_check_def atomic_write_def write_plan_def write_plan_v2_def Let_def
      split: sum.splits)

lemma write_current_without_faults:
  assumes "faults d = []"
    "\<not> plan_document_contains_sensitive_data (v2_json e q) [''plan'', ''capability'', ''request_schema'']"
  shows "fst (write_current_plan e q d) = Inr ()"
proof -
  let ?w = "atomic_write (write_plan_v2 (operation_id (v2_plan q)) q) d"
  have w: "fst ?w = Inr ()" "faults (snd ?w) = []" using plans_v2.write_without_faults [OF assms(1)] by auto
  then have "fst (atomic_write (write_plan (operation_id (v2_plan q)) (v2_plan q)) (snd ?w)) = Inr ()"
    using plans.write_without_faults by blast
  then show ?thesis
    using assms(2) w(1) by (cases ?w) (auto simp: write_current_plan_def split: prod.splits sum.splits)
qed

lemma load_plan_current:
  "load_stored_plan_record e u i d = Inr (Current q) \<Longrightarrow> load_plan e u i d = Inr (v2_plan q)"
  by (simp add: load_plan_def)

lemma load_plan_projection_only:
  assumes "u i" "plan_v2_file d i = None" "plan_file d i = Some (Document p)" "operation_id p = i"
    "validate_transaction_journal e p = Inr ()"
  shows "load_plan e u i d = Inr p"
proof -
  have "read_plan e u i d = Inr p" using assms by (simp add: read_plan_iff)
  then have "load_stored_plan_record e u i d = Inr (if plan_v2_is_required p then RequiredSidecarMissing p else LegacyReadable p)"
    using assms by (simp add: load_stored_plan_record_def validate_plan_id_def managed_exists_def)
  then show ?thesis by (simp add: load_plan_def)
qed

lemma save_plan_current:
  assumes "load_plan_v2 e u (operation_id p) d = Inr q" "refresh_from_plan e p q = Inr r"
    "\<not> plan_document_contains_sensitive_data (plan_json e p) [''capability'', ''request_schema'']"
  shows "save_plan e u p d = write_current_plan e r d"
proof -
  note q = assms(1) [unfolded load_plan_v2_iff]
  have "stored_v2 e u (operation_id p) r" "v2_plan r = p"
    using q refresh_keeps [OF assms(2)] by (simp_all add: stored_v2_def)
  then have "has_plan_v2 u (operation_id p) d = Inr True" "validate_transaction_journal e p = Inr ()"
    using q stored_v2_journal [of e u "operation_id p" r]
    by (simp_all add: has_plan_v2_def validate_plan_id_def stored_v2_def)
  then show ?thesis using assms q by (simp add: save_plan_def validate_plan_id_def stored_v2_def)
qed

lemma save_plan_ok:
  assumes "save_plan e u p d = (Inr (), d')"
  shows "load_plan e u (operation_id p) d' = Inr p \<and>
    (plan_v2_file d (operation_id p) \<noteq> None \<longrightarrow>
       (\<exists>q. v2_plan q = p \<and> load_stored_plan_record e u (operation_id p) d' = Inr (Current q)))"
  using save_plan_outcome [of e u p d]
proof (elim disjE exE conjE)
  fix q r assume q: "load_plan_v2 e u (operation_id p) d = Inr q" "refresh_from_plan e p q = Inr r"
    "save_plan e u p d = write_current_plan e r d"
  then have "stored_v2 e u (operation_id p) r" "v2_plan r = p"
    using refresh_keeps [OF q(2)] by (simp_all add: load_plan_v2_iff stored_v2_def)
  moreover have "write_current_plan e r d = (Inr (), d')" using q(3) assms by simp
  ultimately have "load_stored_plan_record e u (operation_id p) d' = Inr (Current r)"
    using write_current_ok [of e r d u "operation_id p"] by simp
  with load_plan_current [OF this] \<open>v2_plan r = p\<close> show ?thesis by blast
next
  assume n: "plan_v2_file d (operation_id p) = None" "u (operation_id p)" "validate_transaction_journal e p = Inr ()"
    "save_plan e u p d = atomic_write (write_plan (operation_id p) p) d"
  then have w: "atomic_write (write_plan (operation_id p) p) d = (Inr (), d')" using assms by simp
  have "plan_v2_file d' = plan_v2_file d" using write_elsewhere [OF tables_apart(1), of "operation_id p" p d] w by simp
  with n plans.write_Inr [OF w] have "load_plan e u (operation_id p) d' = Inr p"
    by (intro load_plan_projection_only) simp_all
  with n show ?thesis by simp
qed (use assms in simp)

lemma record_local:
  assumes "plan_file d' j = plan_file d j" "plan_v2_file d' j = plan_v2_file d j" "private_origin d' = private_origin d"
  shows "load_stored_plan_record e u j d' = load_stored_plan_record e u j d"
proof -
  have "read_plan e u j d' = read_plan e u j d" "read_plan_v2 e u j d' = read_plan_v2 e u j d"
    "reject_archived_operation j d' = reject_archived_operation j d"
    using assms by (simp_all only: read_plan_def read_plan_v2_def reject_archived_operation_def)
  with assms show ?thesis by (simp only: load_stored_plan_record_def)
qed

lemma write_current_elsewhere:
  assumes "\<And>i x. same_elsewhere (write_plan_v2 i x) get" "\<And>i x. same_elsewhere (write_plan i x) get"
  shows "get (snd (write_current_plan e q d)) = get d"
proof -
  let ?w = "atomic_write (write_plan_v2 (operation_id (v2_plan q)) q)"
  let ?x = "atomic_write (write_plan (operation_id (v2_plan q)) (v2_plan q))"
  have w: "get (snd (?w d)) = get d" by (rule write_elsewhere [OF assms(1)])
  have x: "get (snd (?x d1)) = get d1" for d1 by (rule write_elsewhere [OF assms(2)])
  show ?thesis
    unfolding write_current_plan_def act_bind_def act_check_def
    by (cases "?w d"; cases "?x (snd (?w d))"; use w x [of "snd (?w d)"] in \<open>auto split: sum.splits\<close>)
qed

lemma write_current_origin: "private_origin (snd (write_current_plan e q d)) = private_origin d"
  by (rule write_current_elsewhere) simp_all

lemma save_plan_table:
  assumes "\<And>i x. same_elsewhere (write_plan_v2 i x) get" "\<And>i x. same_elsewhere (write_plan i x) get"
  shows "get (snd (save_plan e u p d)) = get d"
  using save_plan_outcome [of e u p d] write_current_elsewhere [of get e _ d, OF assms]
    write_elsewhere [OF assms(2), of "operation_id p" p d] by auto

lemma save_plan_elsewhere:
  assumes "j \<noteq> operation_id p"
  shows "load_stored_plan_record e u j (snd (save_plan e u p d)) = load_stored_plan_record e u j d"
  using save_plan_outcome [of e u p d]
proof (elim disjE exE conjE)
  fix q r assume q: "load_plan_v2 e u (operation_id p) d = Inr q" "refresh_from_plan e p q = Inr r"
    "save_plan e u p d = write_current_plan e r d"
  have "operation_id (v2_plan r) \<noteq> j" using refresh_keeps [OF q(2)] assms by simp
  with q(3) write_current_cases [where e = e and q = r and d = d] show ?thesis
    by (intro record_local) (auto simp: write_current_origin)
next
  assume n: "save_plan e u p d = atomic_write (write_plan (operation_id p) p) d"
  show ?thesis unfolding n using plans.write_other [OF assms] by (intro record_local) (simp_all add: write_elsewhere)
qed (simp add: prod_eq_iff)

section \<open>Properties\<close>

definition empty_disk :: disk where
  "empty_disk = \<lparr>data_dir = ''/data'', plan_file = Map.empty, plan_v2_file = Map.empty,
     authority_file = Map.empty, bundle_file = Map.empty, pointer_file = None,
     private_origin = No_Origin, faults = []\<rparr>"

definition demo_plan_disk :: disk where
  "demo_plan_disk = write_plan (operation_id demo_prepared) demo_prepared
     (write_plan_v2 (operation_id demo_prepared) demo_v2 empty_disk)"

lemma demo_stored: "stored_v2 demo_env (\<lambda>_. True) (operation_id demo_prepared) demo_v2"
  using v2_reachable_inv [OF demo_v2_reachable] by (simp add: stored_v2_def) (simp add: demo_v2_def)

lemma demo_plan_disk_current:
  "load_stored_plan_record demo_env (\<lambda>_. True) (operation_id demo_prepared) demo_plan_disk = Inr (Current demo_v2)"
  unfolding current_record_iff using demo_stored
  by (simp add: demo_plan_disk_def write_plan_def write_plan_v2_def) (simp add: demo_v2_def)

lemma demo_plan_diffs: "cloudflare_diffs demo_plan = []"
proof -
  have "cloudflare_diffs p = []" if "draft e i t t' pr ac c cap v = Inr p" for e i t t' pr ac c cap v p
    using that by (auto simp: draft_def record_transaction_stage_def record_Inr_iff refresh_hash_def recorded_def)
  with demo_plan_draft show ?thesis by blast
qed

lemma demo_prepared_public: "public_json (plan_json demo_env demo_prepared)"
proof (rule public_plan_json)
  show "list_all public_json (cloudflare_diffs demo_prepared)"
    using demo_plan_diffs by (simp add: demo_prepared_def prepare_plan_def refresh_hash_def)
  show "public_json (capability_value demo_env (p_capability demo_prepared))"
    unfolding demo_env_def using public_keys by (simp add: public_jobj)
qed (use demo_plan_facts in \<open>simp_all add: demo_prepared_def prepare_plan_def refresh_hash_def draft_def\<close>)

lemma demo_v2_public: "public_json (v2_json demo_env demo_v2)"
  using demo_prepared_public
  by (intro public_v2_json public_pins_json) (simp_all add: demo_v2_def v2_refresh_hash_def demo_pins_def)

lemma demo_env_not_sensitive:
  "public_json (plan_json demo_env p) \<Longrightarrow>
   \<not> plan_document_contains_sensitive_data (plan_json demo_env p) [''capability'', ''request_schema'']"
  "public_json (v2_json demo_env q) \<Longrightarrow>
   \<not> plan_document_contains_sensitive_data (v2_json demo_env q) [''plan'', ''capability'', ''request_schema'']"
proof -
  have plan: "pointer_walk (plan_json e p) (''capability'' # ts) = pointer_walk (capability_value e (p_capability p)) ts" for e p ts
    unfolding plan_json_def pointer_walk_jobj record_lookups by simp
  have cap: "pointer_walk (capability_value demo_env c) [''request_schema''] = None" for c
    unfolding demo_env_def by (simp add: pointer_walk_jobj del: pointer_walk.simps(2))
  have v2: "pointer_walk (v2_json e q) (''plan'' # ts) = pointer_walk (plan_json e (v2_plan q)) ts" for e q ts
    unfolding v2_json_def pointer_walk_jobj by simp
  show "public_json (plan_json demo_env p) \<Longrightarrow>
      \<not> plan_document_contains_sensitive_data (plan_json demo_env p) [''capability'', ''request_schema'']"
    by (erule public_document) (simp only: plan cap)
  show "public_json (v2_json demo_env q) \<Longrightarrow>
      \<not> plan_document_contains_sensitive_data (v2_json demo_env q) [''plan'', ''capability'', ''request_schema'']"
    by (erule public_document) (simp only: v2 plan cap)
qed

lemmas demo_not_sensitive = demo_env_not_sensitive(1) [OF demo_prepared_public] demo_env_not_sensitive(2) [OF demo_v2_public]

lemma demo_refresh: "refresh_from_plan demo_env demo_prepared demo_v2 = Inr demo_v2"
  using demo_stored
  by (simp add: refresh_from_plan_iff stored_v2_def) (simp add: demo_v2_def v2_refresh_hash_def demo_prepared_fields demo_pins_def v2_document_def)

text \<open>The disk after the projection write of a save failed: the projection is still the unprepared draft.\<close>

definition torn_disk :: disk where
  "torn_disk = write_plan (operation_id demo_prepared) demo_plan demo_plan_disk"

lemma torn_disk_facts:
  "load_plan_v2 demo_env (\<lambda>_. True) (operation_id demo_prepared) torn_disk = Inr demo_v2" "faults torn_disk = []"
  using demo_stored
  by (simp_all add: torn_disk_def demo_plan_disk_def write_plan_def write_plan_v2_def empty_disk_def load_plan_v2_iff)

lemma torn_disk_saved: "fst (save_plan demo_env (\<lambda>_. True) demo_prepared torn_disk) = Inr ()"
  using save_plan_current [OF torn_disk_facts(1) demo_refresh demo_not_sensitive(1)]
    write_current_without_faults [OF torn_disk_facts(2) demo_not_sensitive(2)] by simp

text \<open>
  C19. A plan is never half saved unnoticed. While its record is current, any call of the store,
  failing at any write or not, leaves a record that is current again or reports the drift between
  the canonical document and its projection; the canonical document validates, and its execution
  pins are the reviewed ones. Only a current record may execute.
\<close>

theorem torn_save_detected:
  assumes "load_stored_plan_record e u i d = Inr (Current q)" "plan_store_step e u d d'"
  shows "\<exists>q'. v2_validate e q' = Inr () \<and> pins_kept q q' \<and>
    (load_stored_plan_record e u i d' = Inr (Current q') \<or>
     load_stored_plan_record e u i d' = Inr (ProjectionDrift q' (v2_plan q)) \<and>
       \<not> execution_compatible (ProjectionDrift q' (v2_plan q)))"
proof -
  note c = assms(1) [unfolded current_record_iff]
  then have "load_plan_v2 e u i d = Inr q" by (simp add: load_plan_v2_iff)
  from plan_store_step_next [OF this assms(2)] obtain q' where q': "plan_v2_file d' i = Some (Document q')"
      "stored_v2 e u i q'" "pins_kept q q'"
      "plan_file d' i = plan_file d i \<or> plan_file d' i = Some (Document (v2_plan q'))"
    by (auto simp: canonical_next_def)
  have "plan_file d' i = None \<or> (\<exists>p. plan_file d' i = Some (Document p) \<and> operation_id p = i \<and>
      validate_transaction_journal e p = Inr () \<and> p \<in> {v2_plan q, v2_plan q'})"
    using q'(4) c stored_v2_journal [OF q'(2)] q'(2) stored_v2_journal by (auto simp: stored_v2_def)
  then have "load_stored_plan_record e u i d' \<in> {Inr (Current q'), Inr (ProjectionDrift q' (v2_plan q))}"
    using record_of_canonical [OF q'(1,2)] by (auto simp: classify_plan_def split: if_splits)
  with q'(2,3) show ?thesis by (auto simp: stored_v2_def)
qed

theorem torn_save_detected_witness:
  "\<exists>q'. v2_validate demo_env q' = Inr () \<and> pins_kept demo_v2 q'"
  using torn_save_detected [OF demo_plan_disk_current plan_store_step.faulty [of _ _ _ "[Write_Failed]"]] by blast

text \<open>
  The canonical document of a plan is never lost: after any sequence of calls with any write
  faults it still loads, and its build, catalog, credential, policy, workspace and observation
  pins, and an authority pin once it is set, are those first stored.
\<close>

lemma canonical_plan_durable:
  assumes "load_plan_v2 e u i d = Inr q" "(plan_store_step e u)\<^sup>*\<^sup>* d d'"
  shows "\<exists>q'. load_plan_v2 e u i d' = Inr q' \<and> pins_kept q q'"
  using assms(2)
proof (induction rule: rtranclp_induct)
  case (step d' d'')
  then obtain q' where "load_plan_v2 e u i d' = Inr q'" "pins_kept q q'" by blast
  with canonical_next_load [OF plan_store_step_next, OF this(1) step(2)] pins_kept_trans show ?case by blast
qed (use assms(1) in auto)

text \<open>
  What is saved is what loads: after a successful save the plan loads back equal, from a record
  that may execute whenever a canonical document exists, and the records of all other plans are
  as before.
\<close>

lemma save_load_roundtrip:
  assumes "save_plan e u p d = (Inr (), d')"
  shows "load_plan e u (operation_id p) d' = Inr p \<and>
    (plan_v2_file d (operation_id p) \<noteq> None \<longrightarrow>
       (\<exists>q. v2_plan q = p \<and> load_stored_plan_record e u (operation_id p) d' = Inr (Current q))) \<and>
    (j \<noteq> operation_id p \<longrightarrow> load_stored_plan_record e u j d' = load_stored_plan_record e u j d)"
  using save_plan_ok [OF assms] save_plan_elsewhere [of j p e u d] assms by auto

text \<open>
  A torn save is repaired by saving again: with the canonical document in place, whatever the
  projection holds, saving any plan that the canonical document can take over and that carries
  no secret succeeds once writes succeed, and the record is current.
\<close>

lemma torn_save_repaired:
  assumes "load_plan_v2 e u (operation_id p) d = Inr q" "refresh_from_plan e p q = Inr r" "faults d = []"
    "\<not> plan_document_contains_sensitive_data (plan_json e p) [''capability'', ''request_schema'']"
    "\<not> plan_document_contains_sensitive_data (v2_json e r) [''plan'', ''capability'', ''request_schema'']"
  shows "\<exists>d'. save_plan e u p d = (Inr (), d') \<and>
    load_stored_plan_record e u (operation_id p) d' = Inr (Current r)"
proof -
  have "stored_v2 e u (operation_id p) r"
    using assms(1) refresh_keeps [OF assms(2)] by (simp add: load_plan_v2_iff stored_v2_def)
  moreover have "fst (write_current_plan e r d) = Inr ()" using assms(3,5) by (rule write_current_without_faults)
  ultimately show ?thesis
    using write_current_ok save_plan_current [OF assms(1,2,4)] by (metis prod.collapse)
qed

end
