(* ===== verification/Authority_Store.thy ===== *)
theory Authority_Store
  imports Durable_Files
begin

text \<open>
  Durable standing authorities (\<^verbatim>\<open>StateStore\<close> in \<^verbatim>\<open>crates/cfctl-storage/src/lib.rs\<close>): creation
  that never replaces a document, and updates under a lock that is bound to the store and the
  identifier. The test for a canonical identifier is the parameter \<open>u\<close>.
\<close>

section \<open>Identifiers and locks\<close>

definition validate_authority_id :: "(string \<Rightarrow> bool) \<Rightarrow> string \<Rightarrow> storage_error + unit" where
  "validate_authority_id u i = ensure (u i) (InvalidAuthorityId i)"

definition ensure_authority_identity :: "(string \<Rightarrow> bool) \<Rightarrow> standing_authority \<Rightarrow> string
    \<Rightarrow> storage_error + unit" where
  "ensure_authority_identity u a filename_id =
     res_bind (validate_authority_id u (authority_id a)) (\<lambda>_.
     ensure (authority_id a = filename_id)
       (ManagedDocumentIdentityMismatch ''standing authority'' filename_id (authority_id a)))"

definition authority_path :: "(string \<Rightarrow> bool) \<Rightarrow> string \<Rightarrow> disk \<Rightarrow> storage_error + string" where
  "authority_path u i d =
     res_bind (validate_authority_id u i) (\<lambda>_. Inr (data_dir d @ ''/authorities/'' @ i @ ''.json''))"

record authority_lock =
  lock_authority_id :: string
  lock_authority_path :: string

text \<open>
  The parameter \<open>acquired\<close> is what the operating system answers: a lock file that is not a regular
  file, or cannot be opened or locked, is an error.
\<close>

definition lock_authority :: "(string \<Rightarrow> bool) \<Rightarrow> (storage_error + unit) \<Rightarrow> string \<Rightarrow> disk
    \<Rightarrow> storage_error + authority_lock" where
  "lock_authority u acquired i d =
     res_bind (authority_path u i d) (\<lambda>p.
     res_bind acquired (\<lambda>_. Inr \<lparr>lock_authority_id = i, lock_authority_path = p\<rparr>))"

section \<open>Operations\<close>

definition load_authority :: "(string \<Rightarrow> bool) \<Rightarrow> string \<Rightarrow> disk \<Rightarrow> storage_error + standing_authority" where
  "load_authority u i d =
     res_bind (authority_path u i d) (\<lambda>_.
     res_bind (managed_exists (authority_file d i)) (\<lambda>present.
     if \<not> present then Inl (AuthorityNotFound i)
     else res_bind (read_document (authority_file d i)) (\<lambda>a.
       res_bind (ensure_authority_identity u a i) (\<lambda>_. Inr a))))"

definition create_authority :: "env \<Rightarrow> (string \<Rightarrow> bool) \<Rightarrow> standing_authority \<Rightarrow> unit action" where
  "create_authority e u a =
     act_bind (act_check (authority_path u (authority_id a))) (\<lambda>_.
     act_bind (act_check (\<lambda>_. ensure (redact_json (authority_json e a) = authority_json e a) SensitiveData)) (\<lambda>_.
     act_bind (act_check (\<lambda>d. managed_exists (authority_file d (authority_id a)))) (\<lambda>present.
     if present then act_check (\<lambda>_. Inl (AuthorityAlreadyExists (authority_id a)))
     else (\<lambda>d. case atomic_create (\<lambda>d. authority_file d (authority_id a)) (write_authority (authority_id a) a) d of
         (Inl Io_AlreadyExists, d') \<Rightarrow> (Inl (AuthorityAlreadyExists (authority_id a)), d')
       | r \<Rightarrow> r))))"

definition save_authority :: "env \<Rightarrow> (string \<Rightarrow> bool) \<Rightarrow> standing_authority \<Rightarrow> unit action" where
  "save_authority e u a = create_authority e u a"

definition save_authority_guarded :: "env \<Rightarrow> (string \<Rightarrow> bool) \<Rightarrow> authority_lock \<Rightarrow> standing_authority
    \<Rightarrow> unit action" where
  "save_authority_guarded e u guard a =
     (let i = authority_id a in
      act_bind (act_check (authority_path u i)) (\<lambda>p.
      act_bind (act_check (\<lambda>_. ensure (lock_authority_id guard = i \<and> lock_authority_path guard = p)
        (AuthorityLockMismatch i))) (\<lambda>_.
      act_bind (act_check (\<lambda>_. ensure (redact_json (authority_json e a) = authority_json e a) SensitiveData)) (\<lambda>_.
      act_bind (act_check (\<lambda>d. managed_exists (authority_file d i))) (\<lambda>present.
      if \<not> present then act_check (\<lambda>_. Inl (AuthorityNotFound i))
      else
        act_bind (act_check (\<lambda>d. read_document (authority_file d i))) (\<lambda>stored.
        act_bind (act_check (\<lambda>_. ensure_authority_identity u stored i)) (\<lambda>_.
        act_bind (act_check (\<lambda>_. ensure (\<not> (auth_status stored = Revoked \<and> auth_status a \<noteq> Revoked))
          (AuthorityRevocationRollback i))) (\<lambda>_.
        atomic_write (write_authority i a)))))))))"

text \<open>
  An entry of the directory of authorities: the document of one, or the cached permissions of one,
  which are only checked for safety. The listing follows the order the operating system gives.
\<close>

datatype authority_entry = Authority_Entry string | Permissions_Entry string "json document"

fun collect_authorities :: "(string \<Rightarrow> bool) \<Rightarrow> disk \<Rightarrow> authority_entry list
    \<Rightarrow> storage_error + standing_authority list" where
  "collect_authorities u d [] = Inr []"
| "collect_authorities u d (Permissions_Entry i f # es) =
     res_bind (validate_authority_id u i) (\<lambda>_.
     res_bind (managed_exists (Some f)) (\<lambda>_. collect_authorities u d es))"
| "collect_authorities u d (Authority_Entry i # es) =
     res_bind (validate_authority_id u i) (\<lambda>_.
     res_bind (managed_exists (authority_file d i)) (\<lambda>present.
     if \<not> present then Inl UnsafeManagedDocument
     else res_bind (read_document (authority_file d i)) (\<lambda>a.
       res_bind (ensure_authority_identity u a i) (\<lambda>_.
       res_bind (collect_authorities u d es) (\<lambda>as. Inr (a # as))))))"

definition list_authorities :: "(string \<Rightarrow> bool) \<Rightarrow> authority_entry list \<Rightarrow> disk
    \<Rightarrow> storage_error + standing_authority list" where
  "list_authorities u es d =
     res_bind (collect_authorities u d es) (\<lambda>as. Inr (sort_key auth_created_at as))"

section \<open>Steps of the authority store\<close>

inductive authority_store_step :: "env \<Rightarrow> (string \<Rightarrow> bool) \<Rightarrow> disk \<Rightarrow> disk \<Rightarrow> bool" for e u where
  created: "authority_store_step e u d (snd (create_authority e u a d))"
| saved: "authority_store_step e u d (snd (save_authority_guarded e u guard a d))"
| faulty: "authority_store_step e u d (d\<lparr>faults := fs\<rparr>)"

inductive_cases authority_store_stepE: "authority_store_step e u d d'"

section \<open>Facts\<close>

lemma load_authority_iff:
  "load_authority u i d = Inr a \<longleftrightarrow> authority_file d i = Some (Document a) \<and> u i \<and> authority_id a = i"
  by (auto simp: load_authority_def authority_path_def validate_authority_id_def ensure_authority_identity_def
      result_simps)

lemma lock_authority_Inr:
  "lock_authority u acquired i d = Inr g \<Longrightarrow>
     u i \<and> g = \<lparr>lock_authority_id = i, lock_authority_path = data_dir d @ ''/authorities/'' @ i @ ''.json''\<rparr>"
  by (auto simp: lock_authority_def authority_path_def validate_authority_id_def result_simps)

text \<open>An authority document is never replaced by creation, and by an update only under the contract.\<close>

lemma create_authority_keeps:
  assumes "authority_file d k \<noteq> None"
  shows "authority_file (snd (create_authority e u a d)) k = authority_file d k"
proof -
  have "authority_file (snd (atomic_create (\<lambda>d. authority_file d (authority_id a)) (write_authority (authority_id a) a) d)) k
      = authority_file d k"
    by (rule authorities.create_keeps [OF assms])
  then show ?thesis
    by (auto simp: create_authority_def act_check_def split: sum.splits prod.splits storage_error.splits)
qed

lemma save_guarded_outcome:
  "(\<exists>err. save_authority_guarded e u g a d = (Inl err, d)) \<or>
   (\<exists>s. load_authority u (authority_id a) d = Inr s \<and> \<not> (auth_status s = Revoked \<and> auth_status a \<noteq> Revoked) \<and>
      g = \<lparr>lock_authority_id = authority_id a,
           lock_authority_path = data_dir d @ ''/authorities/'' @ authority_id a @ ''.json''\<rparr> \<and>
      redact_json (authority_json e a) = authority_json e a \<and>
      save_authority_guarded e u g a d = atomic_write (write_authority (authority_id a) a) d)"
  by (cases "u (authority_id a)"; cases "authority_file d (authority_id a)"; cases g)
     (auto simp: save_authority_guarded_def Let_def authority_path_def validate_authority_id_def
       ensure_authority_identity_def load_authority_iff act_check_def managed_exists_def read_document_def
       ensure_def split: sum.splits if_splits document.splits)

lemma save_guarded_ok:
  assumes "save_authority_guarded e u g a d = (Inr (), d')"
  shows "load_authority u (authority_id a) d' = Inr a"
  using save_guarded_outcome [of e u g a d] assms authorities.write_Inr [of "authority_id a" a d d']
  by (auto simp: load_authority_iff)

lemma save_guarded_cases:
  "authority_file (snd (save_authority_guarded e u g a d)) = authority_file d \<or>
   (\<exists>s. load_authority u (authority_id a) d = Inr s \<and> \<not> (auth_status s = Revoked \<and> auth_status a \<noteq> Revoked) \<and>
     authority_file (snd (save_authority_guarded e u g a d)) = (authority_file d)(authority_id a \<mapsto> Document a))"
  using save_guarded_outcome [of e u g a d] authorities.write_cases [of "authority_id a" a d] by auto

lemma revoked_step:
  assumes "authority_store_step e u d d'" "load_authority u i d = Inr a" "auth_status a = Revoked"
  shows "\<exists>a'. load_authority u i d' = Inr a' \<and> auth_status a' = Revoked"
  using assms(1)
proof (cases rule: authority_store_step.cases)
  case (created b)
  with assms create_authority_keeps [of d i e u b] show ?thesis by (auto simp: load_authority_iff)
next
  case (saved g b)
  show ?thesis
  proof (cases "authority_id b = i")
    case True
    with saved assms(2,3) save_guarded_cases [of e u g b d] show ?thesis by (auto simp: load_authority_iff)
  next
    case False
    with saved assms(2,3) save_guarded_cases [of e u g b d] show ?thesis by (auto simp: load_authority_iff)
  qed
qed (use assms in \<open>auto simp: load_authority_iff\<close>)

lemma collect_authorities_Inr:
  "collect_authorities u d es = Inr as \<Longrightarrow> a \<in> set as \<Longrightarrow> load_authority u (authority_id a) d = Inr a"
proof (induction es arbitrary: as)
  case (Cons x es)
  then show ?case
    by (cases x)
       (auto simp: result_simps load_authority_iff validate_authority_id_def ensure_authority_identity_def
         split: if_splits)
qed simp

lemma listed_authority_loads:
  assumes "list_authorities u es d = Inr as" "a \<in> set as"
  shows "load_authority u (authority_id a) d = Inr a"
  using assms collect_authorities_Inr by (auto simp: list_authorities_def result_simps)

lemma authority_step_plans:
  assumes "authority_store_step e u d d'"
  shows "plan_v2_file d' = plan_v2_file d"
  using assms
proof (cases rule: authority_store_step.cases)
  case (created a)
  have "keeps plan_v2_file (create_authority e u a)"
    unfolding create_authority_def by (intro keeps_bind keeps_pure) (auto intro!: keeps_create)
  with created show ?thesis by (simp add: keeps_def)
next
  case (saved g a)
  have "keeps plan_v2_file (save_authority_guarded e u g a)"
    unfolding save_authority_guarded_def Let_def by (intro keeps_bind keeps_pure) (auto intro!: keeps_bind keeps_write)
  with saved show ?thesis by (simp add: keeps_def)
qed simp

end
