(* ===== verification/Admission_Store.thy ===== *)
theory Admission_Store
  imports Durable_Files
begin

text \<open>
  Durable admission policy bundles and the pointer to the active one (\<^verbatim>\<open>StateStore\<close> in
  \<^verbatim>\<open>crates/cfctl-storage/src/lib.rs\<close>). The test for a canonical identifier is the parameter
  \<open>u\<close>, the answer of the operating system to taking the policy lock the parameter \<open>lk\<close>.
\<close>

section \<open>Operations\<close>

definition validate_admission_bundle_id :: "(string \<Rightarrow> bool) \<Rightarrow> string \<Rightarrow> storage_error + unit" where
  "validate_admission_bundle_id u i = ensure (u i) (InvalidAdmissionBundleId i)"

definition validate_admission_bundle_identity :: "(string \<Rightarrow> bool) \<Rightarrow> policy_bundle \<Rightarrow> string
    \<Rightarrow> storage_error + unit" where
  "validate_admission_bundle_identity u b filename_id =
     res_bind (validate_admission_bundle_id u (bundle_id b)) (\<lambda>_.
     ensure (bundle_id b = filename_id)
       (ManagedDocumentIdentityMismatch ''admission policy bundle'' filename_id (bundle_id b)))"

definition load_admission_bundle :: "env \<Rightarrow> (string \<Rightarrow> bool) \<Rightarrow> string \<Rightarrow> disk \<Rightarrow> storage_error + policy_bundle" where
  "load_admission_bundle e u i d =
     res_bind (validate_admission_bundle_id u i) (\<lambda>_.
     res_bind (managed_exists (bundle_file d i)) (\<lambda>present.
     if \<not> present then Inl (AdmissionBundleNotFound i)
     else res_bind (read_document (bundle_file d i)) (\<lambda>b.
       res_bind (validate_admission_bundle_identity u b i) (\<lambda>_.
       res_bind (map_err InvalidPlan (bundle_validate e b)) (\<lambda>_. Inr b)))))"

definition create_admission_bundle :: "env \<Rightarrow> (string \<Rightarrow> bool) \<Rightarrow> (storage_error + unit) \<Rightarrow> policy_bundle
    \<Rightarrow> unit action" where
  "create_admission_bundle e u lk b =
     act_bind (act_check (\<lambda>_. map_err InvalidPlan (bundle_validate e b))) (\<lambda>_.
     act_bind (act_check (\<lambda>_. ensure (bundle_status b = Bundle_Pending)
       (InvalidAdmissionPointer ''only a pending admission bundle may be staged''))) (\<lambda>_.
     act_bind (act_check (\<lambda>_. lk)) (\<lambda>_.
     act_bind (act_check (\<lambda>_. validate_admission_bundle_id u (bundle_id b))) (\<lambda>_.
     act_bind (act_check (\<lambda>_. ensure (redact_json (bundle_json e b) = bundle_json e b) SensitiveData)) (\<lambda>_.
     (\<lambda>d. case atomic_create (\<lambda>d. bundle_file d (bundle_id b)) (write_bundle (bundle_id b) b) d of
         (Inl Io_AlreadyExists, d') \<Rightarrow> (Inl (AdmissionBundleAlreadyExists (bundle_id b)), d')
       | r \<Rightarrow> r))))))"

definition write_admission_bundle :: "env \<Rightarrow> (string \<Rightarrow> bool) \<Rightarrow> policy_bundle \<Rightarrow> unit action" where
  "write_admission_bundle e u b =
     act_bind (act_check (\<lambda>_. map_err InvalidPlan (bundle_validate e b))) (\<lambda>_.
     act_bind (act_check (\<lambda>_. validate_admission_bundle_id u (bundle_id b))) (\<lambda>_.
     act_bind (act_check (\<lambda>d. managed_exists (bundle_file d (bundle_id b)))) (\<lambda>present.
     if \<not> present then act_check (\<lambda>_. Inl (AdmissionBundleNotFound (bundle_id b)))
     else
       act_bind (act_check (\<lambda>d. read_document (bundle_file d (bundle_id b)))) (\<lambda>stored.
       act_bind (act_check (\<lambda>_. validate_admission_bundle_identity u stored (bundle_id b))) (\<lambda>_.
       atomic_write (write_bundle (bundle_id b) b))))))"

text \<open>
  The pointer is only read when \<^verbatim>\<open>Path::is_file\<close> holds of it, which is also false of a directory
  and of a file that cannot be inspected.
\<close>

text \<open>
  The pointer is tested with \<^verbatim>\<open>is_file\<close> and then read, both through symbolic links, so its state is that of what
  the path leads to.
\<close>

definition active_admission_pointer :: "(string \<Rightarrow> bool) \<Rightarrow> disk \<Rightarrow> storage_error + admission_pointer option" where
  "active_admission_pointer u d =
     (if pointer_file d \<in> {None, Some Irregular, Some Unreadable} then Inr None
      else res_bind (read_document (pointer_file d)) (\<lambda>p.
        if ptr_schema_version p \<noteq> 1 \<or> ptr_content_hash p = [] then
          Inl (InvalidAdmissionPointer ''unsupported schema or empty content hash'')
        else res_bind (validate_admission_bundle_id u (ptr_bundle_id p)) (\<lambda>_. Inr (Some p))))"

definition active_admission_policy :: "env \<Rightarrow> (string \<Rightarrow> bool) \<Rightarrow> disk \<Rightarrow> storage_error + policy_bundle option" where
  "active_admission_policy e u d =
     res_bind (active_admission_pointer u d) (\<lambda>pointer. case pointer of
        None \<Rightarrow> Inr None
      | Some p \<Rightarrow>
          res_bind (load_admission_bundle e u (ptr_bundle_id p) d) (\<lambda>b.
          if bundle_status b \<noteq> Bundle_Active \<or> b_content_hash b \<noteq> ptr_content_hash p then
            Inl (InvalidAdmissionPointer (''pointer selects bundle `'' @ ptr_bundle_id p
              @ ''` without the exact active content hash''))
          else Inr (Some b)))"

definition active_admission_bundle_id :: "(string \<Rightarrow> bool) \<Rightarrow> disk \<Rightarrow> storage_error + string option" where
  "active_admission_bundle_id u d =
     res_bind (active_admission_pointer u d) (\<lambda>p. Inr (map_option ptr_bundle_id p))"

definition approve_admission_bundle :: "env \<Rightarrow> (string \<Rightarrow> bool) \<Rightarrow> (storage_error + unit) \<Rightarrow> datetime \<Rightarrow> string
    \<Rightarrow> bool \<Rightarrow> policy_bundle action" where
  "approve_admission_bundle e u lk now i explicit_yes =
     act_bind (act_check (\<lambda>_. lk)) (\<lambda>_.
     act_bind (act_check (load_admission_bundle e u i)) (\<lambda>b.
     act_bind (act_check (\<lambda>_. map_err InvalidPlan (bundle_approve e now explicit_yes b))) (\<lambda>b'.
     act_bind (write_admission_bundle e u b') (\<lambda>_. act_return b'))))"

record admission_activation =
  activated_bundle :: policy_bundle
  previous_bundle_id :: "string option"

definition supersede_previous :: "env \<Rightarrow> (string \<Rightarrow> bool) \<Rightarrow> string \<Rightarrow> unit action" where
  "supersede_previous e u i =
     act_bind (act_check (load_admission_bundle e u i)) (\<lambda>previous.
     write_admission_bundle e u (bundle_supersede previous))"

definition activate_admission_bundle :: "env \<Rightarrow> (string \<Rightarrow> bool) \<Rightarrow> (storage_error + unit) \<Rightarrow> string
    \<Rightarrow> admission_activation action" where
  "activate_admission_bundle e u lk i =
     act_bind (act_check (\<lambda>_. lk)) (\<lambda>_.
     act_bind (act_check (active_admission_bundle_id u)) (\<lambda>previous_id.
     act_bind (act_check (load_admission_bundle e u i)) (\<lambda>b.
     act_bind (act_check (\<lambda>_. map_err InvalidPlan (bundle_activate e b))) (\<lambda>target.
     act_bind (write_admission_bundle e u target) (\<lambda>_.
     act_bind (atomic_write (write_pointer \<lparr>ptr_schema_version = 1, ptr_bundle_id = bundle_id target,
         ptr_content_hash = b_content_hash target\<rparr>)) (\<lambda>_.
     act_bind (case previous_id of None \<Rightarrow> act_return ()
         | Some j \<Rightarrow> if j \<noteq> i then supersede_previous e u j else act_return ()) (\<lambda>_.
     act_return \<lparr>activated_bundle = target, previous_bundle_id = previous_id\<rparr>)))))))"

section \<open>Steps of the bundle store\<close>

inductive admission_store_step :: "env \<Rightarrow> (string \<Rightarrow> bool) \<Rightarrow> disk \<Rightarrow> disk \<Rightarrow> bool" for e u where
  created: "admission_store_step e u d (snd (create_admission_bundle e u lk b d))"
| approved: "admission_store_step e u d (snd (approve_admission_bundle e u lk now i yes d))"
| activated: "admission_store_step e u d (snd (activate_admission_bundle e u lk i d))"
| faulty: "admission_store_step e u d (d\<lparr>faults := fs\<rparr>)"

section \<open>Facts\<close>

definition stored_bundle :: "env \<Rightarrow> (string \<Rightarrow> bool) \<Rightarrow> string \<Rightarrow> policy_bundle \<Rightarrow> bool" where
  "stored_bundle e u i b \<longleftrightarrow> u i \<and> bundle_id b = i \<and> bundle_validate e b = Inr ()"

lemma load_bundle_iff:
  "load_admission_bundle e u i d = Inr b \<longleftrightarrow> bundle_file d i = Some (Document b) \<and> stored_bundle e u i b"
  by (auto simp: load_admission_bundle_def validate_admission_bundle_id_def validate_admission_bundle_identity_def
      result_simps stored_bundle_def)

definition pointer_to :: "policy_bundle \<Rightarrow> admission_pointer" where
  "pointer_to b = \<lparr>ptr_schema_version = 1, ptr_bundle_id = bundle_id b, ptr_content_hash = b_content_hash b\<rparr>"

lemma active_policy_iff:
  "active_admission_policy e u d = Inr (Some b) \<longleftrightarrow>
     pointer_file d = Some (Document (pointer_to b)) \<and> b_content_hash b \<noteq> [] \<and>
     load_admission_bundle e u (bundle_id b) d = Inr b \<and> bundle_status b = Bundle_Active" (is "?l \<longleftrightarrow> ?r")
proof
  assume l: ?l
  from l obtain p where p: "active_admission_pointer u d = Inr (Some p)"
      "load_admission_bundle e u (ptr_bundle_id p) d = Inr b" "bundle_status b = Bundle_Active"
      "b_content_hash b = ptr_content_hash p"
    by (auto simp: active_admission_policy_def result_simps split: option.splits if_splits)
  from p(1) have "pointer_file d = Some (Document p)" "ptr_schema_version p = 1" "ptr_content_hash p \<noteq> []"
    by (auto simp: active_admission_pointer_def result_simps split: if_splits)
  with p show ?r by (auto simp: pointer_to_def load_bundle_iff stored_bundle_def)
next
  assume ?r
  then show ?l
    by (auto simp: active_admission_policy_def active_admission_pointer_def pointer_to_def result_simps
        load_bundle_iff stored_bundle_def validate_admission_bundle_id_def)
qed

lemma no_policy_iff:
  "active_admission_policy e u d = Inr None \<longleftrightarrow> pointer_file d \<in> {None, Some Irregular, Some Unreadable}"
  by (auto simp: active_admission_policy_def active_admission_pointer_def result_simps split: if_splits option.splits)

lemma write_bundle_outcome:
  "(\<exists>err. write_admission_bundle e u b d = (Inl err, d)) \<or>
   (stored_bundle e u (bundle_id b) b \<and> write_admission_bundle e u b d = atomic_write (write_bundle (bundle_id b) b) d)"
  by (cases "bundle_validate e b"; cases "u (bundle_id b)"; cases "bundle_file d (bundle_id b)")
     (auto simp: write_admission_bundle_def validate_admission_bundle_id_def validate_admission_bundle_identity_def
       managed_exists_def read_document_def act_check_def ensure_def stored_bundle_def
       split: document.splits if_splits)

lemma write_bundle_cases:
  fixes e u b d
  defines "d' \<equiv> snd (write_admission_bundle e u b d)"
  shows "pointer_file d' = pointer_file d"
    and "bundle_file d' = bundle_file d \<and> fst (write_admission_bundle e u b d) \<noteq> Inr () \<or>
      stored_bundle e u (bundle_id b) b \<and> bundle_file d' = (bundle_file d)(bundle_id b \<mapsto> Document b)"
  using write_bundle_outcome [of e u b d] bundles.write_cases [of "bundle_id b" b d]
    write_elsewhere [OF tables_apart(3), of "bundle_id b" b d]
  by (auto simp: d'_def)

lemma write_pointer_cases:
  "bundle_file (snd (atomic_write (write_pointer p) d)) = bundle_file d"
  "pointer_file (snd (atomic_write (write_pointer p) d)) = pointer_file d \<and> fst (atomic_write (write_pointer p) d) \<noteq> Inr () \<or>
   pointer_file (snd (atomic_write (write_pointer p) d)) = Some (Document p)"
  by (auto simp: atomic_write_def write_pointer_def Let_def split: list.splits write_fault.splits)

text \<open>What an activation leaves, whichever of its three writes fails.\<close>

definition activation_left :: "env \<Rightarrow> (string \<Rightarrow> bool) \<Rightarrow> string \<Rightarrow> disk \<Rightarrow> bool \<Rightarrow> disk \<Rightarrow> bool" where
  "activation_left e u i d ok d' \<longleftrightarrow>
     (\<exists>b. load_admission_bundle e u i d = Inr b \<and> bundle_status b \<in> {Bundle_Approved, Bundle_Superseded} \<and>
        (let t = b\<lparr>bundle_status := Bundle_Active\<rparr>; bs = (bundle_file d)(i \<mapsto> Document t) in
         pointer_file d' = pointer_file d \<and> bundle_file d' \<in> {bundle_file d, bs} \<and> \<not> ok \<or>
         pointer_file d' = Some (Document (pointer_to t)) \<and>
           (bundle_file d' = bs \<or>
            (\<exists>j p. active_admission_bundle_id u d = Inr (Some j) \<and> j \<noteq> i \<and> load_admission_bundle e u j d = Inr p \<and>
               bundle_file d' = bs(j \<mapsto> Document (bundle_supersede p))))))"

lemma supersede_cases:
  "pointer_file (snd (supersede_previous e u j d)) = pointer_file d \<and>
   (bundle_file (snd (supersede_previous e u j d)) = bundle_file d \<or>
    (\<exists>p. load_admission_bundle e u j d = Inr p \<and>
       bundle_file (snd (supersede_previous e u j d)) = (bundle_file d)(j \<mapsto> Document (bundle_supersede p))))"
proof (cases "load_admission_bundle e u j d")
  case (Inr p)
  then have "bundle_id (bundle_supersede p) = j" by (auto simp: load_bundle_iff stored_bundle_def bundle_supersede_def)
  with Inr write_bundle_cases [of e u "bundle_supersede p" d] show ?thesis by (auto simp: supersede_previous_def)
qed (simp add: supersede_previous_def)

lemma load_bundle_local:
  "bundle_file d' j = bundle_file d j \<Longrightarrow> load_admission_bundle e u j d' = load_admission_bundle e u j d"
  by (simp only: load_admission_bundle_def)

lemma activation_run:
  assumes "\<nexists>err. activate_admission_bundle e u lk i d = (Inl err, d)"
  obtains b t prev where
    "load_admission_bundle e u i d = Inr b" "bundle_status b \<in> {Bundle_Approved, Bundle_Superseded}"
    "t = b\<lparr>bundle_status := Bundle_Active\<rparr>" "bundle_id t = i" "active_admission_bundle_id u d = Inr prev"
    "activate_admission_bundle e u lk i d =
       act_bind (write_admission_bundle e u t) (\<lambda>_.
       act_bind (atomic_write (write_pointer (pointer_to t))) (\<lambda>_.
       act_bind (case prev of None \<Rightarrow> act_return ()
           | Some j \<Rightarrow> if j \<noteq> i then supersede_previous e u j else act_return ()) (\<lambda>_.
       act_return \<lparr>activated_bundle = t, previous_bundle_id = prev\<rparr>))) d"
proof -
  note act = activate_admission_bundle_def
  have lk: "lk = Inr ()" using assms by (cases lk) (simp_all add: act)
  obtain prev where prev: "active_admission_bundle_id u d = Inr prev"
    using assms lk by (cases "active_admission_bundle_id u d") (simp_all add: act)
  obtain b where b: "load_admission_bundle e u i d = Inr b"
    using assms lk prev by (cases "load_admission_bundle e u i d") (simp_all add: act)
  obtain t where t: "bundle_activate e b = Inr t"
    using assms lk prev b by (cases "bundle_activate e b") (simp_all add: act)
  then have tb: "bundle_status b \<in> {Bundle_Approved, Bundle_Superseded}" "t = b\<lparr>bundle_status := Bundle_Active\<rparr>"
    by (auto simp: bundle_activate_iff)
  have ti: "bundle_id t = i" using b tb by (simp add: load_bundle_iff stored_bundle_def)
  show ?thesis by (rule that [OF b tb ti prev]) (use lk prev b t ti in \<open>simp add: act pointer_to_def\<close>)
qed

lemma activation_outcome:
  "(\<exists>err. activate_admission_bundle e u lk i d = (Inl err, d)) \<or>
   activation_left e u i d (is_ok (fst (activate_admission_bundle e u lk i d))) (snd (activate_admission_bundle e u lk i d))"
proof (cases "\<exists>err. activate_admission_bundle e u lk i d = (Inl err, d)")
  case False
  then obtain b t prev where b: "load_admission_bundle e u i d = Inr b"
      "bundle_status b \<in> {Bundle_Approved, Bundle_Superseded}" "t = b\<lparr>bundle_status := Bundle_Active\<rparr>"
      "bundle_id t = i" and prev: "active_admission_bundle_id u d = Inr prev"
    and run: "activate_admission_bundle e u lk i d =
       act_bind (write_admission_bundle e u t) (\<lambda>_.
       act_bind (atomic_write (write_pointer (pointer_to t))) (\<lambda>_.
       act_bind (case prev of None \<Rightarrow> act_return ()
           | Some j \<Rightarrow> if j \<noteq> i then supersede_previous e u j else act_return ()) (\<lambda>_.
       act_return \<lparr>activated_bundle = t, previous_bundle_id = prev\<rparr>))) d"
    by (rule activation_run)
  obtain r1 d1 where w: "write_admission_bundle e u t d = (r1, d1)" by (cases "write_admission_bundle e u t d")
  note w1 = write_bundle_cases [of e u t d, unfolded w fst_conv snd_conv b(4)]
  obtain r2 d2 where p: "atomic_write (write_pointer (pointer_to t)) d1 = (r2, d2)"
    by (cases "atomic_write (write_pointer (pointer_to t)) d1")
  note p1 = write_pointer_cases [of "pointer_to t" d1, unfolded p fst_conv snd_conv]
  let ?s = "case prev of None \<Rightarrow> act_return () | Some j \<Rightarrow> if j \<noteq> i then supersede_previous e u j else act_return ()"
  obtain r3 d3 where s: "?s d2 = (r3, d3)" by (cases "?s d2")
  have s1: "pointer_file d3 = pointer_file d2 \<and> (bundle_file d3 = bundle_file d2 \<or>
      (\<exists>j pb. prev = Some j \<and> j \<noteq> i \<and> load_admission_bundle e u j d2 = Inr pb \<and>
         bundle_file d3 = (bundle_file d2)(j \<mapsto> Document (bundle_supersede pb))))"
    using s supersede_cases [of e u _ d2] by (auto simp: act_return_def split: option.splits if_splits) (metis snd_conv)+
  have load2: "load_admission_bundle e u j d2 = load_admission_bundle e u j d"
    if "bundle_file d2 = (bundle_file d)(i \<mapsto> Document t)" "j \<noteq> i" for j
    using that by (intro load_bundle_local) simp
  note run' = run [unfolded act_bind_def w p s prod.case] and goal = activation_left_def Let_def
  show ?thesis
  proof (cases r1)
    case (Inl err)
    then show ?thesis using run' w1 b by (auto simp: goal)
  next
    case r1: (Inr x)
    with w1 have bs: "bundle_file d1 = (bundle_file d)(i \<mapsto> Document t)" by simp
    show ?thesis
    proof (cases r2)
      case (Inl err)
      then show ?thesis using run' w1 r1 p1 b bs by (auto simp: goal)
    next
      case (Inr y)
      then have d3: "snd (activate_admission_bundle e u lk i d) = d3"
        using run' r1 by (auto simp: act_return_def split: sum.splits)
      have d2: "bundle_file d2 = (bundle_file d)(i \<mapsto> Document t)" using p1 bs by simp
      have "pointer_file d3 = Some (Document (pointer_to t))" using p1 s1 Inr by simp
      moreover from s1 have "bundle_file d3 = (bundle_file d)(i \<mapsto> Document t) \<or>
          (\<exists>j pb. active_admission_bundle_id u d = Inr (Some j) \<and> j \<noteq> i \<and> load_admission_bundle e u j d = Inr pb \<and>
             bundle_file d3 = (bundle_file d)(i \<mapsto> Document t, j \<mapsto> Document (bundle_supersede pb)))"
        unfolding d2 prev using load2 [OF d2] by metis
      ultimately show ?thesis using b(1,2) unfolding d3 goal b(3) by blast
    qed
  qed
qed simp

lemma active_bundle_id:
  "active_admission_policy e u d = Inr (Some b) \<Longrightarrow> active_admission_bundle_id u d = Inr (Some (bundle_id b))"
  by (auto simp: active_admission_policy_def active_admission_bundle_id_def result_simps load_bundle_iff stored_bundle_def
      split: option.splits if_splits)

lemma no_active_bundle_id:
  "active_admission_policy e u d = Inr None \<Longrightarrow> active_admission_bundle_id u d = Inr None"
  by (auto simp: active_admission_policy_def active_admission_bundle_id_def result_simps split: option.splits if_splits)

lemma activated_content: "b_content_hash b \<noteq> [] \<Longrightarrow> stored_bundle e u i b \<Longrightarrow>
    bundle_status b \<in> {Bundle_Approved, Bundle_Superseded} \<Longrightarrow> stored_bundle e u i (b\<lparr>bundle_status := Bundle_Active\<rparr>)"
  by (auto simp: stored_bundle_def bundle_validate_iff pol.bound_def bundle_content_def)

text \<open>What the active policy is after an activation.\<close>

lemma activation_policy:
  assumes left: "activation_left e u i d ok d'" and before: "active_admission_policy e u d = Inr p"
    and load: "load_admission_bundle e u i d = Inr b" and hash: "b_content_hash b \<noteq> []"
  defines "t \<equiv> b\<lparr>bundle_status := Bundle_Active\<rparr>"
  shows "active_admission_policy e u d' = Inr (Some t) \<or> active_admission_policy e u d' = Inr p \<and> \<not> ok"
proof -
  have st: "bundle_status b \<in> {Bundle_Approved, Bundle_Superseded}"
    using left load by (auto simp: activation_left_def)
  have t: "stored_bundle e u i t" "bundle_id t = i" "b_content_hash t \<noteq> []" "bundle_status t = Bundle_Active"
    using activated_content [OF hash _ st] load hash by (auto simp: load_bundle_iff t_def stored_bundle_def)
  have other: "bundle_id c \<noteq> i" if "p = Some c" for c
    using before that load st by (auto simp: active_policy_iff load_bundle_iff)
  have "pointer_file d' = pointer_file d \<and> bundle_file d' \<in> {bundle_file d, (bundle_file d)(i \<mapsto> Document t)} \<and> \<not> ok \<or>
      pointer_file d' = Some (Document (pointer_to t)) \<and> bundle_file d' i = Some (Document t)"
    using left load by (auto simp: activation_left_def Let_def t_def)
  then show ?thesis
  proof
    assume k: "pointer_file d' = pointer_file d \<and> bundle_file d' \<in> {bundle_file d, (bundle_file d)(i \<mapsto> Document t)} \<and> \<not> ok"
    show ?thesis
    proof (cases p)
      case None
      then show ?thesis using before k by (simp add: no_policy_iff)
    next
      case (Some c)
      then have "load_admission_bundle e u (bundle_id c) d' = load_admission_bundle e u (bundle_id c) d"
        using k other by (intro load_bundle_local) auto
      then show ?thesis using Some before k by (simp add: active_policy_iff)
    qed
  next
    assume "pointer_file d' = Some (Document (pointer_to t)) \<and> bundle_file d' i = Some (Document t)"
    then show ?thesis using t by (simp add: active_policy_iff load_bundle_iff)
  qed
qed

text \<open>Staging and approval leave the active policy alone.\<close>

lemma create_bundle_keeps:
  assumes "bundle_file d k \<noteq> None"
  shows "bundle_file (snd (create_admission_bundle e u lk b d)) k = bundle_file d k"
    and "pointer_file (snd (create_admission_bundle e u lk b d)) = pointer_file d"
proof -
  let ?c = "atomic_create (\<lambda>d. bundle_file d (bundle_id b)) (write_bundle (bundle_id b) b) d"
  have "bundle_file (snd ?c) k = bundle_file d k" by (rule bundles.create_keeps [OF assms])
  moreover have "pointer_file (snd ?c) = pointer_file d"
    by (auto simp: atomic_create_def write_elsewhere Let_def split: list.splits write_fault.splits)
  ultimately show "bundle_file (snd (create_admission_bundle e u lk b d)) k = bundle_file d k"
    "pointer_file (snd (create_admission_bundle e u lk b d)) = pointer_file d"
    by (auto simp: create_admission_bundle_def act_check_def split: sum.splits prod.splits storage_error.splits)
qed

lemma approve_bundle_keeps:
  "pointer_file (snd (approve_admission_bundle e u lk now i yes d)) = pointer_file d \<and>
   (bundle_file (snd (approve_admission_bundle e u lk now i yes d)) = bundle_file d \<or>
    (\<exists>b b'. load_admission_bundle e u i d = Inr b \<and> bundle_approve e now yes b = Inr b' \<and>
      bundle_file (snd (approve_admission_bundle e u lk now i yes d)) = (bundle_file d)(i \<mapsto> Document b')))"
proof (cases "\<exists>b b'. lk = Inr () \<and> load_admission_bundle e u i d = Inr b \<and> bundle_approve e now yes b = Inr b'")
  case True
  then obtain b b' where b: "lk = Inr ()" "load_admission_bundle e u i d = Inr b" "bundle_approve e now yes b = Inr b'"
    by blast
  then have "bundle_id b' = i" by (auto simp: bundle_approve_iff load_bundle_iff stored_bundle_def)
  with b write_bundle_cases [of e u b' d] show ?thesis
    by (cases "write_admission_bundle e u b' d") (auto simp: approve_admission_bundle_def act_bind_def act_check_def act_return_def split: sum.splits)
next
  case False
  then show ?thesis
    by (cases lk; cases "load_admission_bundle e u i d")
       (auto simp: approve_admission_bundle_def split: sum.splits)
qed

lemma policy_step:
  assumes "\<And>v. canonical_hash_value e v \<noteq> []" "admission_store_step e u d d'"
    and c: "active_admission_policy e u d = Inr (Some c)"
  shows "\<exists>c'. active_admission_policy e u d' = Inr (Some c')"
proof -
  note facts = c [unfolded active_policy_iff load_bundle_iff]
  have keep: ?thesis if "bundle_file d' (bundle_id c) = bundle_file d (bundle_id c)" "pointer_file d' = pointer_file d"
    using c load_bundle_local [OF that(1)] that(2) by (auto simp: active_policy_iff)
  from assms(2) show ?thesis
  proof (cases rule: admission_store_step.cases)
    case (created lk b)
    then show ?thesis using create_bundle_keeps [of d "bundle_id c"] facts by (intro keep) auto
  next
    case (approved lk now j yes)
    then show ?thesis using approve_bundle_keeps [of e u lk now j yes d] facts
      by (intro keep) (auto simp: load_bundle_iff bundle_approve_iff)
  next
    case (activated lk i)
    show ?thesis
      using activation_outcome [of e u lk i d]
    proof
      assume left: "activation_left e u i d (is_ok (fst (activate_admission_bundle e u lk i d)))
        (snd (activate_admission_bundle e u lk i d))"
      then obtain b where b: "load_admission_bundle e u i d = Inr b" by (auto simp: activation_left_def)
      then have "b_content_hash b \<noteq> []"
        using assms(1) by (auto simp: load_bundle_iff stored_bundle_def bundle_validate_iff pol.bound_def)
      from activation_policy [OF left c b this] activated show ?thesis by auto
    qed (use activated c in auto)
  next
    case (faulty fs)
    then show ?thesis by (intro keep) simp_all
  qed
qed

section \<open>Interrupted activations\<close>

text \<open>
  A bundle whose document is active although the pointer does not select it: what an activation
  leaves when its pointer write fails, and of the previous bundle when its last write fails.
\<close>

definition stranded :: "env \<Rightarrow> (string \<Rightarrow> bool) \<Rightarrow> string \<Rightarrow> disk \<Rightarrow> bool" where
  "stranded e u i d \<longleftrightarrow>
     (\<exists>b. load_admission_bundle e u i d = Inr b \<and> bundle_status b = Bundle_Active) \<and>
     active_admission_bundle_id u d \<noteq> Inr (Some i)"

lemma active_id_local:
  "pointer_file d' = pointer_file d \<Longrightarrow> active_admission_bundle_id u d' = active_admission_bundle_id u d"
  by (simp only: active_admission_bundle_id_def active_admission_pointer_def)

lemma stranded_refused:
  "stranded e u i d \<Longrightarrow> \<exists>err. activate_admission_bundle e u lk i d = (Inl err, d)"
  using activation_outcome [of e u lk i d] by (auto simp: stranded_def activation_left_def)

lemma stranded_local:
  assumes "stranded e u i d" "bundle_file d' i = bundle_file d i" "pointer_file d' = pointer_file d"
  shows "stranded e u i d'"
  using assms load_bundle_local [OF assms(2)] active_id_local [OF assms(3)] by (simp add: stranded_def)

lemma stranded_activation:
  assumes "stranded e u i d"
  shows "stranded e u i (snd (activate_admission_bundle e u lk j d))"
proof (cases "\<exists>err. activate_admission_bundle e u lk j d = (Inl err, d)")
  case False
  then have j: "j \<noteq> i" using stranded_refused [OF assms] by blast
  let ?d' = "snd (activate_admission_bundle e u lk j d)"
  from False activation_outcome [of e u lk j d] obtain b where b: "load_admission_bundle e u j d = Inr b"
      "pointer_file ?d' = pointer_file d \<or> pointer_file ?d' = Some (Document (pointer_to (b\<lparr>bundle_status := Bundle_Active\<rparr>)))"
      "bundle_file ?d' i = bundle_file d i"
    using j assms by (auto simp: activation_left_def Let_def stranded_def)
  have "active_admission_bundle_id u ?d' \<noteq> Inr (Some i)"
    using b(2)
  proof
    assume "pointer_file ?d' = pointer_file d"
    then show ?thesis using active_id_local assms by (metis stranded_def)
  next
    assume "pointer_file ?d' = Some (Document (pointer_to (b\<lparr>bundle_status := Bundle_Active\<rparr>)))"
    then show ?thesis using b(1) j
      by (auto simp: active_admission_bundle_id_def active_admission_pointer_def pointer_to_def load_bundle_iff
          stored_bundle_def result_simps split: if_splits)
  qed
  then show ?thesis using assms load_bundle_local [OF b(3)] by (simp add: stranded_def)
qed (use assms in auto)

lemma stranded_step:
  assumes "admission_store_step e u d d'" "stranded e u i d"
  shows "stranded e u i d'"
  using assms(1)
proof (cases rule: admission_store_step.cases)
  case (created lk b)
  with assms(2) create_bundle_keeps [of d i e u lk b] show ?thesis
    by (intro stranded_local [OF assms(2)]) (auto simp: stranded_def load_bundle_iff)
next
  case (approved lk now j yes)
  then have "bundle_file d' i = bundle_file d i" "pointer_file d' = pointer_file d"
    using approve_bundle_keeps [of e u lk now j yes d] assms(2)
    by (auto simp: stranded_def load_bundle_iff bundle_approve_iff)
  then show ?thesis by (rule stranded_local [OF assms(2)])
next
  case (activated lk j)
  then show ?thesis using stranded_activation [OF assms(2)] by simp
next
  case (faulty fs)
  then show ?thesis by (intro stranded_local [OF assms(2)]) simp_all
qed

text \<open>Bundle calls do not touch other documents.\<close>

lemma keeps_write_bundle: "\<forall>i b. same_elsewhere (write_bundle i b) get \<Longrightarrow> keeps get (write_admission_bundle e u b)"
  unfolding write_admission_bundle_def by (intro keeps_bind keeps_pure) (auto intro!: keeps_bind keeps_write)

lemma keeps_supersede: "\<forall>i b. same_elsewhere (write_bundle i b) get \<Longrightarrow> keeps get (supersede_previous e u j)"
  unfolding supersede_previous_def by (intro keeps_bind keeps_pure keeps_write_bundle)

lemma admission_step_elsewhere:
  assumes "\<forall>i b. same_elsewhere (write_bundle i b) get" "\<forall>p. same_elsewhere (write_pointer p) get"
    and "admission_store_step e u d d'"
  shows "get d' = get d"
  using assms(3)
proof (cases rule: admission_store_step.cases)
  case (created lk b)
  have "keeps get (create_admission_bundle e u lk b)"
    unfolding create_admission_bundle_def using assms(1) by (intro keeps_bind keeps_pure keeps_create) blast
  with created show ?thesis by (simp add: keeps_def)
next
  case (approved lk now i yes)
  have "keeps get (approve_admission_bundle e u lk now i yes)"
    unfolding approve_admission_bundle_def using assms(1) by (intro keeps_bind keeps_pure keeps_write_bundle)
  with approved show ?thesis by (simp add: keeps_def)
next
  case (activated lk i)
  have "keeps get (activate_admission_bundle e u lk i)"
    unfolding activate_admission_bundle_def using assms(1,2) keeps_supersede [OF assms(1)]
    by (intro keeps_bind keeps_pure keeps_write_bundle keeps_write) (auto split: option.splits)
  with activated show ?thesis by (simp add: keeps_def)
next
  case (faulty fs)
  then show ?thesis using assms(2) by (simp add: same_elsewhere_def)
qed

section \<open>Properties\<close>

definition demo_approved_bundle :: policy_bundle where
  "demo_approved_bundle = demo_active_bundle\<lparr>bundle_status := Bundle_Approved\<rparr>"

text \<open>A disk with one approved bundle on which the second of the coming writes fails.\<close>

definition interrupted_disk :: disk where
  "interrupted_disk = \<lparr>data_dir = ''/data'', plan_file = Map.empty, plan_v2_file = Map.empty,
     authority_file = Map.empty, bundle_file = [''b1'' \<mapsto> Document demo_approved_bundle],
     pointer_file = None, private_origin = No_Origin, faults = [Write_Ok, Write_Failed]\<rparr>"

definition active_disk :: disk where
  "active_disk = write_pointer (pointer_to demo_active_bundle) (write_bundle ''b1'' demo_active_bundle interrupted_disk)"

lemma demo_bundles:
  "stored_bundle demo_env (\<lambda>_. True) ''b1'' demo_active_bundle"
  "stored_bundle demo_env (\<lambda>_. True) ''b1'' demo_approved_bundle"
  using demo_bundle_valid
  by (auto simp: stored_bundle_def demo_approved_bundle_def demo_active_bundle_def bundle_validate_iff pol.bound_def
      bundle_content_def demo_bundle_def bundle_pending_def demo_rule_def bundle_refresh_hash_def)

lemma demo_hash_nonempty: "canonical_hash_value demo_env v \<noteq> []"
proof -
  have "show_nat n \<noteq> []" for n by (subst show_nat.simps) simp
  then have "render_json v \<noteq> []" for v
    by (cases v rule: render_json.cases) (auto split: prod.splits)
  then show ?thesis by (simp add: canonical_hash_value_def hash_value_def demo_env_def)
qed

lemma demo_loads:
  "load_admission_bundle demo_env (\<lambda>_. True) ''b1'' interrupted_disk = Inr demo_approved_bundle"
  "active_admission_policy demo_env (\<lambda>_. True) interrupted_disk = Inr None"
  "active_admission_policy demo_env (\<lambda>_. True) active_disk = Inr (Some demo_active_bundle)"
proof -
  show "load_admission_bundle demo_env (\<lambda>_. True) ''b1'' interrupted_disk = Inr demo_approved_bundle"
    using demo_bundles by (simp add: load_bundle_iff interrupted_disk_def)
  show "active_admission_policy demo_env (\<lambda>_. True) interrupted_disk = Inr None"
    by (simp add: no_policy_iff interrupted_disk_def)
  have "b_content_hash demo_active_bundle \<noteq> []"
    using demo_bundles(1) demo_hash_nonempty by (auto simp: stored_bundle_def bundle_validate_iff pol.bound_def)
  moreover have "bundle_status demo_active_bundle = Bundle_Active" by (simp add: demo_active_bundle_def)
  moreover have "bundle_id demo_active_bundle = ''b1''" using demo_bundles(1) by (simp add: stored_bundle_def)
  ultimately show "active_admission_policy demo_env (\<lambda>_. True) active_disk = Inr (Some demo_active_bundle)"
    using demo_bundles(1)
    by (simp add: active_policy_iff load_bundle_iff active_disk_def write_pointer_def write_bundle_def)
qed

text \<open>
  C7. Activating a bundle is atomic for the policy in force. From any state whose active policy is
  known, whichever of the three writes fails, afterwards the policy in force is the one from
  before or the activated bundle, never an error; a call that succeeds has put the bundle in force.
\<close>

theorem activation_atomic:
  assumes "\<And>v. canonical_hash_value e v \<noteq> []"
    and "active_admission_policy e u d = Inr p" "activate_admission_bundle e u lk i d = (r, d')"
  shows "active_admission_policy e u d' = Inr p \<and> \<not> is_ok r \<or>
    (\<exists>b. load_admission_bundle e u i d = Inr b \<and>
       active_admission_policy e u d' = Inr (Some (b\<lparr>bundle_status := Bundle_Active\<rparr>)))"
  using activation_outcome [of e u lk i d]
proof
  assume "activation_left e u i d (is_ok (fst (activate_admission_bundle e u lk i d))) (snd (activate_admission_bundle e u lk i d))"
  then have left: "activation_left e u i d (is_ok r) d'" using assms(3) by simp
  then obtain b where b: "load_admission_bundle e u i d = Inr b" by (auto simp: activation_left_def)
  then have "b_content_hash b \<noteq> []"
    using assms(1) by (auto simp: load_bundle_iff stored_bundle_def bundle_validate_iff pol.bound_def)
  from activation_policy [OF left assms(2) b this] b show ?thesis by blast
qed (use assms(2,3) in auto)

theorem activation_atomic_witness:
  "active_admission_policy demo_env (\<lambda>_. True)
     (snd (activate_admission_bundle demo_env (\<lambda>_. True) (Inr ()) ''b1'' interrupted_disk)) \<in>
       {Inr None, Inr (Some demo_active_bundle)}"
proof -
  have "demo_approved_bundle\<lparr>bundle_status := Bundle_Active\<rparr> = demo_active_bundle"
    by (simp add: demo_approved_bundle_def demo_active_bundle_def)
  then show ?thesis
    using activation_atomic [OF demo_hash_nonempty demo_loads(2) surjective_pairing, of "Inr ()" "''b1''"] demo_loads(1)
    by auto
qed

text \<open>
  C8. Once an admission policy is in force, some policy stays in force: no sequence of staging,
  approving and activating bundles, with any write faults, ends with no policy or with a
  pointer that does not resolve.
\<close>

theorem policy_never_lost:
  assumes "\<And>v. canonical_hash_value e v \<noteq> []"
    and "active_admission_policy e u d = Inr (Some b)" "(admission_store_step e u)\<^sup>*\<^sup>* d d'"
  shows "\<exists>b'. active_admission_policy e u d' = Inr (Some b') \<and> bundle_status b' = Bundle_Active \<and>
    bundle_validate e b' = Inr ()"
  using assms(3)
proof (induction rule: rtranclp_induct)
  case base
  then show ?case using assms(2) by (auto simp: active_policy_iff load_bundle_iff stored_bundle_def)
next
  case (step d1 d2)
  then obtain c where c: "active_admission_policy e u d1 = Inr (Some c)" by blast
  from policy_step [OF assms(1) step(2) c] show ?case
    by (auto simp: active_policy_iff load_bundle_iff stored_bundle_def)
qed

theorem policy_never_lost_witness:
  "\<exists>b'. active_admission_policy demo_env (\<lambda>_. True)
     (snd (create_admission_bundle demo_env (\<lambda>_. True) (Inr ()) demo_bundle active_disk)) = Inr (Some b') \<and>
     bundle_status b' = Bundle_Active \<and> bundle_validate demo_env b' = Inr ()"
  by (rule policy_never_lost [OF demo_hash_nonempty demo_loads(3)])
     (rule r_into_rtranclp, rule admission_store_step.created)

lemma stranded_forever: "(admission_store_step e u)\<^sup>*\<^sup>* d d' \<Longrightarrow> stranded e u i d \<Longrightarrow> stranded e u i d'"
  by (induction rule: rtranclp_induct) (use stranded_step in blast)+

text \<open>The first write of an activation is the only one that takes effect.\<close>

definition cut_off :: "write_fault list \<Rightarrow> bool" where
  "cut_off fs \<longleftrightarrow> (\<exists>rest. fs = Write_Ok # Write_Failed # rest \<or> fs = Write_Unsynced # rest)"

lemma cut_off_strands:
  assumes "load_admission_bundle e u i d = Inr b" "bundle_activate e b = Inr target"
    and "active_admission_bundle_id u d = Inr previous" "previous \<noteq> Some i" "cut_off (faults d)"
  shows "\<not> is_ok (fst (activate_admission_bundle e u (Inr ()) i d)) \<and> stranded e u i (snd (activate_admission_bundle e u (Inr ()) i d))"
proof -
  have b: "bundle_file d i = Some (Document b)" "stored_bundle e u i b" using assms(1) by (simp_all add: load_bundle_iff)
  have target: "stored_bundle e u i target" "bundle_status target = Bundle_Active" "bundle_id target = i"
    using assms(2) b(2)
    by (auto simp: bundle_activate_iff stored_bundle_def bundle_validate_iff pol.bound_def bundle_content_def)
  have "\<exists>err d'. activate_admission_bundle e u (Inr ()) i d = (Inl err, d') \<and> bundle_file d' i = Some (Document target) \<and>
      pointer_file d' = pointer_file d"
    using assms(1-3,5) b target
    by (auto simp: cut_off_def activate_admission_bundle_def write_admission_bundle_def stored_bundle_def validate_admission_bundle_id_def
        validate_admission_bundle_identity_def act_bind_def act_check_def atomic_write_def read_document_def write_bundle_def Let_def)
  then obtain err d' where d': "activate_admission_bundle e u (Inr ()) i d = (Inl err, d')" "bundle_file d' i = Some (Document target)"
      "pointer_file d' = pointer_file d" by blast
  from active_id_local [OF d'(3)] assms(3,4) target d'(1,2) show ?thesis by (simp add: stranded_def load_bundle_iff)
qed

text \<open>
  C37. An activation that is cut off after its first write strands its bundle. The call fails with the
  document saying active while the pointer does not select it, and from then on no sequence of calls
  with any write faults selects it: every attempt to activate it is refused and changes nothing.
\<close>

theorem interrupted_activation_stranded:
  assumes "load_admission_bundle e u i d = Inr b" "bundle_activate e b = Inr target"
    and "active_admission_bundle_id u d = Inr previous" "previous \<noteq> Some i" "cut_off (faults d)"
    and "activate_admission_bundle e u (Inr ()) i d = (r, d1)" "(admission_store_step e u)\<^sup>*\<^sup>* d1 d2"
  shows "\<not> is_ok r \<and> (\<exists>b'. load_admission_bundle e u i d2 = Inr b' \<and> bundle_status b' = Bundle_Active) \<and>
    active_admission_bundle_id u d2 \<noteq> Inr (Some i) \<and> (\<exists>err. activate_admission_bundle e u lk i d2 = (Inl err, d2))"
proof -
  note cut = cut_off_strands [OF assms(1-5), unfolded assms(6), simplified]
  have "stranded e u i d2" using stranded_forever [OF assms(7)] cut by blast
  with cut show ?thesis using stranded_refused [of e u i d2 lk] by (auto simp: stranded_def)
qed

theorem interrupted_activation_stranded_witness:
  "\<exists>err. let d' = snd (activate_admission_bundle demo_env (\<lambda>_. True) (Inr ()) ''b1'' interrupted_disk)
     in activate_admission_bundle demo_env (\<lambda>_. True) (Inr ()) ''b1'' d' = (Inl err, d')"
proof -
  have activated: "bundle_activate demo_env demo_approved_bundle = Inr demo_active_bundle"
    using demo_bundles(2) by (simp add: bundle_activate_iff stored_bundle_def) (simp add: demo_approved_bundle_def demo_active_bundle_def)
  have none: "active_admission_bundle_id (\<lambda>_. True) interrupted_disk = Inr None"
    by (rule no_active_bundle_id [OF demo_loads(2)])
  have "cut_off (faults interrupted_disk)" by (simp add: cut_off_def interrupted_disk_def)
  from interrupted_activation_stranded [OF demo_loads(1) activated none _ this surjective_pairing rtranclp.rtrancl_refl, of "Inr ()"]
  show ?thesis by (auto simp: Let_def)
qed

end
