(* ===== verification/Plan_Commands.thy ===== *)
theory Plan_Commands
  imports Planner_Policy Plan_Store Authority_Store Admission_Store
begin

text \<open>
  The plan commands of \<^verbatim>\<open>cfctl\<close> (\<^verbatim>\<open>crates/cfctl-cli/src/runtime/plan_commands.rs\<close>): approving,
  cancelling and running a stored plan, up to the point where the provider is contacted.
\<close>

section \<open>What a command depends on\<close>

datatype cli_error =
    Cli_Input string
  | Cli_Storage storage_error
  | Cli_Core core_error
  | Cli_Guided string

text \<open>
  What the rest of the program contributes to a command: the identity of the build, the credential
  generation of the selected profile, the loaded catalog, the computed impact of a plan, the
  directory listing, whether evidence can be authenticated, and the verdicts of the checks that
  touch none of the documents modelled here: name collisions with workspaces, precondition hashes,
  and what is specific to single capabilities and profiles, before and after the execution pins
  are compared (for an approval, \<open>session_late\<close> is the check of a bound restore plan).
\<close>

record session =
  session_build_hash :: string
  session_credential :: "string option"
  session_catalog_hash :: string
  session_impact :: "plan \<Rightarrow> cli_error + impact_context"
  session_tables :: application_tables
  session_listing :: "authority_entry list"
  session_qualified :: "storage_error + unit"
  session_collision :: "plan \<Rightarrow> cli_error + unit"
  session_preconditions :: "plan \<Rightarrow> cli_error + unit"
  session_early :: "plan \<Rightarrow> cli_error + unit"
  session_late :: "plan \<Rightarrow> cli_error + unit"

type_synonym 'a command = "(cli_error, 'a) fallible_action"

definition stored :: "'a action \<Rightarrow> 'a command" where
  "stored m d = (case m d of (r, d') \<Rightarrow> (map_err Cli_Storage r, d'))"

text \<open>A method that changes a plan in place: on an error the command drops the plan.\<close>

definition called :: "(core_error + unit) \<times> plan \<Rightarrow> cli_error + plan" where
  "called r = map_err Cli_Core (res_bind (fst r) (\<lambda>_. Inr (snd r)))"

section \<open>Loading and the execution contract\<close>

definition load_validated_plan :: "env \<Rightarrow> (string \<Rightarrow> bool) \<Rightarrow> string \<Rightarrow> disk \<Rightarrow> cli_error + plan" where
  "load_validated_plan e u i d =
     res_bind (map_err Cli_Storage (load_stored_plan_record e u i d)) (\<lambda>r.
     res_bind (case r of
        Current q \<Rightarrow> Inr (v2_plan q)
      | LegacyReadable p \<Rightarrow> Inr p
      | RequiredSidecarMissing p \<Rightarrow> Inr p
      | ProjectionDrift _ _ \<Rightarrow> Inl (Cli_Guided ''CFCTL_PLAN_V2_DRIFT'')
      | Corrupt _ _ \<Rightarrow> Inl (Cli_Guided ''CFCTL_PLAN_CORRUPT'')) (\<lambda>p.
     res_bind (map_err Cli_Core (validate_transaction_journal e p)) (\<lambda>_. Inr p)))"

definition ensure_capability_execution_supported :: "plan \<Rightarrow> cli_error + unit" where
  "ensure_capability_execution_supported p =
     ensure (execution_supported (p_capability p)) (Cli_Guided ''CFCTL_PLAN_EXECUTION_UNSUPPORTED'')"

definition ensure_plan_execution_contract :: "env \<Rightarrow> (string \<Rightarrow> bool) \<Rightarrow> plan \<Rightarrow> disk \<Rightarrow> cli_error + unit" where
  "ensure_plan_execution_contract e u p d =
     res_bind (ensure_capability_execution_supported p) (\<lambda>_.
     res_bind (map_err Cli_Storage (load_stored_plan_record e u (operation_id p) d)) (\<lambda>r. case r of
        Current _ \<Rightarrow> Inr ()
      | LegacyReadable _ \<Rightarrow> Inl (Cli_Guided ''CFCTL_PLAN_REPLAN_REQUIRED'')
      | RequiredSidecarMissing _ \<Rightarrow> Inl (Cli_Guided ''CFCTL_PLAN_V2_MISSING'')
      | ProjectionDrift _ _ \<Rightarrow> Inl (Cli_Guided ''CFCTL_PLAN_V2_DRIFT'')
      | Corrupt _ _ \<Rightarrow> Inl (Cli_Guided ''CFCTL_PLAN_CORRUPT'')))"

text \<open>The admission pin of a plan, as it is set when the plan is prepared.\<close>

definition admission_pin :: "env \<Rightarrow> policy_decision \<Rightarrow> policy_bundle option \<Rightarrow> string" where
  "admission_pin e compiled_policy active =
     (case active of
        None \<Rightarrow> ''compiled:'' @ hash_value e (jobj [(''compiled_safety_floor'', policy_json compiled_policy)])
      | Some b \<Rightarrow> ''bundle:'' @ b_content_hash b)"

definition validate_policy_pin :: "env \<Rightarrow> session \<Rightarrow> plan \<Rightarrow> plan_v2 \<Rightarrow> policy_bundle option \<Rightarrow> cli_error + unit" where
  "validate_policy_pin e s p q current_policy =
     (case current_policy of
        Some b \<Rightarrow> ensure (admission_policy_hash (pins q) = ''bundle:'' @ b_content_hash b)
          (Cli_Guided ''CFCTL_PLAN_POLICY_DRIFT'')
      | None \<Rightarrow>
          res_bind (session_impact s p) (\<lambda>im.
          ensure (admission_policy_hash (pins q) =
              ''compiled:'' @ hash_value e (jobj [(''compiled_safety_floor'',
                policy_json (evaluate (session_tables s) (p_capability p) im))]))
            (Cli_Guided ''CFCTL_PLAN_POLICY_DRIFT'')))"

definition validate_authority_pin :: "env \<Rightarrow> (string \<Rightarrow> bool) \<Rightarrow> session \<Rightarrow> datetime \<Rightarrow> plan_v2 \<Rightarrow> disk
    \<Rightarrow> cli_error + unit" where
  "validate_authority_pin e u s now q d =
     (case authority_hash (pins q) of
        None \<Rightarrow> Inr ()
      | Some h \<Rightarrow>
          res_bind (map_err Cli_Storage (list_authorities u (session_listing s) d)) (\<lambda>as.
          case find (\<lambda>a. auth_content_hash a = h) as of
            None \<Rightarrow> Inl (Cli_Guided ''CFCTL_PLAN_AUTHORITY_DRIFT'')
          | Some a \<Rightarrow> map_err Cli_Core (ensure_operational_at e now a)))"

definition validate_plan_v2_runtime_pins :: "env \<Rightarrow> (string \<Rightarrow> bool) \<Rightarrow> session \<Rightarrow> datetime \<Rightarrow> plan \<Rightarrow> disk
    \<Rightarrow> cli_error + unit" where
  "validate_plan_v2_runtime_pins e u s now p d =
     res_bind (map_err Cli_Storage (load_stored_plan_record e u (operation_id p) d)) (\<lambda>r. case r of
        Current q \<Rightarrow>
          res_bind (ensure (build_identity_hash (pins q) = session_build_hash s)
            (Cli_Guided ''CFCTL_PLAN_BUILD_DRIFT'')) (\<lambda>_.
          res_bind (ensure (session_credential s = Some (credential_generation_id (pins q)))
            (Cli_Guided ''CFCTL_PLAN_CREDENTIAL_DRIFT'')) (\<lambda>_.
          res_bind (map_err Cli_Storage (active_admission_policy e u d)) (\<lambda>current_policy.
          res_bind (validate_policy_pin e s p q current_policy) (\<lambda>_.
          validate_authority_pin e u s now q d))))
      | _ \<Rightarrow>
          res_bind (ensure_plan_execution_contract e u p d) (\<lambda>_.
          Inl (Cli_Guided ''CFCTL_PLAN_V2_MISSING'')))"

section \<open>Recording a stage\<close>

definition persist_transaction_stage :: "env \<Rightarrow> (string \<Rightarrow> bool) \<Rightarrow> datetime \<Rightarrow> transaction_stage \<Rightarrow> plan
    \<Rightarrow> plan command" where
  "persist_transaction_stage e u now stage p =
     act_bind (act_check (\<lambda>_. map_err Cli_Core (record_transaction_stage e now stage p))) (\<lambda>checkpoint.
     act_bind (stored (save_plan e u checkpoint)) (\<lambda>_. act_return checkpoint))"

definition persist_transaction_stage_with_artifact :: "env \<Rightarrow> (string \<Rightarrow> bool) \<Rightarrow> datetime \<Rightarrow> transaction_stage
    \<Rightarrow> json \<Rightarrow> plan \<Rightarrow> plan command" where
  "persist_transaction_stage_with_artifact e u now stage artifact p =
     act_bind (act_check (\<lambda>_. map_err Cli_Core (record_transaction_stage_with_artifact e now stage artifact p))) (\<lambda>checkpoint.
     act_bind (stored (save_plan e u checkpoint)) (\<lambda>_. act_return checkpoint))"

section \<open>Commands\<close>

text \<open>
  The parameter \<open>lk\<close> is the outcome of taking the plan lock and \<open>ev\<close> that of writing the evidence
  document at the end, which touches no document modelled here. Clock readings are parameters.
\<close>

definition observation_attestation :: "session \<Rightarrow> capability \<Rightarrow> cli_error + bool" where
  "observation_attestation s c =
     (case session_qualified s of
        Inr _ \<Rightarrow> Inr True
      | Inl err \<Rightarrow> if \<not> requires_attestation_to_execute c then Inr False else Inl (Cli_Storage err))"

definition approve_plan :: "env \<Rightarrow> (string \<Rightarrow> bool) \<Rightarrow> session \<Rightarrow> (storage_error + unit) \<Rightarrow> (storage_error + unit)
    \<Rightarrow> datetime \<times> datetime \<times> datetime \<Rightarrow> bool \<Rightarrow> (cli_error + money option) \<Rightarrow> string \<Rightarrow> plan command" where
  "approve_plan e u s lk ev clock yes requested_cost i =
     act_bind (act_check (\<lambda>_. map_err Cli_Storage lk)) (\<lambda>_.
     act_bind (act_check (load_validated_plan e u i)) (\<lambda>p.
     act_bind (act_check (\<lambda>_. session_collision s p)) (\<lambda>_.
     act_bind (act_check (ensure_plan_execution_contract e u p)) (\<lambda>_.
     act_bind (act_check (\<lambda>_. observation_attestation s (p_capability p))) (\<lambda>_.
     act_bind (act_check (\<lambda>_. session_late s p)) (\<lambda>_.
     act_bind (act_check (\<lambda>_. requested_cost)) (\<lambda>requested.
     act_bind (act_check (\<lambda>_. called (approve e (fst clock) (fst (snd clock)) (snd (snd clock)) yes requested p))) (\<lambda>p'.
     act_bind (stored (save_plan e u p')) (\<lambda>_.
     act_bind (act_check (\<lambda>_. map_err Cli_Storage ev)) (\<lambda>_.
     act_return p'))))))))))"

definition cancel_plan :: "env \<Rightarrow> (string \<Rightarrow> bool) \<Rightarrow> (storage_error + unit) \<Rightarrow> (storage_error + unit)
    \<Rightarrow> datetime \<times> datetime \<Rightarrow> string \<Rightarrow> plan command" where
  "cancel_plan e u lk ev clock i =
     act_bind (act_check (\<lambda>_. map_err Cli_Storage lk)) (\<lambda>_.
     act_bind (act_check (\<lambda>d. map_err Cli_Storage (load_stored_plan_record e u i d))) (\<lambda>r.
     act_bind (act_check (\<lambda>_. ok_or (readable_plan r) (Cli_Guided ''CFCTL_PLAN_CORRUPT''))) (\<lambda>p.
     act_bind (act_check (\<lambda>_. called (cancel e (fst clock) (snd clock) p))) (\<lambda>p'.
     act_bind (stored (save_plan e u p')) (\<lambda>_.
     act_bind (act_check (\<lambda>_. map_err Cli_Storage ev)) (\<lambda>_.
     act_return p'))))))"

definition admit_execution_attestation :: "env \<Rightarrow> (string \<Rightarrow> bool) \<Rightarrow> session \<Rightarrow> string \<Rightarrow> disk \<Rightarrow> cli_error + bool" where
  "admit_execution_attestation e u s i d =
     (case session_qualified s of
        Inr _ \<Rightarrow> Inr True
      | Inl refusal \<Rightarrow>
          (case load_validated_plan e u i d of
             Inl _ \<Rightarrow> Inl (Cli_Storage refusal)
           | Inr p \<Rightarrow>
               if requires_attestation_to_execute (p_capability p) then Inl (Cli_Storage refusal) else Inr False))"

text \<open>
  How a run ends before the provider is contacted: the adapter of the capability is blocked, or
  execution goes on with the consumed plan.
\<close>

datatype run_outcome = Adapter_Blocked | Boundary plan

text \<open>What both execution lanes check of a plan before its execution pins.\<close>

definition preflight :: "env \<Rightarrow> (string \<Rightarrow> bool) \<Rightarrow> session \<Rightarrow> string \<Rightarrow> disk \<Rightarrow> cli_error + plan" where
  "preflight e u s i d =
     res_bind (load_validated_plan e u i d) (\<lambda>p.
     res_bind (session_collision s p) (\<lambda>_.
     res_bind (ensure_plan_execution_contract e u p d) (\<lambda>_.
     res_bind (ensure (catalog_hash p = session_catalog_hash s)
       (Cli_Input (''catalog drift invalidated the plan: planned '' @ catalog_hash p
         @ '', current '' @ session_catalog_hash s))) (\<lambda>_.
     res_bind (session_preconditions s p) (\<lambda>_. Inr p)))))"

definition admitted_pins :: "env \<Rightarrow> (string \<Rightarrow> bool) \<Rightarrow> session \<Rightarrow> datetime \<Rightarrow> plan \<Rightarrow> disk \<Rightarrow> cli_error + unit" where
  "admitted_pins e u s now p d =
     res_bind (session_early s p) (\<lambda>_.
     res_bind (validate_plan_v2_runtime_pins e u s now p d) (\<lambda>_. session_late s p))"

definition run_plan :: "env \<Rightarrow> (string \<Rightarrow> bool) \<Rightarrow> session \<Rightarrow> (storage_error + unit)
    \<Rightarrow> datetime \<times> datetime \<times> datetime \<times> datetime \<Rightarrow> string \<Rightarrow> run_outcome command" where
  "run_plan e u s lk clock i = (case clock of (t1, t2, t3, t4) \<Rightarrow>
     act_bind (act_check (\<lambda>_. map_err Cli_Storage lk)) (\<lambda>_.
     act_bind (act_check (admit_execution_attestation e u s i)) (\<lambda>_.
     act_bind (act_check (preflight e u s i)) (\<lambda>p.
     if adapter_status (p_capability p) = Blocked_Adapter then act_return Adapter_Blocked
     else
       act_bind (act_check (admitted_pins e u s t1 p)) (\<lambda>_.
       act_bind (act_check (\<lambda>_. called (mark_consumed e t2 t3 p))) (\<lambda>p1.
       act_bind (stored (save_plan e u p1)) (\<lambda>_.
       act_bind (persist_transaction_stage e u t4 BoundaryAttemptPersisted p1) (\<lambda>p2.
       act_return (Boundary p2)))))))))"

section \<open>Facts\<close>

lemma fst_stored [simp]: "fst (stored m d) = map_err Cli_Storage (fst (m d))"
  and snd_stored [simp]: "snd (stored m d) = snd (m d)"
  by (simp_all add: stored_def split: prod.splits)

lemma stored_Inr: "stored m d = (Inr x, d') \<longleftrightarrow> m d = (Inr x, d')"
  by (cases "m d"; cases "fst (m d)") (auto simp: stored_def)

lemma called_ok [simp]: "called (Inr (), p) = Inr p"
  by (simp add: called_def)

lemma called_Inr: "called r = Inr p \<longleftrightarrow> r = (Inr (), p)"
  by (cases r; cases "fst r") (auto simp: called_def)

lemma record_readable:
  assumes "load_stored_plan_record e u i d = Inr r" "readable_plan r = Some p"
  shows "u i" "operation_id p = i" "validate_transaction_journal e p = Inr ()"
    "load_plan_v2 e u i d = Inr q \<Longrightarrow> p = v2_plan q"
proof -
  have v: "validate_plan_id u i = Inr ()"
    using assms(1) by (cases "validate_plan_id u i") (simp_all add: load_stored_plan_record_def)
  then show "u i" by (simp add: validate_plan_id_def)
  from assms(1) v obtain pe where pe: "managed_exists (plan_file d i) = Inr pe"
    by (cases "managed_exists (plan_file d i)") (simp_all add: load_stored_plan_record_def)
  from assms(1) v pe obtain ce where ce: "managed_exists (plan_v2_file d i) = Inr ce"
    by (cases "managed_exists (plan_v2_file d i)") (simp_all add: load_stored_plan_record_def)
  note run = assms(1) [unfolded load_stored_plan_record_def v pe ce res_bind_simps]
  have "(\<exists>q. read_plan_v2 e u i d = Inr q \<and> p = v2_plan q) \<or> \<not> ce \<and> read_plan e u i d = Inr p"
    using run assms(2)
    by (cases ce; cases pe; cases "read_plan e u i d"; cases "read_plan_v2 e u i d"; cases "reject_archived_operation i d")
       (auto simp: classify_plan_def split: if_splits)
  then have c: "(\<exists>q. load_plan_v2 e u i d = Inr q \<and> p = v2_plan q) \<or> plan_v2_file d i = None \<and> read_plan e u i d = Inr p"
    using ce by (auto simp: read_plan_v2_iff load_plan_v2_iff)
  then show "operation_id p = i" "validate_transaction_journal e p = Inr ()"
    using stored_v2_journal by (auto simp: load_plan_v2_iff read_plan_iff stored_v2_def)
  show "p = v2_plan q" if "load_plan_v2 e u i d = Inr q" using c that by (auto simp: load_plan_v2_iff)
qed

lemma load_validated_readable:
  assumes "load_validated_plan e u i d = Inr p"
  obtains r where "load_stored_plan_record e u i d = Inr r" "readable_plan r = Some p"
proof (cases "load_stored_plan_record e u i d")
  case (Inr r)
  with assms have "readable_plan r = Some p" by (cases r) (auto simp: load_validated_plan_def result_simps)
  with Inr that show ?thesis by blast
qed (use assms in \<open>simp add: load_validated_plan_def\<close>)

lemma contract_Inr:
  assumes "ensure_plan_execution_contract e u p d = Inr ()"
  shows "execution_supported (p_capability p) \<and> (\<exists>q. load_stored_plan_record e u (operation_id p) d = Inr (Current q))"
proof (cases "load_stored_plan_record e u (operation_id p) d")
  case (Inr r)
  with assms show ?thesis
    by (cases r) (auto simp: ensure_plan_execution_contract_def ensure_capability_execution_supported_def result_simps)
qed (use assms in \<open>auto simp: ensure_plan_execution_contract_def result_simps\<close>)

lemma preflight_Inr:
  assumes "preflight e u s i d = Inr p"
  shows "\<exists>q. load_stored_plan_record e u i d = Inr (Current q) \<and> v2_plan q = p \<and> operation_id p = i \<and>
    execution_supported (p_capability p) \<and> catalog_hash p = session_catalog_hash s"
proof -
  have l: "load_validated_plan e u i d = Inr p" "ensure_plan_execution_contract e u p d = Inr ()"
    "catalog_hash p = session_catalog_hash s"
    using assms by (auto simp: preflight_def result_simps)
  obtain r where r: "load_stored_plan_record e u i d = Inr r" "readable_plan r = Some p"
    using load_validated_readable [OF l(1)] by blast
  have i: "operation_id p = i" by (rule record_readable(2) [OF r])
  with contract_Inr [OF l(2)] obtain q where "load_stored_plan_record e u i d = Inr (Current q)"
    "execution_supported (p_capability p)" by auto
  with r i l(3) show ?thesis by auto
qed

section \<open>Spent plans\<close>

text \<open>A plan whose canonical document says that it was consumed or went on from there.\<close>

definition spent :: "env \<Rightarrow> (string \<Rightarrow> bool) \<Rightarrow> string \<Rightarrow> disk \<Rightarrow> bool" where
  "spent e u i d \<longleftrightarrow> (\<exists>q. load_plan_v2 e u i d = Inr q \<and> executed (status (v2_plan q)))"

lemma spent_local: "plan_v2_file d' i = plan_v2_file d i \<Longrightarrow> spent e u i d \<Longrightarrow> spent e u i d'"
  by (auto simp: spent_def load_plan_v2_iff)

lemma spent_loaded:
  assumes "spent e u i d" "load_stored_plan_record e u i d = Inr r" "readable_plan r = Some p"
  shows "executed (status p)"
  using assms record_readable(4) [OF assms(2,3)] by (auto simp: spent_def)

lemma save_plan_other:
  assumes "operation_id p \<noteq> i"
  shows "plan_v2_file (snd (save_plan e u p d)) i = plan_v2_file d i"
  using save_plan_outcome [of e u p d]
proof (elim disjE exE conjE)
  fix q r assume "refresh_from_plan e p q = Inr r" "save_plan e u p d = write_current_plan e r d"
  with refresh_keeps write_current_cases [where e = e and q = r and d = d] assms show ?thesis by auto
qed (auto simp: write_elsewhere)

lemma write_current_spent:
  assumes "spent e u i d" "operation_id (v2_plan r) = i \<Longrightarrow> stored_v2 e u i r \<and> executed (status (v2_plan r))"
  shows "spent e u i (snd (write_current_plan e r d))"
  using assms write_current_cases [where e = e and q = r and d = d]
  by (cases "operation_id (v2_plan r) = i") (auto simp: spent_def load_plan_v2_iff)

lemma save_plan_spent:
  assumes "spent e u i d" "operation_id p = i \<Longrightarrow> executed (status p)"
  shows "spent e u i (snd (save_plan e u p d))"
proof (cases "operation_id p = i")
  case True
  from save_plan_outcome [of e u p d] show ?thesis
  proof (elim disjE exE conjE)
    fix q r assume q: "load_plan_v2 e u (operation_id p) d = Inr q" "refresh_from_plan e p q = Inr r"
      "save_plan e u p d = write_current_plan e r d"
    with True refresh_keeps [OF q(2)] assms have "stored_v2 e u i r \<and> executed (status (v2_plan r))"
      by (simp add: load_plan_v2_iff stored_v2_def)
    with q(3) write_current_spent [OF assms(1), of r] show ?thesis by simp
  qed (use assms True in \<open>auto simp: spent_def load_plan_v2_iff\<close>)
qed (use assms save_plan_other spent_local in metis)

lemma mark_consumed_status: "mark_consumed e t2 t3 p = (Inr (), p') \<Longrightarrow>
    \<not> executed (status p) \<and> operation_id p' = operation_id p \<and> status p' = Consumed"
  by (auto simp: mark_consumed_ok_iff check_consumable_iff executed_def record_Inr_iff)

lemma record_stage_fields: "record_transaction_stage e t st p = Inr p' \<Longrightarrow>
    operation_id p' = operation_id p \<and> status p' = status p \<and> p_stage p' = st"
  by (auto simp: record_transaction_stage_def record_Inr_iff)

lemma persist_Inr:
  "persist_transaction_stage e u t st p d = (Inr p', d') \<longleftrightarrow>
     record_transaction_stage e t st p = Inr p' \<and> save_plan e u p' d = (Inr (), d')"
  by (cases "record_transaction_stage e t st p")
     (auto simp: persist_transaction_stage_def act_bind_Inr_iff stored_Inr act_return_def)

lemma persist_snd:
  "snd (persist_transaction_stage e u t st p d) = d \<or>
   (\<exists>p'. record_transaction_stage e t st p = Inr p' \<and> snd (persist_transaction_stage e u t st p d) = snd (save_plan e u p' d))"
  by (cases "record_transaction_stage e t st p")
     (auto simp: persist_transaction_stage_def act_bind_snd act_return_def split: sum.splits)

lemma run_plan_cases:
  "(snd (run_plan e u s lk (t1, t2, t3, t4) i d) = d \<and> (\<forall>p. fst (run_plan e u s lk (t1, t2, t3, t4) i d) \<noteq> Inr (Boundary p))) \<or>
   (\<exists>p p1. preflight e u s i d = Inr p \<and> admitted_pins e u s t1 p d = Inr () \<and>
      mark_consumed e t2 t3 p = (Inr (), p1) \<and>
      run_plan e u s lk (t1, t2, t3, t4) i d =
        act_bind (stored (save_plan e u p1)) (\<lambda>_.
        act_bind (persist_transaction_stage e u t4 BoundaryAttemptPersisted p1) (\<lambda>p2.
        act_return (Boundary p2))) d)"
proof (cases "\<exists>p p1 b. lk = Inr () \<and> admit_execution_attestation e u s i d = Inr b \<and> preflight e u s i d = Inr p \<and>
    adapter_status (p_capability p) \<noteq> Blocked_Adapter \<and> admitted_pins e u s t1 p d = Inr () \<and>
    called (mark_consumed e t2 t3 p) = Inr p1")
  case True
  then show ?thesis by (auto simp: run_plan_def called_Inr)
next
  case False
  then show ?thesis
    by (cases lk; cases "admit_execution_attestation e u s i d"; cases "preflight e u s i d")
       (auto simp: run_plan_def act_return_def split: sum.splits)
qed

lemma run_plan_boundary_run:
  assumes "run_plan e u s lk (t1, t2, t3, t4) i d = (Inr (Boundary p2), d')"
  shows "\<exists>p p1 d1. preflight e u s i d = Inr p \<and> admitted_pins e u s t1 p d = Inr () \<and>
    mark_consumed e t2 t3 p = (Inr (), p1) \<and> save_plan e u p1 d = (Inr (), d1) \<and>
    record_transaction_stage e t4 BoundaryAttemptPersisted p1 = Inr p2 \<and> save_plan e u p2 d1 = (Inr (), d')"
  using run_plan_cases [of e u s lk t1 t2 t3 t4 i d]
proof (elim disjE exE conjE)
  fix p p1 assume p: "preflight e u s i d = Inr p" "admitted_pins e u s t1 p d = Inr ()" "mark_consumed e t2 t3 p = (Inr (), p1)"
    "run_plan e u s lk (t1, t2, t3, t4) i d = act_bind (stored (save_plan e u p1)) (\<lambda>_.
      act_bind (persist_transaction_stage e u t4 BoundaryAttemptPersisted p1) (\<lambda>p2. act_return (Boundary p2))) d"
  from p(4) [symmetric, unfolded assms act_bind_Inr_iff] p(1-3) show ?thesis
    by (auto simp: act_return_def stored_Inr persist_Inr)
qed (use assms in simp)

text \<open>Two saves of one consumed plan, the second after recording the attempt.\<close>

lemma attempt_durable:
  assumes "load_stored_plan_record e u i d = Inr (Current q)" "operation_id p1 = i" "status p1 = Consumed"
    and "save_plan e u p1 d = (Inr (), d1)" "record_transaction_stage e t BoundaryAttemptPersisted p1 = Inr p2"
      "save_plan e u p2 d1 = (Inr (), d')"
  shows "\<exists>q'. load_stored_plan_record e u i d' = Inr (Current q') \<and> v2_plan q' = p2 \<and>
    status p2 = Consumed \<and> p_stage p2 = BoundaryAttemptPersisted"
proof -
  have "plan_v2_file d i \<noteq> None" using assms(1) by (simp add: current_record_iff)
  with save_plan_ok [OF assms(4)] assms(2) have "plan_v2_file d1 i \<noteq> None" by (auto simp: current_record_iff)
  with save_plan_ok [OF assms(6)] record_stage_fields [OF assms(5)] assms(2,3) show ?thesis by auto
qed

lemma attempt_spent: "load_stored_plan_record e u i d = Inr (Current q) \<Longrightarrow> status (v2_plan q) = Consumed \<Longrightarrow> spent e u i d"
  by (auto simp: spent_def current_record_iff load_plan_v2_iff executed_def)

lemma run_plan_spent:
  assumes "spent e u i d"
  shows "spent e u i (snd (run_plan e u s lk (t1, t2, t3, t4) j d))"
    and "fst (run_plan e u s lk (t1, t2, t3, t4) i d) \<noteq> Inr (Boundary p)"
proof -
  have fresh: "j \<noteq> i" if "preflight e u s j d = Inr p" "mark_consumed e t2 t3 p = (Inr (), p1)" for j p p1
    using preflight_Inr [OF that(1)] mark_consumed_status [OF that(2)] spent_loaded [OF assms] by fastforce
  then show "fst (run_plan e u s lk (t1, t2, t3, t4) i d) \<noteq> Inr (Boundary p)"
    using run_plan_cases [of e u s lk t1 t2 t3 t4 i d] by auto
  show "spent e u i (snd (run_plan e u s lk (t1, t2, t3, t4) j d))"
    using run_plan_cases [of e u s lk t1 t2 t3 t4 j d]
  proof (elim disjE exE conjE)
    fix p p1 assume r: "preflight e u s j d = Inr p" "mark_consumed e t2 t3 p = (Inr (), p1)"
      "run_plan e u s lk (t1, t2, t3, t4) j d = act_bind (stored (save_plan e u p1)) (\<lambda>_.
        act_bind (persist_transaction_stage e u t4 BoundaryAttemptPersisted p1) (\<lambda>p2. act_return (Boundary p2))) d"
    have j: "operation_id p1 = j" "j \<noteq> i"
      using preflight_Inr [OF r(1)] mark_consumed_status [OF r(2)] fresh [OF r(1,2)] by auto
    let ?d1 = "snd (save_plan e u p1 d)"
    have d1: "spent e u i ?d1" using save_plan_spent [OF assms] j by simp
    have "spent e u i (snd (persist_transaction_stage e u t4 BoundaryAttemptPersisted p1 ?d1))"
      using persist_snd [of e u t4 BoundaryAttemptPersisted p1 ?d1] d1 save_plan_spent [OF d1] record_stage_fields j by metis
    then show ?thesis unfolding r(3) using d1 by (simp add: act_bind_snd act_return_def split: sum.splits)
  qed (use assms in simp)
qed

lemma approve_plan_snd:
  "snd (approve_plan e u s lk ev (t1, t2, t3) yes c i d) = d \<or>
   (\<exists>p p' requested. load_validated_plan e u i d = Inr p \<and> ensure_plan_execution_contract e u p d = Inr () \<and>
      approve e t1 t2 t3 yes requested p = (Inr (), p') \<and>
      snd (approve_plan e u s lk ev (t1, t2, t3) yes c i d) = snd (save_plan e u p' d))"
proof (cases "\<exists>p r p' b. lk = Inr () \<and> load_validated_plan e u i d = Inr p \<and> session_collision s p = Inr () \<and>
    ensure_plan_execution_contract e u p d = Inr () \<and> observation_attestation s (p_capability p) = Inr b \<and>
    session_late s p = Inr () \<and> c = Inr r \<and> called (approve e t1 t2 t3 yes r p) = Inr p'")
  case True
  then show ?thesis by (fastforce simp: approve_plan_def called_Inr act_bind_snd act_check_def act_return_def split: sum.splits)
next
  case False
  then show ?thesis
    by (cases lk; cases "load_validated_plan e u i d"; cases c)
       (auto simp: approve_plan_def split: sum.splits)
qed

lemma cancel_plan_snd:
  "snd (cancel_plan e u lk ev (t1, t2) i d) = d \<or>
   (\<exists>r p p'. load_stored_plan_record e u i d = Inr r \<and> readable_plan r = Some p \<and> cancel e t1 t2 p = (Inr (), p') \<and>
      snd (cancel_plan e u lk ev (t1, t2) i d) = snd (save_plan e u p' d))"
proof (cases "\<exists>r p p'. lk = Inr () \<and> load_stored_plan_record e u i d = Inr r \<and> readable_plan r = Some p \<and>
    called (cancel e t1 t2 p) = Inr p'")
  case True
  then show ?thesis
    by (fastforce simp: cancel_plan_def called_Inr act_bind_snd act_check_def act_return_def split: sum.splits)
next
  case False
  then show ?thesis
    by (cases lk; cases "load_stored_plan_record e u i d")
       (auto simp: cancel_plan_def ok_or_def split: sum.splits option.splits)
qed

lemma approve_status: "approve e t1 t2 t3 yes r p = (Inr (), p') \<Longrightarrow> \<not> executed (status p) \<and> operation_id p' = operation_id p"
  by (auto simp: approve_ok_iff executed_def record_Inr_iff)

lemma cancel_status: "cancel e t1 t2 p = (Inr (), p') \<Longrightarrow> \<not> executed (status p) \<and> operation_id p' = operation_id p"
  by (auto simp: cancel_ok_iff executed_def record_Inr_iff)

text \<open>A command that loads a plan, applies a method that refuses spent plans, and saves the result.\<close>

lemma method_spent:
  assumes "spent e u i d" "load_stored_plan_record e u j d = Inr r" "readable_plan r = Some p"
    and "\<not> executed (status p) \<and> operation_id p' = operation_id p"
  shows "spent e u i (snd (save_plan e u p' d))"
proof -
  have "operation_id p' \<noteq> i" using assms spent_loaded record_readable(2) by metis
  then show ?thesis using save_plan_spent [OF assms(1)] by simp
qed

lemma approve_plan_spent: "spent e u i d \<Longrightarrow> spent e u i (snd (approve_plan e u s lk ev (t1, t2, t3) yes c j d))"
  using approve_plan_snd [of e u s lk ev t1 t2 t3 yes c j d]
  by (auto elim!: load_validated_readable intro: method_spent [OF _ _ _ approve_status])

lemma cancel_plan_spent: "spent e u i d \<Longrightarrow> spent e u i (snd (cancel_plan e u lk ev (t1, t2) j d))"
  using cancel_plan_snd [of e u lk ev t1 t2 j d]
  by (auto intro: method_spent [OF _ _ _ cancel_status])

lemma boundary_spent:
  assumes "run_plan e u s lk (t1, t2, t3, t4) i d = (Inr (Boundary p), d')"
  shows "spent e u i d'"
proof -
  obtain p0 p1 d1 where run: "preflight e u s i d = Inr p0" "mark_consumed e t2 t3 p0 = (Inr (), p1)"
      "save_plan e u p1 d = (Inr (), d1)" "record_transaction_stage e t4 BoundaryAttemptPersisted p1 = Inr p"
      "save_plan e u p d1 = (Inr (), d')"
    using run_plan_boundary_run [OF assms] by blast
  obtain q0 where q0: "load_stored_plan_record e u i d = Inr (Current q0)" "operation_id p0 = i"
    using preflight_Inr [OF run(1)] by blast
  have "operation_id p1 = i" "status p1 = Consumed" using mark_consumed_status [OF run(2)] q0(2) by auto
  with attempt_durable [OF q0(1) _ _ run(3,4,5)] attempt_spent show ?thesis by blast
qed

text \<open>What the comparison of the execution pins establishes.\<close>

definition pins_current :: "env \<Rightarrow> (string \<Rightarrow> bool) \<Rightarrow> session \<Rightarrow> datetime \<Rightarrow> plan_v2 \<Rightarrow> disk \<Rightarrow> bool" where
  "pins_current e u s now q d \<longleftrightarrow>
     build_identity_hash (pins q) = session_build_hash s \<and>
     session_credential s = Some (credential_generation_id (pins q)) \<and>
     (\<exists>active im. active_admission_policy e u d = Inr active \<and>
        (active = None \<longrightarrow> session_impact s (v2_plan q) = Inr im) \<and>
        admission_policy_hash (pins q) =
          admission_pin e (evaluate (session_tables s) (p_capability (v2_plan q)) im) active) \<and>
     (\<forall>h. authority_hash (pins q) = Some h \<longrightarrow>
        (\<exists>a. load_authority u (authority_id a) d = Inr a \<and> auth_content_hash a = h \<and>
           ensure_operational_at e now a = Inr ()))"

lemma runtime_pins_Inr:
  assumes "validate_plan_v2_runtime_pins e u s now p d = Inr ()"
    and "load_stored_plan_record e u (operation_id p) d = Inr (Current q)" "v2_plan q = p"
  shows "pins_current e u s now q d"
proof -
  obtain active where run: "build_identity_hash (pins q) = session_build_hash s"
      "session_credential s = Some (credential_generation_id (pins q))"
      "active_admission_policy e u d = Inr active" "validate_policy_pin e s p q active = Inr ()"
      "validate_authority_pin e u s now q d = Inr ()"
    using assms(1) by (auto simp: validate_plan_v2_runtime_pins_def assms(2) result_simps)
  have "\<exists>im. (active = None \<longrightarrow> session_impact s p = Inr im) \<and> admission_policy_hash (pins q) =
      admission_pin e (evaluate (session_tables s) (p_capability p) im) active"
    using run(4) by (auto simp: validate_policy_pin_def admission_pin_def result_simps split: option.splits)
  moreover have "\<exists>a. load_authority u (authority_id a) d = Inr a \<and> auth_content_hash a = h \<and>
      ensure_operational_at e now a = Inr ()" if h: "authority_hash (pins q) = Some h" for h
  proof -
    obtain as a where a: "list_authorities u (session_listing s) d = Inr as"
        "find (\<lambda>a. auth_content_hash a = h) as = Some a" "ensure_operational_at e now a = Inr ()"
      using run(5) h by (auto simp: validate_authority_pin_def result_simps split: option.splits)
    then have "a \<in> set as" "auth_content_hash a = h" by (auto simp: find_Some_iff)
    with a listed_authority_loads show ?thesis by blast
  qed
  ultimately show ?thesis using run(1-3) assms(3) unfolding pins_current_def by blast
qed

section \<open>Properties\<close>


definition demo_auto :: plan where
  "demo_auto = prepare_plan demo_env ''oauth'' JNull JNull [] [] [] [] JNull
     \<lparr>pd_schema_version = 1, pd_disposition = AutoExecute, pd_reasons = [], pd_requires_cost_ceiling = False\<rparr>
     demo_plan"

definition demo_auto_v2 :: plan_v2 where
  "demo_auto_v2 = v2_refresh_hash demo_env \<lparr>v2_schema_version = 2, v2_plan = demo_auto,
     pins = demo_pins\<lparr>admission_policy_hash :=
       admission_pin demo_env (evaluate demo_tables (p_capability demo_plan) demo_impact) None\<rparr>,
     v2_content_hash = []\<rparr>"

definition demo_session :: session where
  "demo_session = \<lparr>session_build_hash = ''b'', session_credential = Some ''g'', session_catalog_hash = ''catalog'',
     session_impact = (\<lambda>_. Inr demo_impact), session_tables = demo_tables, session_listing = [],
     session_qualified = Inr (), session_collision = (\<lambda>_. Inr ()), session_preconditions = (\<lambda>_. Inr ()),
     session_early = (\<lambda>_. Inr ()), session_late = (\<lambda>_. Inr ())\<rparr>"

definition demo_run_disk :: disk where
  "demo_run_disk = write_plan_v2 ''op-1'' demo_auto_v2 empty_disk"

definition demo_auto_consumed :: plan where
  "demo_auto_consumed = recorded demo_env 8 ConsumptionPersisted None (demo_auto\<lparr>status := Consumed\<rparr>)"

definition demo_attempt :: plan where
  "demo_attempt = recorded demo_env 9 BoundaryAttemptPersisted None demo_auto_consumed"

lemma demo_auto_reachable: "plan_reachable demo_env demo_auto"
  unfolding demo_auto_def by (rule plan_reachable.prepared [OF demo_plan_draft]) simp

lemma demo_auto_fields:
  "operation_id demo_auto = ''op-1''" "status demo_auto = Draft" "catalog_hash demo_auto = ''catalog''"
  "p_expires_at demo_auto = hours 24" "p_capability demo_auto = p_capability demo_plan"
  "policy demo_auto = \<lparr>pd_schema_version = 1, pd_disposition = AutoExecute, pd_reasons = [], pd_requires_cost_ceiling = False\<rparr>"
  using demo_plan_facts by (simp_all add: demo_auto_def prepare_plan_def refresh_hash_def)

lemma demo_auto_v2_new: "v2_reachable demo_env demo_auto_v2" "v2_plan demo_auto_v2 = demo_auto"
proof -
  have "validate_transaction_journal demo_env demo_auto = Inr ()"
    using reachable_inv [OF demo_auto_reachable] by (simp add: plan_inv_def ready_valid)
  then have "v2_new demo_env demo_auto (pins demo_auto_v2) = Inr demo_auto_v2"
    by (simp add: v2_new_iff demo_auto_v2_def v2_validate_iff)
       (simp add: pins_complete_def demo_pins_def demo_auto_fields admission_pin_def)
  then show "v2_reachable demo_env demo_auto_v2" by (rule v2_reachable.created [OF demo_auto_reachable])
qed (simp add: demo_auto_v2_def)

lemma demo_auto_consume: "mark_consumed demo_env 7 8 demo_auto = (Inr (), demo_auto_consumed)"
proof -
  have "fst (mark_consumed demo_env 7 8 demo_auto) = Inr ()"
    using mark_consumed_fst_iff [of demo_env demo_auto 7 8] reachable_inv [OF demo_auto_reachable]
    by (simp add: demo_auto_fields)
  then obtain p where p: "mark_consumed demo_env 7 8 demo_auto = (Inr (), p)" by (metis prod.collapse)
  then have "p = demo_auto_consumed" by (simp add: mark_consumed_ok_iff record_Inr_iff demo_auto_consumed_def)
  with p show ?thesis by simp
qed

lemma demo_auto_consumed_reachable: "plan_reachable demo_env demo_auto_consumed"
  by (rule plan_reachable.stepped [OF demo_auto_reachable plan_step.consume [OF demo_auto_consume]])

lemma demo_attempt_record: "record_transaction_stage demo_env 9 BoundaryAttemptPersisted demo_auto_consumed = Inr demo_attempt"
proof -
  note inv = reachable_inv [OF demo_auto_consumed_reachable]
  have "validate_approval_checkpoint demo_env False demo_auto_consumed = Inr ()"
    using inv_approval_unbound [OF inv, where s = "status demo_auto_consumed" and c = "cancelled_at demo_auto_consumed"] by simp
  then have "record_transaction_stage_inner demo_env 9 BoundaryAttemptPersisted None demo_auto_consumed =
      Inr (recorded demo_env 9 BoundaryAttemptPersisted None demo_auto_consumed)"
    by (intro ready_append_ok [OF inv_ready [OF inv]])
       (simp_all add: demo_auto_consumed_def less_transaction_stage_def)
  then show ?thesis by (simp add: record_transaction_stage_def demo_attempt_def)
qed

lemma demo_attempt_step: "plan_step demo_env demo_auto_consumed demo_attempt"
proof (rule plan_step.advance)
  show "record_transaction_stage_inner demo_env 9 BoundaryAttemptPersisted None
      (demo_auto_consumed\<lparr>status := Consumed\<rparr>) = Inr demo_attempt"
  proof -
    have "demo_auto_consumed\<lparr>status := Consumed\<rparr> = demo_auto_consumed"
      by (simp add: demo_auto_consumed_def recorded_def next_checkpoint_def)
    then show ?thesis using demo_attempt_record by (simp add: record_transaction_stage_def)
  qed
qed (simp_all add: demo_auto_consumed_def executed_def)

lemma demo_op_ids: "operation_id demo_auto_consumed = ''op-1''" "operation_id demo_attempt = ''op-1''"
  by (simp_all add: demo_attempt_def demo_auto_consumed_def demo_auto_fields)

text \<open>One save on a disk without faults.\<close>

lemma clean_save:
  assumes "v2_reachable demo_env q" "plan_step demo_env (v2_plan q) p" "public_json (plan_json demo_env p)"
    and "resource_observation_hashes (pins q) = []" "faults d = []"
    and "load_plan_v2 demo_env (\<lambda>_. True) (operation_id p) d = Inr q"
  shows "\<exists>r d'. save_plan demo_env (\<lambda>_. True) p d = (Inr (), d') \<and> faults d' = [] \<and>
    v2_reachable demo_env r \<and> v2_plan r = p \<and> resource_observation_hashes (pins r) = [] \<and>
    load_plan_v2 demo_env (\<lambda>_. True) (operation_id p) d' = Inr r"
proof -
  obtain r where r: "refresh_from_plan demo_env p q = Inr r" "v2_plan r = p"
    using refresh_follows_plan [OF assms(1,2)] by blast
  have pub: "public_json (v2_json demo_env r)"
    using assms(3,4) r by (auto simp: refresh_from_plan_iff intro!: public_v2_json public_pins_json)
  have "stored_v2 demo_env (\<lambda>_. True) (operation_id p) r" using refresh_keeps [OF r(1)] by (simp add: stored_v2_def)
  moreover have "fst (write_current_plan demo_env r d) = Inr ()"
    by (rule write_current_without_faults [OF assms(5) demo_env_not_sensitive(2) [OF pub]])
  moreover have "save_plan demo_env (\<lambda>_. True) p d = write_current_plan demo_env r d"
    by (rule save_plan_current [OF assms(6) r(1) demo_env_not_sensitive(1) [OF assms(3)]])
  moreover have "v2_reachable demo_env r" by (rule v2_reachable.stepped [OF assms(1) v2_step.refresh [OF assms(2) r(1)]])
  ultimately show ?thesis
    using write_current_ok [of demo_env r d] write_current_faults [OF assms(5), of demo_env r] r(2) refresh_keeps [OF r(1)] assms(4)
    by (cases "write_current_plan demo_env r d") (auto simp: current_record_iff load_plan_v2_iff pins_kept_def)
qed

lemma demo_public: "p \<in> {demo_auto_consumed, demo_attempt} \<Longrightarrow> public_json (plan_json demo_env p)"
proof (rule public_plan_json)
  show "public_json (capability_value demo_env (p_capability p))"
    unfolding demo_env_def using public_keys by (simp add: public_jobj)
qed (use demo_plan_facts demo_plan_diffs in
    \<open>auto simp: demo_attempt_def demo_auto_consumed_def demo_auto_def prepare_plan_def refresh_hash_def recorded_def\<close>)

lemma demo_run:
  "\<exists>d'. run_plan demo_env (\<lambda>_. True) demo_session (Inr ()) (6, 7, 8, 9) ''op-1'' demo_run_disk = (Inr (Boundary demo_attempt), d')"
proof -
  let ?u = "\<lambda>_::string. True"
  have v: "v2_validate demo_env demo_auto_v2 = Inr ()" using v2_reachable_inv [OF demo_auto_v2_new(1)] by blast
  have load: "load_plan_v2 demo_env ?u ''op-1'' demo_run_disk = Inr demo_auto_v2"
    using v by (simp add: load_plan_v2_iff demo_run_disk_def write_plan_v2_def stored_v2_def demo_auto_v2_new demo_auto_fields)
  have cur: "load_stored_plan_record demo_env ?u ''op-1'' demo_run_disk = Inr (Current demo_auto_v2)"
    using load by (simp add: current_record_iff load_plan_v2_iff) (simp add: demo_run_disk_def write_plan_v2_def empty_disk_def)
  have j: "validate_transaction_journal demo_env demo_auto = Inr ()" using v by (simp add: v2_validate_iff demo_auto_v2_new)
  have cap: "execution_supported (p_capability demo_auto)" "adapter_status (p_capability demo_auto) \<noteq> Blocked_Adapter"
    using demo_plan_facts by (simp_all add: demo_auto_fields capability_new_def Let_def)
  have pre: "preflight demo_env ?u demo_session ''op-1'' demo_run_disk = Inr demo_auto"
    using cur j cap by (simp add: preflight_def load_validated_plan_def ensure_plan_execution_contract_def
        ensure_capability_execution_supported_def demo_auto_v2_new demo_auto_fields demo_session_def)
  have "active_admission_policy demo_env ?u demo_run_disk = Inr None"
    by (simp add: no_policy_iff demo_run_disk_def write_plan_v2_def empty_disk_def)
  then have pin: "admitted_pins demo_env ?u demo_session 6 demo_auto demo_run_disk = Inr ()"
    using cur by (simp add: admitted_pins_def validate_plan_v2_runtime_pins_def validate_policy_pin_def validate_authority_pin_def
        demo_auto_fields demo_session_def demo_auto_v2_def demo_pins_def admission_pin_def)
  obtain q1 d1 where s1: "save_plan demo_env ?u demo_auto_consumed demo_run_disk = (Inr (), d1)" "faults d1 = []"
      "v2_reachable demo_env q1" "v2_plan q1 = demo_auto_consumed" "resource_observation_hashes (pins q1) = []"
      "load_plan_v2 demo_env ?u ''op-1'' d1 = Inr q1"
    using clean_save [OF demo_auto_v2_new(1), of demo_auto_consumed demo_run_disk] plan_step.consume [OF demo_auto_consume] load
      demo_public [of demo_auto_consumed]
    by (auto simp: demo_auto_v2_new demo_op_ids demo_run_disk_def write_plan_v2_def empty_disk_def)
       (auto simp: demo_auto_v2_def demo_pins_def)
  obtain d2 where s2: "save_plan demo_env ?u demo_attempt d1 = (Inr (), d2)"
    using clean_save [OF s1(3), of demo_attempt d1] s1 demo_attempt_step demo_public [of demo_attempt]
    by (auto simp: demo_op_ids)
  have "run_plan demo_env ?u demo_session (Inr ()) (6, 7, 8, 9) ''op-1'' demo_run_disk = (Inr (Boundary demo_attempt), d2)"
  proof -
    have "stored (save_plan demo_env ?u demo_auto_consumed) demo_run_disk = (Inr (), d1)"
      "persist_transaction_stage demo_env ?u 9 BoundaryAttemptPersisted demo_auto_consumed d1 = (Inr demo_attempt, d2)"
      using s1(1) s2 demo_attempt_record by (simp_all add: stored_Inr persist_Inr)
    moreover have "session_qualified demo_session = Inr ()" by (simp add: demo_session_def)
    ultimately show ?thesis
      using pre pin cap demo_auto_consume by (simp add: run_plan_def admit_execution_attestation_def act_return_def)
  qed
  then show ?thesis by blast
qed

text \<open>
  C2. No provider effect without a durable record. When a run hands a plan to the provider boundary,
  the stored plan was current, executable and planned against the loaded catalog, was approved
  for its exact content or may execute without approval, had not expired, and its build,
  credential, policy and authority pins still held; and the store now holds exactly the plan
  handed over, consumed, with the attempt as the last stage of its journal.
\<close>

theorem run_plan_boundary:
  assumes "run_plan e u s lk (t1, t2, t3, t4) i d = (Inr (Boundary p), d')"
  shows "\<exists>q0 q. load_stored_plan_record e u i d = Inr (Current q0) \<and>
    execution_supported (p_capability (v2_plan q0)) \<and> catalog_hash (v2_plan q0) = session_catalog_hash s \<and>
    check_consumable (v2_plan q0) = Inr () \<and> t2 \<le> p_expires_at (v2_plan q0) \<and> plan.bound e (v2_plan q0) \<and>
    pins_current e u s t1 q0 d \<and>
    load_stored_plan_record e u i d' = Inr (Current q) \<and> v2_plan q = p \<and>
    status p = Consumed \<and> p_stage p = BoundaryAttemptPersisted"
proof -
  obtain p0 p1 d1 where run: "preflight e u s i d = Inr p0" "admitted_pins e u s t1 p0 d = Inr ()"
      "mark_consumed e t2 t3 p0 = (Inr (), p1)" "save_plan e u p1 d = (Inr (), d1)"
      "record_transaction_stage e t4 BoundaryAttemptPersisted p1 = Inr p" "save_plan e u p d1 = (Inr (), d')"
    using run_plan_boundary_run [OF assms] by blast
  obtain q0 where q0: "load_stored_plan_record e u i d = Inr (Current q0)" "v2_plan q0 = p0" "operation_id p0 = i"
      "execution_supported (p_capability p0)" "catalog_hash p0 = session_catalog_hash s"
    using preflight_Inr [OF run(1)] by blast
  have "validate_plan_v2_runtime_pins e u s t1 p0 d = Inr ()"
    using run(2) by (auto simp: admitted_pins_def result_simps)
  from runtime_pins_Inr [OF this] q0 have "pins_current e u s t1 q0 d" by simp
  moreover have "operation_id p1 = i" "status p1 = Consumed" using mark_consumed_status [OF run(3)] q0(3) by auto
  ultimately show ?thesis
    using q0 run(3) attempt_durable [OF q0(1) _ _ run(4,5,6)] by (auto simp: mark_consumed_ok_iff)
qed

theorem run_plan_boundary_witness:
  "\<exists>d' q. run_plan demo_env (\<lambda>_. True) demo_session (Inr ()) (6, 7, 8, 9) ''op-1'' demo_run_disk = (Inr (Boundary demo_attempt), d') \<and>
     load_stored_plan_record demo_env (\<lambda>_. True) ''op-1'' d' = Inr (Current q) \<and> v2_plan q = demo_attempt"
proof -
  obtain d' where d': "run_plan demo_env (\<lambda>_. True) demo_session (Inr ()) (6, 7, 8, 9) ''op-1'' demo_run_disk =
      (Inr (Boundary demo_attempt), d')"
    using demo_run by blast
  from run_plan_boundary [OF d'] d' show ?thesis by blast
qed

text \<open>
  C39. Cancelling needs a readable record. A plan whose canonical document has a journal that does not
  validate cannot be cancelled: the command is refused and changes nothing, whatever the
  projection holds.
\<close>

theorem invalid_plan_not_cancelled:
  assumes "plan_v2_file d i = Some (Document q)" "validate_transaction_journal e (v2_plan q) \<noteq> Inr ()"
  shows "\<exists>err. cancel_plan e u lk ev clock i d = (Inl err, d)"
proof -
  have none: "readable_plan r = None" if r: "load_stored_plan_record e u i d = Inr r" for r
  proof (rule ccontr)
    assume "readable_plan r \<noteq> None"
    then obtain p where p: "readable_plan r = Some p" by blast
    have "read_plan_v2 e u i d \<noteq> Inr q'" for q'
      using assms by (auto simp: read_plan_v2_iff stored_v2_def v2_validate_iff)
    then obtain err where err: "read_plan_v2 e u i d = Inl err" by (cases "read_plan_v2 e u i d") auto
    from r p assms(1) err show False
      by (cases "validate_plan_id u i"; cases "managed_exists (plan_file d i)"; cases "read_plan e u i d")
         (auto simp: load_stored_plan_record_def split: if_splits)
  qed
  obtain t1 t2 where "clock = (t1, t2)" by (cases clock)
  then show ?thesis
    using none by (cases lk; cases "load_stored_plan_record e u i d") (auto simp: cancel_plan_def ok_or_def)
qed

theorem invalid_plan_not_cancelled_witness:
  "\<exists>err. let d = write_plan_v2 ''op-1'' (demo_v2\<lparr>v2_plan := demo_prepared\<lparr>status := Approved\<rparr>\<rparr>) empty_disk
     in cancel_plan demo_env (\<lambda>_. True) (Inr ()) (Inr ()) (1, 2) ''op-1'' d = (Inl err, d)"
proof -
  have valid: "validate_transaction_journal demo_env demo_prepared = Inr ()" "journal demo_prepared \<noteq> []"
    using reachable_inv [OF demo_prepared_reachable] by (auto simp: plan_inv_def ready_valid journal_ready_def)
  then have "validate_transaction_journal demo_env (demo_prepared\<lparr>status := Approved\<rparr>) \<noteq> Inr ()"
    by (auto simp: validate_transaction_journal_def validate_inner_iff demo_prepared_fields)
  then show ?thesis
    unfolding Let_def
    by (intro invalid_plan_not_cancelled [where q = "demo_v2\<lparr>v2_plan := demo_prepared\<lparr>status := Approved\<rparr>\<rparr>"])
       (simp_all add: write_plan_v2_def)
qed

end
