(* ===== verification/Cloudflare_Errors.thy ===== *)
theory Cloudflare_Errors
  imports Json_Value
begin

text \<open>
  The input of a call and the errors of \<^verbatim>\<open>crates/cfctl-cloudflare\<close> with their classes: what the caller
  of a read is told about whether the request left the machine (\<^verbatim>\<open>CallInput\<close>, \<^verbatim>\<open>CloudflareError\<close>,
  \<^verbatim>\<open>CloudflareReadErrorClass\<close>).
\<close>

section \<open>Input\<close>

record call_input =
  in_selectors :: json
  in_query :: json
  in_body :: "json option"
  if_match :: "string option"
  if_none_match :: "string option"

section \<open>Errors\<close>

text \<open>Errors of other packages are kept as their text.\<close>

datatype (plugins only: code size) cloudflare_error =
    Url_Error string
  | MissingSelector string
  | MissingHeaderSelector string
  | InvalidSelector string
  | InvalidSelectorObject
  | UndeclaredSelector string
  | InvalidSelectorSchema string string
  | InvalidQueryObject
  | UndeclaredQuerySelector string
  | MissingQuerySelector string
  | InvalidQuerySelector string string
  | InvalidQuerySelectorSchema string string
  | UnsupportedQuerySerialization string string
  | MissingRequestBody string
  | InvalidRequestBody string
  | InvalidAnalyticsQuery string
  | InvalidR2LogRetrieval string
  | R2LogCredentialsRequired
  | R2LogOutputFileRequired
  | GraphqlSchemaDrift string
  | OutputFile string string
  | UnsupportedResponseContract string
  | UnexpectedResponseMediaType nat string
  | InvalidResponseEnvelope nat
  | Mln0143ResponseClassification nat string
  | UnexpectedSuccessStatus nat string
  | UnexpectedResponseBody nat nat
  | ApprovedPlanRequired string
  | D1ImportProviderFailure
  | D1ImportUploadResponseIntegrityFailure
  | D1ImportInitResponseFailure
  | D1ImportIngestResponseFailure
  | D1ImportPollResponseFailure
  | D1ImportPollInProgressExhausted
  | InvalidEventBatchPlan string
  | InvalidBaseUrl
  | InvalidMethod string
  | InvalidAuthenticationHeader
  | InvalidConditionalHeader
  | ReservedHeaderSelector string
  | InvalidHeaderSelector string
  | PaginationLimit nat
  | PaginationMetadataInvalid
  | PaginationMetadataDiagnostic string
  | QueueConsumersSinglePageMetadataInvalid string
  | PaginationCountMismatch nat nat
  | PaginationCursorLoop
  | PaginationCursorMetadataMissing
  | Http_Error string
  | Json_Error string
  | CatalogDrift string string
  | Plan_Error string
  | UnsupportedVerificationStrategy string
  | MissingVerificationTarget string

datatype read_error_class =
  RequestContract | TransportAmbiguous | PaginationContract | ResponseContract | ExecutorContract

fun boundary_crossed :: "read_error_class \<Rightarrow> bool" where
  "boundary_crossed RequestContract = False"
| "boundary_crossed _ = True"

definition error_read_class :: "cloudflare_error \<Rightarrow> read_error_class" where
  "error_read_class e = (case e of
       Http_Error _ \<Rightarrow> TransportAmbiguous
     | PaginationLimit _ \<Rightarrow> PaginationContract
     | PaginationMetadataInvalid \<Rightarrow> PaginationContract
     | PaginationMetadataDiagnostic _ \<Rightarrow> PaginationContract
     | QueueConsumersSinglePageMetadataInvalid _ \<Rightarrow> PaginationContract
     | PaginationCountMismatch _ _ \<Rightarrow> PaginationContract
     | PaginationCursorLoop \<Rightarrow> PaginationContract
     | PaginationCursorMetadataMissing \<Rightarrow> PaginationContract
     | GraphqlSchemaDrift _ \<Rightarrow> ResponseContract
     | UnexpectedResponseMediaType _ _ \<Rightarrow> ResponseContract
     | InvalidResponseEnvelope _ \<Rightarrow> ResponseContract
     | Mln0143ResponseClassification _ _ \<Rightarrow> ResponseContract
     | UnexpectedSuccessStatus _ _ \<Rightarrow> ResponseContract
     | UnexpectedResponseBody _ _ \<Rightarrow> ResponseContract
     | Json_Error _ \<Rightarrow> ResponseContract
     | OutputFile _ _ \<Rightarrow> ExecutorContract
     | D1ImportProviderFailure \<Rightarrow> ExecutorContract
     | D1ImportUploadResponseIntegrityFailure \<Rightarrow> ExecutorContract
     | D1ImportInitResponseFailure \<Rightarrow> ExecutorContract
     | D1ImportIngestResponseFailure \<Rightarrow> ExecutorContract
     | D1ImportPollResponseFailure \<Rightarrow> ExecutorContract
     | D1ImportPollInProgressExhausted \<Rightarrow> ExecutorContract
     | _ \<Rightarrow> RequestContract)"

end
