(* ===== verification/Standing_Run.thy ===== *)
theory Standing_Run
  imports Plan_Commands Cloudflare_Errors
begin

text \<open>
  Running a plan under a standing authority (\<^verbatim>\<open>run_plan_under_standing_authority\<close> and
  \<^verbatim>\<open>admit_standing_plan\<close> in \<^verbatim>\<open>crates/cfctl-cli/src/runtime/plan_commands.rs\<close>): the run is reserved
  in the authority, then the plan is consumed, then the attempt is recorded, each durably.
\<close>

section \<open>Requests\<close>

definition body_policies :: "json \<Rightarrow> json list" where
  "body_policies body =
     (case Option.bind (json_get body ''policies'') json_as_array of None \<Rightarrow> [] | Some ps \<Rightarrow> ps)"

definition requested_group_ids :: "json \<Rightarrow> string list" where
  "requested_group_ids body =
     List.map_filter (\<lambda>g. Option.bind (json_get g ''id'') json_as_str)
       (concat (List.map_filter (\<lambda>p. Option.bind (json_get p ''permission_groups'') json_as_array) (body_policies body)))"

definition requested_resources :: "json \<Rightarrow> string list" where
  "requested_resources body =
     concat (List.map_filter (\<lambda>p. Option.bind (json_get p ''resources'') json_object_keys) (body_policies body))"

text \<open>
  Reading a timestamp (\<^verbatim>\<open>chrono\<close>) is the parameter \<open>parse\<close>; an expiry that is not a string counts as
  absent, one that does not parse is an error.
\<close>

definition child_expiry :: "(string \<Rightarrow> datetime option) \<Rightarrow> json \<Rightarrow> cli_error + datetime option" where
  "child_expiry parse body =
     (case Option.bind (json_get body ''expires_on'') json_as_str of
        None \<Rightarrow> Inr None
      | Some raw \<Rightarrow>
          (case parse raw of
             None \<Rightarrow> Inl (Cli_Input ''the standing mint carries an unparseable expires_on'')
           | Some t \<Rightarrow> Inr (Some t)))"

definition authorize_standing_execution_at :: "env \<Rightarrow> (string \<Rightarrow> datetime option) \<Rightarrow> standing_authority \<Rightarrow> plan
    \<Rightarrow> call_input \<Rightarrow> datetime \<Rightarrow> cli_error + unit" where
  "authorize_standing_execution_at e parse a p input now =
     (if ends_with (cap_id (p_capability p)) ''create-token'' then
        res_bind (ok_or (in_body input) (Cli_Input ''a standing mint requires the plan's request body'')) (\<lambda>body.
        res_bind (ok_or (Option.bind (json_get body ''name'') json_as_str)
          (Cli_Input ''a standing mint requires a child token name'')) (\<lambda>child_name.
        res_bind (child_expiry parse body) (\<lambda>child_expires_at.
        map_err Cli_Core (authorize_token_create e now child_name (requested_group_ids body) (requested_resources body)
          child_expires_at a))))
      else if ends_with (cap_id (p_capability p)) ''delete-token'' then
        res_bind (ok_or (Option.bind (json_get (in_selectors input) ''token_id'') json_as_str)
          (Cli_Input ''a standing revoke requires a token_id selector'')) (\<lambda>token.
        map_err Cli_Core (authorize_token_delete e now token a))
      else Inl (Cli_Input (''standing authorities do not cover capability `'' @ cap_id (p_capability p) @ ''`'')))"

section \<open>Admission and the run\<close>

definition admit_standing_plan :: "env \<Rightarrow> (string \<Rightarrow> bool) \<Rightarrow> (string \<Rightarrow> datetime option) \<Rightarrow> (storage_error + unit)
    \<Rightarrow> (storage_error + unit) \<Rightarrow> datetime \<times> datetime \<times> datetime \<times> datetime \<times> datetime \<Rightarrow> standing_authority \<Rightarrow> call_input
    \<Rightarrow> plan \<Rightarrow> plan command" where
  "admit_standing_plan e u parse lk ev clock snapshot input p = (case clock of (now, t1, t2, t3, t4) \<Rightarrow>
     act_bind (act_check (\<lambda>d. map_err Cli_Storage (lock_authority u lk (authority_id snapshot) d))) (\<lambda>guard.
     act_bind (act_check (\<lambda>d. map_err Cli_Storage (load_authority u (authority_id snapshot) d))) (\<lambda>a.
     act_bind (act_check (\<lambda>_. ensure (auth_content_hash a = auth_content_hash snapshot)
       (Cli_Input ''standing authority changed during live preflight; the mutation boundary was not crossed''))) (\<lambda>_.
     act_bind (act_check (\<lambda>_. authorize_standing_execution_at e parse a p input now)) (\<lambda>_.
     act_bind (act_check (\<lambda>_. called (mark_consumed_via_standing_authority e t1 t2 t3 a p))) (\<lambda>p1.
     act_bind (act_check (\<lambda>_. map_err Cli_Core (reserve_run e now (operation_id p1) (cap_id (p_capability p1)) a))) (\<lambda>a1.
     act_bind (stored (save_authority_guarded e u guard a1)) (\<lambda>_.
     act_bind (stored (save_plan e u p1)) (\<lambda>_.
     act_bind (act_check (\<lambda>_. map_err Cli_Storage ev)) (\<lambda>_.
     persist_transaction_stage e u t4 BoundaryAttemptPersisted p1))))))))))"

definition run_plan_under_standing_authority :: "env \<Rightarrow> (string \<Rightarrow> bool) \<Rightarrow> (string \<Rightarrow> datetime option) \<Rightarrow> session
    \<Rightarrow> (storage_error + unit) \<Rightarrow> (storage_error + unit) \<Rightarrow> (storage_error + unit)
    \<Rightarrow> datetime \<times> datetime \<Rightarrow> datetime \<times> datetime \<times> datetime \<times> datetime \<times> datetime \<Rightarrow> call_input \<Rightarrow> string \<Rightarrow> string
    \<Rightarrow> run_outcome command" where
  "run_plan_under_standing_authority e u parse s plan_lk lk ev readings clock input i authority =
     act_bind (act_check (\<lambda>_. map_err Cli_Storage plan_lk)) (\<lambda>_.
     act_bind (act_check (admit_execution_attestation e u s i)) (\<lambda>_.
     act_bind (act_check (\<lambda>d. map_err Cli_Storage (load_authority u authority d))) (\<lambda>snapshot.
     act_bind (stored (bind_plan_authority_hash e u i (auth_content_hash snapshot))) (\<lambda>_.
     act_bind (act_check (preflight e u s i)) (\<lambda>p.
     if adapter_status (p_capability p) = Blocked_Adapter then act_return Adapter_Blocked
     else
       act_bind (act_check (admitted_pins e u s (fst readings) p)) (\<lambda>_.
       act_bind (act_check (\<lambda>_. authorize_standing_execution_at e parse snapshot p input (snd readings))) (\<lambda>_.
       act_bind (admit_standing_plan e u parse lk ev clock snapshot input p) (\<lambda>p2.
       act_return (Boundary p2)))))))))"

section \<open>Governing an authority\<close>

definition key_policy_approve :: "env \<Rightarrow> (string \<Rightarrow> bool) \<Rightarrow> (storage_error + unit) \<Rightarrow> datetime \<times> datetime \<Rightarrow> bool
    \<Rightarrow> string \<Rightarrow> standing_authority command" where
  "key_policy_approve e u lk clock yes i =
     act_bind (act_check (\<lambda>d. map_err Cli_Storage (lock_authority u lk i d))) (\<lambda>guard.
     act_bind (act_check (\<lambda>d. map_err Cli_Storage (load_authority u i d))) (\<lambda>a.
     act_bind (act_check (\<lambda>_. map_err Cli_Core (auth_approve e (fst clock) (snd clock) yes a))) (\<lambda>a'.
     act_bind (stored (save_authority_guarded e u guard a')) (\<lambda>_. act_return a'))))"

definition key_policy_revoke :: "env \<Rightarrow> (string \<Rightarrow> bool) \<Rightarrow> (storage_error + unit) \<Rightarrow> string \<Rightarrow> standing_authority command" where
  "key_policy_revoke e u lk i =
     act_bind (act_check (\<lambda>d. map_err Cli_Storage (lock_authority u lk i d))) (\<lambda>guard.
     act_bind (act_check (\<lambda>d. map_err Cli_Storage (load_authority u i d))) (\<lambda>a.
     act_bind (stored (save_authority_guarded e u guard (auth_revoke a))) (\<lambda>_. act_return (auth_revoke a))))"

section \<open>Facts\<close>

lemma save_plan_authorities [simp]: "authority_file (snd (save_plan e u p d)) = authority_file d"
  by (rule save_plan_table) simp_all

lemma save_authority_plans [simp]:
  "plan_v2_file (snd (save_authority_guarded e u g a d)) = plan_v2_file d"
  "plan_file (snd (save_authority_guarded e u g a d)) = plan_file d"
  "private_origin (snd (save_authority_guarded e u g a d)) = private_origin d"
  using save_guarded_outcome [of e u g a d]
    write_elsewhere [of "write_authority (authority_id a) a" private_origin d]
    write_elsewhere [of "write_authority (authority_id a) a" plan_v2_file d]
    write_elsewhere [of "write_authority (authority_id a) a" plan_file d] by auto

lemma standing_status: "mark_consumed_via_standing_authority e t1 t2 t3 a p = (Inr (), p') \<Longrightarrow>
    \<not> executed (status p) \<and> operation_id p' = operation_id p \<and> status p' = Consumed \<and> p_capability p' = p_capability p"
  by (auto simp: standing_ok_iff check_standing_iff executed_def record_Inr_iff)

text \<open>The writes of an admission: the reservation, the consumed plan, the attempt.\<close>

definition admission_writes :: "env \<Rightarrow> (string \<Rightarrow> bool) \<Rightarrow> (storage_error + unit) \<Rightarrow> datetime \<Rightarrow> authority_lock
    \<Rightarrow> standing_authority \<Rightarrow> plan \<Rightarrow> plan command" where
  "admission_writes e u ev t g a p =
     act_bind (stored (save_authority_guarded e u g a)) (\<lambda>_.
     act_bind (stored (save_plan e u p)) (\<lambda>_.
     act_bind (act_check (\<lambda>_. map_err Cli_Storage ev)) (\<lambda>_.
     persist_transaction_stage e u t BoundaryAttemptPersisted p)))"

text \<open>An admission that writes anything reserves first.\<close>

lemma admit_cases:
  "(\<exists>err. admit_standing_plan e u parse lk ev (now, t1, t2, t3, t4) snap input p d = (Inl err, d)) \<or>
   (\<exists>g a p1 a1. load_authority u (authority_id snap) d = Inr a \<and> auth_content_hash a = auth_content_hash snap \<and>
      authorize_standing_execution_at e parse a p input now = Inr () \<and>
      mark_consumed_via_standing_authority e t1 t2 t3 a p = (Inr (), p1) \<and>
      reserve_run e now (operation_id p1) (cap_id (p_capability p1)) a = Inr a1 \<and>
      admit_standing_plan e u parse lk ev (now, t1, t2, t3, t4) snap input p d =
        admission_writes e u ev t4 g a1 p1 d)"
  (is "(\<exists>err. ?run = (Inl err, d)) \<or> _")
proof (cases "\<exists>g a p1 a1. lock_authority u lk (authority_id snap) d = Inr g \<and> load_authority u (authority_id snap) d = Inr a \<and>
    auth_content_hash a = auth_content_hash snap \<and> authorize_standing_execution_at e parse a p input now = Inr () \<and>
    mark_consumed_via_standing_authority e t1 t2 t3 a p = (Inr (), p1) \<and>
    reserve_run e now (operation_id p1) (cap_id (p_capability p1)) a = Inr a1")
  case True
  then show ?thesis by (auto simp: admit_standing_plan_def admission_writes_def)
next
  case False
  show ?thesis
  proof (rule disjI1, cases "lock_authority u lk (authority_id snap) d"; cases "load_authority u (authority_id snap) d")
    fix g a assume "lock_authority u lk (authority_id snap) d = Inr g" "load_authority u (authority_id snap) d = Inr a"
    with False show "\<exists>err. ?run = (Inl err, d)"
      by (cases "called (mark_consumed_via_standing_authority e t1 t2 t3 a p)")
         (auto simp: admit_standing_plan_def called_Inr ensure_def split: sum.splits)
  qed (simp_all add: admit_standing_plan_def)
qed

lemma persist_authorities [simp]: "authority_file (snd (persist_transaction_stage e u t st p d)) = authority_file d"
  using persist_snd [of e u t st p d] by auto

lemma writes_snd:
  "snd (admission_writes e u ev t g a p d) = snd (save_authority_guarded e u g a d) \<and>
     fst (save_authority_guarded e u g a d) \<noteq> Inr () \<or>
   fst (save_authority_guarded e u g a d) = Inr () \<and>
     (let d1 = snd (save_authority_guarded e u g a d); d2 = snd (save_plan e u p d1) in
      snd (admission_writes e u ev t g a p d) \<in> {d2, snd (persist_transaction_stage e u t BoundaryAttemptPersisted p d2)})"
  by (cases "fst (save_authority_guarded e u g a d)")
     (auto simp: admission_writes_def act_bind_snd act_check_def Let_def split: sum.splits)

lemma writes_authority:
  assumes "fst (save_authority_guarded e u g a d) = Inr ()"
  shows "load_authority u (authority_id a) (snd (admission_writes e u ev t g a p d)) = Inr a"
proof -
  have "load_authority u (authority_id a) (snd (save_authority_guarded e u g a d)) = Inr a"
    using save_guarded_ok assms by (metis prod.collapse)
  then show ?thesis using writes_snd [of e u ev t g a p d] assms by (auto simp: Let_def load_authority_iff)
qed

lemma writes_unreserved:
  assumes "fst (save_authority_guarded e u g a d) \<noteq> Inr ()"
  shows "plan_v2_file (snd (admission_writes e u ev t g a p d)) = plan_v2_file d"
  using writes_snd [of e u ev t g a p d] assms by auto

lemma writes_spent:
  assumes "spent e u i d" "operation_id p \<noteq> i"
  shows "spent e u i (snd (admission_writes e u ev t g a p d))"
proof -
  let ?d1 = "snd (save_authority_guarded e u g a d)"
  have d1: "spent e u i ?d1" by (rule spent_local [OF _ assms(1)]) simp
  then have d2: "spent e u i (snd (save_plan e u p ?d1))" using save_plan_spent assms(2) by blast
  have "spent e u i (snd (persist_transaction_stage e u t BoundaryAttemptPersisted p (snd (save_plan e u p ?d1))))"
    using persist_snd [of e u t BoundaryAttemptPersisted p "snd (save_plan e u p ?d1)"] d2
      save_plan_spent [OF d2] record_stage_fields assms(2) by metis
  then show ?thesis using writes_snd [of e u ev t g a p d] d1 d2 by (auto simp: Let_def)
qed

lemma writes_other:
  assumes "operation_id p \<noteq> i"
  shows "plan_v2_file (snd (admission_writes e u ev t g a p d)) i = plan_v2_file d i"
proof -
  let ?d1 = "snd (save_authority_guarded e u g a d)"
  have d2: "plan_v2_file (snd (save_plan e u p ?d1)) i = plan_v2_file d i" using save_plan_other [OF assms] by simp
  have "plan_v2_file (snd (persist_transaction_stage e u t BoundaryAttemptPersisted p (snd (save_plan e u p ?d1)))) i = plan_v2_file d i"
    using persist_snd [of e u t BoundaryAttemptPersisted p "snd (save_plan e u p ?d1)"] d2 save_plan_other record_stage_fields assms
    by metis
  then show ?thesis using writes_snd [of e u ev t g a p d] d2 by (auto simp: Let_def)
qed

lemma bind_authorities [simp]: "authority_file (snd (bind_plan_authority_hash e u i h d)) = authority_file d"
  using bind_outcome [of e u i h d] write_current_elsewhere [of authority_file e _ d] by auto

lemma bind_spent_iff [simp]: "spent e u i (snd (bind_plan_authority_hash e u j h d)) \<longleftrightarrow> spent e u i d"
  using bind_outcome [of e u j h d]
proof (elim disjE exE conjE)
  fix q r assume q: "load_stored_plan_record e u j d = Inr (Current q)" "bind_authority_hash e h q = Inr r"
    "bind_plan_authority_hash e u j h d = write_current_plan e r d"
  note c = q(1) [unfolded current_record_iff]
  then have r: "v2_plan r = v2_plan q" "v2_validate e r = Inr ()" "operation_id (v2_plan r) = j" "stored_v2 e u j r"
    using bind_keeps [OF q(2)] by (auto simp: stored_v2_def)
  then show ?thesis
    unfolding q(3) using write_current_cases [where e = e and q = r and d = d] c
    by (cases "i = j") (auto simp: spent_def load_plan_v2_iff)
qed simp

lemma bind_kept:
  assumes "bind_plan_authority_hash e u i h d = (Inr (), db)" "load_stored_plan_record e u i db = Inr (Current q)"
  shows "\<exists>q0. load_stored_plan_record e u i d = Inr (Current q0) \<and> v2_plan q0 = v2_plan q"
  using bind_outcome [of e u i h d]
proof (elim disjE exE conjE)
  fix q0 r assume q: "load_stored_plan_record e u i d = Inr (Current q0)" "bind_authority_hash e h q0 = Inr r"
    "bind_plan_authority_hash e u i h d = write_current_plan e r d"
  then have "v2_plan r = v2_plan q0" "stored_v2 e u i r"
    using bind_keeps [OF q(2)] by (auto simp: stored_v2_def current_record_iff)
  moreover from this have "load_stored_plan_record e u i db = Inr (Current r)"
    using write_current_ok [of e r d u i] q(3) assms(1) by (metis fst_conv snd_conv)
  ultimately show ?thesis using q(1) assms(2) by auto
qed (use assms in simp)

lemma standing_run_cases:
  fixes e u parse s plan_lk lk ev r1 r2 clock input i aid d
  defines "R \<equiv> run_plan_under_standing_authority e u parse s plan_lk lk ev (r1, r2) clock input i aid d"
  shows "(\<exists>h. snd R \<in> {d, snd (bind_plan_authority_hash e u i h d)} \<and> (\<forall>p. fst R \<noteq> Inr (Boundary p))) \<or>
    (\<exists>snap p db. load_authority u aid d = Inr snap \<and>
       bind_plan_authority_hash e u i (auth_content_hash snap) d = (Inr (), db) \<and>
       preflight e u s i db = Inr p \<and> admitted_pins e u s r1 p db = Inr () \<and>
       authorize_standing_execution_at e parse snap p input r2 = Inr () \<and>
       R = act_bind (admit_standing_plan e u parse lk ev clock snap input p) (\<lambda>p2. act_return (Boundary p2)) db)"
proof (cases "\<exists>b snap db. plan_lk = Inr () \<and> admit_execution_attestation e u s i d = Inr b \<and> load_authority u aid d = Inr snap \<and>
    bind_plan_authority_hash e u i (auth_content_hash snap) d = (Inr (), db)")
  case True
  then obtain b snap db where go: "plan_lk = Inr ()" "admit_execution_attestation e u s i d = Inr b" "load_authority u aid d = Inr snap"
      "bind_plan_authority_hash e u i (auth_content_hash snap) d = (Inr (), db)"
    by blast
  then have st: "stored (bind_plan_authority_hash e u i (auth_content_hash snap)) d = (Inr (), db)" by (simp add: stored_Inr)
  have db: "snd (bind_plan_authority_hash e u i (auth_content_hash snap) d) = db" using go(4) by simp
  note R = R_def run_plan_under_standing_authority_def
  show ?thesis
  proof (cases "\<exists>p. preflight e u s i db = Inr p \<and> adapter_status (p_capability p) \<noteq> Blocked_Adapter \<and>
      admitted_pins e u s r1 p db = Inr () \<and> authorize_standing_execution_at e parse snap p input r2 = Inr ()")
    case True
    then show ?thesis using go st by (auto simp: R)
  next
    case False
    then have "snd R = db \<and> (\<forall>p. fst R \<noteq> Inr (Boundary p))"
      using go(1-3) st by (cases "preflight e u s i db") (auto simp: R act_return_def split: sum.splits)
    then show ?thesis using db by (intro disjI1 exI [of _ "auth_content_hash snap"]) simp
  qed
next
  case False
  show ?thesis
  proof (cases "\<exists>b snap. plan_lk = Inr () \<and> admit_execution_attestation e u s i d = Inr b \<and> load_authority u aid d = Inr snap")
    case True
    then obtain b snap where go: "plan_lk = Inr ()" "admit_execution_attestation e u s i d = Inr b" "load_authority u aid d = Inr snap"
      by blast
    with False obtain err where "fst (bind_plan_authority_hash e u i (auth_content_hash snap) d) = Inl err"
      by (cases "bind_plan_authority_hash e u i (auth_content_hash snap) d"; cases "fst (bind_plan_authority_hash e u i (auth_content_hash snap) d)") auto
    then have "snd R = snd (bind_plan_authority_hash e u i (auth_content_hash snap) d) \<and> (\<forall>p. fst R \<noteq> Inr (Boundary p))"
      using go by (cases "bind_plan_authority_hash e u i (auth_content_hash snap) d")
        (auto simp: R_def run_plan_under_standing_authority_def stored_def act_bind_def act_check_def)
    then show ?thesis by blast
  next
    case False
    then have "snd R = d \<and> (\<forall>p. fst R \<noteq> Inr (Boundary p))"
      by (cases plan_lk; cases "admit_execution_attestation e u s i d"; cases "load_authority u aid d")
         (auto simp: R_def run_plan_under_standing_authority_def)
    then show ?thesis by blast
  qed
qed

lemma admit_Inr:
  assumes "admit_standing_plan e u parse lk ev (now, t1, t2, t3, t4) snap input p d = (Inr p2, d')"
  shows "\<exists>g a p1 a1 d1 d2. load_authority u (authority_id snap) d = Inr a \<and> auth_content_hash a = auth_content_hash snap \<and>
    authorize_standing_execution_at e parse a p input now = Inr () \<and>
    mark_consumed_via_standing_authority e t1 t2 t3 a p = (Inr (), p1) \<and>
    reserve_run e now (operation_id p1) (cap_id (p_capability p1)) a = Inr a1 \<and>
    save_authority_guarded e u g a1 d = (Inr (), d1) \<and> save_plan e u p1 d1 = (Inr (), d2) \<and>
    record_transaction_stage e t4 BoundaryAttemptPersisted p1 = Inr p2 \<and> save_plan e u p2 d2 = (Inr (), d') \<and>
    load_authority u (authority_id snap) d' = Inr a1"
  using admit_cases [of e u parse lk ev now t1 t2 t3 t4 snap input p d]
proof (elim disjE exE conjE)
  fix g a p1 a1 assume a: "load_authority u (authority_id snap) d = Inr a" "auth_content_hash a = auth_content_hash snap"
    "authorize_standing_execution_at e parse a p input now = Inr ()" "mark_consumed_via_standing_authority e t1 t2 t3 a p = (Inr (), p1)"
    "reserve_run e now (operation_id p1) (cap_id (p_capability p1)) a = Inr a1"
    "admit_standing_plan e u parse lk ev (now, t1, t2, t3, t4) snap input p d = admission_writes e u ev t4 g a1 p1 d"
  obtain d1 d2 where w: "save_authority_guarded e u g a1 d = (Inr (), d1)" "save_plan e u p1 d1 = (Inr (), d2)"
      "record_transaction_stage e t4 BoundaryAttemptPersisted p1 = Inr p2" "save_plan e u p2 d2 = (Inr (), d')"
    using a(6) [symmetric, unfolded assms admission_writes_def act_bind_Inr_iff]
    by (auto simp: stored_Inr persist_Inr act_check_def)
  have "authority_id a1 = authority_id snap" using reserve_run_Inr [OF a(5)] a(1) by (simp add: load_authority_iff)
  moreover have "snd (admission_writes e u ev t4 g a1 p1 d) = d'" using a(6) assms by (metis snd_conv)
  ultimately have "load_authority u (authority_id snap) d' = Inr a1"
    using writes_authority [of e u g a1 d ev t4 p1] w(1) by simp
  with a w show ?thesis by blast
qed (use assms in simp)

lemma admit_spent:
  assumes "spent e u i d" "operation_id p \<noteq> i"
  shows "spent e u i (snd (admit_standing_plan e u parse lk ev (now, t1, t2, t3, t4) snap input p d))"
  using admit_cases [of e u parse lk ev now t1 t2 t3 t4 snap input p d] writes_spent [OF assms(1)] standing_status assms
  by fastforce

lemma admit_reserves:
  fixes e u parse lk ev now t1 t2 t3 t4 snap input p d
  defines "d' \<equiv> snd (admit_standing_plan e u parse lk ev (now, t1, t2, t3, t4) snap input p d)"
  assumes "spent e u i d'" "\<not> spent e u i d"
  shows "\<exists>a. load_authority u (authority_id snap) d' = Inr a \<and> i \<in> run_operation_id ` set (run_log a)"
  using admit_cases [of e u parse lk ev now t1 t2 t3 t4 snap input p d]
proof (elim disjE exE conjE)
  fix g a p1 a1 assume a: "load_authority u (authority_id snap) d = Inr a" 
    "reserve_run e now (operation_id p1) (cap_id (p_capability p1)) a = Inr a1"
    "admit_standing_plan e u parse lk ev (now, t1, t2, t3, t4) snap input p d = admission_writes e u ev t4 g a1 p1 d"
  have d': "d' = snd (admission_writes e u ev t4 g a1 p1 d)" using a(3) by (simp add: d'_def)
  have changed: "plan_v2_file d' i \<noteq> plan_v2_file d i" using spent_local [of d i d' e u] assms(2,3) by auto
  then have ok: "fst (save_authority_guarded e u g a1 d) = Inr ()"
    using writes_unreserved [of e u g a1 d ev t4 p1] unfolding d' by metis
  have "operation_id p1 = i" using writes_other [of p1 i e u ev t4 g a1 d] changed unfolding d' by blast
  moreover have "load_authority u (authority_id a1) d' = Inr a1" unfolding d' by (rule writes_authority [OF ok])
  moreover have "authority_id a1 = authority_id snap" using reserve_run_Inr [OF a(2)] a(1) by (simp add: load_authority_iff)
  ultimately show ?thesis using reserve_run_Inr [OF a(2)] by auto
qed (use assms in \<open>simp add: d'_def\<close>)

lemma standing_run_spent:
  assumes "spent e u i d"
  shows "spent e u i (snd (run_plan_under_standing_authority e u parse s plan_lk lk ev (r1, r2) (now, t1, t2, t3, t4) input j aid d))"
    and "fst (run_plan_under_standing_authority e u parse s plan_lk lk ev (r1, r2) (now, t1, t2, t3, t4) input i aid d) \<noteq> Inr (Boundary p)"
proof -
  have fresh: "operation_id p = j \<and> (j = i \<longrightarrow> executed (status p))"
    if "bind_plan_authority_hash e u j h d = (Inr (), db)" "preflight e u s j db = Inr p" for j h db p
    using preflight_Inr [OF that(2)] spent_loaded [of e u i db] bind_spent_iff [of e u i j h d] assms that(1) by fastforce
  show "spent e u i (snd (run_plan_under_standing_authority e u parse s plan_lk lk ev (r1, r2) (now, t1, t2, t3, t4) input j aid d))"
    using standing_run_cases [of e u parse s plan_lk lk ev r1 r2 "(now, t1, t2, t3, t4)" input j aid d]
  proof (elim disjE exE conjE)
    fix snap p db assume r: "bind_plan_authority_hash e u j (auth_content_hash snap) d = (Inr (), db)" "preflight e u s j db = Inr p"
      "run_plan_under_standing_authority e u parse s plan_lk lk ev (r1, r2) (now, t1, t2, t3, t4) input j aid d =
        act_bind (admit_standing_plan e u parse lk ev (now, t1, t2, t3, t4) snap input p) (\<lambda>p2. act_return (Boundary p2)) db"
    have db: "spent e u i db" using bind_spent_iff [of e u i j "auth_content_hash snap" d] assms r(1) by simp
    have "spent e u i (snd (admit_standing_plan e u parse lk ev (now, t1, t2, t3, t4) snap input p db))"
    proof (cases "j = i")
      case True
      with fresh [OF r(1,2)] have "executed (status p)" by simp
      then show ?thesis using admit_cases [of e u parse lk ev now t1 t2 t3 t4 snap input p db] standing_status db by fastforce
    next
      case False
      then show ?thesis using admit_spent [OF db] fresh [OF r(1,2)] by simp
    qed
    then show ?thesis unfolding r(3) by (simp add: act_bind_snd act_return_def split: sum.splits)
  qed (use assms in auto)
  show "fst (run_plan_under_standing_authority e u parse s plan_lk lk ev (r1, r2) (now, t1, t2, t3, t4) input i aid d) \<noteq> Inr (Boundary p)"
    using standing_run_cases [of e u parse s plan_lk lk ev r1 r2 "(now, t1, t2, t3, t4)" input i aid d]
  proof (elim disjE exE conjE)
    fix snap q db assume r: "bind_plan_authority_hash e u i (auth_content_hash snap) d = (Inr (), db)" "preflight e u s i db = Inr q"
      "run_plan_under_standing_authority e u parse s plan_lk lk ev (r1, r2) (now, t1, t2, t3, t4) input i aid d =
        act_bind (admit_standing_plan e u parse lk ev (now, t1, t2, t3, t4) snap input q) (\<lambda>p2. act_return (Boundary p2)) db"
    have "executed (status q)" using fresh [OF r(1,2)] by simp
    then obtain err where "admit_standing_plan e u parse lk ev (now, t1, t2, t3, t4) snap input q db = (Inl err, db)"
      using admit_cases [of e u parse lk ev now t1 t2 t3 t4 snap input q db] standing_status by fastforce
    then show ?thesis unfolding r(3) by simp
  qed auto
qed

lemma standing_boundary_run:
  assumes "run_plan_under_standing_authority e u parse s plan_lk lk ev (r1, r2) (now, t1, t2, t3, t4) input i aid d
    = (Inr (Boundary p), d')"
  shows "\<exists>a q0 p0 q. load_authority u aid d = Inr a \<and> load_stored_plan_record e u i d = Inr (Current q0) \<and> p0 = v2_plan q0 \<and>
    ensure_operational_at e now a = Inr () \<and>
    authorize_standing_execution_at e parse a p0 input now = Inr () \<and> check_standing e t2 a p0 = Inr () \<and>
    t1 \<le> p_expires_at p0 \<and> plan.bound e p0 \<and>
    runs_in_last_day a now < max_runs_per_day a \<and> i \<notin> run_operation_id ` set (run_log a) \<and>
    load_authority u aid d' = Inr (a\<lparr>run_log := run_log a @ [\<lparr>run_at = now, run_operation_id = i,
      run_capability_id = cap_id (p_capability p0)\<rparr>]\<rparr>) \<and>
    load_stored_plan_record e u i d' = Inr (Current q) \<and> v2_plan q = p \<and>
    p = recorded e t4 BoundaryAttemptPersisted None
      (recorded e t3 ConsumptionPersisted (Some (standing_artifact a)) (p0\<lparr>status := Consumed\<rparr>))"
  using standing_run_cases [of e u parse s plan_lk lk ev r1 r2 "(now, t1, t2, t3, t4)" input i aid d]
proof (elim disjE exE conjE)
  fix snap p0 db assume r: "load_authority u aid d = Inr snap"
    "bind_plan_authority_hash e u i (auth_content_hash snap) d = (Inr (), db)" "preflight e u s i db = Inr p0"
    "run_plan_under_standing_authority e u parse s plan_lk lk ev (r1, r2) (now, t1, t2, t3, t4) input i aid d =
      act_bind (admit_standing_plan e u parse lk ev (now, t1, t2, t3, t4) snap input p0) (\<lambda>p2. act_return (Boundary p2)) db"
  have id: "authority_id snap = aid" and db: "load_authority u aid db = Inr snap"
    using r(1,2) bind_authorities [of e u i "auth_content_hash snap" d] by (auto simp: load_authority_iff)
  obtain g a p1 a1 d1 d2 where adm: "load_authority u aid db = Inr a"
      "authorize_standing_execution_at e parse a p0 input now = Inr ()"
      "mark_consumed_via_standing_authority e t1 t2 t3 a p0 = (Inr (), p1)"
      "reserve_run e now (operation_id p1) (cap_id (p_capability p1)) a = Inr a1"
      "save_authority_guarded e u g a1 db = (Inr (), d1)" "save_plan e u p1 d1 = (Inr (), d2)"
      "record_transaction_stage e t4 BoundaryAttemptPersisted p1 = Inr p" "save_plan e u p d2 = (Inr (), d')"
      "load_authority u aid d' = Inr a1"
    using r(4) [symmetric, unfolded assms act_bind_Inr_iff]
      admit_Inr [of e u parse lk ev now t1 t2 t3 t4 snap input p0 db p d'] unfolding id by (auto simp: act_return_def)
  have a: "a = snap" using adm(1) db by simp
  obtain q0 where q0: "load_stored_plan_record e u i db = Inr (Current q0)" "operation_id p0 = i" "v2_plan q0 = p0"
    using preflight_Inr [OF r(3)] by blast
  note p1 = standing_status [OF adm(3)]
  have "load_stored_plan_record e u i d1 = Inr (Current q0)"
    using record_local [of d1 i db e u] q0(1) adm(5) save_authority_plans [of e u g a1 db] by simp
  from attempt_durable [OF this _ _ adm(6,7,8)] p1 q0(2)
  have "\<exists>q. load_stored_plan_record e u i d' = Inr (Current q) \<and> v2_plan q = p" by auto
  moreover have "p = recorded e t4 BoundaryAttemptPersisted None
      (recorded e t3 ConsumptionPersisted (Some (standing_artifact a)) (p0\<lparr>status := Consumed\<rparr>))"
    using adm(3,7) by (simp add: standing_ok_iff record_transaction_stage_def record_Inr_iff)
  moreover have "check_standing e t2 a p0 = Inr () \<and> t1 \<le> p_expires_at p0 \<and> plan.bound e p0"
    using adm(3) by (simp add: standing_ok_iff)
  moreover obtain q1 where "load_stored_plan_record e u i d = Inr (Current q1)" "v2_plan q1 = p0"
    using bind_kept [OF r(2) q0(1)] q0(3) by blast
  ultimately show ?thesis
    using reserve_run_Inr [OF adm(4)] p1 q0(2) adm(2,9) r(1) a by metis
qed (use assms in auto)

lemma standing_boundary_spent:
  assumes "run_plan_under_standing_authority e u parse s plan_lk lk ev (r1, r2) (now, t1, t2, t3, t4) input i aid d
    = (Inr (Boundary p), d')"
  shows "spent e u i d'"
  using standing_boundary_run [OF assms] by (auto intro!: attempt_spent)

text \<open>A run under a revoked authority is refused.\<close>

lemma revoked_run:
  fixes e u parse s plan_lk lk ev r1 r2 now t1 t2 t3 t4 input i aid d
  defines "R \<equiv> run_plan_under_standing_authority e u parse s plan_lk lk ev (r1, r2) (now, t1, t2, t3, t4) input i aid d"
  assumes "load_authority u aid d = Inr a" "auth_status a = Revoked"
  shows "(\<forall>p. fst R \<noteq> Inr (Boundary p)) \<and> (spent e u j (snd R) \<longleftrightarrow> spent e u j d) \<and> authority_file (snd R) = authority_file d"
proof -
  have refuse: "authorize_standing_execution_at e parse a p input r2 \<noteq> Inr ()" for p
    using assms(3) by (auto simp: authorize_standing_execution_at_def authorize_token_create_def authorize_token_delete_def
        ensure_operational_at_def result_simps split: if_splits)
  from standing_run_cases [of e u parse s plan_lk lk ev r1 r2 "(now, t1, t2, t3, t4)" input i aid d]
  have "\<exists>h. snd R \<in> {d, snd (bind_plan_authority_hash e u i h d)} \<and> (\<forall>p. fst R \<noteq> Inr (Boundary p))"
    using refuse assms(2) unfolding R_def by auto
  then show ?thesis by auto
qed

lemma revoke_stored:
  assumes "key_policy_revoke e u lk i d = (Inr a, d')"
  shows "load_authority u i d' = Inr a \<and> auth_status a = Revoked"
proof -
  obtain g b where "load_authority u i d = Inr b" "a = auth_revoke b" "save_authority_guarded e u g a d = (Inr (), d')"
    using assms
    by (cases "lock_authority u lk i d"; cases "load_authority u i d")
       (auto simp: key_policy_revoke_def act_bind_Inr_iff act_return_def stored_Inr)
  then show ?thesis using save_guarded_ok by (fastforce simp: load_authority_iff auth_revoke_def)
qed

section \<open>Revocation\<close>

text \<open>An authority whose stored document is revoked.\<close>

definition revoked :: "(string \<Rightarrow> bool) \<Rightarrow> string \<Rightarrow> disk \<Rightarrow> bool" where
  "revoked u aid d \<longleftrightarrow> (\<exists>a. load_authority u aid d = Inr a \<and> auth_status a = Revoked)"

lemma revoked_local: "authority_file d' = authority_file d \<Longrightarrow> revoked u aid d' \<longleftrightarrow> revoked u aid d"
  by (simp add: revoked_def load_authority_iff)

lemma store_step_revoked: "authority_store_step e u d d' \<Longrightarrow> revoked u aid d \<Longrightarrow> revoked u aid d'"
  using revoked_step by (fastforce simp: revoked_def)

lemma save_guarded_revoked: "revoked u aid d \<Longrightarrow> revoked u aid (snd (save_authority_guarded e u g a d))"
  by (rule store_step_revoked [OF authority_store_step.saved])

lemma keeps_stored: "keeps get m \<Longrightarrow> keeps get (stored m)"
  by (simp add: keeps_def)

lemma keeps_save_plan: "keeps authority_file (save_plan e u p)"
  by (simp add: keeps_def)

lemmas keeps_command = keeps_bind keeps_pure keeps_stored keeps_save_plan

lemma approve_plan_authorities [simp]:
  "authority_file (snd (approve_plan e u s lk ev clock yes c i d)) = authority_file d"
proof -
  have "keeps authority_file (approve_plan e u s lk ev clock yes c i)"
    unfolding approve_plan_def by (intro keeps_command)
  then show ?thesis by (simp add: keeps_def)
qed

lemma cancel_plan_authorities [simp]:
  "authority_file (snd (cancel_plan e u lk ev clock i d)) = authority_file d"
proof -
  have "keeps authority_file (cancel_plan e u lk ev clock i)"
    unfolding cancel_plan_def by (intro keeps_command)
  then show ?thesis by (simp add: keeps_def)
qed

lemma run_plan_authorities [simp]:
  "authority_file (snd (run_plan e u s lk (t1, t2, t3, t4) i d)) = authority_file d"
  using run_plan_cases [of e u s lk t1 t2 t3 t4 i d]
  by (auto simp: act_bind_snd act_return_def split: sum.splits)

lemma plan_commands_revoked [simp]:
  "revoked u aid (snd (approve_plan e u s lk ev clock yes c i d)) \<longleftrightarrow> revoked u aid d"
  "revoked u aid (snd (cancel_plan e u lk ev clock2 i d)) \<longleftrightarrow> revoked u aid d"
  "revoked u aid (snd (run_plan e u s lk (t1, t2, t3, t4) i d)) \<longleftrightarrow> revoked u aid d"
  "revoked u aid (snd (save_plan e u p d)) \<longleftrightarrow> revoked u aid d"
  by (rule revoked_local; simp)+

lemma writes_revoked:
  assumes "revoked u aid d"
  shows "revoked u aid (snd (admission_writes e u ev t g a p d))"
proof -
  have "authority_file (snd (admission_writes e u ev t g a p d)) = authority_file (snd (save_authority_guarded e u g a d))"
    using writes_snd [of e u ev t g a p d] by (auto simp: Let_def)
  then show ?thesis using revoked_local save_guarded_revoked [OF assms] by blast
qed

lemma standing_run_revoked:
  assumes "revoked u aid d"
  shows "revoked u aid (snd (run_plan_under_standing_authority e u parse s plan_lk lk ev (r1, r2) (now, t1, t2, t3, t4) input i a d))"
  using standing_run_cases [of e u parse s plan_lk lk ev r1 r2 "(now, t1, t2, t3, t4)" input i a d]
proof (elim disjE exE conjE)
  fix snap p db assume r: "bind_plan_authority_hash e u i (auth_content_hash snap) d = (Inr (), db)"
    "run_plan_under_standing_authority e u parse s plan_lk lk ev (r1, r2) (now, t1, t2, t3, t4) input i a d =
      act_bind (admit_standing_plan e u parse lk ev (now, t1, t2, t3, t4) snap input p) (\<lambda>p2. act_return (Boundary p2)) db"
  have "revoked u aid db" using bind_authorities [of e u i "auth_content_hash snap" d] r(1) assms revoked_local by (metis snd_conv)
  then have "revoked u aid (snd (admit_standing_plan e u parse lk ev (now, t1, t2, t3, t4) snap input p db))"
    using admit_cases [of e u parse lk ev now t1 t2 t3 t4 snap input p db] writes_revoked by fastforce
  then show ?thesis unfolding r(2) by (simp add: act_bind_snd act_return_def split: sum.splits)
qed (use assms revoked_local bind_authorities in \<open>metis insertE singletonD\<close>)

text \<open>The commands that govern an authority write at most its document.\<close>

lemma key_policy_store:
  "snd (key_policy_approve e u lk clock yes aid d) = d \<or>
    (\<exists>g a. snd (key_policy_approve e u lk clock yes aid d) = snd (save_authority_guarded e u g a d))"
  "snd (key_policy_revoke e u lk aid d) = d \<or>
    (\<exists>g a. snd (key_policy_revoke e u lk aid d) = snd (save_authority_guarded e u g a d))"
  by (auto simp: key_policy_approve_def key_policy_revoke_def act_bind_snd act_check_def act_return_def split: sum.splits)

lemma key_policy_spent:
  assumes "spent e u i d"
  shows "spent e u i (snd (key_policy_approve e u lk clock yes aid d))" "spent e u i (snd (key_policy_revoke e u lk aid d))"
  using key_policy_store [of e u lk] spent_local [OF _ assms] assms by (metis save_authority_plans(1))+

lemma key_policy_revoked:
  assumes "revoked u i d"
  shows "revoked u i (snd (key_policy_approve e u lk clock yes aid d))" "revoked u i (snd (key_policy_revoke e u lk aid d))"
  using key_policy_store [of e u lk] save_guarded_revoked [OF assms] assms by metis+

section \<open>Properties\<close>

definition lane_authority :: standing_authority where
  "lane_authority = (auth_draft demo_env ''lane'' 0 ''acct'' None [''account-api-tokens-delete-token''] [''g1''] ''inv'' 2 ''ci-'' 1
     (hours 100))\<lparr>auth_approval := Some \<lparr>approved_at = 1, approved_content_hash =
       auth_content_hash (auth_draft demo_env ''lane'' 0 ''acct'' None [''account-api-tokens-delete-token''] [''g1''] ''inv'' 2 ''ci-'' 1 (hours 100)),
       max_cost = None\<rparr>, auth_status := Active, minted_token_ids := [''tok'']\<rparr>"

definition lane_draft :: plan where
  "lane_draft = projr (draft demo_env ''op-2'' 0 1 ''default'' ''acct'' ''catalog''
     (capability_new ''account-api-tokens-delete-token'' ''Delete a token'' ''DELETE''
       ''/accounts/{account_id}/tokens/{token_id}'') JNull)"

definition lane_plan :: plan where
  "lane_plan = prepare_plan demo_env ''oauth'' JNull JNull [] [] [] [] JNull
     \<lparr>pd_schema_version = 1, pd_disposition = ApprovalRequired, pd_reasons = [], pd_requires_cost_ceiling = False\<rparr>
     lane_draft"

definition lane_v2 :: plan_v2 where
  "lane_v2 = v2_refresh_hash demo_env \<lparr>v2_schema_version = 2, v2_plan = lane_plan,
     pins = demo_pins\<lparr>admission_policy_hash :=
       admission_pin demo_env (evaluate demo_tables (p_capability lane_draft) demo_impact) None\<rparr>, v2_content_hash = []\<rparr>"

definition lane_session :: session where
  "lane_session = demo_session\<lparr>session_listing := [Authority_Entry ''lane'']\<rparr>"

definition lane_input :: call_input where
  "lane_input = \<lparr>in_selectors = JObject [(''token_id'', JString ''tok'')], in_query = JNull, in_body = None,
     if_match = None, if_none_match = None\<rparr>"

definition lane_disk :: disk where
  "lane_disk = write_authority ''lane'' lane_authority (write_plan_v2 ''op-2'' lane_v2 empty_disk)"

definition lane_consumed :: plan where
  "lane_consumed = recorded demo_env 6 ConsumptionPersisted (Some (standing_artifact lane_authority)) (lane_plan\<lparr>status := Consumed\<rparr>)"

definition lane_attempt :: plan where
  "lane_attempt = recorded demo_env 7 BoundaryAttemptPersisted None lane_consumed"

lemma lane_draft_ok:
  "draft demo_env ''op-2'' 0 1 ''default'' ''acct'' ''catalog''
     (capability_new ''account-api-tokens-delete-token'' ''Delete a token'' ''DELETE''
       ''/accounts/{account_id}/tokens/{token_id}'') JNull = Inr lane_draft"
  using draft_total [of demo_env "''op-2''" 0 1 "''default''" "''acct''" "''catalog''"
      "capability_new ''account-api-tokens-delete-token'' ''Delete a token'' ''DELETE'' ''/accounts/{account_id}/tokens/{token_id}''" JNull]
  by (auto simp: lane_draft_def)

lemmas lane_draft_facts = draft_Inr [OF lane_draft_ok]

lemma lane_plan_reachable: "plan_reachable demo_env lane_plan"
  unfolding lane_plan_def by (rule plan_reachable.prepared [OF lane_draft_ok]) simp

lemma lane_plan_fields:
  "operation_id lane_plan = ''op-2''" "status lane_plan = Draft" "catalog_hash lane_plan = ''catalog''"
  "p_expires_at lane_plan = hours 24" "p_account_id lane_plan = ''acct''" "p_approval lane_plan = None"
  "pd_disposition (policy lane_plan) = ApprovalRequired"
  "cap_id (p_capability lane_plan) = ''account-api-tokens-delete-token''" "execution_supported (p_capability lane_plan)"
  "adapter_status (p_capability lane_plan) \<noteq> Blocked_Adapter"
  using lane_draft_facts
  by (simp_all add: lane_plan_def prepare_plan_def refresh_hash_def capability_new_def Let_def)

lemma lane_capability: "p_capability lane_draft = p_capability lane_plan"
  by (simp add: lane_plan_def prepare_plan_def refresh_hash_def)

lemma lane_operational: "ensure_operational_at demo_env t lane_authority = Inr ()" if "t \<le> hours 100"
  using that by (simp add: ensure_operational_at_def lane_authority_def auth_draft_def auth_refresh_hash_def auth_hashable_content_def)

lemma lane_consume:
  "mark_consumed_via_standing_authority demo_env 5 5 6 lane_authority lane_plan = (Inr (), lane_consumed)"
proof -
  note inv = reachable_inv [OF lane_plan_reachable]
  have "check_standing demo_env 5 lane_authority lane_plan = Inr ()"
    using lane_operational [of 5] by (simp add: check_standing_iff lane_plan_fields) (simp add: lane_authority_def auth_draft_def auth_refresh_hash_def)
  moreover have "plan.bound demo_env lane_plan" using inv by (simp add: plan_inv_def journal_ready_def)
  ultimately show ?thesis
    using consume_append_ok [OF inv, of "Some (standing_artifact lane_authority)" 6]
    by (simp add: standing_ok_iff lane_plan_fields lane_consumed_def)
qed

lemma lane_consumed_reachable: "plan_reachable demo_env lane_consumed"
  by (rule plan_reachable.stepped [OF lane_plan_reachable plan_step.consume_standing [OF lane_consume]])

lemma lane_attempt_record: "record_transaction_stage demo_env 7 BoundaryAttemptPersisted lane_consumed = Inr lane_attempt"
proof -
  note inv = reachable_inv [OF lane_consumed_reachable]
  have "validate_approval_checkpoint demo_env False lane_consumed = Inr ()"
    using inv_approval_unbound [OF inv, where s = "status lane_consumed" and c = "cancelled_at lane_consumed"] by simp
  then have "record_transaction_stage_inner demo_env 7 BoundaryAttemptPersisted None lane_consumed =
      Inr (recorded demo_env 7 BoundaryAttemptPersisted None lane_consumed)"
    by (intro ready_append_ok [OF inv_ready [OF inv]]) (simp_all add: lane_consumed_def less_transaction_stage_def)
  then show ?thesis by (simp add: record_transaction_stage_def lane_attempt_def)
qed

lemma lane_attempt_step: "plan_step demo_env lane_consumed lane_attempt"
proof (rule plan_step.advance)
  have "lane_consumed\<lparr>status := Consumed\<rparr> = lane_consumed" by (simp add: lane_consumed_def recorded_def next_checkpoint_def)
  then show "record_transaction_stage_inner demo_env 7 BoundaryAttemptPersisted None
      (lane_consumed\<lparr>status := Consumed\<rparr>) = Inr lane_attempt"
    using lane_attempt_record by (simp add: record_transaction_stage_def)
qed (simp_all add: lane_consumed_def executed_def)

lemma lane_diffs: "cloudflare_diffs lane_draft = []"
proof -
  have "cloudflare_diffs p = []" if "draft e i t t' pr ac c cap v = Inr p" for e i t t' pr ac c cap v p
    using that by (auto simp: draft_def record_transaction_stage_def record_Inr_iff refresh_hash_def recorded_def)
  with lane_draft_ok show ?thesis by blast
qed

lemma lane_public: "p \<in> {lane_plan, lane_consumed, lane_attempt} \<Longrightarrow> public_json (plan_json demo_env p)"
proof (rule public_plan_json)
  show "public_json (capability_value demo_env (p_capability p))"
    unfolding demo_env_def using public_keys by (simp add: public_jobj)
  have art: "public_json (JObject [(''consumption_persisted'', standing_artifact lane_authority)])"
  proof -
    have "public_json (standing_artifact lane_authority)"
      unfolding public_json_def using standing_artifact_clean [of lane_authority] wf_redact_json [of "standing_artifact lane_authority"]
        redact_json_secret_free [of "standing_artifact lane_authority"] by simp
    then show ?thesis using public_keys by (simp add: public_json_def bt_invar_def secret_entry_def)
  qed
  assume p: "p \<in> {lane_plan, lane_consumed, lane_attempt}"
  have "artifacts lane_plan = []" using lane_draft_facts by (simp add: lane_plan_def prepare_plan_def refresh_hash_def)
  then show "artifacts p = [] \<or> public_json (JObject (artifacts p))"
    using p art by (auto simp: lane_attempt_def lane_consumed_def recorded_def)
qed (use lane_draft_facts lane_diffs in
    \<open>auto simp: lane_attempt_def lane_consumed_def lane_plan_def prepare_plan_def refresh_hash_def recorded_def\<close>)

lemma lane_v2_new: "v2_reachable demo_env lane_v2" "v2_plan lane_v2 = lane_plan" "authority_hash (pins lane_v2) = None"
proof -
  have "validate_transaction_journal demo_env lane_plan = Inr ()"
    using reachable_inv [OF lane_plan_reachable] by (simp add: plan_inv_def ready_valid)
  then have "v2_new demo_env lane_plan (pins lane_v2) = Inr lane_v2"
    by (simp add: v2_new_iff lane_v2_def v2_validate_iff)
       (simp add: pins_complete_def demo_pins_def lane_plan_fields admission_pin_def)
  then show "v2_reachable demo_env lane_v2" by (rule v2_reachable.created [OF lane_plan_reachable])
qed (simp_all add: lane_v2_def demo_pins_def)

lemma lane_hash: "auth_content_hash lane_authority \<noteq> []"
proof -
  have "hash_value demo_env (JObject m) \<noteq> []" for m by (simp add: hash_value_def demo_env_def)
  then show ?thesis by (simp add: lane_authority_def auth_draft_def auth_refresh_hash_def auth_hashable_content_def jobj_def)
qed

definition lane_bound :: plan_v2 where
  "lane_bound = v2_refresh_hash demo_env (lane_v2\<lparr>pins := (pins lane_v2)\<lparr>authority_hash := Some (auth_content_hash lane_authority)\<rparr>\<rparr>)"

lemma lane_bind: "bind_authority_hash demo_env (auth_content_hash lane_authority) lane_v2 = Inr lane_bound"
proof -
  have "v2_validate demo_env lane_bound = Inr ()"
    using v2_reachable_inv [OF lane_v2_new(1)] by (auto simp: v2_validate_iff lane_bound_def pins_complete_def)
  then show ?thesis
    using lane_hash by (simp add: bind_authority_iff lane_v2_new lane_plan_fields) (simp add: lane_bound_def)
qed

lemma lane_disk_bound:
  "\<exists>db. bind_plan_authority_hash demo_env (\<lambda>_. True) ''op-2'' (auth_content_hash lane_authority) lane_disk = (Inr (), db) \<and>
     faults db = [] \<and> load_stored_plan_record demo_env (\<lambda>_. True) ''op-2'' db = Inr (Current lane_bound) \<and>
     authority_file db = authority_file lane_disk \<and> pointer_file db = None"
proof -
  let ?u = "\<lambda>_::string. True" and ?h = "auth_content_hash lane_authority"
  have v: "v2_validate demo_env lane_v2 = Inr ()" using v2_reachable_inv [OF lane_v2_new(1)] by blast
  have cur: "load_stored_plan_record demo_env ?u ''op-2'' lane_disk = Inr (Current lane_v2)"
    using v by (simp add: current_record_iff stored_v2_def lane_v2_new lane_plan_fields)
      (simp add: lane_disk_def write_authority_def write_plan_v2_def empty_disk_def)
  have b: "v2_plan lane_bound = lane_plan" "v2_validate demo_env lane_bound = Inr ()"
    using bind_keeps [OF lane_bind v] by (simp_all add: lane_v2_new)
  have "resource_observation_hashes (pins lane_bound) = []" by (simp add: lane_bound_def lane_v2_def demo_pins_def)
  then have "public_json (v2_json demo_env lane_bound)"
    using lane_public [of lane_plan] b by (intro public_v2_json public_pins_json) simp_all
  then have w: "fst (write_current_plan demo_env lane_bound lane_disk) = Inr ()"
    by (intro write_current_without_faults demo_env_not_sensitive)
       (simp_all add: lane_disk_def write_authority_def write_plan_v2_def empty_disk_def)
  have run: "bind_plan_authority_hash demo_env ?u ''op-2'' ?h lane_disk = write_current_plan demo_env lane_bound lane_disk"
    using cur lane_bind by (simp add: bind_plan_authority_hash_def)
  have "load_stored_plan_record demo_env ?u ''op-2'' (snd (write_current_plan demo_env lane_bound lane_disk)) = Inr (Current lane_bound)"
    using write_current_ok [OF w] b by (simp add: stored_v2_def lane_plan_fields)
  moreover have "faults (snd (write_current_plan demo_env lane_bound lane_disk)) = []"
    by (rule write_current_faults) (simp add: lane_disk_def write_authority_def write_plan_v2_def empty_disk_def)
  moreover have "pointer_file (snd (write_current_plan demo_env lane_bound lane_disk)) = None"
    using write_current_elsewhere [of pointer_file demo_env lane_bound lane_disk]
    by (simp add: same_elsewhere_def write_plan_def write_plan_v2_def lane_disk_def write_authority_def empty_disk_def)
  ultimately show ?thesis
    using run w bind_authorities [of demo_env ?u "''op-2''" ?h lane_disk]
    by (cases "write_current_plan demo_env lane_bound lane_disk") simp
qed

definition lane_reserved :: standing_authority where
  "lane_reserved = lane_authority\<lparr>run_log := [\<lparr>run_at = 5, run_operation_id = ''op-2'',
     run_capability_id = ''account-api-tokens-delete-token''\<rparr>]\<rparr>"

lemma lane_authority_fields [simp]:
  "authority_id lane_authority = ''lane''" "run_log lane_authority = []" "max_runs_per_day lane_authority = 1"
  "minted_token_ids lane_authority = [''tok'']" "auth_status lane_authority = Active"
  by (simp_all add: lane_authority_def auth_draft_def auth_refresh_hash_def)

lemma lane_budget: "ensure_run_budget t lane_authority = Inr ()"
  by (simp add: ensure_run_budget_def runs_in_last_day_def)

lemma lane_reserve:
  "reserve_run demo_env 5 (operation_id lane_consumed) (cap_id (p_capability lane_consumed)) lane_authority = Inr lane_reserved"
  using lane_operational [of 5] lane_budget [of 5]
  by (simp add: reserve_run_def lane_reserved_def lane_consumed_def lane_plan_fields)

lemma lane_authorized: "t \<le> hours 100 \<Longrightarrow>
    authorize_standing_execution_at demo_env parse lane_authority lane_plan lane_input t = Inr ()"
  using lane_operational [of t] lane_budget [of t]
  by (simp add: authorize_standing_execution_at_def lane_plan_fields ends_with_def lane_input_def bt_get_def
      authorize_token_delete_def ok_or_def)

lemma lane_loads: "authority_file d = authority_file lane_disk \<Longrightarrow> load_authority (\<lambda>_. True) ''lane'' d = Inr lane_authority"
  by (simp add: load_authority_iff lane_disk_def write_authority_def)

lemma lane_pins:
  assumes "load_stored_plan_record demo_env (\<lambda>_. True) ''op-2'' db = Inr (Current lane_bound)"
    "authority_file db = authority_file lane_disk" "pointer_file db = None"
  shows "preflight demo_env (\<lambda>_. True) lane_session ''op-2'' db = Inr lane_plan"
    "admitted_pins demo_env (\<lambda>_. True) lane_session 4 lane_plan db = Inr ()"
proof -
  let ?u = "\<lambda>_::string. True"
  have b: "v2_plan lane_bound = lane_plan" by (simp add: lane_bound_def lane_v2_new)
  have j: "validate_transaction_journal demo_env lane_plan = Inr ()"
    using reachable_inv [OF lane_plan_reachable] by (simp add: plan_inv_def ready_valid)
  show "preflight demo_env ?u lane_session ''op-2'' db = Inr lane_plan"
    using assms(1) j by (simp add: preflight_def load_validated_plan_def ensure_plan_execution_contract_def
        ensure_capability_execution_supported_def b lane_plan_fields lane_session_def demo_session_def)
  have "active_admission_policy demo_env ?u db = Inr None" using assms(3) by (simp add: no_policy_iff)
  moreover have "list_authorities ?u [Authority_Entry ''lane''] db = Inr [lane_authority]"
    using assms(2) by (simp add: list_authorities_def validate_authority_id_def ensure_authority_identity_def
        lane_disk_def write_authority_def read_document_def)
  ultimately show "admitted_pins demo_env ?u lane_session 4 lane_plan db = Inr ()"
    using assms(1) lane_operational [of 4]
    by (simp add: admitted_pins_def validate_plan_v2_runtime_pins_def validate_policy_pin_def validate_authority_pin_def
        lane_plan_fields lane_session_def demo_session_def lane_bound_def lane_v2_def demo_pins_def admission_pin_def lane_capability)
qed

lemma lane_admitted:
  assumes "faults db = []" "load_stored_plan_record demo_env (\<lambda>_. True) ''op-2'' db = Inr (Current lane_bound)"
    "authority_file db = authority_file lane_disk"
  shows "\<exists>d'. admit_standing_plan demo_env (\<lambda>_. True) (\<lambda>_. None) (Inr ()) (Inr ()) (5, 5, 5, 6, 7) lane_authority lane_input
    lane_plan db = (Inr lane_attempt, d')"
proof -
  let ?u = "\<lambda>_::string. True"
  let ?g = "\<lparr>lock_authority_id = ''lane'', lock_authority_path = data_dir db @ ''/authorities/'' @ ''lane'' @ ''.json''\<rparr>"
  obtain d1 where s1: "save_authority_guarded demo_env ?u ?g lane_reserved db = (Inr (), d1)" "faults d1 = []"
  proof -
    have "save_authority_guarded demo_env ?u ?g lane_reserved db = atomic_write (write_authority ''lane'' lane_reserved) db"
      using public_json_redact [OF public_authority_json] assms(3)
      by (simp add: save_authority_guarded_def Let_def authority_path_def validate_authority_id_def lane_reserved_def
          lane_disk_def write_authority_def ensure_authority_identity_def read_document_def)
    then show ?thesis using that authorities.write_without_faults [OF assms(1), of "''lane''" lane_reserved]
      by (cases "atomic_write (write_authority ''lane'' lane_reserved) db") simp
  qed
  have "load_plan_v2 demo_env ?u (operation_id lane_consumed) d1 = Inr lane_bound"
    using assms(2) s1(1) save_authority_plans(1) [of demo_env ?u ?g lane_reserved db]
    by (simp add: current_record_iff load_plan_v2_iff lane_consumed_def lane_plan_fields)
  moreover have "v2_reachable demo_env lane_bound" by (rule v2_reachable.stepped [OF lane_v2_new(1) v2_step.bind [OF lane_bind]])
  moreover have "plan_step demo_env (v2_plan lane_bound) lane_consumed"
    using plan_step.consume_standing [OF lane_consume] by (simp add: lane_bound_def lane_v2_new)
  moreover have "resource_observation_hashes (pins lane_bound) = []" by (simp add: lane_bound_def lane_v2_def demo_pins_def)
  ultimately obtain q2 d2 where s2: "save_plan demo_env ?u lane_consumed d1 = (Inr (), d2)" "faults d2 = []"
      "v2_reachable demo_env q2" "v2_plan q2 = lane_consumed" "resource_observation_hashes (pins q2) = []"
      "load_plan_v2 demo_env ?u (operation_id lane_consumed) d2 = Inr q2"
    using clean_save [of lane_bound lane_consumed d1] lane_public [of lane_consumed] s1(2) by blast
  obtain d3 where s3: "save_plan demo_env ?u lane_attempt d2 = (Inr (), d3)"
    using clean_save [OF s2(3), of lane_attempt d2] lane_public [of lane_attempt] s2 lane_attempt_step
    by (auto simp: lane_attempt_def)
  have "persist_transaction_stage demo_env ?u 7 BoundaryAttemptPersisted lane_consumed d2 = (Inr lane_attempt, d3)"
    using s3 lane_attempt_record by (simp add: persist_Inr)
  moreover have "stored (save_authority_guarded demo_env ?u ?g lane_reserved) db = (Inr (), d1)"
    "stored (save_plan demo_env ?u lane_consumed) d1 = (Inr (), d2)"
    using s1(1) s2(1) by (simp_all add: stored_Inr)
  moreover have "lock_authority ?u (Inr ()) ''lane'' db = Inr ?g"
    by (simp add: lock_authority_def authority_path_def validate_authority_id_def)
  ultimately have "admit_standing_plan demo_env ?u (\<lambda>_. None) (Inr ()) (Inr ()) (5, 5, 5, 6, 7) lane_authority lane_input lane_plan db
      = (Inr lane_attempt, d3)"
    using lane_loads [OF assms(3)] lane_authorized [of 5 "\<lambda>_. None"] lane_consume lane_reserve by (simp add: admit_standing_plan_def)
  then show ?thesis by blast
qed

lemma lane_run:
  "\<exists>d'. run_plan_under_standing_authority demo_env (\<lambda>_. True) (\<lambda>_. None) lane_session (Inr ()) (Inr ()) (Inr ()) (4, 4)
     (5, 5, 5, 6, 7) lane_input ''op-2'' ''lane'' lane_disk = (Inr (Boundary lane_attempt), d')"
proof -
  let ?u = "\<lambda>_::string. True"
  obtain db where db: "bind_plan_authority_hash demo_env ?u ''op-2'' (auth_content_hash lane_authority) lane_disk = (Inr (), db)"
      "faults db = []" "load_stored_plan_record demo_env ?u ''op-2'' db = Inr (Current lane_bound)"
      "authority_file db = authority_file lane_disk" "pointer_file db = None"
    using lane_disk_bound by blast
  obtain d3 where "admit_standing_plan demo_env ?u (\<lambda>_. None) (Inr ()) (Inr ()) (5, 5, 5, 6, 7) lane_authority lane_input lane_plan db
      = (Inr lane_attempt, d3)"
    using lane_admitted [OF db(2-4)] by blast
  moreover have "stored (bind_plan_authority_hash demo_env ?u ''op-2'' (auth_content_hash lane_authority)) lane_disk = (Inr (), db)"
    using db(1) by (simp add: stored_Inr)
  moreover have "session_qualified lane_session = Inr ()" by (simp add: lane_session_def demo_session_def)
  ultimately have "run_plan_under_standing_authority demo_env ?u (\<lambda>_. None) lane_session (Inr ()) (Inr ()) (Inr ()) (4, 4)
     (5, 5, 5, 6, 7) lane_input ''op-2'' ''lane'' lane_disk = (Inr (Boundary lane_attempt), d3)"
    using lane_loads [OF refl] lane_pins [OF db(3-5)] lane_authorized [of 4 "\<lambda>_. None"] lane_plan_fields
    by (simp add: run_plan_under_standing_authority_def admit_execution_attestation_def act_return_def)
  then show ?thesis by blast
qed

text \<open>
  C3. No unaccounted run. Whatever a run under a standing authority returns and whichever of its
  writes fail, if it leaves a plan consumed that was not consumed before, then the stored
  document of the authority holds a reservation for that operation.
\<close>

theorem standing_run_accounted:
  fixes e u parse s plan_lk lk ev r1 r2 now t1 t2 t3 t4 input i aid d
  defines "d' \<equiv> snd (run_plan_under_standing_authority e u parse s plan_lk lk ev (r1, r2) (now, t1, t2, t3, t4) input i aid d)"
  assumes "spent e u j d'" "\<not> spent e u j d"
  shows "\<exists>a. load_authority u aid d' = Inr a \<and> j \<in> run_operation_id ` set (run_log a)"
  using standing_run_cases [of e u parse s plan_lk lk ev r1 r2 "(now, t1, t2, t3, t4)" input i aid d]
proof (elim disjE exE conjE)
  fix snap p db assume r: "load_authority u aid d = Inr snap"
    "bind_plan_authority_hash e u i (auth_content_hash snap) d = (Inr (), db)"
    "run_plan_under_standing_authority e u parse s plan_lk lk ev (r1, r2) (now, t1, t2, t3, t4) input i aid d =
      act_bind (admit_standing_plan e u parse lk ev (now, t1, t2, t3, t4) snap input p) (\<lambda>p2. act_return (Boundary p2)) db"
  have d': "d' = snd (admit_standing_plan e u parse lk ev (now, t1, t2, t3, t4) snap input p db)"
    unfolding d'_def r(3) by (simp add: act_bind_snd act_return_def split: sum.splits)
  have "\<not> spent e u j db" using bind_spent_iff [of e u j i "auth_content_hash snap" d] assms(3) r(2) by simp
  with admit_reserves [of e u j parse lk ev now t1 t2 t3 t4 snap input p db] assms(2) r(1) show ?thesis
    unfolding d' by (simp add: load_authority_iff)
qed (use assms in auto)

theorem standing_run_accounted_witness:
  "\<exists>a. load_authority (\<lambda>_. True) ''lane'' (snd (run_plan_under_standing_authority demo_env (\<lambda>_. True) (\<lambda>_. None) lane_session
       (Inr ()) (Inr ()) (Inr ()) (4, 4) (5, 5, 5, 6, 7) lane_input ''op-2'' ''lane'' lane_disk)) = Inr a \<and>
     ''op-2'' \<in> run_operation_id ` set (run_log a)"
proof (rule standing_run_accounted)
  show "spent demo_env (\<lambda>_. True) ''op-2'' (snd (run_plan_under_standing_authority demo_env (\<lambda>_. True) (\<lambda>_. None) lane_session
       (Inr ()) (Inr ()) (Inr ()) (4, 4) (5, 5, 5, 6, 7) lane_input ''op-2'' ''lane'' lane_disk))"
    using lane_run standing_boundary_spent by (metis snd_conv)
  show "\<not> spent demo_env (\<lambda>_. True) ''op-2'' lane_disk"
    by (auto simp: spent_def load_plan_v2_iff lane_disk_def write_authority_def write_plan_v2_def lane_v2_new
        lane_plan_fields executed_def)
qed

text \<open>
  What holds when a run under a standing authority reaches the provider boundary: at the
  time of admission the stored authority was operational, authorised the exact request and had
  budget left, and the stored plan was an unapproved draft within its expiry; the store now holds
  the authority with one more reservation, and exactly that plan, consumed, with a receipt that
  names the authority and its content, and the attempt recorded.
\<close>

lemma standing_run_boundary:
  assumes "run_plan_under_standing_authority e u parse s plan_lk lk ev (r1, r2) (now, t1, t2, t3, t4) input i aid d
    = (Inr (Boundary p), d')"
  shows "\<exists>a q0 p0 q. load_authority u aid d = Inr a \<and> load_stored_plan_record e u i d = Inr (Current q0) \<and> p0 = v2_plan q0 \<and>
    ensure_operational_at e now a = Inr () \<and>
    authorize_standing_execution_at e parse a p0 input now = Inr () \<and> check_standing e t2 a p0 = Inr () \<and>
    t1 \<le> p_expires_at p0 \<and> plan.bound e p0 \<and>
    runs_in_last_day a now < max_runs_per_day a \<and> i \<notin> run_operation_id ` set (run_log a) \<and>
    load_authority u aid d' = Inr (a\<lparr>run_log := run_log a @ [\<lparr>run_at = now, run_operation_id = i,
      run_capability_id = cap_id (p_capability p0)\<rparr>]\<rparr>) \<and>
    load_stored_plan_record e u i d' = Inr (Current q) \<and> v2_plan q = p \<and>
    p = recorded e t4 BoundaryAttemptPersisted None
      (recorded e t3 ConsumptionPersisted (Some (standing_artifact a)) (p0\<lparr>status := Consumed\<rparr>))"
  by (rule standing_boundary_run [OF assms])

lemma lane_revoke:
  "\<exists>d'. key_policy_revoke demo_env (\<lambda>_. True) (Inr ()) ''lane'' lane_disk = (Inr (auth_revoke lane_authority), d')"
proof -
  let ?u = "\<lambda>_::string. True"
  let ?g = "\<lparr>lock_authority_id = ''lane'', lock_authority_path = data_dir lane_disk @ ''/authorities/'' @ ''lane'' @ ''.json''\<rparr>"
  have "save_authority_guarded demo_env ?u ?g (auth_revoke lane_authority) lane_disk =
      atomic_write (write_authority ''lane'' (auth_revoke lane_authority)) lane_disk"
    using public_json_redact [OF public_authority_json]
    by (simp add: save_authority_guarded_def Let_def authority_path_def validate_authority_id_def auth_revoke_def
        lane_disk_def write_authority_def ensure_authority_identity_def read_document_def)
  moreover have "faults lane_disk = []" by (simp add: lane_disk_def write_authority_def write_plan_v2_def empty_disk_def)
  ultimately obtain d' where "stored (save_authority_guarded demo_env ?u ?g (auth_revoke lane_authority)) lane_disk = (Inr (), d')"
    using authorities.write_without_faults [of lane_disk "''lane''" "auth_revoke lane_authority"]
    by (cases "atomic_write (write_authority ''lane'' (auth_revoke lane_authority)) lane_disk") (simp add: stored_Inr)
  moreover have "lock_authority ?u (Inr ()) ''lane'' lane_disk = Inr ?g"
    by (simp add: lock_authority_def authority_path_def validate_authority_id_def)
  ultimately show ?thesis using lane_loads [OF refl] by (simp add: key_policy_revoke_def act_return_def)
qed

end
