(* ===== verification/Json_Numbers.thy ===== *)
theory Json_Numbers
  imports Json_Value "HOL-Library.Log_Nat"
begin

text \<open>
  Numbers of JSON documents as the request validator of \<^verbatim>\<open>crates/cfctl-cloudflare/src/lib.rs\<close> treats
  them: conversion to integers and doubles, the exact test for \<^verbatim>\<open>multipleOf\<close> on decimal literals,
  and the key under which equal numbers are recognised.
\<close>

section \<open>Conversions\<close>

text \<open>
  A \<^verbatim>\<open>serde_json::Number\<close> is an unsigned or a negative 64-bit integer or a finite double. Doubles
  are their rational values.
\<close>

definition is_f64 :: "rat \<Rightarrow> bool" where
  "is_f64 r \<longleftrightarrow> (\<exists>m k. m < 2 ^ 53 \<and> -1074 \<le> k \<and> k \<le> 971 \<and> \<bar>r\<bar> = of_nat m * 2 powi k)"

fun wf_number :: "number \<Rightarrow> bool" where
  "wf_number (PosInt n) = (n < 2 ^ 64)"
| "wf_number (NegInt i) = (- (2 ^ 63) \<le> i \<and> i < 0)"
| "wf_number (Float r) = is_f64 r"

fun number_value :: "number \<Rightarrow> rat" where
  "number_value (PosInt n) = of_nat n"
| "number_value (NegInt i) = of_int i"
| "number_value (Float r) = r"

fun number_as_i64 :: "number \<Rightarrow> int option" where
  "number_as_i64 (PosInt n) = (if n < 2 ^ 63 then Some (int n) else None)"
| "number_as_i64 (NegInt i) = Some i"
| "number_as_i64 (Float _) = None"

fun number_as_u64 :: "number \<Rightarrow> nat option" where
  "number_as_u64 (PosInt n) = Some n"
| "number_as_u64 _ = None"

text \<open>Rounding an integer to the nearest double, ties to even.\<close>

definition f64_of_nat :: "nat \<Rightarrow> nat" where
  "f64_of_nat n =
     (let e = floorlog 2 n - 53; q = n div 2 ^ e; r = n mod 2 ^ e
      in (if 2 * r > 2 ^ e \<or> (2 * r = 2 ^ e \<and> odd q) then q + 1 else q) * 2 ^ e)"

definition f64_of_int :: "int \<Rightarrow> rat" where
  "f64_of_int i = of_int (sgn i) * of_nat (f64_of_nat (nat \<bar>i\<bar>))"

fun number_as_f64 :: "number \<Rightarrow> rat" where
  "number_as_f64 (PosInt n) = of_nat (f64_of_nat n)"
| "number_as_f64 (NegInt i) = f64_of_int i"
| "number_as_f64 (Float r) = r"

definition show_int :: "int \<Rightarrow> string" where
  "show_int i = (if i < 0 then ''-'' else []) @ show_nat (nat \<bar>i\<bar>)"

text \<open>\<^verbatim>\<open>Display\<close> of a number; how a double prints is the parameter \<open>ryu\<close>.\<close>

fun show_number :: "(rat \<Rightarrow> string) \<Rightarrow> number \<Rightarrow> string" where
  "show_number ryu (PosInt n) = show_nat n"
| "show_number ryu (NegInt i) = show_int i"
| "show_number ryu (Float r) = ryu r"

section \<open>Decimal literals\<close>

definition is_ascii_digit :: "char \<Rightarrow> bool" where
  "is_ascii_digit c \<longleftrightarrow> 48 \<le> byte c \<and> byte c \<le> 57"

definition digits_value :: "string \<Rightarrow> nat" where
  "digits_value s = foldl (\<lambda>n c. 10 * n + (byte c - 48)) 0 s"

text \<open>\<^verbatim>\<open>str::parse\<close> at an unsigned and a signed width.\<close>

definition parse_unsigned :: "nat \<Rightarrow> string \<Rightarrow> nat option" where
  "parse_unsigned w s =
     (let t = (case s of c # cs \<Rightarrow> if c = CHR ''+'' then cs else s | [] \<Rightarrow> s)
      in if t \<noteq> [] \<and> list_all is_ascii_digit t \<and> digits_value t < 2 ^ w then Some (digits_value t) else None)"

definition parse_signed :: "nat \<Rightarrow> string \<Rightarrow> int option" where
  "parse_signed w s =
     (let (negative, t) = (case s of
          [] \<Rightarrow> (False, s)
        | c # cs \<Rightarrow> if c = CHR ''-'' then (True, cs) else if c = CHR ''+'' then (False, cs) else (False, s));
        i = (if negative then - int (digits_value t) else int (digits_value t))
      in if t \<noteq> [] \<and> list_all is_ascii_digit t \<and> - (2 ^ (w - 1)) \<le> i \<and> i < 2 ^ (w - 1) then Some i else None)"

text \<open>Arithmetic on 32-bit signed integers that fails instead of wrapping.\<close>

definition checked_i32 :: "int \<Rightarrow> int option" where
  "checked_i32 i = (if - (2 ^ 31) \<le> i \<and> i < 2 ^ 31 then Some i else None)"

text \<open>\<^verbatim>\<open>split_once\<close> at the first character that satisfies a predicate.\<close>

fun split_once :: "(char \<Rightarrow> bool) \<Rightarrow> string \<Rightarrow> (string \<times> string) option" where
  "split_once P [] = None"
| "split_once P (c # cs) =
     (if P c then Some ([], cs) else map_option (\<lambda>(a, b). (c # a, b)) (split_once P cs))"

record magnitude =
  coefficient :: nat
  exponent :: int

function strip_tens :: "nat \<Rightarrow> int \<Rightarrow> magnitude option" where
  "strip_tens c k =
     (if c \<noteq> 0 \<and> c mod 10 = 0 then Option.bind (checked_i32 (k + 1)) (strip_tens (c div 10))
      else Some \<lparr>coefficient = c, exponent = k\<rparr>)"
  by pat_completeness auto

termination
  by (relation "measure fst") auto

declare strip_tens.simps [simp del]

definition unsigned_literal :: "string \<Rightarrow> string" where
  "unsigned_literal s =
     (case s of [] \<Rightarrow> [] | c # cs \<Rightarrow> if c = CHR ''-'' \<or> c = CHR ''+'' then cs else s)"

definition mantissa_magnitude :: "string \<Rightarrow> int \<Rightarrow> magnitude option" where
  "mantissa_magnitude mantissa explicit_exponent =
     (let (whole, fraction) = (case split_once (\<lambda>c. c = CHR ''.'') mantissa of
            Some parts \<Rightarrow> parts | None \<Rightarrow> (mantissa, []))
      in if whole = [] \<or> \<not> list_all is_ascii_digit whole \<or> \<not> list_all is_ascii_digit fraction then None
         else Option.bind (parse_unsigned 128 (whole @ fraction)) (\<lambda>c.
           Option.bind (checked_i32 (int (length fraction))) (\<lambda>fractional_digits.
           Option.bind (checked_i32 (explicit_exponent - fractional_digits)) (\<lambda>k.
           if c = 0 then Some \<lparr>coefficient = 0, exponent = 0\<rparr> else strip_tens c k))))"

definition decimal_magnitude :: "string \<Rightarrow> magnitude option" where
  "decimal_magnitude rendered =
     (let unsigned = unsigned_literal rendered in
      case split_once (\<lambda>c. c = CHR ''e'' \<or> c = CHR ''E'') unsigned of
        Some (mantissa, ex) \<Rightarrow> Option.bind (parse_signed 32 ex) (mantissa_magnitude mantissa)
      | None \<Rightarrow> mantissa_magnitude unsigned 0)"

section \<open>Exact multiples\<close>

function greatest_common_divisor :: "nat \<Rightarrow> nat \<Rightarrow> nat" where
  "greatest_common_divisor left right =
     (if right = 0 then left else greatest_common_divisor right (left mod right))"
  by pat_completeness auto

termination
  by (relation "measure snd") auto

declare greatest_common_divisor.simps [simp del]

text \<open>
  The loop does not end when the value is zero, which \<open>None\<close> stands for. The count stays far below
  the width at which the source saturates.
\<close>

partial_function (option) remove_factor_from :: "nat \<Rightarrow> nat \<Rightarrow> nat \<Rightarrow> (nat \<times> nat) option" where
  "remove_factor_from v factor n =
     (if v mod factor = 0 then remove_factor_from (v div factor) factor (min (n + 1) (2 ^ 32 - 1))
      else Some (v, n))"

definition remove_factor :: "nat \<Rightarrow> nat \<Rightarrow> (nat \<times> nat) option" where
  "remove_factor v factor = remove_factor_from v factor 0"

text \<open>The outer option is \<open>None\<close> when a loop does not end, the inner one is the result of the source.\<close>

definition exact_decimal_multiple :: "(rat \<Rightarrow> string) \<Rightarrow> number \<Rightarrow> number \<Rightarrow> bool option option" where
  "exact_decimal_multiple ryu number multiple =
     (case (decimal_magnitude (show_number ryu number), decimal_magnitude (show_number ryu multiple)) of
        (Some v, Some d) \<Rightarrow>
          if coefficient d = 0 \<or> starts_with (show_number ryu multiple) ''-'' then Some None
          else if coefficient v = 0 then Some (Some True)
          else
            (let common = greatest_common_divisor (coefficient v) (coefficient d);
                 numerator = coefficient v div common;
                 denominator = coefficient d div common
             in case checked_i32 (exponent v - exponent d) of
                  None \<Rightarrow> Some None
                | Some difference \<Rightarrow>
                    if difference \<ge> 0 then
                      Option.bind (remove_factor denominator 2) (\<lambda>(den1, twos).
                      Option.bind (remove_factor den1 5) (\<lambda>(den2, fives).
                      Some (Some (den2 = 1 \<and> int twos \<le> difference \<and> int fives \<le> difference))))
                    else
                      Option.bind (remove_factor numerator 2) (\<lambda>(_, twos).
                      Option.bind (remove_factor numerator 5) (\<lambda>(_, fives).
                      Some (Some (int twos \<ge> - difference \<and> int fives \<ge> - difference)))))
      | _ \<Rightarrow> Some None)"

section \<open>Facts about multiples\<close>

lemma greatest_common_divisor_gcd: "greatest_common_divisor a b = gcd a b"
proof (induction a b rule: greatest_common_divisor.induct)
  case (1 a b)
  then show ?case
    by (cases "b = 0") (simp_all add: greatest_common_divisor.simps [of a] gcd_red_nat [of a b])
qed

text \<open>Removing a factor from a positive number ends, with the largest power that divides it.\<close>

lemma remove_factor_from_ends:
  assumes "0 < v" "1 < f" "v < 2 ^ b" "n + b < 2 ^ 32"
  shows "\<exists>w k. remove_factor_from v f n = Some (w, n + k) \<and> v = f ^ k * w \<and> \<not> f dvd w"
  using assms
proof (induction b arbitrary: v n)
  case (Suc b)
  show ?case
  proof (cases "f dvd v")
    case True
    then obtain u where u: "v = f * u" by blast
    with Suc.prems have "0 < u" by (cases u) simp_all
    moreover have "2 * u \<le> v" using Suc.prems(2) u by simp
    then have "u < 2 ^ b" using Suc.prems(3) by simp
    ultimately obtain w k where "remove_factor_from u f (Suc n) = Some (w, Suc n + k)" "u = f ^ k * w" "\<not> f dvd w"
      using Suc.IH [of u "Suc n"] Suc.prems by auto
    moreover have "remove_factor_from v f n = remove_factor_from u f (Suc n)"
      by (subst remove_factor_from.simps) (use Suc.prems u in simp)
    ultimately have "remove_factor_from v f n = Some (w, n + Suc k)" "v = f ^ Suc k * w" using u by simp_all
    with \<open>\<not> f dvd w\<close> show ?thesis by blast
  next
    case False
    then show ?thesis
      by (intro exI [of _ v] exI [of _ 0]) (simp add: remove_factor_from.simps [of v] mod_eq_0_iff_dvd)
  qed
qed simp

lemma remove_factor_ends:
  assumes "0 < v" "1 < f" "v < 2 ^ 128"
  obtains w k where "remove_factor v f = Some (w, k)" "v = f ^ k * w" "\<not> f dvd w"
  using remove_factor_from_ends [OF assms, of 0] that by (auto simp: remove_factor_def)

lemma coprime_five: "\<not> 5 dvd z \<Longrightarrow> coprime z (5::nat)"
proof -
  assume "\<not> 5 dvd z"
  then have "z mod 5 \<in> {1, 2, 3, 4}" by (simp add: dvd_eq_mod_eq_0) presburger
  then have "gcd 5 (z mod 5) = 1" by (auto simp: gcd_non_0_nat)
  then have "gcd z 5 = 1" using gcd_red_nat [of z 5] by simp
  then show ?thesis by (simp add: coprime_iff_gcd_eq_1)
qed

text \<open>Whether a number without the factors two and five left divides a power of ten.\<close>

lemma dvd_power_of_ten:
  assumes "v = 2 ^ i * w" "\<not> 2 dvd w" "w = 5 ^ j * z" "\<not> 5 dvd z"
  shows "v dvd 10 ^ d \<longleftrightarrow> z = (1::nat) \<and> i \<le> d \<and> j \<le> d"
proof
  assume "v dvd 10 ^ d"
  moreover have ten: "(10::nat) ^ d = 2 ^ d * 5 ^ d" by (simp add: power_mult_distrib [symmetric])
  ultimately have d: "v dvd 2 ^ d * 5 ^ d" by simp
  have "coprime z (2 ^ d)" "coprime z (5 ^ d)"
    using assms(2,3) coprime_five [OF assms(4)] by simp_all
  moreover have "z dvd 2 ^ d * 5 ^ d" using d assms(1,3) by (metis dvd_mult_right)
  ultimately have "z = 1" by (metis coprime_dvd_mult_right_iff coprime_common_divisor dvd_refl nat_dvd_1_iff_1)
  moreover have "2 ^ i dvd (2::nat) ^ d"
  proof -
    have "coprime (2 ^ i) (5 ^ d :: nat)" by simp
    moreover have "2 ^ i dvd 2 ^ d * (5::nat) ^ d" using d assms(1) by (metis dvd_mult_left)
    ultimately show ?thesis by (simp add: coprime_dvd_mult_left_iff)
  qed
  moreover have "5 ^ j dvd (5::nat) ^ d"
  proof -
    have "coprime (5 ^ j) (2 ^ d :: nat)" by simp
    moreover have "5 ^ j dvd 2 ^ d * (5::nat) ^ d" using d assms(1,3) by (metis dvd_mult_left dvd_mult_right)
    ultimately show ?thesis by (simp add: coprime_dvd_mult_right_iff)
  qed
  ultimately show "z = 1 \<and> i \<le> d \<and> j \<le> d" by (simp add: power_dvd_imp_le)
next
  assume "z = 1 \<and> i \<le> d \<and> j \<le> d"
  then have "v = 2 ^ i * 5 ^ j" "(2::nat) ^ i dvd 2 ^ d" "(5::nat) ^ j dvd 5 ^ d"
    using assms by (simp_all add: le_imp_power_dvd)
  then have "v dvd 2 ^ d * 5 ^ d" by (simp add: mult_dvd_mono)
  then show "v dvd 10 ^ d" by (simp add: power_mult_distrib [symmetric])
qed

lemma strip_tens_Some:
  "strip_tens c k = Some m \<Longrightarrow> 0 < c \<Longrightarrow>
     0 < coefficient m \<and> coefficient m \<le> c \<and> \<not> 10 dvd coefficient m \<and>
     (of_nat (coefficient m) * 10 powi exponent m :: rat) = of_nat c * 10 powi k"
proof (induction c k rule: strip_tens.induct)
  case (1 c k)
  show ?case
  proof (cases "10 dvd c")
    case True
    then obtain u where u: "c = 10 * u" by blast
    then have "0 < u" using 1 by simp
    moreover have "Option.bind (checked_i32 (k + 1)) (strip_tens u) = Some m"
      using 1(2,3) u strip_tens.simps [of c k] by simp
    then have "checked_i32 (k + 1) = Some (k + 1)" "strip_tens u (k + 1) = Some m"
      by (auto simp: checked_i32_def split: if_splits)
    ultimately have "0 < coefficient m \<and> coefficient m \<le> u \<and> \<not> 10 dvd coefficient m \<and>
        (of_nat (coefficient m) * 10 powi exponent m :: rat) = of_nat u * 10 powi (k + 1)"
      using 1(1) [of "k + 1"] u by simp
    moreover have "(of_nat u * 10 powi (k + 1) :: rat) = of_nat c * 10 powi k"
      using u by (simp add: power_int_add)
    ultimately show ?thesis using u by simp
  next
    case False
    then show ?thesis using 1(2,3) by (auto simp: strip_tens.simps [of c] mod_eq_0_iff_dvd)
  qed
qed

text \<open>The rational number a literal stands for, without its sign.\<close>

definition magnitude_value :: "magnitude \<Rightarrow> rat" where
  "magnitude_value m = of_nat (coefficient m) * 10 powi exponent m"

lemma parse_unsigned_less: "parse_unsigned w s = Some n \<Longrightarrow> n < 2 ^ w"
  by (auto simp: parse_unsigned_def Let_def split: if_splits)

lemma mantissa_magnitude_normal:
  assumes "mantissa_magnitude t k = Some m"
  shows "coefficient m < 2 ^ 128 \<and> (coefficient m \<noteq> 0 \<longrightarrow> \<not> 10 dvd coefficient m)"
proof -
  obtain w f where "(case split_once (\<lambda>c. c = CHR ''.'') t of Some parts \<Rightarrow> parts | None \<Rightarrow> (t, [])) = (w, f)"
    by (cases "case split_once (\<lambda>c. c = CHR ''.'') t of Some parts \<Rightarrow> parts | None \<Rightarrow> (t, [])") blast
  with assms obtain c k' where "parse_unsigned 128 (w @ f) = Some c"
      "c = 0 \<and> m = \<lparr>coefficient = 0, exponent = 0\<rparr> \<or> c \<noteq> 0 \<and> strip_tens c k' = Some m"
    by (cases "parse_unsigned 128 (w @ f) = Some 0") (auto simp: mantissa_magnitude_def bind_eq_Some_conv split: if_splits)
  then show ?thesis using parse_unsigned_less [of 128 "w @ f" c] strip_tens_Some [of c k' m] by auto
qed

lemma decimal_magnitude_normal:
  assumes "decimal_magnitude s = Some m"
  shows "coefficient m < 2 ^ 128 \<and> (coefficient m \<noteq> 0 \<longrightarrow> \<not> 10 dvd coefficient m)"
proof -
  obtain t k where "mantissa_magnitude t k = Some m"
    using assms by (auto simp: decimal_magnitude_def Let_def bind_eq_Some_conv split: option.splits)
  then show ?thesis by (rule mantissa_magnitude_normal)
qed

text \<open>Whether the quotient of two decimal numbers with coprime coefficients is an integer.\<close>

lemma scaled_quotient_pos:
  assumes "coprime a b" "0 < b"
  shows "(\<exists>q::int. of_nat a * 10 ^ t = (of_int q * of_nat b :: rat)) \<longleftrightarrow> b dvd 10 ^ t"
proof
  assume "\<exists>q::int. of_nat a * 10 ^ t = (of_int q * of_nat b :: rat)"
  then obtain q :: int where "of_nat a * 10 ^ t = (of_int q * of_nat b :: rat)" by blast
  then have "of_int (int (a * 10 ^ t)) = (of_int (q * int b) :: rat)" by simp
  then have "int b dvd int (a * 10 ^ t)" unfolding of_int_eq_iff by simp
  then have "b dvd a * 10 ^ t" by (simp only: int_dvd_int_iff)
  with assms(1) show "b dvd 10 ^ t" by (simp add: coprime_dvd_mult_right_iff coprime_commute)
next
  assume "b dvd 10 ^ t"
  then obtain c where "10 ^ t = b * c" by blast
  then have "(10 ^ t :: rat) = of_nat b * of_nat c" by (metis of_nat_mult of_nat_numeral of_nat_power)
  then have "of_nat a * 10 ^ t = (of_int (int a * int c) * of_nat b :: rat)" by simp
  then show "\<exists>q::int. of_nat a * 10 ^ t = (of_int q * of_nat b :: rat)" by blast
qed

lemma scaled_quotient_neg:
  assumes "\<not> 10 dvd a" "0 < t"
  shows "of_nat a \<noteq> (of_int q * of_nat b * 10 ^ t :: rat)"
proof
  assume "of_nat a = (of_int q * of_nat b * 10 ^ t :: rat)"
  then have "of_int (int a) = (of_int (q * int b * 10 ^ t) :: rat)" by simp
  then have "int a = q * int b * 10 ^ t" unfolding of_int_eq_iff .
  then have "int 10 dvd int a" using assms(2) by (cases t) simp_all
  with assms(1) show False by (simp only: int_dvd_int_iff)
qed

text \<open>
  When both literals have a magnitude, the divisor is positive and the exponents do not overflow,
  the routine ends with the exact answer.
\<close>

lemma exact_multiple:
  assumes v: "decimal_magnitude (show_number ryu n) = Some v" and d: "decimal_magnitude (show_number ryu m) = Some d"
    and pos: "coefficient d \<noteq> 0" "\<not> starts_with (show_number ryu m) ''-''"
    and fits: "checked_i32 (exponent v - exponent d) = Some k"
  shows "exact_decimal_multiple ryu n m = Some (Some (\<exists>q::int. magnitude_value v = of_int q * magnitude_value d))"
proof (cases "coefficient v = 0")
  case True
  then show ?thesis using assms by (auto simp: exact_decimal_multiple_def magnitude_value_def intro: exI [of _ 0])
next
  case False
  define g where "g = gcd (coefficient v) (coefficient d)"
  define a where "a = coefficient v div g"
  define b where "b = coefficient d div g"
  have g: "g \<noteq> 0" "coefficient v = g * a" "coefficient d = g * b" using pos False by (simp_all add: g_def a_def b_def)
  have ab: "coprime a b" unfolding a_def b_def g_def by (rule div_gcd_coprime) (use False in simp)
  have pos_ab: "0 < a" "0 < b" using g(2,3) False pos(1) by (metis gr0I mult_0_right)+
  have "a \<le> coefficient v" "b \<le> coefficient d" using g by (cases g; simp)+
  then have lim: "a < 2 ^ 128" "b < 2 ^ 128"
    using decimal_magnitude_normal [OF v] decimal_magnitude_normal [OF d] le_less_trans by blast+
  have ten: "\<not> 10 dvd a" using g(2) False decimal_magnitude_normal [OF v] by (metis dvd_mult)
  have k: "k = exponent v - exponent d" using fits by (simp add: checked_i32_def split: if_splits)
  have ratio: "magnitude_value v = of_int q * magnitude_value d \<longleftrightarrow> of_nat a * 10 powi k = (of_int q * of_nat b :: rat)" for q
    using g by (simp add: magnitude_value_def k power_int_diff field_simps)
  note run = exact_decimal_multiple_def [of ryu n m, unfolded v d greatest_common_divisor_gcd]
  show ?thesis
  proof (cases "0 \<le> k")
    case True
    obtain w i where w: "remove_factor b 2 = Some (w, i)" "b = 2 ^ i * w" "\<not> 2 dvd w"
      using remove_factor_ends [OF pos_ab(2) _ lim(2), of 2] by auto
    have "0 < w" using w(2) pos_ab(2) by (metis gr0I mult_0_right)
    moreover have "w \<le> b" unfolding w(2) by simp
    then have "w < 2 ^ 128" using lim(2) le_less_trans by blast
    ultimately obtain z j where z: "remove_factor w 5 = Some (z, j)" "w = 5 ^ j * z" "\<not> 5 dvd z"
      using remove_factor_ends [of w 5] by (metis numeral_One one_less_numeral_iff semiring_norm(77))
    have "(\<exists>q::int. magnitude_value v = of_int q * magnitude_value d) \<longleftrightarrow> b dvd 10 ^ nat k"
      using scaled_quotient_pos [OF ab pos_ab(2), of "nat k"] True by (simp add: ratio power_int_def)
    also have "\<dots> \<longleftrightarrow> z = 1 \<and> int i \<le> k \<and> int j \<le> k"
      using dvd_power_of_ten [OF w(2,3) z(2,3)] True by (simp add: nat_le_iff [symmetric] le_nat_iff)
    finally show ?thesis using True False pos fits w(1) z(1) by (simp add: run g_def [symmetric] a_def [symmetric] b_def [symmetric] Let_def)
  next
    case False
    then have t: "0 < nat (- k)" by simp
    obtain w i where w: "remove_factor a 2 = Some (w, i)" "a = 2 ^ i * w" using remove_factor_ends [OF pos_ab(1) _ lim(1), of 2] by (metis one_less_numeral_iff semiring_norm(76))
    obtain z j where z: "remove_factor a 5 = Some (z, j)" "a = 5 ^ j * z" using remove_factor_ends [OF pos_ab(1) _ lim(1), of 5] by (metis one_less_numeral_iff semiring_norm(77))
    have "\<not> (- k \<le> int i \<and> - k \<le> int j)"
    proof
      assume "- k \<le> int i \<and> - k \<le> int j"
      then have "0 < i" "0 < j" using False by simp_all
      then have "2 dvd a" "5 dvd a" using w(2) z(2) by (metis dvd_mult2 dvd_power)+
      moreover have "coprime (2::nat) 5" by simp
      ultimately have "2 * 5 dvd a" by (rule divides_mult)
      with ten show False by simp
    qed
    moreover have "\<not> (\<exists>q::int. magnitude_value v = of_int q * magnitude_value d)"
    proof
      assume "\<exists>q::int. magnitude_value v = of_int q * magnitude_value d"
      then obtain q :: int where "of_nat a * 10 powi k = (of_int q * of_nat b :: rat)" by (auto simp: ratio)
      then have "of_nat a = (of_int q * of_nat b * 10 ^ nat (- k) :: rat)"
        using False by (simp add: power_int_def field_simps)
      with scaled_quotient_neg [OF ten t] show False by blast
    qed
    ultimately show ?thesis using False \<open>coefficient v \<noteq> 0\<close> pos fits w(1) z(1)
      by (simp add: run g_def [symmetric] a_def [symmetric] Let_def)
  qed
qed

section \<open>Equal numbers\<close>

text \<open>The binary exponent of a positive rational number.\<close>

definition binary_exponent :: "rat \<Rightarrow> int" where
  "binary_exponent r =
     (let (a, b) = quotient_of r; e = int (floorlog 2 (nat a)) - int (floorlog 2 (nat b))
      in if 2 powi e \<le> r then e else e - 1)"

text \<open>\<^verbatim>\<open>f64::to_bits\<close> of a double other than zero: the exponent and mantissa fields, and the sign.\<close>

definition magnitude_bits :: "rat \<Rightarrow> nat" where
  "magnitude_bits r =
     (let e = binary_exponent r in if e < -1022 then nat \<lfloor>r * 2 ^ 1074\<rfloor>
      else nat (e + 1023) * 2 ^ 52 + (nat \<lfloor>r * 2 powi (52 - e)\<rfloor> - 2 ^ 52))"

definition f64_to_bits :: "rat \<Rightarrow> nat" where
  "f64_to_bits r = (if r < 0 then 2 ^ 63 else 0) + magnitude_bits \<bar>r\<bar>"

definition hex_digit :: "nat \<Rightarrow> char" where
  "hex_digit d = char_of (if d < 10 then 48 + d else 87 + d)"

text \<open>The format \<^verbatim>\<open>{:016x}\<close> of a 64-bit number.\<close>

definition hex16 :: "nat \<Rightarrow> string" where
  "hex16 n = map (\<lambda>i. hex_digit (n div 16 ^ i mod 16)) (rev [0..<16])"

definition schema_number_equality_key :: "number \<Rightarrow> string" where
  "schema_number_equality_key number =
     (case number_as_i64 number of
        Some i \<Rightarrow> show_int i
      | None \<Rightarrow>
          (case number_as_u64 number of
             Some n \<Rightarrow> show_nat n
           | None \<Rightarrow>
               (let r = number_as_f64 number in
                if r = 0 then ''0''
                else if frac r = 0 \<and> - (2 ^ 63) \<le> r \<and> r < 0 \<and> f64_of_int \<lfloor>r\<rfloor> = r then show_int \<lfloor>r\<rfloor>
                else if frac r = 0 \<and> 0 \<le> r \<and> r < 2 ^ 64 \<and> f64_of_int \<lfloor>r\<rfloor> = r then show_nat (nat \<lfloor>r\<rfloor>)
                else ''f'' @ hex16 (f64_to_bits r))))"

subsection \<open>Decimal display\<close>

lemma digit_value [simp]: "d < 10 \<Longrightarrow> byte (digit_char d) = 48 + d"
  by (simp add: digit_char_def)

lemma digit_is_digit [simp]: "d < 10 \<Longrightarrow> is_ascii_digit (digit_char d)"
  by (simp add: is_ascii_digit_def)

lemma digits_value_append: "digits_value (s @ [c]) = 10 * digits_value s + (byte c - 48)"
  by (simp add: digits_value_def)

lemma show_nat_digits: "digits_value (show_nat n) = n \<and> list_all is_ascii_digit (show_nat n) \<and> show_nat n \<noteq> []"
proof (induction n rule: show_nat.induct)
  case (1 n)
  show ?case
  proof (cases "n < 10")
    case True
    then show ?thesis by (simp add: show_nat.simps [of n] digits_value_def is_ascii_digit_def)
  next
    case False
    with 1 have "digits_value (show_nat n) = 10 * (n div 10) + n mod 10" "list_all is_ascii_digit (show_nat n)"
      by (simp_all add: show_nat.simps [of n] digits_value_append)
    then show ?thesis using False by (simp add: show_nat.simps [of n])
  qed
qed

lemma show_nat_inj: "show_nat m = show_nat n \<longleftrightarrow> m = n"
  by (metis show_nat_digits)

lemma show_nat_chars: "c \<in> set (show_nat n) \<Longrightarrow> is_ascii_digit c"
  using show_nat_digits [of n] by (simp add: list_all_iff)

lemma show_int_inj: "show_int i = show_int j \<longleftrightarrow> i = j"
proof
  assume eq: "show_int i = show_int j"
  have minus: "show_nat n \<noteq> CHR ''-'' # s" for n s
    using show_nat_chars [of "CHR ''-''" n] by (auto simp: is_ascii_digit_def)
  show "i = j"
    using eq minus minus [symmetric] by (cases "i < 0"; cases "j < 0") (auto simp: show_int_def show_nat_inj)
qed simp


subsection \<open>Bits of a double\<close>

lemma floorlog_scale:
  assumes "0 < x"
  shows "(2 powi (int (floorlog 2 x) - 1) :: rat) \<le> of_nat x" "(of_nat x :: rat) < 2 powi int (floorlog 2 x)"
proof -
  have l: "2 ^ (floorlog 2 x - 1) \<le> x" "x < 2 ^ floorlog 2 x" "0 < floorlog 2 x"
    using assms floorlog_bounds [of x 2] floorlog_eq_zero_iff [of 2 x] by auto
  then have "(of_nat (2 ^ (floorlog 2 x - 1)) :: rat) \<le> of_nat x" by (simp only: of_nat_le_iff)
  moreover have "int (floorlog 2 x) - 1 = int (floorlog 2 x - 1)" using l(3) by simp
  ultimately show "(2 powi (int (floorlog 2 x) - 1) :: rat) \<le> of_nat x" by (simp only: power_int_of_nat of_nat_power of_nat_numeral)
  have "(of_nat x :: rat) < of_nat (2 ^ floorlog 2 x)" using l(2) by (simp only: of_nat_less_iff)
  then show "(of_nat x :: rat) < 2 powi int (floorlog 2 x)" by simp
qed

lemma binary_exponent_bounds:
  assumes "0 < r"
  shows "2 powi binary_exponent r \<le> r" "r < 2 powi (binary_exponent r + 1)"
proof -
  obtain a b where q: "quotient_of r = (a, b)" by (cases "quotient_of r")
  have r: "r = of_int a / of_int b" and b: "0 < b" using q quotient_of_div quotient_of_denom_pos by blast+
  have a: "0 < a" using assms r b by (simp add: zero_less_divide_iff)
  define m n where "m = int (floorlog 2 (nat a))" and "n = int (floorlog 2 (nat b))"
  have ra: "(2 powi (m - 1) :: rat) \<le> of_int a" "of_int a < (2 powi m :: rat)"
    and rb: "(2 powi (n - 1) :: rat) \<le> of_int b" "of_int b < (2 powi n :: rat)"
    using floorlog_scale [of "nat a"] floorlog_scale [of "nat b"] a b by (simp_all add: m_def n_def)
  have "2 powi (m - n - 1) = (2 powi (m - 1) / 2 powi n :: rat)" by (simp add: power_int_diff)
  also have "\<dots> \<le> r" unfolding r using ra(1) rb(2) a b by (intro frac_le) simp_all
  finally have lo: "2 powi (m - n - 1) \<le> r" .
  have "r < 2 powi m / 2 powi (n - 1)" unfolding r using ra(2) rb(1) a by (intro frac_less) simp_all
  also have "\<dots> = (2 powi (m - n + 1) :: rat)" by (simp add: power_int_diff power_int_add)
  finally have hi: "r < 2 powi (m - n + 1)" .
  have e: "binary_exponent r = (if 2 powi (m - n) \<le> r then m - n else m - n - 1)"
    by (simp add: binary_exponent_def q m_def n_def)
  show "2 powi binary_exponent r \<le> r" using lo by (simp add: e)
  show "r < 2 powi (binary_exponent r + 1)" using hi by (auto simp: e)
qed

lemma f64_exponent_less:
  assumes "\<bar>r\<bar> = of_nat m * 2 powi k" "m < 2 ^ 53" "r \<noteq> 0"
  shows "binary_exponent \<bar>r\<bar> \<le> k + 52"
proof -
  have "2 powi binary_exponent \<bar>r\<bar> \<le> \<bar>r\<bar>" by (rule binary_exponent_bounds) (use assms(3) in simp)
  also have "\<bar>r\<bar> < 2 powi 53 * 2 powi k"
  proof -
    have "(of_nat m :: rat) < of_nat (2 ^ 53)" using assms(2) by (simp only: of_nat_less_iff)
    then show ?thesis unfolding assms(1) by (intro mult_strict_right_mono) simp_all
  qed
  also have "\<dots> = (2 powi (53 + k) :: rat)" by (subst power_int_add) simp_all
  finally have "\<not> 53 + k \<le> binary_exponent \<bar>r\<bar>"
    using power_int_increasing [of "53 + k" "binary_exponent \<bar>r\<bar>" "2 :: rat"] by auto
  then show ?thesis by simp
qed

lemma powi_nat: "0 \<le> k \<Longrightarrow> (of_nat m * 2 powi k :: rat) = of_nat (m * 2 ^ nat k)"
  by (simp add: power_int_def)

lemma normal_mantissa:
  assumes "is_f64 r" "r \<noteq> 0"
  obtains n where "\<bar>r\<bar> * 2 powi (52 - binary_exponent \<bar>r\<bar>) = of_nat n" "2 ^ 52 \<le> n" "n < 2 ^ 53"
proof -
  define e where "e = binary_exponent \<bar>r\<bar>"
  obtain m k where r: "\<bar>r\<bar> = of_nat m * 2 powi k" "m < 2 ^ 53" using assms(1) by (auto simp: is_f64_def)
  have e: "2 powi e \<le> \<bar>r\<bar>" "\<bar>r\<bar> < 2 powi (e + 1)" "e \<le> k + 52"
    using assms(2) binary_exponent_bounds [of "\<bar>r\<bar>"] f64_exponent_less [OF r assms(2)] by (simp_all add: e_def)
  define x where "x = \<bar>r\<bar> / 2 powi e"
  have scale: "\<bar>r\<bar> * 2 powi (52 - e) = x * 2 ^ 52" by (simp add: power_int_diff x_def)
  have "\<bar>r\<bar> * 2 powi (52 - e) = of_nat m * 2 powi (k + (52 - e))" unfolding r(1) by (simp add: power_int_add)
  also have "\<dots> = of_nat (m * 2 ^ nat (k + (52 - e)))" by (rule powi_nat) (use e(3) in simp)
  finally have n: "\<bar>r\<bar> * 2 powi (52 - e) = of_nat (m * 2 ^ nat (k + (52 - e)))" .
  have "1 \<le> x" "x < 2" using e(1,2) by (simp_all add: x_def field_simps power_int_add)
  then have "of_nat (2 ^ 52) \<le> \<bar>r\<bar> * 2 powi (52 - e)" "\<bar>r\<bar> * 2 powi (52 - e) < of_nat (2 ^ 53)"
    unfolding scale by simp_all
  then have "2 ^ 52 \<le> m * 2 ^ nat (k + (52 - e))" "m * 2 ^ nat (k + (52 - e)) < 2 ^ 53"
    unfolding n by (simp_all only: of_nat_le_iff of_nat_less_iff)
  with n that show ?thesis unfolding e_def by blast
qed

lemma subnormal_mantissa:
  assumes "is_f64 r" "r \<noteq> 0" "binary_exponent \<bar>r\<bar> < -1022"
  obtains n where "\<bar>r\<bar> * 2 ^ 1074 = of_nat n" "n < 2 ^ 52"
proof -
  obtain m k where r: "\<bar>r\<bar> = of_nat m * 2 powi k" "- 1074 \<le> k" using assms(1) by (auto simp: is_f64_def)
  have "\<bar>r\<bar> * 2 ^ 1074 = of_nat m * 2 powi (k + 1074)" unfolding r(1) by (subst power_int_add) simp_all
  also have "\<dots> = of_nat (m * 2 ^ nat (k + 1074))" by (rule powi_nat) (use r(2) in simp)
  finally have n: "\<bar>r\<bar> * 2 ^ 1074 = of_nat (m * 2 ^ nat (k + 1074))" .
  have "\<bar>r\<bar> < 2 powi (binary_exponent \<bar>r\<bar> + 1)" using assms(2) by (intro binary_exponent_bounds) simp
  also have "\<dots> \<le> 2 powi (- 1022)" using assms(3) by (intro power_int_increasing) simp_all
  finally have "\<bar>r\<bar> * 2 ^ 1074 < 2 powi (- 1022) * 2 ^ 1074" by (intro mult_strict_right_mono) simp_all
  also have "\<dots> = (2 powi (- 1022 + 1074) :: rat)" by (subst power_int_add) simp_all
  also have "\<dots> = of_nat (2 ^ 52)" by simp
  finally have "m * 2 ^ nat (k + 1074) < 2 ^ 52" unfolding n by (simp only: of_nat_less_iff)
  with n that show ?thesis by blast
qed

text \<open>The exponent field and the mantissa field determine the magnitude.\<close>

lemma magnitude_bits_fields:
  assumes "is_f64 r" "r \<noteq> 0"
  shows "magnitude_bits \<bar>r\<bar> div 2 ^ 52 = nat (binary_exponent \<bar>r\<bar> + 1023)"
    and "of_nat (magnitude_bits \<bar>r\<bar> mod 2 ^ 52) =
      (if binary_exponent \<bar>r\<bar> < -1022 then \<bar>r\<bar> * 2 ^ 1074 else \<bar>r\<bar> * 2 powi (52 - binary_exponent \<bar>r\<bar>) - 2 ^ 52)"
proof (atomize (full), cases "binary_exponent \<bar>r\<bar> < -1022")
  case True
  obtain n where "\<bar>r\<bar> * 2 ^ 1074 = of_nat n" "n < 2 ^ 52" using subnormal_mantissa [OF assms True] by blast
  then show "magnitude_bits \<bar>r\<bar> div 2 ^ 52 = nat (binary_exponent \<bar>r\<bar> + 1023) \<and> of_nat (magnitude_bits \<bar>r\<bar> mod 2 ^ 52) =
      (if binary_exponent \<bar>r\<bar> < -1022 then \<bar>r\<bar> * 2 ^ 1074 else \<bar>r\<bar> * 2 powi (52 - binary_exponent \<bar>r\<bar>) - 2 ^ 52)"
    using True by (simp add: magnitude_bits_def)
next
  case False
  obtain n where n: "\<bar>r\<bar> * 2 powi (52 - binary_exponent \<bar>r\<bar>) = of_nat n" "2 ^ 52 \<le> n" "n < 2 ^ 53"
    using normal_mantissa [OF assms] by blast
  define x where "x = n - 2 ^ 52"
  have x: "of_nat n = (of_nat x + 2 ^ 52 :: rat)" "x < 2 ^ 52" using n(2,3) by (simp_all add: x_def)
  have "magnitude_bits \<bar>r\<bar> = nat (binary_exponent \<bar>r\<bar> + 1023) * 2 ^ 52 + x"
    using False n(1) by (simp add: magnitude_bits_def x_def)
  then have "magnitude_bits \<bar>r\<bar> div 2 ^ 52 = nat (binary_exponent \<bar>r\<bar> + 1023)" "magnitude_bits \<bar>r\<bar> mod 2 ^ 52 = x"
    using x(2) by simp_all
  then show "magnitude_bits \<bar>r\<bar> div 2 ^ 52 = nat (binary_exponent \<bar>r\<bar> + 1023) \<and> of_nat (magnitude_bits \<bar>r\<bar> mod 2 ^ 52) =
      (if binary_exponent \<bar>r\<bar> < -1022 then \<bar>r\<bar> * 2 ^ 1074 else \<bar>r\<bar> * 2 powi (52 - binary_exponent \<bar>r\<bar>) - 2 ^ 52)"
    using False n(1) x(1) by simp
qed

lemma magnitude_bits_less:
  assumes "is_f64 r" "r \<noteq> 0"
  shows "magnitude_bits \<bar>r\<bar> < 2 ^ 63"
proof -
  obtain m k where r: "\<bar>r\<bar> = of_nat m * 2 powi k" "m < 2 ^ 53" "k \<le> 971" using assms(1) by (auto simp: is_f64_def)
  have "magnitude_bits \<bar>r\<bar> div 2 ^ 52 < 2 ^ 11"
    unfolding magnitude_bits_fields(1) [OF assms] using f64_exponent_less [OF r(1,2) assms(2)] r(3) by simp
  then show ?thesis by (simp add: div_less_iff_less_mult)
qed

lemma f64_to_bits_inj:
  assumes "is_f64 r" "r \<noteq> 0" "is_f64 s" "s \<noteq> 0" "f64_to_bits r = f64_to_bits s"
  shows "r = s"
proof -
  have sign: "r < 0 \<longleftrightarrow> s < 0" and mag: "magnitude_bits \<bar>r\<bar> = magnitude_bits \<bar>s\<bar>"
    using assms(5) magnitude_bits_less [OF assms(1,2)] magnitude_bits_less [OF assms(3,4)] by (auto simp: f64_to_bits_def split: if_splits)
  note r = magnitude_bits_fields [OF assms(1,2)] and s = magnitude_bits_fields [OF assms(3,4)]
  have e: "nat (binary_exponent \<bar>r\<bar> + 1023) = nat (binary_exponent \<bar>s\<bar> + 1023)" using r(1) s(1) mag by simp
  show ?thesis
  proof (cases "binary_exponent \<bar>r\<bar> < -1022")
    case True
    with e have "binary_exponent \<bar>s\<bar> < -1022" by simp
    with True r(2) s(2) mag have "\<bar>r\<bar> * 2 ^ 1074 = \<bar>s\<bar> * 2 ^ 1074" by simp
    then have "\<bar>r\<bar> = \<bar>s\<bar>" by simp
    with sign show ?thesis by (auto simp: abs_if split: if_splits)
  next
    case False
    with e have es: "binary_exponent \<bar>s\<bar> = binary_exponent \<bar>r\<bar>" by simp
    have "\<bar>r\<bar> * 2 powi (52 - binary_exponent \<bar>r\<bar>) = \<bar>s\<bar> * 2 powi (52 - binary_exponent \<bar>r\<bar>)"
      using False r(2) s(2) mag unfolding es by simp
    then have "\<bar>r\<bar> = \<bar>s\<bar>" by simp
    with sign show ?thesis by (auto simp: abs_if split: if_splits)
  qed
qed

lemma f64_to_bits_less: "is_f64 r \<Longrightarrow> r \<noteq> 0 \<Longrightarrow> f64_to_bits r < 2 ^ 64"
  using magnitude_bits_less [of r] by (cases "r < 0") (simp_all add: f64_to_bits_def)

subsection \<open>Keys of numbers\<close>

lemma byte_hex_digit: "d < 16 \<Longrightarrow> byte (hex_digit d) = (if d < 10 then 48 + d else 87 + d)"
  by (simp add: hex_digit_def)

lemma hex_digit_inj: "a < 16 \<Longrightarrow> b < 16 \<Longrightarrow> hex_digit a = hex_digit b \<longleftrightarrow> a = b"
proof
  assume "a < 16" "b < 16" "hex_digit a = hex_digit b"
  then have "(if a < 10 then 48 + a else 87 + a) = (if b < 10 then 48 + b else 87 + b)"
    using byte_hex_digit by metis
  then show "a = b" by (auto split: if_splits)
qed simp

lemma base16_eqI:
  "m < 16 ^ k \<Longrightarrow> n < 16 ^ k \<Longrightarrow> (\<And>i. i < k \<Longrightarrow> m div 16 ^ i mod 16 = n div 16 ^ i mod 16) \<Longrightarrow> m = (n :: nat)"
proof (induction k arbitrary: m n)
  case (Suc k)
  have "m div 16 = n div 16"
  proof (rule Suc.IH)
    fix i assume "i < k"
    then show "m div 16 div 16 ^ i mod 16 = n div 16 div 16 ^ i mod 16"
      using Suc.prems(3) [of "Suc i"] by (simp add: div_mult2_eq)
  qed (use Suc.prems in \<open>simp_all add: less_mult_imp_div_less mult.commute\<close>)
  moreover have "m mod 16 = n mod 16" using Suc.prems(3) [of 0] by simp
  ultimately show ?case by (metis div_mult_mod_eq)
qed simp

lemma hex16_inj: "m < 2 ^ 64 \<Longrightarrow> n < 2 ^ 64 \<Longrightarrow> hex16 m = hex16 n \<Longrightarrow> m = n"
  by (rule base16_eqI [of _ 16]) (auto simp: hex16_def hex_digit_inj)

lemma f64_of_nat_exact:
  assumes "n = m * 2 ^ k" "m < 2 ^ 53"
  shows "f64_of_nat n = n"
proof -
  have "n < 2 ^ (53 + k)" using assms by (simp add: power_add)
  then have "floorlog 2 n - 53 \<le> k" using floorlog_leI [of n 2 "53 + k"] by simp
  then have "2 ^ (floorlog 2 n - 53) dvd n" using assms(1) by (simp add: le_imp_power_dvd dvd_mult)
  then show ?thesis by (simp add: f64_of_nat_def Let_def dvd_div_mult_self)
qed

lemma f64_integer:
  assumes "is_f64 r" "frac r = 0"
  shows "f64_of_int \<lfloor>r\<rfloor> = r"
proof -
  have r: "r = of_int \<lfloor>r\<rfloor>" using assms(2) by (simp add: frac_def)
  obtain m k where mk: "\<bar>r\<bar> = of_nat m * 2 powi k" "m < 2 ^ 53" using assms(1) by (auto simp: is_f64_def)
  have n: "(of_nat (nat \<bar>\<lfloor>r\<rfloor>\<bar>) :: rat) = \<bar>r\<bar>" by (subst (2) r) simp
  have "f64_of_nat (nat \<bar>\<lfloor>r\<rfloor>\<bar>) = nat \<bar>\<lfloor>r\<rfloor>\<bar>"
  proof (cases "0 \<le> k")
    case True
    then have "(of_nat (nat \<bar>\<lfloor>r\<rfloor>\<bar>) :: rat) = of_nat (m * 2 ^ nat k)" using n mk(1) powi_nat by simp
    then show ?thesis using mk(2) by (intro f64_of_nat_exact) (simp_all only: of_nat_eq_iff)
  next
    case False
    then have "\<bar>r\<bar> \<le> of_nat m * 1" unfolding mk(1) using power_int_increasing [of k 0 "2 :: rat"] by (intro mult_left_mono) simp_all
    then have "(of_nat (nat \<bar>\<lfloor>r\<rfloor>\<bar>) :: rat) \<le> of_nat m" using n by simp
    then show ?thesis using mk(2) by (intro f64_of_nat_exact [of _ "nat \<bar>\<lfloor>r\<rfloor>\<bar>" 0]) (simp_all only: of_nat_le_iff power_0 mult_1_right)
  qed
  then have "f64_of_int \<lfloor>r\<rfloor> = of_int (sgn \<lfloor>r\<rfloor>) * \<bar>r\<bar>" by (simp add: f64_of_int_def n)
  then show ?thesis using r by (cases "\<lfloor>r\<rfloor>" "0::int" rule: linorder_cases) auto
qed

lemma show_nat_zero: "show_nat 0 = ''0''"
  by (simp add: show_nat.simps [of 0] digit_char_def char_of_def bit_0)

text \<open>Integers in the range of the 64-bit types have their decimal form as key, other doubles their bits.\<close>

lemma number_key:
  assumes "wf_number n"
  shows "schema_number_equality_key n =
    (let r = number_value n in
     if frac r = 0 \<and> - (2 ^ 63) \<le> r \<and> r < 2 ^ 64 then show_int \<lfloor>r\<rfloor> else ''f'' @ hex16 (f64_to_bits r))"
proof (cases n)
  case (Float r)
  with assms have "is_f64 r" by simp
  then show ?thesis
    using f64_integer [of r] Float
    by (auto simp: schema_number_equality_key_def Let_def show_int_def not_less show_nat_zero)
next
  case (PosInt k)
  then have "(of_nat k :: rat) < of_nat (2 ^ 64)" using assms by (simp only: wf_number.simps of_nat_less_iff)
  then show ?thesis using PosInt
    by (auto simp: schema_number_equality_key_def Let_def show_int_def intro: order_trans [of _ 0])
next
  case (NegInt i)
  then have "(of_int (- (2 ^ 63)) :: rat) \<le> of_int i" using assms by (simp only: wf_number.simps of_int_le_iff)
  then show ?thesis using NegInt assms
    by (auto simp: schema_number_equality_key_def Let_def show_int_def intro: less_trans [of _ 0])
qed

lemma show_int_no_f: "show_int i \<noteq> ''f'' @ s"
  using show_nat_chars [of "CHR ''f''" "nat \<bar>i\<bar>"] by (cases "i < 0") (auto simp: show_int_def is_ascii_digit_def)

text \<open>Numbers have the same key exactly when they have the same value.\<close>

lemma number_key_eq_iff:
  assumes "wf_number m" "wf_number n"
  shows "schema_number_equality_key m = schema_number_equality_key n \<longleftrightarrow> number_value m = number_value n"
proof
  assume eq: "schema_number_equality_key m = schema_number_equality_key n"
  define integral where "integral = (\<lambda>r::rat. frac r = 0 \<and> - (2 ^ 63) \<le> r \<and> r < 2 ^ 64)"
  have key: "wf_number k \<Longrightarrow> schema_number_equality_key k =
      (if integral (number_value k) then show_int \<lfloor>number_value k\<rfloor> else ''f'' @ hex16 (f64_to_bits (number_value k)))" for k
    using number_key [of k] by (simp add: integral_def Let_def)
  have f64: "is_f64 (number_value k) \<and> number_value k \<noteq> 0" if "wf_number k" "\<not> integral (number_value k)" for k
  proof (cases k)
    case (PosInt i)
    then have "(of_nat i :: rat) < of_nat (2 ^ 64)" using that(1) by (simp only: wf_number.simps of_nat_less_iff)
    with PosInt that(2) show ?thesis by (simp add: integral_def order_trans [of _ 0])
  next
    case (NegInt i)
    then have "(of_int (- (2 ^ 63)) :: rat) \<le> of_int i" using that(1) by (simp only: wf_number.simps of_int_le_iff)
    with NegInt that show ?thesis by (simp add: integral_def less_trans [of _ 0])
  qed (use that in \<open>auto simp: integral_def\<close>)
  consider "integral (number_value m)" "integral (number_value n)" | "\<not> integral (number_value m)" "\<not> integral (number_value n)"
    using eq key [OF assms(1)] key [OF assms(2)] show_int_no_f by (auto split: if_splits) metis
  then show "number_value m = number_value n"
  proof cases
    case 1
    then have "\<lfloor>number_value m\<rfloor> = \<lfloor>number_value n\<rfloor>" using eq key [OF assms(1)] key [OF assms(2)] by (simp add: show_int_inj)
    moreover have "r = of_int \<lfloor>r\<rfloor>" if "integral r" for r using that by (simp add: integral_def frac_def)
    ultimately show ?thesis using 1 by metis
  next
    case 2
    note m = f64 [OF assms(1) 2(1)] and n = f64 [OF assms(2) 2(2)]
    have "hex16 (f64_to_bits (number_value m)) = hex16 (f64_to_bits (number_value n))"
      using eq 2 key [OF assms(1)] key [OF assms(2)] by simp
    then have "f64_to_bits (number_value m) = f64_to_bits (number_value n)"
      using m n f64_to_bits_less by (intro hex16_inj) blast+
    with m n show ?thesis using f64_to_bits_inj by blast
  qed
qed (use number_key [OF assms(1)] number_key [OF assms(2)] in simp)

end
