(* ===== verification/Schema_Equality.thy ===== *)
theory Schema_Equality
  imports Json_Numbers
begin

text \<open>
  Equality of JSON values for the schema validator of \<^verbatim>\<open>crates/cfctl-cloudflare/src/lib.rs\<close>
  (\<^verbatim>\<open>schema_equality_key\<close>): a value is written as a key in which numbers are normalised, under the
  nesting limit and the budget of steps that the whole validation shares.
\<close>

section \<open>Computations that spend a budget\<close>

text \<open>
  The budget is threaded through; an error keeps what was spent. The reason of an error stands for
  \<^verbatim>\<open>CloudflareError::InvalidRequestBody\<close>, the only error of the validator.
\<close>

type_synonym 'a metered = "nat \<Rightarrow> (string + 'a) \<times> nat"

definition m_return :: "'a \<Rightarrow> 'a metered" where
  "m_return x k = (Inr x, k)"

definition m_check :: "string + 'a \<Rightarrow> 'a metered" where
  "m_check r k = (r, k)"

definition m_bind :: "'a metered \<Rightarrow> ('a \<Rightarrow> 'b metered) \<Rightarrow> 'b metered" where
  "m_bind m f k = (case m k of (Inl e, k') \<Rightarrow> (Inl e, k') | (Inr x, k') \<Rightarrow> f x k')"

fun m_each :: "('a \<Rightarrow> unit metered) \<Rightarrow> 'a list \<Rightarrow> unit metered" where
  "m_each f [] = m_return ()"
| "m_each f (x # xs) = m_bind (f x) (\<lambda>_. m_each f xs)"

fun m_map :: "('a \<Rightarrow> 'b metered) \<Rightarrow> 'a list \<Rightarrow> 'b list metered" where
  "m_map f [] = m_return []"
| "m_map f (x # xs) = m_bind (f x) (\<lambda>y. m_bind (m_map f xs) (\<lambda>ys. m_return (y # ys)))"

abbreviation max_request_validation_depth :: nat where
  "max_request_validation_depth \<equiv> 64"

abbreviation max_request_validation_steps :: nat where
  "max_request_validation_steps \<equiv> 65536"

definition depth_limit_reason :: string where
  "depth_limit_reason = ''pinned schema exceeds the validation depth limit''"

definition work_limit_reason :: string where
  "work_limit_reason = ''request body exceeds the pinned validation work limit''"

definition spend_step :: "unit metered" where
  "spend_step k = (if k = 0 then (Inl work_limit_reason, 0) else (Inr (), k - 1))"

section \<open>Keys\<close>

definition length_prefixed_string :: "char \<Rightarrow> string \<Rightarrow> string" where
  "length_prefixed_string prefix v = prefix # show_nat (length v) @ CHR '':'' # v"

text \<open>
  The recursion is on the nesting that is left: the limit plus one, less the \<^verbatim>\<open>depth\<close> of the source.
  The result is what the source appends to its buffer.
\<close>

primrec append_schema_equality_key :: "nat \<Rightarrow> json \<Rightarrow> string metered" where
  "append_schema_equality_key 0 v = m_check (Inl depth_limit_reason)"
| "append_schema_equality_key (Suc left) v =
     m_bind spend_step (\<lambda>_. case v of
         JNull \<Rightarrow> m_return ''z''
       | JBool b \<Rightarrow> m_return (if b then ''b1'' else ''b0'')
       | JNumber n \<Rightarrow> m_return (''n'' @ schema_number_equality_key n @ '';'')
       | JString s \<Rightarrow> m_return (length_prefixed_string (CHR ''s'') s)
       | JArray vs \<Rightarrow>
           m_bind (m_map (append_schema_equality_key left) vs) (\<lambda>keys. m_return (''['' @ concat keys @ '']''))
       | JObject m \<Rightarrow>
           m_bind (m_map (\<lambda>entry.
               m_bind (append_schema_equality_key left (snd entry)) (\<lambda>key.
               m_return (length_prefixed_string (CHR ''k'') (fst entry) @ key))) (sort_key fst m)) (\<lambda>keys.
           m_return (''{'' @ concat keys @ ''}'')))"

definition schema_equality_key :: "json \<Rightarrow> nat \<Rightarrow> string metered" where
  "schema_equality_key v depth = append_schema_equality_key (max_request_validation_depth + 1 - depth) v"

section \<open>What a key stands for\<close>

text \<open>Values up to the representation of their numbers.\<close>

fun numeric_form :: "json \<Rightarrow> json" where
  "numeric_form (JNumber n) = JNumber (Float (number_value n))"
| "numeric_form (JArray vs) = JArray (map numeric_form vs)"
| "numeric_form (JObject m) = JObject (map (\<lambda>(k, v). (k, numeric_form v)) m)"
| "numeric_form v = v"

text \<open>The invariant of a parsed value: sorted members and numbers in range.\<close>

fun rep_json :: "json \<Rightarrow> bool" where
  "rep_json (JNumber n) = wf_number n"
| "rep_json (JArray vs) = list_all rep_json vs"
| "rep_json (JObject m) = (bt_invar m \<and> list_all (\<lambda>(k, v). rep_json v) m)"
| "rep_json _ = True"

fun value_key :: "json \<Rightarrow> string" where
  "value_key JNull = ''z''"
| "value_key (JBool b) = (if b then ''b1'' else ''b0'')"
| "value_key (JNumber n) = ''n'' @ schema_number_equality_key n @ '';''"
| "value_key (JString s) = length_prefixed_string (CHR ''s'') s"
| "value_key (JArray vs) = ''['' @ concat (map value_key vs) @ '']''"
| "value_key (JObject m) =
     ''{'' @ concat (map (\<lambda>(k, v). length_prefixed_string (CHR ''k'') k @ value_key v) m) @ ''}''"

section \<open>Facts\<close>

lemma m_bind_Inr: "m_bind m f k = (Inr y, k') \<longleftrightarrow> (\<exists>x j. m k = (Inr x, j) \<and> f x j = (Inr y, k'))"
  by (auto simp: m_bind_def split: prod.splits sum.splits)

lemma m_bind_Inl: "m_bind m f k = (Inl e, k') \<longleftrightarrow> m k = (Inl e, k') \<or> (\<exists>x j. m k = (Inr x, j) \<and> f x j = (Inl e, k'))"
  by (auto simp: m_bind_def split: prod.splits sum.splits)

lemma m_return_iff [simp]: "m_return x k = (r, k') \<longleftrightarrow> r = Inr x \<and> k' = k"
  by (auto simp: m_return_def)

lemma m_check_iff [simp]: "m_check r k = (r', k') \<longleftrightarrow> r' = r \<and> k' = k"
  by (auto simp: m_check_def)

lemma spend_step_iff: "spend_step k = (r, k') \<longleftrightarrow>
    (if k = 0 then r = Inl work_limit_reason \<and> k' = 0 else r = Inr () \<and> k' = k - 1)"
  by (auto simp: spend_step_def)

lemma m_map_Inr:
  assumes "m_map f xs k = (Inr ys, k')" "\<And>x i y j. x \<in> set xs \<Longrightarrow> f x i = (Inr y, j) \<Longrightarrow> y = g x"
  shows "ys = map g xs"
  using assms by (induction xs arbitrary: ys k) (auto simp: m_bind_Inr)

lemma bt_sort_key: "bt_invar m \<Longrightarrow> sort_key fst m = m"
  by (auto simp: bt_invar_def strict_sorted_iff intro: sort_key_id_if_sorted)

lemma append_key_value:
  "append_schema_equality_key n v k = (Inr s, k') \<Longrightarrow> rep_json v \<Longrightarrow> s = value_key v"
proof (induction n arbitrary: v k s k')
  case (Suc n)
  show ?case
  proof (cases v)
    case (JArray vs)
    obtain keys i j where m: "m_map (append_schema_equality_key n) vs i = (Inr keys, j)" and s: "s = ''['' @ concat keys @ '']''"
      using Suc.prems(1) JArray by (auto simp: m_bind_Inr)
    have "keys = map value_key vs"
      by (rule m_map_Inr [OF m]) (use Suc.IH Suc.prems(2) JArray in \<open>auto simp: list_all_iff\<close>)
    with s JArray show ?thesis by simp
  next
    case (JObject m)
    let ?f = "\<lambda>entry. m_bind (append_schema_equality_key n (snd entry)) (\<lambda>key. m_return (length_prefixed_string (CHR ''k'') (fst entry) @ key))"
    have rep: "sort_key fst m = m" "\<And>x. x \<in> set m \<Longrightarrow> rep_json (snd x)"
      using Suc.prems(2) JObject by (auto simp: list_all_iff bt_sort_key)
    obtain keys i j where m: "m_map ?f m i = (Inr keys, j)" and s: "s = ''{'' @ concat keys @ ''}''"
      using Suc.prems(1) JObject rep(1) by (auto simp: m_bind_Inr)
    have "keys = map (\<lambda>x. length_prefixed_string (CHR ''k'') (fst x) @ value_key (snd x)) m"
      by (rule m_map_Inr [OF m]) (use Suc.IH rep(2) in \<open>auto simp: m_bind_Inr\<close>)
    with s JObject show ?thesis by (simp add: case_prod_unfold)
  qed (use Suc.prems in \<open>auto simp: m_bind_Inr\<close>)
qed simp

text \<open>A key can be told from what follows it.\<close>

lemma digits_then_colon:
  assumes "show_nat m @ CHR '':'' # s = show_nat n @ CHR '':'' # t"
  shows "m = n \<and> s = t"
proof -
  have "takeWhile is_ascii_digit (show_nat k @ CHR '':'' # u) = show_nat k" for k u
    using show_nat_chars by (subst takeWhile_append2) (auto simp: is_ascii_digit_def)
  then have "show_nat m = show_nat n" using assms by metis
  then show ?thesis using assms by (simp add: show_nat_inj)
qed

lemma length_prefixed_inj:
  "length_prefixed_string c v @ s = length_prefixed_string c w @ t \<Longrightarrow> v = w \<and> s = t"
  by (auto simp: length_prefixed_string_def dest!: digits_then_colon)

lemma hex16_chars: "c \<in> set (hex16 n) \<Longrightarrow> c \<noteq> CHR '';''"
proof -
  assume "c \<in> set (hex16 n)"
  then obtain i where "c = hex_digit (n div 16 ^ i mod 16)" by (auto simp: hex16_def)
  moreover define d where "d = n div 16 ^ i mod 16"
  ultimately have "d < 16" "c = hex_digit d" by simp_all
  then have "byte c \<noteq> 59" using byte_hex_digit [of d] by auto
  then show ?thesis by auto
qed

lemma number_key_chars: "wf_number n \<Longrightarrow> c \<in> set (schema_number_equality_key n) \<Longrightarrow> c \<noteq> CHR '';''"
  using hex16_chars show_nat_chars [of "CHR '';''"]
  by (auto simp: number_key Let_def show_int_def is_ascii_digit_def split: if_splits)

lemma number_key_inj:
  assumes "wf_number m" "wf_number n"
    and "schema_number_equality_key m @ CHR '';'' # s = schema_number_equality_key n @ CHR '';'' # t"
  shows "number_value m = number_value n \<and> s = t"
proof -
  have "takeWhile (\<lambda>c. c \<noteq> CHR '';'') (schema_number_equality_key k @ CHR '';'' # u) = schema_number_equality_key k"
    if "wf_number k" for k u
    using number_key_chars [OF that] by (subst takeWhile_append2) auto
  then have eq: "schema_number_equality_key m = schema_number_equality_key n" using assms by metis
  moreover have "s = t" using assms(3) unfolding eq by simp
  ultimately show ?thesis using assms(1,2) by (simp add: number_key_eq_iff)
qed

lemma concat_keys_inj:
  assumes "\<And>x y s t. x \<in> set xs \<Longrightarrow> y \<in> set ys \<Longrightarrow> f x @ s = f y @ t \<Longrightarrow> g x = g y \<and> s = t"
    and "\<And>x. x \<in> set xs \<union> set ys \<Longrightarrow> f x \<noteq> [] \<and> hd (f x) \<noteq> c"
    and "concat (map f xs) @ c # s = concat (map f ys) @ c # t"
  shows "map g xs = map g ys \<and> s = t"
  using assms
proof (induction xs arbitrary: ys)
  case Nil
  show ?case
  proof (cases ys)
    case (Cons y ys')
    then have "c # s = f y @ concat (map f ys') @ c # t" using Nil.prems(3) by simp
    moreover have "f y \<noteq> []" "hd (f y) \<noteq> c" using Nil.prems(2) [of y] Cons by simp_all
    ultimately show ?thesis by (metis hd_append2 list.sel(1))
  qed (use Nil.prems(3) in simp)
next
  case (Cons x xs)
  have x: "f x \<noteq> []" "hd (f x) \<noteq> c" using Cons.prems(2) [of x] by simp_all
  have "ys \<noteq> []"
  proof
    assume "ys = []"
    then have "f x @ concat (map f xs) @ c # s = c # t" using Cons.prems(3) by simp
    with x show False by (metis hd_append2 list.sel(1))
  qed
  then obtain y ys' where ys: "ys = y # ys'" by (cases ys) auto
  have eq: "f x @ (concat (map f xs) @ c # s) = f y @ (concat (map f ys') @ c # t)" using Cons.prems(3) ys by simp
  have "g x = g y \<and> concat (map f xs) @ c # s = concat (map f ys') @ c # t"
    by (rule Cons.prems(1) [OF _ _ eq]) (simp_all add: ys)
  moreover from this have rest: "concat (map f xs) @ c # s = concat (map f ys') @ c # t" ..
  have "map g xs = map g ys' \<and> s = t"
  proof (rule Cons.IH [OF _ _ rest])
    fix u v p q assume "u \<in> set xs" "v \<in> set ys'" "f u @ p = f v @ q"
    then show "g u = g v \<and> p = q" by (intro Cons.prems(1)) (simp_all add: ys)
  next
    fix u assume "u \<in> set xs \<union> set ys'"
    then show "f u \<noteq> [] \<and> hd (f u) \<noteq> c" by (intro Cons.prems(2)) (auto simp: ys)
  qed
  ultimately show ?case by (simp add: ys)
qed

lemma map_transfer:
  assumes "map g xs = map g ys" "\<And>x y. x \<in> set xs \<Longrightarrow> y \<in> set ys \<Longrightarrow> g x = g y \<Longrightarrow> f x = f y"
  shows "map f xs = map f ys"
  using assms by (induction xs arbitrary: ys) (auto simp: Cons_eq_map_conv)

text \<open>The first character tells the constructor.\<close>

fun key_tag :: "json \<Rightarrow> char" where
  "key_tag JNull = CHR ''z''"
| "key_tag (JBool _) = CHR ''b''"
| "key_tag (JNumber _) = CHR ''n''"
| "key_tag (JString _) = CHR ''s''"
| "key_tag (JArray _) = CHR ''[''"
| "key_tag (JObject _) = CHR ''{''"

lemma value_key_start: "value_key v \<noteq> [] \<and> hd (value_key v) = key_tag v"
  by (cases v) (auto simp: length_prefixed_string_def)

lemma value_key_tags: "value_key v @ s = value_key w @ t \<Longrightarrow> key_tag v = key_tag w"
  using value_key_start [of v] value_key_start [of w] by (metis hd_append2)

definition entry_key :: "string \<times> json \<Rightarrow> string" where
  "entry_key x = length_prefixed_string (CHR ''k'') (fst x) @ value_key (snd x)"

lemma object_key: "value_key (JObject m) = CHR ''{'' # concat (map entry_key m) @ ''}''"
  by (simp add: entry_key_def [abs_def] case_prod_unfold)

lemma object_numeric_form: "numeric_form (JObject m) = JObject (map (\<lambda>x. (fst x, numeric_form (snd x))) m)"
  by (simp add: case_prod_unfold)

lemma rep_member: "rep_json (JObject m) \<Longrightarrow> x \<in> set m \<Longrightarrow> rep_json (snd x)"
  by (auto simp: list_all_iff)

lemma array_keys_inj:
  assumes "\<And>x w s t. x \<in> set vs \<Longrightarrow> rep_json x \<Longrightarrow> rep_json w \<Longrightarrow> value_key x @ s = value_key w @ t \<Longrightarrow> numeric_form x = numeric_form w \<and> s = t"
    and "rep_json (JArray vs)" "rep_json (JArray ws)" "value_key (JArray vs) @ s = value_key (JArray ws) @ t"
  shows "map numeric_form vs = map numeric_form ws \<and> s = t"
proof (rule concat_keys_inj [where f = value_key and c = "CHR '']''"])
  fix x y s t assume "x \<in> set vs" "y \<in> set ws" "value_key x @ s = value_key y @ t"
  with assms(1) [of x y s t] assms(2,3) show "numeric_form x = numeric_form y \<and> s = t" by (simp add: list_all_iff)
next
  fix x show "value_key x \<noteq> [] \<and> hd (value_key x) \<noteq> CHR '']''" using value_key_start [of x] by (cases x) simp_all
qed (use assms(4) in simp)

lemma object_keys_inj:
  assumes "\<And>x w s t. x \<in> set m \<Longrightarrow> rep_json (snd x) \<Longrightarrow> rep_json w \<Longrightarrow> value_key (snd x) @ s = value_key w @ t \<Longrightarrow> numeric_form (snd x) = numeric_form w \<and> s = t"
    and "rep_json (JObject m)" "rep_json (JObject m')" "value_key (JObject m) @ s = value_key (JObject m') @ t"
  shows "map (\<lambda>x. (fst x, numeric_form (snd x))) m = map (\<lambda>x. (fst x, numeric_form (snd x))) m' \<and> s = t"
proof (rule concat_keys_inj [where f = entry_key and c = "CHR ''}''"])
  fix x y s t assume x: "x \<in> set m" "y \<in> set m'" and eq: "entry_key x @ s = entry_key y @ t"
  have "fst x = fst y \<and> value_key (snd x) @ s = value_key (snd y) @ t"
    by (rule length_prefixed_inj) (use eq in \<open>simp add: entry_key_def\<close>)
  with assms(1) [of x "snd y" s t] x rep_member [OF assms(2) x(1)] rep_member [OF assms(3) x(2)]
  show "(fst x, numeric_form (snd x)) = (fst y, numeric_form (snd y)) \<and> s = t" by simp
next
  fix x :: "string \<times> json" show "entry_key x \<noteq> [] \<and> hd (entry_key x) \<noteq> CHR ''}''"
    by (simp add: entry_key_def length_prefixed_string_def)
qed (use assms(4) in \<open>simp add: object_key del: value_key.simps(6)\<close>)

lemma value_key_prefix_free:
  "rep_json v \<Longrightarrow> rep_json w \<Longrightarrow> value_key v @ s = value_key w @ t \<Longrightarrow> numeric_form v = numeric_form w \<and> s = t"
proof (induction v arbitrary: w s t rule: value_key.induct)
  case 1
  from value_key_tags [OF 1(3)] 1(3) show ?case by (cases w) simp_all
next
  case (2 b)
  from value_key_tags [OF 2(3)] 2(3) show ?case by (cases w) (simp_all split: if_splits)
next
  case (3 n)
  from value_key_tags [OF 3(3)] obtain n' where w: "w = JNumber n'" by (cases w) simp_all
  have "number_value n = number_value n' \<and> s = t" using 3 number_key_inj [of n n' s t] unfolding w by simp
  then show ?case unfolding w by simp
next
  case (4 x)
  from value_key_tags [OF 4(3)] obtain x' where w: "w = JString x'" by (cases w) simp_all
  have "x = x' \<and> s = t" using 4(3) length_prefixed_inj [of "CHR ''s''" x s x' t] unfolding w by simp
  then show ?case unfolding w by simp
next
  case (5 vs)
  from value_key_tags [OF 5(4)] obtain ws where w: "w = JArray ws" by (cases w) simp_all
  have "map numeric_form vs = map numeric_form ws \<and> s = t"
    using array_keys_inj [OF 5(1) 5(2) 5(3) [unfolded w] 5(4) [unfolded w]] by blast
  then show ?case unfolding w by simp
next
  case (6 m)
  from value_key_tags [OF 6(4)] obtain m' where w: "w = JObject m'" by (cases w) simp_all
  have ih: "x \<in> set m \<Longrightarrow> rep_json (snd x) \<Longrightarrow> rep_json w \<Longrightarrow> value_key (snd x) @ s = value_key w @ t \<Longrightarrow>
      numeric_form (snd x) = numeric_form w \<and> s = t" for x w s t
    using 6(1) [of x "fst x" "snd x" w s t] by simp
  have "map (\<lambda>x. (fst x, numeric_form (snd x))) m = map (\<lambda>x. (fst x, numeric_form (snd x))) m' \<and> s = t"
    by (rule object_keys_inj [OF ih 6(2) 6(3) [unfolded w] 6(4) [unfolded w]])
  then show ?case unfolding w object_numeric_form by simp
qed

text \<open>Two values have the same key exactly when they are equal up to the representation of numbers.\<close>

lemma numeric_form_key:
  "rep_json v \<Longrightarrow> rep_json w \<Longrightarrow> numeric_form v = numeric_form w \<Longrightarrow> value_key v = value_key w"
proof (induction v arbitrary: w rule: value_key.induct)
  case (3 n)
  then show ?case by (cases w) (simp_all add: number_key_eq_iff)
next
  case (5 vs)
  then obtain ws where w: "w = JArray ws" "map numeric_form vs = map numeric_form ws" by (cases w) simp_all
  have "map value_key vs = map value_key ws"
    by (rule map_transfer [OF w(2)]) (use 5(1-3) w(1) in \<open>simp add: list_all_iff\<close>)
  then show ?case by (simp add: w(1))
next
  case (6 m)
  let ?g = "\<lambda>x. (fst x, numeric_form (snd x))"
  obtain m' where w: "w = JObject m'" "map ?g m = map ?g m'" using 6(4) by (cases w) (simp_all add: case_prod_unfold)
  have "map entry_key m = map entry_key m'"
  proof (rule map_transfer [OF w(2)])
    fix x y assume x: "x \<in> set m" "y \<in> set m'" "?g x = ?g y"
    then have "rep_json (snd x)" "rep_json (snd y)" using 6(2,3) w(1) by (auto simp: list_all_iff)
    then have "value_key (snd x) = value_key (snd y)" using 6(1) [of x "fst x" "snd x" "snd y"] x by simp
    with x(3) show "entry_key x = entry_key y" by (simp add: entry_key_def)
  qed
  then show ?case unfolding w(1) object_key by simp
qed (case_tac w; simp)+

lemma value_key_eq_iff:
  "rep_json v \<Longrightarrow> rep_json w \<Longrightarrow> value_key v = value_key w \<longleftrightarrow> numeric_form v = numeric_form w"
  using value_key_prefix_free [of v w "[]" "[]"] numeric_form_key [of v w] by blast

end
