(* ===== verification/Schema_Validation.thy ===== *)
theory Schema_Validation
  imports Schema_Equality
begin

text \<open>
  The validator that every request passes before it is sent (\<^verbatim>\<open>validate_request_schema_value\<close> and its
  helpers in \<^verbatim>\<open>crates/cfctl-cloudflare/src/lib.rs\<close>): a body, a selector or a query value against the
  schema that the catalog pins, under a nesting limit and a budget of steps.
\<close>

section \<open>String formats\<close>

text \<open>
  What the validator takes from other packages: how a double prints, whether a string is a timestamp
  and a calendar date of the shape YYYY-MM-DD (\<^verbatim>\<open>chrono\<close>), and the number that a string is the JSON
  text of (\<^verbatim>\<open>serde_json\<close>).
\<close>

record wire =
  ryu :: "rat \<Rightarrow> string"
  rfc3339_valid :: "string \<Rightarrow> bool"
  calendar_valid :: "string \<Rightarrow> bool"
  json_number :: "string \<Rightarrow> number option"

definition is_ascii_alphanumeric :: "char \<Rightarrow> bool" where
  "is_ascii_alphanumeric c \<longleftrightarrow> is_ascii_alphabetic c \<or> is_ascii_digit c"

definition request_date_valid :: "wire \<Rightarrow> string \<Rightarrow> bool" where
  "request_date_valid w s \<longleftrightarrow>
     length s = 10 \<and>
     list_all (\<lambda>(i, c). if i = 4 \<or> i = 7 then c = CHR ''-'' else is_ascii_digit c) (enumerate 0 s) \<and>
     calendar_valid w s"

definition is_valid_cloudflare_uuid :: "string \<Rightarrow> bool" where
  "is_valid_cloudflare_uuid s \<longleftrightarrow>
     (if length s = 32 then list_all is_ascii_hexdigit s
      else length s = 36 \<and>
        list_all (\<lambda>(i, c). if i \<in> set [8, 13, 18, 23] then c = CHR ''-'' else is_ascii_hexdigit c) (enumerate 0 s))"

definition valid_host_label :: "string \<Rightarrow> bool" where
  "valid_host_label label \<longleftrightarrow>
     label \<noteq> [] \<and> length label \<le> 63 \<and> list_all (\<lambda>c. is_ascii_alphanumeric c \<or> c = CHR ''-'') label \<and>
     is_ascii_alphanumeric (hd label) \<and> is_ascii_alphanumeric (last label)"

definition is_valid_hostname :: "string \<Rightarrow> bool" where
  "is_valid_hostname s \<longleftrightarrow>
     s = ''.'' \<or>
     (let hostname = (if ends_with s ''.'' then butlast s else s)
      in hostname \<noteq> [] \<and> length hostname \<le> 253 \<and> list_all valid_host_label (split_char (CHR ''.'') hostname))"

definition is_ascii_email_atext :: "char \<Rightarrow> bool" where
  "is_ascii_email_atext c \<longleftrightarrow>
     is_ascii_alphanumeric c \<or> c \<in> set (''!#$%&*+-/=?^_{|}~'' @ [CHR 0x27, CHR 0x60])"

text \<open>ASCII white space and control characters are all below the space or the space and delete.\<close>

definition is_valid_ascii_email :: "string \<Rightarrow> bool" where
  "is_valid_ascii_email s \<longleftrightarrow>
     list_all (\<lambda>c. byte c < 128 \<and> 32 < byte c \<and> byte c \<noteq> 127) s \<and> length s \<le> 254 \<and>
     (case split_once (\<lambda>c. c = CHR ''@'') s of
        None \<Rightarrow> False
      | Some (local, domain) \<Rightarrow>
          local \<noteq> [] \<and> length local \<le> 64 \<and> domain \<noteq> [] \<and> CHR ''@'' \<notin> set domain \<and> domain \<noteq> ''.'' \<and>
          \<not> ends_with domain ''.'' \<and>
          list_all (\<lambda>atom. atom \<noteq> [] \<and> list_all is_ascii_email_atext atom) (split_char (CHR ''.'') local) \<and>
          is_valid_hostname domain)"

text \<open>The addresses that \<^verbatim>\<open>Ipv4Addr\<close> and \<^verbatim>\<open>Ipv6Addr\<close> parse.\<close>

definition is_ipv4 :: "string \<Rightarrow> bool" where
  "is_ipv4 s \<longleftrightarrow>
     (let parts = split_char (CHR ''.'') s
      in length parts = 4 \<and>
         list_all (\<lambda>p. p \<noteq> [] \<and> length p \<le> 3 \<and> list_all is_ascii_digit p \<and>
           (hd p = CHR ''0'' \<longrightarrow> length p = 1) \<and> digits_value p \<le> 255) parts)"

definition ipv6_group :: "string \<Rightarrow> bool" where
  "ipv6_group p \<longleftrightarrow> p \<noteq> [] \<and> length p \<le> 4 \<and> list_all is_ascii_hexdigit p"

text \<open>How many 16-bit groups the parts between colons make; the last may be an IPv4 address.\<close>

fun ipv6_groups :: "bool \<Rightarrow> string list \<Rightarrow> nat option" where
  "ipv6_groups v4 [] = Some 0"
| "ipv6_groups v4 [p] = (if v4 \<and> is_ipv4 p then Some 2 else if ipv6_group p then Some 1 else None)"
| "ipv6_groups v4 (p # q # ps) = (if ipv6_group p then map_option Suc (ipv6_groups v4 (q # ps)) else None)"

fun split_double_colon :: "string \<Rightarrow> (string \<times> string) option" where
  "split_double_colon (a # b # s) =
     (if a = CHR '':'' \<and> b = CHR '':'' then Some ([], s)
      else map_option (\<lambda>(x, y). (a # x, y)) (split_double_colon (b # s)))"
| "split_double_colon _ = None"

definition colon_parts :: "string \<Rightarrow> string list" where
  "colon_parts s = (if s = [] then [] else split_char (CHR '':'') s)"

definition is_ipv6 :: "string \<Rightarrow> bool" where
  "is_ipv6 s \<longleftrightarrow>
     (case split_double_colon s of
        None \<Rightarrow> ipv6_groups True (colon_parts s) = Some 8
      | Some (head, tail) \<Rightarrow>
          (case (ipv6_groups False (colon_parts head), ipv6_groups True (colon_parts tail)) of
             (Some h, Some t) \<Rightarrow> h + t \<le> 7
           | _ \<Rightarrow> False))"

section \<open>Bounds\<close>

definition request_schema_location :: "string \<Rightarrow> string" where
  "request_schema_location path = (if path = [] then ''top-level value'' else ''property `'' @ path @ ''`'')"

definition invalid_request_bound :: "string \<Rightarrow> string \<Rightarrow> string" where
  "invalid_request_bound path reason = request_schema_location path @ '' '' @ reason"

definition string_entry :: "json \<Rightarrow> string \<Rightarrow> string option" where
  "string_entry schema k = Option.bind (json_get schema k) json_as_str"

definition flag_entry :: "json \<Rightarrow> string \<Rightarrow> bool option" where
  "flag_entry schema k = Option.bind (json_get schema k) json_as_bool"

definition number_entry :: "json \<Rightarrow> string \<Rightarrow> number option" where
  "number_entry schema k = Option.bind (json_get schema k) json_as_number"

definition list_entry :: "json \<Rightarrow> string \<Rightarrow> json list option" where
  "list_entry schema k = Option.bind (json_get schema k) json_as_array"

definition object_entry :: "json \<Rightarrow> string \<Rightarrow> (string \<times> json) list option" where
  "object_entry schema k = Option.bind (json_get schema k) json_as_object"

definition u64_entry :: "json \<Rightarrow> string \<Rightarrow> nat option" where
  "u64_entry schema k = Option.bind (number_entry schema k) number_as_u64"

definition validate_string_format :: "wire \<Rightarrow> json \<Rightarrow> string \<Rightarrow> string \<Rightarrow> string + unit" where
  "validate_string_format w schema value path =
     (case string_entry schema ''format'' of
        None \<Rightarrow> Inr ()
      | Some format \<Rightarrow>
          ensure
            (if format = ''date'' then request_date_valid w value
             else if format = ''date-time'' then rfc3339_valid w value
             else if format = ''email'' then is_valid_ascii_email value
             else if format = ''hostname'' then is_valid_hostname value
             else if format = ''ipv4'' then is_ipv4 value
             else if format = ''ipv6'' then is_ipv6 value
             else if format = ''cloudflare-uuid'' then is_valid_cloudflare_uuid value
             else True)
            (invalid_request_bound path (''does not match the pinned '' @ format @ '' format'')))"

definition validate_length_bounds :: "json \<Rightarrow> string \<Rightarrow> nat \<Rightarrow> string \<Rightarrow> string \<Rightarrow> string \<Rightarrow> string + unit" where
  "validate_length_bounds schema path n units minimum_key maximum_key =
     res_bind (ensure (case u64_entry schema minimum_key of None \<Rightarrow> True | Some m \<Rightarrow> \<not> n < m)
       (invalid_request_bound path (''has fewer '' @ units @ '' than the pinned '' @ minimum_key))) (\<lambda>_.
     ensure (case u64_entry schema maximum_key of None \<Rightarrow> True | Some m \<Rightarrow> \<not> n > m)
       (invalid_request_bound path (''has more '' @ units @ '' than the pinned '' @ maximum_key)))"

text \<open>The scalar values of a string are its bytes that do not continue a UTF-8 sequence.\<close>

definition char_count :: "string \<Rightarrow> nat" where
  "char_count s = length (filter (\<lambda>c. byte c div 64 \<noteq> 2) s)"

definition validate_multiple :: "wire \<Rightarrow> json \<Rightarrow> json \<Rightarrow> string \<Rightarrow> string + unit" where
  "validate_multiple w schema value path =
     (case (json_get schema ''multipleOf'', json_as_number value) of
        (Some multiple, Some n) \<Rightarrow>
          ensure (case json_as_number multiple of
              None \<Rightarrow> False
            | Some m \<Rightarrow> exact_decimal_multiple (ryu w) n m = Some (Some True))
            (invalid_request_bound path ''is not a multiple of the pinned multipleOf value'')
      | _ \<Rightarrow> Inr ())"

definition validate_range :: "json \<Rightarrow> json \<Rightarrow> string \<Rightarrow> string + unit" where
  "validate_range schema value path =
     (case json_as_number value of
        None \<Rightarrow> Inr ()
      | Some n \<Rightarrow>
          res_bind (case number_entry schema ''minimum'' of
              None \<Rightarrow> Inr ()
            | Some minimum \<Rightarrow>
                (let exclusive = (flag_entry schema ''exclusiveMinimum'' = Some True) in
                 ensure (\<not> (number_as_f64 n < number_as_f64 minimum \<or> exclusive \<and> number_as_f64 n \<le> number_as_f64 minimum))
                   (invalid_request_bound path (if exclusive then ''must be above the pinned minimum''
                      else ''is below the pinned minimum'')))) (\<lambda>_.
          case number_entry schema ''maximum'' of
            None \<Rightarrow> Inr ()
          | Some maximum \<Rightarrow>
              (let exclusive = (flag_entry schema ''exclusiveMaximum'' = Some True) in
               ensure (\<not> (number_as_f64 n > number_as_f64 maximum \<or> exclusive \<and> number_as_f64 n \<ge> number_as_f64 maximum))
                 (invalid_request_bound path (if exclusive then ''must be below the pinned maximum''
                    else ''is above the pinned maximum'')))))"

text \<open>The loop over the items with the set of keys seen so far.\<close>

fun unique_items :: "(json \<Rightarrow> string metered) \<Rightarrow> string \<Rightarrow> string list \<Rightarrow> json list \<Rightarrow> unit metered" where
  "unique_items key_of path seen [] = m_return ()"
| "unique_items key_of path seen (item # items) =
     m_bind (key_of item) (\<lambda>key.
       if key \<in> set seen
       then m_check (Inl (invalid_request_bound path ''contains duplicate items disallowed by the pinned schema''))
       else unique_items key_of path (key # seen) items)"

text \<open>Below, \<open>left\<close> is the nesting left one level further down, where items get their keys.\<close>

definition validate_request_schema_bounds :: "wire \<Rightarrow> nat \<Rightarrow> json \<Rightarrow> json \<Rightarrow> string \<Rightarrow> unit metered" where
  "validate_request_schema_bounds w left schema value path =
     m_bind (m_check (validate_multiple w schema value path)) (\<lambda>_.
     m_bind (m_check (validate_range schema value path)) (\<lambda>_.
     case value of
       JString text \<Rightarrow>
         m_bind (m_check (validate_length_bounds schema path (char_count text) ''characters'' ''minLength'' ''maxLength'')) (\<lambda>_.
         m_check (validate_string_format w schema text path))
     | JArray items \<Rightarrow>
         m_bind (m_check (validate_length_bounds schema path (length items) ''items'' ''minItems'' ''maxItems'')) (\<lambda>_.
         if flag_entry schema ''uniqueItems'' = Some True
         then unique_items (append_schema_equality_key left) path [] items else m_return ())
     | JObject m \<Rightarrow>
         m_check (validate_length_bounds schema path (length m) ''properties'' ''minProperties'' ''maxProperties'')
     | _ \<Rightarrow> m_return ()))"


section \<open>Objects\<close>

fun json_type_matches :: "json \<Rightarrow> string \<Rightarrow> bool" where
  "json_type_matches value expected =
     (if expected = ''object'' then json_as_object value \<noteq> None
      else if expected = ''array'' then json_as_array value \<noteq> None
      else if expected = ''string'' then json_as_str value \<noteq> None
      else if expected = ''number'' then json_as_number value \<noteq> None
      else if expected = ''integer'' then
        (case json_as_number value of
           None \<Rightarrow> False
         | Some n \<Rightarrow> number_as_i64 n \<noteq> None \<or> number_as_u64 n \<noteq> None)
      else if expected = ''boolean'' then json_as_bool value \<noteq> None
      else if expected = ''null'' then value = JNull
      else True)"

declare json_type_matches.simps [simp del]

definition request_property_path :: "string \<Rightarrow> string \<Rightarrow> string" where
  "request_property_path parent property = (if parent = [] then property else parent @ ''.'' @ property)"

text \<open>A schema nested in another, and the names a schema declares itself.\<close>

definition members_entry :: "json \<Rightarrow> string \<Rightarrow> json list" where
  "members_entry schema k = (case list_entry schema k of None \<Rightarrow> [] | Some ms \<Rightarrow> ms)"

definition declared_properties :: "json \<Rightarrow> string list" where
  "declared_properties schema = (case object_entry schema ''properties'' of None \<Rightarrow> [] | Some m \<Rightarrow> map fst m)"

text \<open>Sets of names are lists here, used by membership only; the recursion is on the nesting left.\<close>

primrec collect_composed_property_names :: "nat \<Rightarrow> json \<Rightarrow> string list" where
  "collect_composed_property_names 0 schema = []"
| "collect_composed_property_names (Suc left) schema =
     declared_properties schema @
     concat (map (\<lambda>composition. concat (map (collect_composed_property_names left) (members_entry schema composition)))
       [''allOf'', ''oneOf'', ''anyOf''])"

definition composed_names :: "json \<Rightarrow> string list" where
  "composed_names schema = collect_composed_property_names (max_request_validation_depth + 1) schema"

type_synonym validator = "json \<Rightarrow> json \<Rightarrow> string \<Rightarrow> string list \<Rightarrow> unit metered"

definition required_names :: "json \<Rightarrow> string list" where
  "required_names schema = List.map_filter json_as_str (members_entry schema ''required'')"

text \<open>One member of an object, against its own schema or the rule for additional properties.\<close>

definition validate_member :: "validator \<Rightarrow> json \<Rightarrow> string \<Rightarrow> string list \<Rightarrow> string \<times> json \<Rightarrow> unit metered" where
  "validate_member inner schema path allowed = (\<lambda>(name, value).
     (case Option.bind (object_entry schema ''properties'') (\<lambda>m. bt_get m name) of
        Some property \<Rightarrow> inner property value (request_property_path path name) []
      | None \<Rightarrow>
          (let location = (if path = [] then ''request body'' else path) in
           case json_get schema ''additionalProperties'' of
             Some (JBool False) \<Rightarrow>
               m_check (Inl (''object at `'' @ location @ ''` contains a property disallowed by the pinned schema''))
           | Some (JObject m) \<Rightarrow> inner (JObject m) value path []
           | None \<Rightarrow>
               m_check (ensure (object_entry schema ''properties'' = None \<or> name \<in> set allowed)
                 (''object at `'' @ location @ ''` contains a property outside the pinned contract''))
           | _ \<Rightarrow> m_return ())))"

definition validate_request_object :: "validator \<Rightarrow> json \<Rightarrow> (string \<times> json) list \<Rightarrow> string \<Rightarrow> string list \<Rightarrow> unit metered" where
  "validate_request_object inner schema m path allowed =
     m_bind (m_each (\<lambda>name. m_check (ensure (bt_get m name \<noteq> None)
         (''missing required property `'' @ request_property_path path name @ ''`''))) (required_names schema)) (\<lambda>_.
     m_each (validate_member inner schema path allowed) m)"

section \<open>Compositions\<close>

definition invalid_empty_composition :: "string \<Rightarrow> string \<Rightarrow> string" where
  "invalid_empty_composition path composition =
     request_schema_location path @ '' declares an empty pinned '' @ composition @ '' contract''"

definition validation_error_aborts_composition :: "string \<Rightarrow> bool" where
  "validation_error_aborts_composition reason \<longleftrightarrow>
     reason = depth_limit_reason \<or> reason = work_limit_reason \<or> str_contains reason ''declares an empty pinned''"

text \<open>One alternative: whether it accepts, unless its error ends the whole validation.\<close>

definition m_attempt :: "unit metered \<Rightarrow> bool metered" where
  "m_attempt m k = (case m k of
       (Inr _, k') \<Rightarrow> (Inr True, k')
     | (Inl e, k') \<Rightarrow> (if validation_error_aborts_composition e then Inl e else Inr False, k'))"

fun one_of_matches :: "(json \<Rightarrow> string metered) \<Rightarrow> (json \<Rightarrow> unit metered) \<Rightarrow> string list \<Rightarrow> nat \<Rightarrow> json list \<Rightarrow> nat metered" where
  "one_of_matches key_of accept seen n [] = m_return n"
| "one_of_matches key_of accept seen n (member # members) =
     m_bind (key_of member) (\<lambda>key.
       if key \<in> set seen then one_of_matches key_of accept seen n members
       else m_bind (m_attempt (accept member)) (\<lambda>ok.
         one_of_matches key_of accept (key # seen) (if ok then n + 1 else n) members))"

fun any_of_matches :: "(json \<Rightarrow> unit metered) \<Rightarrow> json list \<Rightarrow> bool metered" where
  "any_of_matches accept [] = m_return False"
| "any_of_matches accept (member # members) =
     m_bind (m_attempt (accept member)) (\<lambda>ok. if ok then m_return True else any_of_matches accept members)"

definition sibling_names :: "string list \<Rightarrow> json list \<Rightarrow> string list" where
  "sibling_names direct members = direct @ concat (map composed_names members)"

definition validate_all_of :: "validator \<Rightarrow> json \<Rightarrow> json \<Rightarrow> string \<Rightarrow> string list \<Rightarrow> unit metered" where
  "validate_all_of inner schema value path direct =
     (case list_entry schema ''allOf'' of
        None \<Rightarrow> m_return ()
      | Some members \<Rightarrow>
          if members = [] then m_check (Inl (invalid_empty_composition path ''allOf''))
          else m_each (\<lambda>member. inner member value path (sibling_names direct members)) members)"

definition validate_one_of :: "nat \<Rightarrow> validator \<Rightarrow> json \<Rightarrow> json \<Rightarrow> string \<Rightarrow> string list \<Rightarrow> unit metered" where
  "validate_one_of left inner schema value path direct =
     (case list_entry schema ''oneOf'' of
        None \<Rightarrow> m_return ()
      | Some members \<Rightarrow>
          if members = [] then m_check (Inl (invalid_empty_composition path ''oneOf''))
          else m_bind (one_of_matches (append_schema_equality_key left) (\<lambda>member. inner member value path direct) [] 0 members) (\<lambda>n.
            m_check (ensure (n = 1) (request_schema_location path @ '' must match exactly one pinned oneOf alternative''))))"

definition validate_any_of :: "validator \<Rightarrow> json \<Rightarrow> json \<Rightarrow> string \<Rightarrow> string list \<Rightarrow> unit metered" where
  "validate_any_of inner schema value path direct =
     (case list_entry schema ''anyOf'' of
        None \<Rightarrow> m_return ()
      | Some members \<Rightarrow>
          if members = [] then m_check (Inl (invalid_empty_composition path ''anyOf''))
          else m_bind (any_of_matches (\<lambda>member. inner member value path (sibling_names direct members)) members) (\<lambda>found.
            m_check (ensure found (request_schema_location path @ '' must match at least one pinned anyOf alternative''))))"

definition validate_schema_composition :: "nat \<Rightarrow> validator \<Rightarrow> json \<Rightarrow> json \<Rightarrow> string \<Rightarrow> string list \<Rightarrow> unit metered" where
  "validate_schema_composition left inner schema value path inherited =
     (let direct = inherited @ declared_properties schema in
      m_bind (validate_all_of inner schema value path direct) (\<lambda>_.
      m_bind (validate_one_of left inner schema value path direct) (\<lambda>_.
      validate_any_of inner schema value path direct)))"

section \<open>The validator\<close>

definition null_accepted :: "json \<Rightarrow> json \<Rightarrow> bool" where
  "null_accepted schema value \<longleftrightarrow>
     value = JNull \<and>
     (flag_entry schema ''nullable'' = Some True \<or> value \<in> set (members_entry schema ''enum''))"

definition enum_accepts :: "json \<Rightarrow> json \<Rightarrow> bool" where
  "enum_accepts schema value \<longleftrightarrow>
     (case list_entry schema ''enum'' of None \<Rightarrow> True | Some values \<Rightarrow> value \<in> set values)"

definition type_accepts :: "json \<Rightarrow> json \<Rightarrow> bool" where
  "type_accepts schema value \<longleftrightarrow>
     (case string_entry schema ''type'' of None \<Rightarrow> True | Some expected \<Rightarrow> json_type_matches value expected)"

definition type_reason :: "json \<Rightarrow> string \<Rightarrow> string" where
  "type_reason schema path =
     (let expected = (case string_entry schema ''type'' of None \<Rightarrow> [] | Some t \<Rightarrow> t)
      in if path = [] then ''expected top-level '' @ expected else ''property `'' @ path @ ''` must be '' @ expected)"

text \<open>The step of the validator at one schema; \<open>inner\<close> is the validator one level further down.\<close>

definition validate_step :: "wire \<Rightarrow> nat \<Rightarrow> validator \<Rightarrow> validator" where
  "validate_step w left inner schema value path inherited =
     (if null_accepted schema value then m_return ()
      else
        m_bind (m_check (ensure (type_accepts schema value) (type_reason schema path))) (\<lambda>_.
        m_bind (m_check (ensure (enum_accepts schema value)
          (request_schema_location path @ '' is not one of the pinned enum values''))) (\<lambda>_.
        m_bind (validate_request_schema_bounds w left schema value path) (\<lambda>_.
        m_bind (case json_as_object value of
            None \<Rightarrow> m_return ()
          | Some m \<Rightarrow> validate_request_object inner schema m path (inherited @ composed_names schema)) (\<lambda>_.
        m_bind (case (json_as_array value, json_get schema ''items'') of
            (Some vs, Some items) \<Rightarrow> m_each (\<lambda>item. inner items item path []) vs
          | _ \<Rightarrow> m_return ()) (\<lambda>_.
        validate_schema_composition left inner schema value path inherited))))))"

primrec validate_request_schema_value_inner :: "wire \<Rightarrow> nat \<Rightarrow> validator" where
  "validate_request_schema_value_inner w 0 = (\<lambda>schema value path inherited. m_check (Inl depth_limit_reason))"
| "validate_request_schema_value_inner w (Suc left) = (\<lambda>schema value path inherited.
     m_bind spend_step (\<lambda>_. validate_step w left (validate_request_schema_value_inner w left) schema value path inherited))"

definition validate_request_schema_value :: "wire \<Rightarrow> json \<Rightarrow> json \<Rightarrow> string \<Rightarrow> nat \<Rightarrow> string + unit" where
  "validate_request_schema_value w schema value path depth =
     fst (validate_request_schema_value_inner w (max_request_validation_depth + 1 - depth) schema value path []
       max_request_validation_steps)"


section \<open>What a schema means\<close>

text \<open>
  The reference the validator is compared with: no budget, no nesting limit, no messages; numbers are
  compared by value and items by their numeric form.
\<close>

definition multiple_accepts :: "wire \<Rightarrow> json \<Rightarrow> json \<Rightarrow> bool" where
  "multiple_accepts w schema value \<longleftrightarrow>
     (\<forall>multiple n. json_get schema ''multipleOf'' = Some multiple \<longrightarrow> json_as_number value = Some n \<longrightarrow>
       (\<exists>m v d. json_as_number multiple = Some m \<and>
          decimal_magnitude (show_number (ryu w) n) = Some v \<and> decimal_magnitude (show_number (ryu w) m) = Some d \<and>
          coefficient d \<noteq> 0 \<and> \<not> starts_with (show_number (ryu w) m) ''-'' \<and>
          (coefficient v = 0 \<or> checked_i32 (exponent v - exponent d) \<noteq> None) \<and>
          (\<exists>q::int. magnitude_value v = of_int q * magnitude_value d)))"

definition range_accepts :: "json \<Rightarrow> json \<Rightarrow> bool" where
  "range_accepts schema value \<longleftrightarrow>
     (\<forall>n b. json_as_number value = Some n \<longrightarrow>
       (number_entry schema ''minimum'' = Some b \<longrightarrow>
         number_as_f64 b \<le> number_as_f64 n \<and> (flag_entry schema ''exclusiveMinimum'' = Some True \<longrightarrow> number_as_f64 b \<noteq> number_as_f64 n)) \<and>
       (number_entry schema ''maximum'' = Some b \<longrightarrow>
         number_as_f64 n \<le> number_as_f64 b \<and> (flag_entry schema ''exclusiveMaximum'' = Some True \<longrightarrow> number_as_f64 n \<noteq> number_as_f64 b)))"

definition length_accepts :: "json \<Rightarrow> nat \<Rightarrow> string \<Rightarrow> string \<Rightarrow> bool" where
  "length_accepts schema n lo hi \<longleftrightarrow>
     (\<forall>b. (u64_entry schema lo = Some b \<longrightarrow> b \<le> n) \<and> (u64_entry schema hi = Some b \<longrightarrow> n \<le> b))"

definition format_accepts :: "wire \<Rightarrow> json \<Rightarrow> string \<Rightarrow> bool" where
  "format_accepts w schema s \<longleftrightarrow>
     (\<forall>(format, valid) \<in> set [(''date'', request_date_valid w), (''date-time'', rfc3339_valid w),
        (''email'', is_valid_ascii_email), (''hostname'', is_valid_hostname), (''ipv4'', is_ipv4), (''ipv6'', is_ipv6),
        (''cloudflare-uuid'', is_valid_cloudflare_uuid)].
        string_entry schema ''format'' = Some format \<longrightarrow> valid s)"

fun bounds_accept :: "wire \<Rightarrow> json \<Rightarrow> json \<Rightarrow> bool" where
  "bounds_accept w schema (JString s) \<longleftrightarrow>
     length_accepts schema (char_count s) ''minLength'' ''maxLength'' \<and> format_accepts w schema s"
| "bounds_accept w schema (JArray vs) \<longleftrightarrow>
     length_accepts schema (length vs) ''minItems'' ''maxItems'' \<and>
     (flag_entry schema ''uniqueItems'' = Some True \<longrightarrow> distinct (map numeric_form vs))"
| "bounds_accept w schema (JObject m) \<longleftrightarrow> length_accepts schema (length m) ''minProperties'' ''maxProperties''"
| "bounds_accept w schema v \<longleftrightarrow> multiple_accepts w schema v \<and> range_accepts schema v"

text \<open>Alternatives that differ from the earlier ones.\<close>

fun fresh_members :: "json list \<Rightarrow> json list \<Rightarrow> json list" where
  "fresh_members seen [] = []"
| "fresh_members seen (m # ms) =
     (if numeric_form m \<in> set seen then fresh_members seen ms
      else m # fresh_members (numeric_form m # seen) ms)"

lemma fresh_members_subset: "m \<in> set (fresh_members seen ms) \<Longrightarrow> m \<in> set ms"
  by (induction ms arbitrary: seen) (auto split: if_splits)

definition property_schema :: "json \<Rightarrow> string \<Rightarrow> json option" where
  "property_schema schema name = Option.bind (object_entry schema ''properties'') (\<lambda>m. bt_get m name)"

lemma bt_get_size: "bt_get m k = Some v \<Longrightarrow> size v < size (JObject m)"
  unfolding bt_get_def by (rule size_entry_less [OF map_of_SomeD])

lemma json_get_size: "json_get schema k = Some v \<Longrightarrow> size v < size schema"
  by (cases schema) (auto simp only: json_get.simps dest: bt_get_size)

lemma list_entry_Some: "list_entry schema k = Some ms \<longleftrightarrow> json_get schema k = Some (JArray ms)"
  by (auto simp: list_entry_def bind_eq_Some_conv elim: json_as_array.elims)

lemma object_entry_Some: "object_entry schema k = Some m \<longleftrightarrow> json_get schema k = Some (JObject m)"
  by (auto simp: object_entry_def bind_eq_Some_conv elim: json_as_object.elims)

lemma members_entry_elim:
  assumes "m \<in> set (members_entry schema k)"
  obtains ms where "json_get schema k = Some (JArray ms)" "m \<in> set ms"
  using assms by (cases "list_entry schema k") (auto simp: members_entry_def list_entry_Some)

lemma members_size: "m \<in> set (members_entry schema k) \<Longrightarrow> size m < size schema"
  by (metis json_get_size members_entry_elim order_less_trans size_item_less)

lemma property_schema_size: "property_schema schema name = Some p \<Longrightarrow> size p < size schema"
  by (auto simp: property_schema_def object_entry_def bind_eq_Some_conv elim!: json_as_object.elims
      dest!: json_get_size bt_get_size)

function conforms :: "wire \<Rightarrow> string list \<Rightarrow> json \<Rightarrow> json \<Rightarrow> bool" where
  "conforms w inherited schema value \<longleftrightarrow>
     null_accepted schema value \<or>
     type_accepts schema value \<and> enum_accepts schema value \<and> bounds_accept w schema value \<and>
     (case value of
        JObject m \<Rightarrow>
          set (required_names schema) \<subseteq> fst ` set m \<and>
          (\<forall>entry \<in> set m.
             case property_schema schema (fst entry) of
               Some p \<Rightarrow> conforms w [] p (snd entry)
             | None \<Rightarrow>
                 (case json_get schema ''additionalProperties'' of
                    Some additional \<Rightarrow>
                      additional \<noteq> JBool False \<and> (json_as_object additional \<noteq> None \<longrightarrow> conforms w [] additional (snd entry))
                  | None \<Rightarrow> object_entry schema ''properties'' = None \<or> fst entry \<in> set (inherited @ composed_names schema)))
      | JArray vs \<Rightarrow>
          (case json_get schema ''items'' of None \<Rightarrow> True | Some items \<Rightarrow> \<forall>v \<in> set vs. conforms w [] items v)
      | _ \<Rightarrow> True) \<and>
     (\<forall>member \<in> set (members_entry schema ''allOf'').
        conforms w (sibling_names (inherited @ declared_properties schema) (members_entry schema ''allOf'')) member value) \<and>
     (list_entry schema ''oneOf'' \<noteq> None \<longrightarrow>
        length (filter (\<lambda>member. conforms w (inherited @ declared_properties schema) member value)
          (fresh_members [] (members_entry schema ''oneOf''))) = 1) \<and>
     (list_entry schema ''anyOf'' \<noteq> None \<longrightarrow>
        (\<exists>member \<in> set (members_entry schema ''anyOf'').
           conforms w (sibling_names (inherited @ declared_properties schema) (members_entry schema ''anyOf'')) member value))"
  by pat_completeness auto
termination
  by (relation "measure (\<lambda>(w, inherited, schema, value). size schema)")
    (auto dest: json_get_size members_size property_schema_size fresh_members_subset)

declare conforms.simps [simp del]


section \<open>Agreement\<close>

text \<open>
  A check agrees with a condition: it passes only where the condition holds, and an error other than
  those that end the whole validation is a refusal.
\<close>

definition agrees :: "'a metered \<Rightarrow> bool \<Rightarrow> bool" where
  "agrees m b \<longleftrightarrow> (\<forall>k. case fst (m k) of Inr _ \<Rightarrow> b | Inl e \<Rightarrow> validation_error_aborts_composition e \<or> \<not> b)"

definition yields :: "'a metered \<Rightarrow> ('a \<Rightarrow> bool) \<Rightarrow> bool" where
  "yields m P \<longleftrightarrow> (\<forall>k. case fst (m k) of Inr x \<Rightarrow> P x | Inl e \<Rightarrow> validation_error_aborts_composition e)"

lemma limits_abort [simp]:
  "validation_error_aborts_composition depth_limit_reason"
  "validation_error_aborts_composition work_limit_reason"
  by (simp_all add: validation_error_aborts_composition_def)

lemma agrees_bind:
  "agrees m b \<Longrightarrow> (b \<Longrightarrow> agrees (f ()) c) \<Longrightarrow> agrees (m_bind m f) (b \<and> c)"
  unfolding agrees_def m_bind_def by (auto split: prod.splits sum.splits) (metis fst_conv sum.inject sum.simps(4-6))+

lemma agrees_yields: "yields m P \<Longrightarrow> (\<And>x. P x \<Longrightarrow> agrees (f x) c) \<Longrightarrow> agrees (m_bind m f) c"
  unfolding agrees_def yields_def m_bind_def by (auto split: prod.splits sum.splits) (metis fst_conv sum.inject sum.simps(4-6))+

lemma yields_bind: "yields m P \<Longrightarrow> (\<And>x. P x \<Longrightarrow> yields (f x) Q) \<Longrightarrow> yields (m_bind m f) Q"
  unfolding yields_def m_bind_def by (auto split: prod.splits sum.splits) (metis fst_conv sum.inject sum.simps(4-6))+

lemma agrees_return [intro]: "agrees (m_return x) True"
  by (simp add: agrees_def m_return_def)

lemma yields_return [intro]: "P x \<Longrightarrow> yields (m_return x) P"
  by (simp add: yields_def m_return_def)

lemma agrees_check: "(r = Inr u \<longleftrightarrow> b) \<Longrightarrow> agrees (m_check (r :: string + unit)) b"
  by (cases r) (auto simp: agrees_def m_check_def)

lemma agrees_abort: "validation_error_aborts_composition e \<Longrightarrow> agrees (m_check (Inl e)) b"
  by (simp add: agrees_def m_check_def)

lemma spend_yields: "yields spend_step (\<lambda>_. True)"
  by (simp add: yields_def spend_step_def)

lemma agrees_each: "(\<And>x. x \<in> set xs \<Longrightarrow> agrees (f x) (b x)) \<Longrightarrow> agrees (m_each f xs) (\<forall>x \<in> set xs. b x)"
  by (induction xs) (auto intro: agrees_bind agrees_return)

lemma agrees_attempt: "agrees m b \<Longrightarrow> yields (m_attempt m) (\<lambda>ok. ok = b)"
  unfolding agrees_def yields_def m_attempt_def by (auto split: prod.splits sum.splits) (metis fst_conv sum.simps(5,6))+

lemma yields_map: "(\<And>x. yields (f x) (\<lambda>_. True)) \<Longrightarrow> yields (m_map f xs) (\<lambda>_. True)"
  by (induction xs) (auto intro!: yields_bind [where P = "\<lambda>_. True"] yields_return)


lemma key_errors_abort: "yields (append_schema_equality_key n v) (\<lambda>_. True)"
proof (induction n arbitrary: v)
  case (Suc n)
  have "yields (m_map (append_schema_equality_key n) vs) (\<lambda>_. True)" for vs by (rule yields_map) (rule Suc.IH)
  moreover have "yields (m_map (\<lambda>entry. m_bind (append_schema_equality_key n (snd entry)) (\<lambda>key.
      m_return (length_prefixed_string (CHR ''k'') (fst entry) @ key))) m) (\<lambda>_. True)" for m :: "(string \<times> json) list"
    by (rule yields_map) (auto intro!: yields_bind [OF Suc.IH] yields_return)
  ultimately show ?case
    by (auto intro!: yields_bind [OF spend_yields] yields_return split: json.split intro: yields_bind [where P = "\<lambda>_. True"])
qed (simp add: yields_def m_check_def)

lemma key_yields: "rep_json v \<Longrightarrow> yields (append_schema_equality_key n v) (\<lambda>s. s = value_key v)"
  using key_errors_abort [of n v] append_key_value [of n v]
  unfolding yields_def by (fastforce split: sum.splits simp: prod_eq_iff)

lemma distinct_keys:
  "\<forall>v \<in> set vs. rep_json v \<Longrightarrow> distinct (map value_key vs) \<longleftrightarrow> distinct (map numeric_form vs)"
  by (auto simp: distinct_map inj_on_def value_key_eq_iff)

lemma unique_items_agrees:
  assumes "\<forall>v \<in> set vs. rep_json v" "distinct seen"
  shows "agrees (unique_items (append_schema_equality_key n) path seen vs) (distinct (map value_key vs) \<and> set seen \<inter> value_key ` set vs = {})"
  using assms
proof (induction vs arbitrary: seen)
  case (Cons v vs)
  have rep: "rep_json v" using Cons.prems by simp
  show ?case
    unfolding unique_items.simps
  proof (rule agrees_yields [OF key_yields [OF rep]])
    fix key assume key: "key = value_key v"
    show "agrees (if key \<in> set seen
        then m_check (Inl (invalid_request_bound path ''contains duplicate items disallowed by the pinned schema''))
        else unique_items (append_schema_equality_key n) path (key # seen) vs)
      (distinct (map value_key (v # vs)) \<and> set seen \<inter> value_key ` set (v # vs) = {})"
    proof (cases "key \<in> set seen")
      case True
      then show ?thesis by (auto simp: key intro!: agrees_check)
    next
      case False
      have "(distinct (map value_key (v # vs)) \<and> set seen \<inter> value_key ` set (v # vs) = {}) \<longleftrightarrow>
          distinct (map value_key vs) \<and> set (key # seen) \<inter> value_key ` set vs = {}"
        using False key by auto
      with Cons.IH [of "key # seen"] Cons.prems False show ?thesis by simp
    qed
  qed
qed (simp add: agrees_return)

lemma one_of_yields:
  assumes "\<forall>m \<in> set ms. rep_json m \<and> agrees (accept m) (b m)" "\<forall>m \<in> set reps. rep_json m"
  shows "yields (one_of_matches (append_schema_equality_key n) accept (map value_key reps) i ms)
    (\<lambda>r. r = i + length (filter b (fresh_members (map numeric_form reps) ms)))"
  using assms
proof (induction ms arbitrary: reps i)
  case (Cons m ms)
  have rep: "rep_json m" using Cons.prems by simp
  have seen: "value_key m \<in> set (map value_key reps) \<longleftrightarrow> numeric_form m \<in> set (map numeric_form reps)"
    using Cons.prems(2) value_key_eq_iff [OF rep] by auto
  show ?case
    unfolding one_of_matches.simps
  proof (rule yields_bind [OF key_yields [OF rep]])
    fix key assume key: "key = value_key m"
    show "yields (if key \<in> set (map value_key reps) then one_of_matches (append_schema_equality_key n) accept (map value_key reps) i ms
        else m_bind (m_attempt (accept m)) (\<lambda>ok.
          one_of_matches (append_schema_equality_key n) accept (key # map value_key reps) (if ok then i + 1 else i) ms))
      (\<lambda>r. r = i + length (filter b (fresh_members (map numeric_form reps) (m # ms))))"
    proof (cases "key \<in> set (map value_key reps)")
      case True
      then show ?thesis using Cons.IH [of reps i] Cons.prems seen by (simp add: key)
    next
      case False
      have "yields (m_attempt (accept m)) (\<lambda>ok. ok = b m)" using Cons.prems by (intro agrees_attempt) simp
      moreover have "yields (one_of_matches (append_schema_equality_key n) accept (key # map value_key reps) (if b m then i + 1 else i) ms)
          (\<lambda>r. r = i + length (filter b (fresh_members (map numeric_form reps) (m # ms))))"
        using Cons.IH [of "m # reps" "if b m then i + 1 else i"] Cons.prems False seen by (auto simp: key)
      ultimately show ?thesis using False by (auto intro: yields_bind)
    qed
  qed
qed (simp add: yields_return)

lemma any_of_yields:
  "\<forall>m \<in> set ms. agrees (accept m) (b m) \<Longrightarrow> yields (any_of_matches accept ms) (\<lambda>r. r \<longleftrightarrow> (\<exists>m \<in> set ms. b m))"
proof (induction ms)
  case (Cons m ms)
  have "yields (m_attempt (accept m)) (\<lambda>ok. ok = b m)" using Cons.prems by (intro agrees_attempt) simp
  then show ?case using Cons by (auto intro!: yields_bind yields_return)
qed (simp add: yields_return)


section \<open>Bounds agree\<close>

lemma exact_multiple_iff:
  "exact_decimal_multiple pr n m = Some (Some True) \<longleftrightarrow>
     (\<exists>v d. decimal_magnitude (show_number pr n) = Some v \<and> decimal_magnitude (show_number pr m) = Some d \<and>
        coefficient d \<noteq> 0 \<and> \<not> starts_with (show_number pr m) ''-'' \<and>
        (coefficient v = 0 \<or> checked_i32 (exponent v - exponent d) \<noteq> None) \<and>
        (\<exists>q::int. magnitude_value v = of_int q * magnitude_value d))" (is "?l \<longleftrightarrow> ?r")
proof (cases "decimal_magnitude (show_number pr n) = None \<or> decimal_magnitude (show_number pr m) = None")
  case False
  then obtain v d where vd: "decimal_magnitude (show_number pr n) = Some v" "decimal_magnitude (show_number pr m) = Some d" by auto
  consider (bad) "coefficient d = 0 \<or> starts_with (show_number pr m) ''-''"
    | (zero) "coefficient d \<noteq> 0" "\<not> starts_with (show_number pr m) ''-''" "coefficient v = 0"
    | (far) "coefficient d \<noteq> 0" "\<not> starts_with (show_number pr m) ''-''" "coefficient v \<noteq> 0" "checked_i32 (exponent v - exponent d) = None"
    | (near) k where "coefficient d \<noteq> 0" "\<not> starts_with (show_number pr m) ''-''" "checked_i32 (exponent v - exponent d) = Some k"
    by blast
  then show ?thesis
  proof cases
    case zero
    then have "\<exists>q::int. magnitude_value v = of_int q * magnitude_value d" by (intro exI [of _ 0]) (simp add: magnitude_value_def)
    with zero vd show ?thesis by (simp add: exact_decimal_multiple_def)
  next
    case near
    from exact_multiple [OF vd near] show ?thesis using vd near by simp
  qed (use vd in \<open>auto simp: exact_decimal_multiple_def Let_def\<close>)
qed (auto simp: exact_decimal_multiple_def split: option.splits)

lemma multiple_agrees: "agrees (m_check (validate_multiple w schema value path)) (multiple_accepts w schema value)"
  by (rule agrees_check)
    (auto simp: validate_multiple_def multiple_accepts_def exact_multiple_iff split: option.splits)

lemma range_agrees: "agrees (m_check (validate_range schema value path)) (range_accepts schema value)"
  by (rule agrees_check)
    (auto simp: validate_range_def range_accepts_def Let_def result_simps split: option.splits)

lemma length_agrees:
  "agrees (m_check (validate_length_bounds schema path n units lo hi)) (length_accepts schema n lo hi)"
  by (rule agrees_check)
    (auto simp: validate_length_bounds_def length_accepts_def result_simps split: option.splits)

lemma format_agrees: "agrees (m_check (validate_string_format w schema s path)) (format_accepts w schema s)"
  by (rule agrees_check) (simp add: validate_string_format_def format_accepts_def split: option.split)

text \<open>A number has no length and a text no range, so each value meets the checks of its own kind only.\<close>

lemma bounds_accept_split:
  "bounds_accept w schema value \<longleftrightarrow>
     multiple_accepts w schema value \<and> range_accepts schema value \<and>
     (case value of
        JString s \<Rightarrow> length_accepts schema (char_count s) ''minLength'' ''maxLength'' \<and> format_accepts w schema s
      | JArray vs \<Rightarrow> length_accepts schema (length vs) ''minItems'' ''maxItems'' \<and>
          (flag_entry schema ''uniqueItems'' = Some True \<longrightarrow> distinct (map numeric_form vs))
      | JObject m \<Rightarrow> length_accepts schema (length m) ''minProperties'' ''maxProperties''
      | _ \<Rightarrow> True)"
  by (cases "value") (auto simp: multiple_accepts_def range_accepts_def)

lemma unique_agrees:
  assumes "rep_json (JArray vs)"
  shows "agrees (if b then unique_items (append_schema_equality_key n) path [] vs else m_return ())
    (b \<longrightarrow> distinct (map numeric_form vs))"
  using unique_items_agrees [of vs "[]" n path] distinct_keys [of vs] assms
  by (auto simp: list_all_iff intro: agrees_return)

lemma bounds_agree:
  assumes "rep_json value"
  shows "agrees (validate_request_schema_bounds w n schema value path) (bounds_accept w schema value)"
  unfolding validate_request_schema_bounds_def bounds_accept_split
proof (intro agrees_bind multiple_agrees range_agrees)
  show "agrees (case value of
       JString text \<Rightarrow>
         m_bind (m_check (validate_length_bounds schema path (char_count text) ''characters'' ''minLength'' ''maxLength'')) (\<lambda>_.
         m_check (validate_string_format w schema text path))
     | JArray items \<Rightarrow>
         m_bind (m_check (validate_length_bounds schema path (length items) ''items'' ''minItems'' ''maxItems'')) (\<lambda>_.
         if flag_entry schema ''uniqueItems'' = Some True
         then unique_items (append_schema_equality_key n) path [] items else m_return ())
     | JObject m \<Rightarrow>
         m_check (validate_length_bounds schema path (length m) ''properties'' ''minProperties'' ''maxProperties'')
     | _ \<Rightarrow> m_return ())
    (case value of
        JString s \<Rightarrow> length_accepts schema (char_count s) ''minLength'' ''maxLength'' \<and> format_accepts w schema s
      | JArray vs \<Rightarrow> length_accepts schema (length vs) ''minItems'' ''maxItems'' \<and>
          (flag_entry schema ''uniqueItems'' = Some True \<longrightarrow> distinct (map numeric_form vs))
      | JObject m \<Rightarrow> length_accepts schema (length m) ''minProperties'' ''maxProperties''
      | _ \<Rightarrow> True)"
  proof (cases "value")
    case (JArray vs)
    with assms show ?thesis unfolding JArray json.case by (intro agrees_bind length_agrees unique_agrees) simp
  qed (simp_all only: json.case, intro agrees_return, intro agrees_return, intro agrees_return,
      intro agrees_bind length_agrees format_agrees, rule length_agrees)
qed

section \<open>Objects and compositions agree\<close>

lemma rep_json_get: "rep_json schema \<Longrightarrow> json_get schema k = Some v \<Longrightarrow> rep_json v"
  by (cases schema) (auto simp: bt_get_def list_all_iff dest!: map_of_SomeD)

lemma rep_members:
  assumes "rep_json schema" "m \<in> set (members_entry schema k)"
  shows "rep_json m"
proof -
  obtain ms where "json_get schema k = Some (JArray ms)" "m \<in> set ms" using assms(2) by (rule members_entry_elim)
  with rep_json_get [OF assms(1) this(1)] show ?thesis by (simp add: list_all_iff)
qed

lemma rep_property:
  assumes "rep_json schema" "property_schema schema name = Some p"
  shows "rep_json p"
proof -
  obtain m where m: "json_get schema ''properties'' = Some (JObject m)" "bt_get m name = Some p"
    using assms(2) by (auto simp: property_schema_def object_entry_Some bind_eq_Some_conv)
  have "json_get (JObject m) name = Some p" using m(2) by simp
  with rep_json_get [OF rep_json_get [OF assms(1) m(1)]] show ?thesis .
qed

definition member_conforms :: "(json \<Rightarrow> json \<Rightarrow> bool) \<Rightarrow> string list \<Rightarrow> json \<Rightarrow> string \<times> json \<Rightarrow> bool" where
  "member_conforms c allowed schema entry \<longleftrightarrow>
     (case property_schema schema (fst entry) of
        Some p \<Rightarrow> c p (snd entry)
      | None \<Rightarrow>
          (case json_get schema ''additionalProperties'' of
             Some additional \<Rightarrow> additional \<noteq> JBool False \<and> (json_as_object additional \<noteq> None \<longrightarrow> c additional (snd entry))
           | None \<Rightarrow> object_entry schema ''properties'' = None \<or> fst entry \<in> set allowed))"

lemma member_agrees:
  assumes inner: "\<And>s path. rep_json s \<Longrightarrow> agrees (inner s (snd entry) path []) (c s (snd entry))" and "rep_json schema"
  shows "agrees (validate_member inner schema path allowed entry) (member_conforms c allowed schema entry)"
proof (cases "property_schema schema (fst entry)")
  case (Some p)
  with inner [of p] rep_property [OF assms(2) Some] show ?thesis
    by (simp add: validate_member_def member_conforms_def property_schema_def case_prod_unfold)
next
  case None
  note step = validate_member_def member_conforms_def case_prod_unfold Let_def
  show ?thesis
  proof (cases "json_get schema ''additionalProperties''")
    case additional: (Some additional)
    from inner [OF rep_json_get [OF assms(2) additional]] None additional show ?thesis
      by (cases additional) (auto simp: step property_schema_def intro!: agrees_check agrees_return split: bool.split)
  qed (use None in \<open>auto simp: step property_schema_def intro!: agrees_check\<close>)
qed

lemma object_agrees:
  assumes "\<And>s v path. rep_json s \<Longrightarrow> rep_json v \<Longrightarrow> agrees (inner s v path []) (c s v)"
    and "rep_json schema" "rep_json (JObject m)"
  shows "agrees (validate_request_object inner schema m path allowed)
    (set (required_names schema) \<subseteq> fst ` set m \<and> (\<forall>entry \<in> set m. member_conforms c allowed schema entry))"
proof -
  have "bt_get m name \<noteq> None \<longleftrightarrow> name \<in> fst ` set m" for name by (simp add: bt_get_def map_of_eq_None_iff)
  then have "agrees (m_each (\<lambda>name. m_check (ensure (bt_get m name \<noteq> None)
      (''missing required property `'' @ request_property_path path name @ ''`''))) (required_names schema))
      (\<forall>name \<in> set (required_names schema). name \<in> fst ` set m)"
    by (intro agrees_each agrees_check) simp
  moreover have "agrees (m_each (validate_member inner schema path allowed) m) (\<forall>entry \<in> set m. member_conforms c allowed schema entry)"
    by (intro agrees_each member_agrees) (use assms rep_member in auto)
  ultimately show ?thesis unfolding validate_request_object_def subset_eq by (rule agrees_bind)
qed

lemma empty_composition_aborts [simp]: "validation_error_aborts_composition (invalid_empty_composition path k)"
proof -
  have "str_contains (p @ ''declares an empty pinned '' @ s) ''declares an empty pinned''" for p s
    by (induction p) (auto simp: starts_with_def)
  from this [of "request_schema_location path @ '' ''"] show ?thesis
    by (simp add: validation_error_aborts_composition_def invalid_empty_composition_def)
qed

lemma members_of_list [simp]: "list_entry schema k = Some ms \<Longrightarrow> members_entry schema k = ms"
  "list_entry schema k = None \<Longrightarrow> members_entry schema k = []"
  by (simp_all add: members_entry_def)

lemma all_of_agrees:
  assumes "\<And>s path inh. rep_json s \<Longrightarrow> agrees (inner s value path inh) (c inh s)" "rep_json schema"
  shows "agrees (validate_all_of inner schema value path direct)
    (\<forall>member \<in> set (members_entry schema ''allOf''). c (sibling_names direct (members_entry schema ''allOf'')) member)"
proof (cases "list_entry schema ''allOf''")
  case (Some ms)
  have rep: "m \<in> set ms \<Longrightarrow> rep_json m" for m using rep_members [OF assms(2), of m "''allOf''"] Some by simp
  with Some show ?thesis by (auto simp: validate_all_of_def agrees_abort intro!: agrees_each assms(1))
qed (simp add: validate_all_of_def agrees_return)

lemma one_of_agrees:
  assumes "\<And>s path inh. rep_json s \<Longrightarrow> agrees (inner s value path inh) (c inh s)" "rep_json schema"
  shows "agrees (validate_one_of n inner schema value path direct)
    (list_entry schema ''oneOf'' \<noteq> None \<longrightarrow>
      length (filter (c direct) (fresh_members [] (members_entry schema ''oneOf''))) = 1)"
proof (cases "list_entry schema ''oneOf''")
  case (Some ms)
  have rep: "m \<in> set ms \<Longrightarrow> rep_json m" for m using rep_members [OF assms(2), of m "''oneOf''"] Some by simp
  have "yields (one_of_matches (append_schema_equality_key n) (\<lambda>member. inner member value path direct) [] 0 ms)
      (\<lambda>r. r = length (filter (c direct) (fresh_members [] ms)))"
    using one_of_yields [of ms "\<lambda>member. inner member value path direct" "c direct" "[]" n 0] rep assms(1) by simp
  with Some show ?thesis by (auto simp: validate_one_of_def agrees_abort intro!: agrees_yields agrees_check)
qed (simp add: validate_one_of_def agrees_return)

lemma any_of_agrees:
  assumes "\<And>s path inh. rep_json s \<Longrightarrow> agrees (inner s value path inh) (c inh s)" "rep_json schema"
  shows "agrees (validate_any_of inner schema value path direct)
    (list_entry schema ''anyOf'' \<noteq> None \<longrightarrow>
      (\<exists>member \<in> set (members_entry schema ''anyOf''). c (sibling_names direct (members_entry schema ''anyOf'')) member))"
proof (cases "list_entry schema ''anyOf''")
  case (Some ms)
  have rep: "m \<in> set ms \<Longrightarrow> rep_json m" for m using rep_members [OF assms(2), of m "''anyOf''"] Some by simp
  have "yields (any_of_matches (\<lambda>member. inner member value path (sibling_names direct ms)) ms)
      (\<lambda>r. r = (\<exists>m \<in> set ms. c (sibling_names direct ms) m))"
    using rep assms(1) by (intro any_of_yields) simp
  with Some show ?thesis by (auto simp: validate_any_of_def agrees_abort intro!: agrees_yields agrees_check)
qed (simp add: validate_any_of_def agrees_return)

lemma composition_agrees:
  assumes "\<And>s path inh. rep_json s \<Longrightarrow> agrees (inner s value path inh) (c inh s)" "rep_json schema"
  shows "agrees (validate_schema_composition n inner schema value path inherited)
    ((\<forall>member \<in> set (members_entry schema ''allOf'').
        c (sibling_names (inherited @ declared_properties schema) (members_entry schema ''allOf'')) member) \<and>
     (list_entry schema ''oneOf'' \<noteq> None \<longrightarrow>
        length (filter (c (inherited @ declared_properties schema)) (fresh_members [] (members_entry schema ''oneOf''))) = 1) \<and>
     (list_entry schema ''anyOf'' \<noteq> None \<longrightarrow>
        (\<exists>member \<in> set (members_entry schema ''anyOf'').
           c (sibling_names (inherited @ declared_properties schema) (members_entry schema ''anyOf'')) member)))"
  unfolding validate_schema_composition_def Let_def
  by (intro agrees_bind all_of_agrees one_of_agrees any_of_agrees assms)

lemma conforms_unfold:
  "conforms w inherited schema value \<longleftrightarrow>
     null_accepted schema value \<or>
     type_accepts schema value \<and> enum_accepts schema value \<and> bounds_accept w schema value \<and>
     (case json_as_object value of
        None \<Rightarrow> True
      | Some m \<Rightarrow> set (required_names schema) \<subseteq> fst ` set m \<and>
          (\<forall>entry \<in> set m. member_conforms (conforms w []) (inherited @ composed_names schema) schema entry)) \<and>
     (case (json_as_array value, json_get schema ''items'') of
        (Some vs, Some items) \<Rightarrow> \<forall>v \<in> set vs. conforms w [] items v
      | _ \<Rightarrow> True) \<and>
     (\<forall>member \<in> set (members_entry schema ''allOf'').
        conforms w (sibling_names (inherited @ declared_properties schema) (members_entry schema ''allOf'')) member value) \<and>
     (list_entry schema ''oneOf'' \<noteq> None \<longrightarrow>
        length (filter (\<lambda>member. conforms w (inherited @ declared_properties schema) member value)
          (fresh_members [] (members_entry schema ''oneOf''))) = 1) \<and>
     (list_entry schema ''anyOf'' \<noteq> None \<longrightarrow>
        (\<exists>member \<in> set (members_entry schema ''anyOf'').
           conforms w (sibling_names (inherited @ declared_properties schema) (members_entry schema ''anyOf'')) member value))"
  unfolding conforms.simps [of w inherited schema "value"] member_conforms_def
  by (cases "value") (simp_all split: option.split)

text \<open>The step agrees with the meaning of its schema where the level below does.\<close>

lemma step_agrees:
  assumes inner: "\<And>s v path inh. rep_json s \<Longrightarrow> rep_json v \<Longrightarrow> agrees (inner s v path inh) (conforms w inh s v)"
    and rep: "rep_json schema" "rep_json value"
  shows "agrees (validate_step w n inner schema value path inherited) (conforms w inherited schema value)"
proof (cases "null_accepted schema value")
  case True
  then show ?thesis by (simp add: validate_step_def conforms_unfold [of w inherited schema "value"] agrees_return)
next
  case False
  have object: "agrees (case json_as_object value of None \<Rightarrow> m_return ()
      | Some m \<Rightarrow> validate_request_object inner schema m path (inherited @ composed_names schema))
      (case json_as_object value of None \<Rightarrow> True
      | Some m \<Rightarrow> set (required_names schema) \<subseteq> fst ` set m \<and>
          (\<forall>entry \<in> set m. member_conforms (conforms w []) (inherited @ composed_names schema) schema entry))"
  proof (cases "value")
    case (JObject m)
    show ?thesis unfolding JObject json_as_object.simps option.case
      by (rule object_agrees) (use inner rep JObject in simp_all)
  qed (simp_all add: agrees_return)
  have items: "agrees (case (json_as_array value, json_get schema ''items'') of
        (Some vs, Some items) \<Rightarrow> m_each (\<lambda>item. inner items item path []) vs | _ \<Rightarrow> m_return ())
      (case (json_as_array value, json_get schema ''items'') of
        (Some vs, Some items) \<Rightarrow> \<forall>v \<in> set vs. conforms w [] items v | _ \<Rightarrow> True)"
  proof (cases "json_as_array value = None \<or> json_get schema ''items'' = None")
    case False
    then obtain vs items where vs: "value = JArray vs" and items: "json_get schema ''items'' = Some items"
      by (cases "value") auto
    have "agrees (m_each (\<lambda>item. inner items item path []) vs) (\<forall>v \<in> set vs. conforms w [] items v)"
      by (intro agrees_each inner rep_json_get [OF rep(1) items]) (use rep(2) vs in \<open>simp add: list_all_iff\<close>)
    then show ?thesis by (simp add: vs items)
  qed (auto simp: agrees_return split: option.split)
  show ?thesis
    unfolding validate_step_def conforms_unfold [of w inherited schema "value"] using False
    by (simp only: if_False simp_thms)
      (intro agrees_bind bounds_agree object items composition_agrees agrees_check rep inner; simp add: rep)
qed

lemma inner_agrees:
  "rep_json schema \<Longrightarrow> rep_json value \<Longrightarrow>
     agrees (validate_request_schema_value_inner w n schema value path inherited) (conforms w inherited schema value)"
  by (induction n arbitrary: schema "value" path inherited)
    (auto intro!: agrees_yields [OF spend_yields] step_agrees agrees_abort)


section \<open>The validator decides conformance\<close>

text \<open>Evaluation at a literal nesting and budget.\<close>

lemma inner_numeral:
  "validate_request_schema_value_inner w (numeral i) schema value path inherited =
     m_bind spend_step (\<lambda>_. validate_step w (pred_numeral i)
       (validate_request_schema_value_inner w (pred_numeral i)) schema value path inherited)"
  by (simp add: numeral_eq_Suc)

lemma key_numeral:
  "append_schema_equality_key (numeral i) v = append_schema_equality_key (Suc (pred_numeral i)) v"
  by (simp only: numeral_eq_Suc)

lemma names_numeral:
  "collect_composed_property_names (numeral i) v = collect_composed_property_names (Suc (pred_numeral i)) v"
  by (simp only: numeral_eq_Suc)

lemmas metered_eval = m_bind_def m_return_def m_check_def m_attempt_def spend_step_def
lemmas entry_eval = string_entry_def flag_entry_def number_entry_def list_entry_def object_entry_def u64_entry_def
  members_entry_def bt_get_def jnat_def
lemmas validation_eval = metered_eval entry_eval inner_numeral key_numeral names_numeral validate_request_schema_value_def
  validate_step_def null_accepted_def type_accepts_def enum_accepts_def json_type_matches.simps
  validate_request_schema_bounds_def validate_multiple_def validate_range_def validate_length_bounds_def
  validate_string_format_def validate_request_object_def validate_member_def validate_schema_composition_def
  validate_all_of_def validate_one_of_def validate_any_of_def declared_properties_def char_count_def
  type_reason_def invalid_request_bound_def request_schema_location_def validation_error_aborts_composition_def
  depth_limit_reason_def work_limit_reason_def starts_with_def

text \<open>
  C18. The request validator decides exactly the meaning of the pinned schema: a value that it accepts
  conforms, and a value that it refuses, for any reason but a limit or a broken schema, does not.
  In particular, items are unique up to the representation of numbers, divisibility is exact
  although it is computed without division of the values, and a \<^verbatim>\<open>oneOf\<close> counts distinct alternatives.
\<close>

theorem validation_exact:
  assumes "rep_json schema" "rep_json value"
  shows "(validate_request_schema_value w schema value path depth = Inr () \<longrightarrow> conforms w [] schema value) \<and>
    (\<forall>reason. validate_request_schema_value w schema value path depth = Inl reason \<longrightarrow>
       \<not> validation_error_aborts_composition reason \<longrightarrow> \<not> conforms w [] schema value)"
  using inner_agrees [OF assms, of w "max_request_validation_depth + 1 - depth" path "[]"]
  unfolding agrees_def validate_request_schema_value_def by (auto split: sum.splits)

definition sample_schema :: json where
  "sample_schema = JObject
     [(''oneOf'', JArray [JObject [(''maxLength'', jnat 3), (''type'', JString ''string'')], JObject [(''type'', JString ''null'')]]),
      (''uniqueItems'', JBool True)]"

theorem validation_exact_witness:
  "conforms \<lparr>ryu = \<lambda>_. '''', rfc3339_valid = \<lambda>_. False, calendar_valid = \<lambda>_. False, json_number = \<lambda>_. None\<rparr> [] sample_schema (JString ''abc'') \<and>
   \<not> conforms \<lparr>ryu = \<lambda>_. '''', rfc3339_valid = \<lambda>_. False, calendar_valid = \<lambda>_. False, json_number = \<lambda>_. None\<rparr> [] sample_schema (JString ''abcd'')"
proof -
  let ?w = "\<lparr>ryu = \<lambda>_. '''', rfc3339_valid = \<lambda>_. False, calendar_valid = \<lambda>_. False, json_number = \<lambda>_. None\<rparr>"
  have rep: "rep_json sample_schema" "rep_json (JString s)" for s
    by (simp_all add: sample_schema_def bt_invar_def jnat_def)
  have "validate_request_schema_value ?w sample_schema (JString ''abc'') '''' 62 = Inr ()"
    by (simp add: validation_eval sample_schema_def length_prefixed_string_def)
  moreover have "validate_request_schema_value ?w sample_schema (JString ''abcd'') '''' 62 = Inl ''top-level value must match exactly one pinned oneOf alternative''"
    by (simp add: validation_eval sample_schema_def length_prefixed_string_def)
  moreover have "\<not> validation_error_aborts_composition ''top-level value must match exactly one pinned oneOf alternative''"
    by code_simp
  ultimately show ?thesis
    using validation_exact [OF rep, of ?w "''abc''" "''''" 62] validation_exact [OF rep, of ?w "''abcd''" "''''" 62] by simp
qed

end
