(* ===== verification/Request_Contract.thy ===== *)
theory Request_Contract
  imports Schema_Validation Capability Cloudflare_Errors
begin

text \<open>
  How a call becomes a request (\<^verbatim>\<open>crates/cfctl-cloudflare/src/lib.rs\<close>): the selectors and the query
  are checked against the catalog's declarations (\<^verbatim>\<open>validate_selector_contract\<close>,
  \<^verbatim>\<open>validate_query_contract\<close>), the body against the pinned schema (\<^verbatim>\<open>validate_request_body\<close>), and the
  path, the query pairs and the declared headers are built from them (\<^verbatim>\<open>RequestBuilder::build_unchecked\<close>).
\<close>

section \<open>Values of selectors\<close>

fun scalar :: "wire \<Rightarrow> json \<Rightarrow> string option" where
  "scalar w (JString s) = Some s"
| "scalar w (JNumber n) = Some (show_number (ryu w) n)"
| "scalar w (JBool b) = Some (if b then ''true'' else ''false'')"
| "scalar w _ = None"

fun json_value_type :: "json \<Rightarrow> string option" where
  "json_value_type (JBool _) = Some ''boolean''"
| "json_value_type (JNumber n) =
     Some (if number_as_i64 n \<noteq> None \<or> number_as_u64 n \<noteq> None then ''integer'' else ''number'')"
| "json_value_type (JString _) = Some ''string''"
| "json_value_type (JArray _) = Some ''array''"
| "json_value_type (JObject _) = Some ''object''"
| "json_value_type JNull = None"

definition schema_value_type :: "json \<Rightarrow> string option" where
  "schema_value_type schema =
     (case string_entry schema ''type'' of
        Some t \<Rightarrow> Some t
      | None \<Rightarrow>
          (case list_entry schema ''enum'' of
             Some (first # rest) \<Rightarrow>
               Option.bind (json_value_type first) (\<lambda>t.
                 if list_all (\<lambda>v. json_value_type v = Some t) (first # rest) then Some t else None)
           | _ \<Rightarrow> None))"

definition number_of_int :: "int \<Rightarrow> number" where
  "number_of_int i = (if i < 0 then NegInt i else PosInt (nat i))"

definition or_else :: "'a option \<Rightarrow> 'a option \<Rightarrow> 'a option" where
  "or_else x y = (case x of None \<Rightarrow> y | Some _ \<Rightarrow> x)"

definition canonical_boolean :: "json \<Rightarrow> json option" where
  "canonical_boolean v = map_option JBool (or_else (json_as_bool v)
     (Option.bind (json_as_str v) (\<lambda>s. if s = ''true'' then Some True else if s = ''false'' then Some False else None)))"

definition canonical_integer :: "json \<Rightarrow> json option" where
  "canonical_integer v = map_option JNumber
     (or_else (map_option number_of_int (Option.bind (json_as_number v) number_as_i64))
     (or_else (map_option PosInt (Option.bind (json_as_number v) number_as_u64))
       (Option.bind (json_as_str v) (\<lambda>s.
          or_else (map_option number_of_int (parse_signed 64 s)) (map_option PosInt (parse_unsigned 64 s))))))"

definition canonical_number :: "wire \<Rightarrow> json \<Rightarrow> json option" where
  "canonical_number w v = map_option JNumber (or_else (json_as_number v) (Option.bind (json_as_str v) (json_number w)))"

definition canonical_scalar :: "wire \<Rightarrow> json \<Rightarrow> string \<Rightarrow> json option" where
  "canonical_scalar w v expected =
     (if expected = ''string'' then map_option JString (json_as_str v)
      else if expected = ''boolean'' then canonical_boolean v
      else if expected = ''integer'' then canonical_integer v
      else if expected = ''number'' then canonical_number w v
      else if expected = ''unknown'' then (if scalar w v = None then None else Some v)
      else None)"

text \<open>An item type is never \<^verbatim>\<open>array\<close> below, so the recursion of the source is one level deep.\<close>

definition canonical_selector_value_for_schema :: "wire \<Rightarrow> json \<Rightarrow> string \<Rightarrow> json option \<Rightarrow> json option" where
  "canonical_selector_value_for_schema w v expected schema =
     (if expected = ''array'' then
        (case json_as_array v of
           None \<Rightarrow> None
         | Some [] \<Rightarrow> None
         | Some values \<Rightarrow>
             (let item_schema = Option.bind schema (\<lambda>s. json_get s ''items'');
                  item_type = (case Option.bind item_schema schema_value_type of None \<Rightarrow> ''unknown'' | Some t \<Rightarrow> t)
              in if item_type = ''array'' \<or> item_type = ''object'' then None
                 else map_option JArray (those (map (\<lambda>item. canonical_scalar w item item_type) values))))
      else canonical_scalar w v expected)"

section \<open>Selectors of the path and the headers\<close>

definition template_segments :: "string \<Rightarrow> string list" where
  "template_segments template = split_char (CHR ''/'') (dropWhile (\<lambda>c. c = CHR ''/'') template)"

definition segment_selector :: "string \<Rightarrow> string option" where
  "segment_selector segment =
     Option.bind (strip_prefix segment ''{'') (\<lambda>s. if ends_with s ''}'' then Some (butlast s) else None)"

definition path_selector_names :: "string \<Rightarrow> string list" where
  "path_selector_names template = List.map_filter segment_selector (template_segments template)"

definition path_declares_selector :: "string \<Rightarrow> string \<Rightarrow> bool" where
  "path_declares_selector template name \<longleftrightarrow> list_ex (\<lambda>selector. selector = name) (path_selector_names template)"

definition request_header_is_reserved :: "string \<Rightarrow> bool" where
  "request_header_is_reserved name \<longleftrightarrow> to_ascii_lowercase name \<in> set
     [''authorization'', ''proxy-authorization'', ''cookie'', ''set-cookie'', ''host'', ''x-auth-email'', ''x-auth-key'',
      ''idempotency-key'', ''if-match'', ''if-none-match'', ''content-length'', ''accept-encoding'',
      ''transfer-encoding'', ''connection'', ''upgrade'', ''te'', ''trailer'', ''expect'', ''r2-access-key-id'',
      ''r2-secret-access-key'']"

definition selector_schema :: "selector \<Rightarrow> json option" where
  "selector_schema s = map_option sc_schema (sel_contract s)"

text \<open>The members of an optional object: absent for \<^verbatim>\<open>null\<close>, an error otherwise.\<close>

fun object_values :: "cloudflare_error \<Rightarrow> json \<Rightarrow> cloudflare_error + (string \<times> json) list option" where
  "object_values e JNull = Inr None"
| "object_values e (JObject m) = Inr (Some m)"
| "object_values e _ = Inl e"

definition contains_key :: "(string \<times> json) list option \<Rightarrow> string \<Rightarrow> bool" where
  "contains_key values name \<longleftrightarrow> (case values of None \<Rightarrow> False | Some m \<Rightarrow> bt_get m name \<noteq> None)"

definition validate_selector_value :: "wire \<Rightarrow> capability \<Rightarrow> string \<times> json \<Rightarrow> cloudflare_error + unit" where
  "validate_selector_value w cap = (\<lambda>(name, v).
     (case find (\<lambda>s. sel_location s \<noteq> ''query'' \<and> sel_name s = name) (selectors cap) of
        None \<Rightarrow>
          if path_declares_selector (path cap) name
          then ensure (scalar w v \<noteq> None) (InvalidSelector name)
          else Inl (UndeclaredSelector name)
      | Some s \<Rightarrow>
          if sel_location s = ''header'' \<and> request_header_is_reserved name then Inl (ReservedHeaderSelector name)
          else if scalar w v = None then Inl (InvalidSelector name)
          else
            res_bind (ok_or (canonical_selector_value_for_schema w v (sel_value_type s) (selector_schema s)) (InvalidSelector name)) (\<lambda>canonical.
            case selector_schema s of
              None \<Rightarrow> Inr ()
            | Some schema \<Rightarrow>
                map_err (InvalidSelectorSchema name) (validate_request_schema_value w schema canonical [] 0))))"

definition validate_selector_contract :: "wire \<Rightarrow> capability \<Rightarrow> json \<Rightarrow> cloudflare_error + unit" where
  "validate_selector_contract w cap input =
     res_bind (object_values InvalidSelectorObject input) (\<lambda>values.
     res_bind (case values of None \<Rightarrow> Inr () | Some m \<Rightarrow> res_each (validate_selector_value w cap) m) (\<lambda>_.
     res_bind (res_each (\<lambda>s. ensure (contains_key values (sel_name s))
         (if sel_location s = ''header'' then MissingHeaderSelector (sel_name s) else MissingSelector (sel_name s)))
       (filter (\<lambda>s. sel_location s \<noteq> ''query'' \<and> sel_required s) (selectors cap))) (\<lambda>_.
     res_each (\<lambda>name. ensure (contains_key values name) (MissingSelector name)) (path_selector_names (path cap)))))"

section \<open>The query\<close>

definition validated_query_serialization :: "selector \<Rightarrow> cloudflare_error + bool \<times> bool" where
  "validated_query_serialization s =
     (let query = Option.bind (sel_contract s) sc_query;
          style = (case query of None \<Rightarrow> ''form'' | Some q \<Rightarrow> qs_style q)
      in if style \<noteq> ''form'' then
           Inl (UnsupportedQuerySerialization (sel_name s) (''style `'' @ style @ ''` is not implemented''))
         else if (case query of None \<Rightarrow> False | Some q \<Rightarrow> qs_allow_reserved q) then
           Inl (UnsupportedQuerySerialization (sel_name s) ''allowReserved=true cannot be encoded by the governed URL builder'')
         else Inr (case query of None \<Rightarrow> True | Some q \<Rightarrow> qs_explode q,
                   case query of None \<Rightarrow> False | Some q \<Rightarrow> qs_allow_empty_value q))"

definition query_value_is_empty :: "json \<Rightarrow> bool" where
  "query_value_is_empty v \<longleftrightarrow> json_as_str v = Some [] \<or> json_as_array v = Some []"

definition canonical_query_value :: "wire \<Rightarrow> json \<Rightarrow> string \<Rightarrow> selector \<Rightarrow> json option" where
  "canonical_query_value w v expected s = canonical_selector_value_for_schema w v expected (selector_schema s)"

definition query_selector :: "capability \<Rightarrow> string \<Rightarrow> selector option" where
  "query_selector cap name = find (\<lambda>s. sel_location s = ''query'' \<and> sel_name s = name) (selectors cap)"

definition validate_query_value :: "wire \<Rightarrow> capability \<Rightarrow> string \<times> json \<Rightarrow> cloudflare_error + unit" where
  "validate_query_value w cap = (\<lambda>(name, v).
     res_bind (ok_or (query_selector cap name) (UndeclaredQuerySelector name)) (\<lambda>s.
     res_bind (validated_query_serialization s) (\<lambda>(_, allow_empty).
     if query_value_is_empty v \<and> allow_empty then Inr ()
     else
       res_bind (ok_or (canonical_query_value w v (sel_value_type s) s) (InvalidQuerySelector name (sel_value_type s))) (\<lambda>canonical.
       case selector_schema s of
         None \<Rightarrow> Inr ()
       | Some schema \<Rightarrow>
           map_err (InvalidQuerySelectorSchema name) (validate_request_schema_value w schema canonical [] 0)))))"

definition validate_query_contract :: "wire \<Rightarrow> capability \<Rightarrow> json \<Rightarrow> cloudflare_error + unit" where
  "validate_query_contract w cap input =
     res_bind (object_values InvalidQueryObject input) (\<lambda>values.
     res_bind (case values of None \<Rightarrow> Inr () | Some m \<Rightarrow> res_each (validate_query_value w cap) m) (\<lambda>_.
     res_each (\<lambda>s. ensure (contains_key values (sel_name s)) (MissingQuerySelector (sel_name s)))
       (filter (\<lambda>s. sel_location s = ''query'' \<and> sel_required s) (selectors cap))))"

section \<open>The body\<close>

definition validate_request_body :: "wire \<Rightarrow> capability \<Rightarrow> json option \<Rightarrow> cloudflare_error + unit" where
  "validate_request_body w cap body =
     (case request_schema cap of
        None \<Rightarrow> Inr ()
      | Some schema \<Rightarrow>
          if body = None \<and> flag_entry schema ''x-cfctl-body-required'' = Some True
          then Inl (MissingRequestBody (cap_id cap))
          else (case body of
              None \<Rightarrow> Inr ()
            | Some v \<Rightarrow> map_err InvalidRequestBody (validate_request_schema_value w schema v [] 0)))"


section \<open>Building the request\<close>

text \<open>
  The \<^verbatim>\<open>url\<close> and \<^verbatim>\<open>http\<close> packages: pushing a segment on the path of the base URL, and the header names
  and values they accept. A URL is kept as its decoded path segments and query pairs.
\<close>

record transport =
  url_push :: "string list \<Rightarrow> string \<Rightarrow> string list"
  header_name :: "string \<Rightarrow> string option"
  header_value :: "string \<Rightarrow> string option"

definition is_control :: "char \<Rightarrow> bool" where
  "is_control c \<longleftrightarrow> byte c < 32 \<or> byte c = 127"

text \<open>The second byte of a control character above ASCII follows 0xC2.\<close>

fun has_control :: "string \<Rightarrow> bool" where
  "has_control [] = False"
| "has_control [c] = is_control c"
| "has_control (c # d # s) \<longleftrightarrow> is_control c \<or> byte c = 194 \<and> byte d < 160 \<or> has_control (d # s)"

definition r2_object_key_segments :: "string \<Rightarrow> cloudflare_error + string list" where
  "r2_object_key_segments key =
     (let segments = split_char (CHR ''/'') key
      in if segments = [] \<or> list_ex (\<lambda>s. s = [] \<or> s = ''.'' \<or> s = ''..'' \<or> has_control s) segments
         then Inl (InvalidSelector ''object_key'') else Inr segments)"

definition object_key_template :: string where
  "object_key_template = ''/accounts/{account_id}/r2/buckets/{bucket_name}/objects/{object_key}''"

text \<open>The segments that one segment of the template stands for.\<close>

definition render_segment :: "wire \<Rightarrow> string \<Rightarrow> (string \<times> json) list option \<Rightarrow> string \<Rightarrow> cloudflare_error + string list" where
  "render_segment w template values segment =
     (case segment_selector segment of
        None \<Rightarrow> Inr [segment]
      | Some key \<Rightarrow>
          res_bind (ok_or (Option.bind values (\<lambda>m. bt_get m key)) (MissingSelector key)) (\<lambda>v.
          res_bind (ok_or (scalar w v) (InvalidSelector key)) (\<lambda>rendered.
          if key = ''object_key'' \<and> template = object_key_template
          then r2_object_key_segments rendered else Inr [rendered])))"

definition build_path :: "wire \<Rightarrow> transport \<Rightarrow> string list \<Rightarrow> string \<Rightarrow> json \<Rightarrow> cloudflare_error + string list" where
  "build_path w t base template input =
     res_bind (res_map (render_segment w template (json_as_object input)) (template_segments template)) (\<lambda>parts.
     Inr (foldl (url_push t) base (concat parts)))"

definition query_pairs_of :: "wire \<Rightarrow> capability \<Rightarrow> string \<times> json \<Rightarrow> cloudflare_error + (string \<times> string) list" where
  "query_pairs_of w cap = (\<lambda>(key, v).
     res_bind (ok_or (query_selector cap key) (UndeclaredQuerySelector key)) (\<lambda>s.
     res_bind (validated_query_serialization s) (\<lambda>(explode, _).
     case v of
       JArray values \<Rightarrow>
         res_bind (ok_or (those (map (scalar w) values)) (InvalidQuerySelector key (sel_value_type s))) (\<lambda>rendered.
         Inr (if rendered = [] then [(key, [])]
              else if explode then map (\<lambda>r. (key, r)) rendered
              else [(key, join '','' rendered)]))
     | _ \<Rightarrow> Inr (case scalar w v of None \<Rightarrow> [] | Some rendered \<Rightarrow> [(key, rendered)]))))"

definition build_query :: "wire \<Rightarrow> capability \<Rightarrow> json \<Rightarrow> cloudflare_error + (string \<times> string) list" where
  "build_query w cap input =
     (case json_as_object input of
        None \<Rightarrow> Inr []
      | Some m \<Rightarrow> res_bind (res_map (query_pairs_of w cap) m) (\<lambda>pairs. Inr (concat pairs)))"

type_synonym headers = "string \<Rightarrow> string option"

definition declare_header :: "wire \<Rightarrow> transport \<Rightarrow> (string \<times> json) list option \<Rightarrow> selector \<Rightarrow> headers \<Rightarrow> cloudflare_error + headers" where
  "declare_header w t values s headers =
     (case Option.bind values (\<lambda>m. bt_get m (sel_name s)) of
        None \<Rightarrow> if sel_required s then Inl (MissingHeaderSelector (sel_name s)) else Inr headers
      | Some v \<Rightarrow>
          if request_header_is_reserved (sel_name s) then Inl (ReservedHeaderSelector (sel_name s))
          else
            res_bind (ok_or (if sel_name s = ''cf-r2-jurisdiction'' then json_as_str v else scalar w v)
              (InvalidHeaderSelector (sel_name s))) (\<lambda>rendered.
            res_bind (ok_or (header_name t (sel_name s)) (InvalidHeaderSelector (sel_name s))) (\<lambda>name.
            res_bind (ok_or (header_value t rendered) (InvalidHeaderSelector (sel_name s))) (\<lambda>text.
            Inr (headers(name \<mapsto> text))))))"

fun res_fold :: "('a \<Rightarrow> 'b \<Rightarrow> 'e + 'b) \<Rightarrow> 'a list \<Rightarrow> 'b \<Rightarrow> 'e + 'b" where
  "res_fold f [] b = Inr b"
| "res_fold f (x # xs) b = res_bind (f x b) (res_fold f xs)"

definition add_declared_header_selectors :: "wire \<Rightarrow> transport \<Rightarrow> capability \<Rightarrow> (string \<times> json) list option \<Rightarrow> headers \<Rightarrow> cloudflare_error + headers" where
  "add_declared_header_selectors w t cap values headers =
     res_fold (declare_header w t values) (filter (\<lambda>s. sel_location s = ''header'') (selectors cap)) headers"


section \<open>Validated calls can be built\<close>

lemma those_map_ex: "(\<exists>ys. those (map f xs) = Some ys) \<longleftrightarrow> (\<forall>x \<in> set xs. f x \<noteq> None)"
proof (induction xs)
  case (Cons x xs)
  then show ?case by (cases "f x"; cases "those (map f xs)") auto
qed simp

lemma or_else_Some: "or_else x y = Some v \<longleftrightarrow> x = Some v \<or> x = None \<and> y = Some v"
  by (auto simp: or_else_def split: option.splits)

lemma canonical_scalar_renders: "canonical_scalar w v expected = Some c \<Longrightarrow> scalar w v \<noteq> None"
  by (cases v) (auto simp: canonical_scalar_def canonical_boolean_def canonical_integer_def canonical_number_def
      or_else_def split: if_splits option.splits)

lemma canonical_renders:
  assumes "canonical_selector_value_for_schema w v expected schema = Some c"
  shows "case v of JArray vs \<Rightarrow> vs \<noteq> [] \<and> (\<forall>x \<in> set vs. scalar w x \<noteq> None) | _ \<Rightarrow> scalar w v \<noteq> None"
proof (cases "expected = ''array''")
  case True
  with assms obtain vs item_type ys where "v = JArray vs" "vs \<noteq> []" "those (map (\<lambda>item. canonical_scalar w item item_type) vs) = Some ys"
    by (cases v) (auto simp: canonical_selector_value_for_schema_def Let_def split: list.splits if_splits)
  moreover from this(3) have "\<forall>x \<in> set vs. scalar w x \<noteq> None"
    using those_map_ex [of "\<lambda>item. canonical_scalar w item item_type" vs] canonical_scalar_renders by fastforce
  ultimately show ?thesis by simp
next
  case False
  with assms have "canonical_scalar w v expected = Some c" by (simp add: canonical_selector_value_for_schema_def)
  from canonical_scalar_renders [OF this] show ?thesis by (cases v) auto
qed

lemma validated_query_value:
  assumes "validate_query_value w cap (key, v) = Inr ()"
  obtains pairs where "query_pairs_of w cap (key, v) = Inr pairs" "pairs \<noteq> []" "fst ` set pairs = {key}"
    and "query_selector cap key \<noteq> None"
proof -
  obtain s where s: "query_selector cap key = Some s" using assms by (auto simp: validate_query_value_def result_simps)
  obtain explode allow where q: "validated_query_serialization s = Inr (explode, allow)"
    using assms s by (auto simp: validate_query_value_def result_simps)
  have shape: "case v of JArray vs \<Rightarrow> \<forall>x \<in> set vs. scalar w x \<noteq> None | _ \<Rightarrow> scalar w v \<noteq> None"
  proof (cases "query_value_is_empty v \<and> allow")
    case True
    then show ?thesis by (cases v) (auto simp: query_value_is_empty_def)
  next
    case False
    then obtain c where "canonical_query_value w v (sel_value_type s) s = Some c"
      using assms s q by (auto simp: validate_query_value_def result_simps)
    from canonical_renders [OF this [unfolded canonical_query_value_def]] show ?thesis by (cases v) auto
  qed
  show thesis
  proof (cases "\<exists>vs. v = JArray vs")
    case True
    then obtain vs where vs: "v = JArray vs" ..
    with shape obtain ys where ys: "those (map (scalar w) vs) = Some ys" using those_map_ex [of "scalar w" vs] by auto
    show ?thesis
      by (rule that [of "if ys = [] then [(key, [])] else if explode then map (\<lambda>r. (key, r)) ys else [(key, join '','' ys)]"])
        (auto simp: query_pairs_of_def s q vs ys image_image image_constant_conv)
  next
    case False
    with shape obtain r where "scalar w v = Some r" by (cases v) auto
    with False show ?thesis by (intro that [of "[(key, r)]"]) (auto simp: query_pairs_of_def s q split: json.split)
  qed
qed

text \<open>
  C26. A query that passes its contract is sent completely: building it cannot fail, every pair belongs to
  a control the catalog declares, and every member of the input and every required control is sent.
\<close>

theorem validated_query_is_sent:
  assumes "validate_query_contract w cap input = Inr ()"
  shows "\<exists>pairs. build_query w cap input = Inr pairs \<and>
    (\<forall>key \<in> fst ` set pairs. query_selector cap key \<noteq> None) \<and>
    (\<forall>m. json_as_object input = Some m \<longrightarrow> fst ` set pairs = fst ` set m) \<and>
    (\<forall>s \<in> set (selectors cap). sel_location s = ''query'' \<and> sel_required s \<longrightarrow> sel_name s \<in> fst ` set pairs)"
proof (cases "json_as_object input")
  case None
  then have "input = JNull" using assms by (cases input) (auto simp: validate_query_contract_def)
  with assms show ?thesis
    by (auto simp: validate_query_contract_def build_query_def contains_key_def result_simps)
next
  case (Some m)
  then have input: "input = JObject m" by (cases input) auto
  have each: "\<forall>x \<in> set m. validate_query_value w cap x = Inr ()"
    and req: "\<forall>s \<in> set (selectors cap). sel_location s = ''query'' \<and> sel_required s \<longrightarrow> bt_get m (sel_name s) \<noteq> None"
    using assms by (auto simp: input validate_query_contract_def contains_key_def result_simps)
  have "\<forall>x \<in> set m. \<exists>pairs. query_pairs_of w cap x = Inr pairs \<and> fst ` set pairs = {fst x} \<and> query_selector cap (fst x) \<noteq> None"
    using each validated_query_value [of w cap] by (metis prod.collapse)
  then obtain f where f: "\<forall>x \<in> set m. query_pairs_of w cap x = Inr (f x) \<and> fst ` set (f x) = {fst x} \<and> query_selector cap (fst x) \<noteq> None"
    by metis
  then have "res_map (query_pairs_of w cap) m = Inr (map f m)"
    by (auto simp: res_map_Inr_iff list_all2_conv_all_nth)
  then have build: "build_query w cap input = Inr (concat (map f m))" by (simp add: build_query_def input)
  have keys: "fst ` set (concat (map f m)) = fst ` set m" using f by (auto simp: image_UN)
  have "sel_name s \<in> fst ` set m" if "s \<in> set (selectors cap)" "sel_location s = ''query'' \<and> sel_required s" for s
    using req that by (auto simp: bt_get_def map_of_eq_None_iff)
  moreover have "\<forall>key \<in> fst ` set m. query_selector cap key \<noteq> None" using f by blast
  ultimately show ?thesis unfolding build using keys input by (intro exI [of _ "concat (map f m)"]) auto
qed

text \<open>
  The scalars that stand for the segments of a template.
\<close>

definition rendered_segments :: "wire \<Rightarrow> string \<Rightarrow> json \<Rightarrow> string list" where
  "rendered_segments w template input =
     map (\<lambda>segment. case segment_selector segment of
         None \<Rightarrow> segment
       | Some key \<Rightarrow> the (Option.bind (json_get input key) (scalar w))) (template_segments template)"

text \<open>
  The documented rule of the \<^verbatim>\<open>url\<close> package for pushing a segment: one or two dots are ignored, anything else is
  one more segment. It holds of segments without tab, line feed and carriage return, which the parser
  of URLs removes wherever they are.
\<close>

definition url_stable :: "string \<Rightarrow> bool" where
  "url_stable s \<longleftrightarrow> set s \<inter> {CHR 0x09, CHR 0x0A, CHR 0x0D} = {}"

definition pushes_segments :: "transport \<Rightarrow> bool" where
  "pushes_segments t \<longleftrightarrow>
     (\<forall>segs s. url_stable s \<longrightarrow> url_push t segs s = (if s = ''.'' \<or> s = ''..'' then segs else segs @ [s]))"

lemma foldl_url_push:
  "pushes_segments t \<Longrightarrow> list_all url_stable xs \<Longrightarrow> foldl (url_push t) base xs = base @ filter (\<lambda>s. s \<noteq> ''.'' \<and> s \<noteq> ''..'') xs"
  by (induction xs arbitrary: base) (auto simp: pushes_segments_def)

lemma selector_value_scalar:
  "validate_selector_value w cap (name, v) = Inr () \<Longrightarrow> scalar w v \<noteq> None"
  by (auto simp: validate_selector_value_def result_simps split: option.splits if_splits)

lemma validated_selector:
  assumes "validate_selector_contract w cap input = Inr ()" "name \<in> set (path_selector_names (path cap))"
  obtains m v r where "input = JObject m" "bt_get m name = Some v" "scalar w v = Some r"
proof -
  obtain m where m: "input = JObject m" "bt_get m name \<noteq> None" "\<forall>x \<in> set m. validate_selector_value w cap x = Inr ()"
    using assms by (cases input) (auto simp: validate_selector_contract_def contains_key_def result_simps)
  then obtain v where v: "bt_get m name = Some v" by auto
  then have "(name, v) \<in> set m" by (auto simp: bt_get_def dest: map_of_SomeD)
  with m(3) have "scalar w v \<noteq> None" using selector_value_scalar by blast
  with m v that show thesis by auto
qed

lemma path_selector_member:
  "seg \<in> set (template_segments template) \<Longrightarrow> segment_selector seg = Some name \<Longrightarrow> name \<in> set (path_selector_names template)"
  by (auto simp: path_selector_names_def List.map_filter_def image_iff intro!: bexI [of _ seg])

text \<open>
  C27. The path of a validated call is the template with each selector in its place: building it cannot
  fail, and no value can add a segment. The one deviation is the \<^verbatim>\<open>url\<close> package's rule that pushing
  a dot segment does nothing, so a selector of one or two dots disappears from the path. The result is
  for templates other than that of object keys, which may span segments, and for segments without tab
  and line breaks: validation lets these characters pass, and the package does not keep them.
\<close>

theorem validated_path_follows_template:
  assumes "validate_selector_contract w cap input = Inr ()" "path cap \<noteq> object_key_template"
    and "pushes_segments t" "list_all url_stable (rendered_segments w (path cap) input)"
  shows "build_path w t base (path cap) input =
    Inr (base @ filter (\<lambda>s. s \<noteq> ''.'' \<and> s \<noteq> ''..'') (rendered_segments w (path cap) input))"
proof -
  let ?f = "\<lambda>segment. case segment_selector segment of None \<Rightarrow> segment | Some key \<Rightarrow> the (Option.bind (json_get input key) (scalar w))"
  have "render_segment w (path cap) (json_as_object input) seg = Inr [?f seg]" if seg: "seg \<in> set (template_segments (path cap))" for seg
  proof (cases "segment_selector seg")
    case (Some key)
    obtain m v r where "input = JObject m" "bt_get m key = Some v" "scalar w v = Some r"
      using validated_selector [OF assms(1) path_selector_member [OF seg Some]] .
    with Some assms(2) show ?thesis by (simp add: render_segment_def)
  qed (simp add: render_segment_def)
  then have "res_map (render_segment w (path cap) (json_as_object input)) (template_segments (path cap)) =
      Inr (map (\<lambda>seg. [?f seg]) (template_segments (path cap)))"
    by (auto simp: res_map_Inr_iff list_all2_conv_all_nth)
  moreover have "concat (map (\<lambda>seg. [?f seg]) xs) = map ?f xs" for xs by (induction xs) auto
  ultimately show ?thesis by (simp add: build_path_def rendered_segments_def foldl_url_push [OF assms(3,4) [unfolded rendered_segments_def]])
qed

text \<open>A selector with a tab between two dots passes validation, and is outside the rule.\<close>

lemma tab_selector_validated:
  "validate_selector_contract \<lparr>ryu = \<lambda>_. [], rfc3339_valid = \<lambda>_. False, calendar_valid = \<lambda>_. False, json_number = \<lambda>_. None\<rparr>
     (capability_new ''zones.get'' ''Zone'' ''GET'' ''/zones/{zone_id}'') (JObject [(''zone_id'', JString [CHR ''.'', CHR 0x09, CHR ''.''])]) = Inr ()"
  "\<not> url_stable [CHR ''.'', CHR 0x09, CHR ''.'']"
  by code_simp+

text \<open>
  Selectors cannot set a reserved header: whatever a caller passes, the authorisation, the host, the
  conditional and the framing headers stay as they were.
\<close>

lemma reserved_headers_untouched:
  assumes "add_declared_header_selectors w t cap values headers = Inr headers'"
    and "\<And>n h. header_name t n = Some h \<Longrightarrow> h = to_ascii_lowercase n"
    and "request_header_is_reserved name"
  shows "headers' (to_ascii_lowercase name) = headers (to_ascii_lowercase name)"
proof -
  have "headers' (to_ascii_lowercase name) = headers (to_ascii_lowercase name)"
    if "res_fold (declare_header w t values) ss headers = Inr headers'" for ss
    using that
  proof (induction ss arbitrary: headers)
    case (Cons s ss)
    then obtain h1 where h1: "declare_header w t values s headers = Inr h1" "res_fold (declare_header w t values) ss h1 = Inr headers'"
      by (auto simp: result_simps)
    have "to_ascii_lowercase (sel_name s) \<noteq> to_ascii_lowercase name \<or> h1 = headers"
      using h1(1) assms(3) by (auto simp: declare_header_def request_header_is_reserved_def split: option.splits if_splits)
    then have "h1 (to_ascii_lowercase name) = headers (to_ascii_lowercase name)"
      using h1(1) assms(2) by (auto simp: declare_header_def result_simps split: option.splits if_splits)
    with Cons.IH [OF h1(2)] show ?case by simp
  qed simp
  with assms(1) show ?thesis by (auto simp: add_declared_header_selectors_def)
qed

section \<open>Witnesses\<close>

definition sample_wire :: wire where
  "sample_wire = \<lparr>ryu = \<lambda>_. [], rfc3339_valid = \<lambda>_. False, calendar_valid = \<lambda>_. False, json_number = \<lambda>_. None\<rparr>"

definition sample_transport :: transport where
  "sample_transport = \<lparr>url_push = \<lambda>segs s. if s = ''.'' \<or> s = ''..'' then segs
       else segs @ [filter (\<lambda>c. c \<notin> {CHR 0x09, CHR 0x0A, CHR 0x0D}) s],
     header_name = \<lambda>n. Some (to_ascii_lowercase n), header_value = Some\<rparr>"

definition sample_selector :: "string \<Rightarrow> string \<Rightarrow> selector" where
  "sample_selector name location = \<lparr>sel_name = name, sel_location = location, sel_required = True, sel_value_type = ''string'',
     sel_description = None, sel_contract = None\<rparr>"

definition sample_read :: capability where
  "sample_read = (capability_new ''dns.list'' ''List records'' ''GET'' ''/zones/{zone_id}/dns_records'')
     \<lparr>selectors := [sample_selector ''zone_id'' ''path'', sample_selector ''name'' ''query'', sample_selector ''Cf-Note'' ''header'']\<rparr>"

theorem validated_query_is_sent_witness:
  "\<exists>pairs. build_query sample_wire sample_read (JObject [(''name'', JString ''www'')]) = Inr pairs \<and> ''name'' \<in> fst ` set pairs"
proof -
  have "validate_query_contract sample_wire sample_read (JObject [(''name'', JString ''www'')]) = Inr ()" by code_simp
  from validated_query_is_sent [OF this] show ?thesis by auto
qed

theorem validated_path_follows_template_witness:
  "build_path sample_wire sample_transport [''client'', ''v4''] ''/zones/{zone_id}/dns_records''
      (JObject [(''Cf-Note'', JString ''x''), (''zone_id'', JString ''z1'')]) = Inr [''client'', ''v4'', ''zones'', ''z1'', ''dns_records''] \<and>
   build_path sample_wire sample_transport [''client'', ''v4''] ''/zones/{zone_id}/dns_records''
      (JObject [(''Cf-Note'', JString ''x''), (''zone_id'', JString ''..'')]) = Inr [''client'', ''v4'', ''zones'', ''dns_records'']"
proof -
  let ?in = "\<lambda>z. JObject [(''Cf-Note'', JString ''x''), (''zone_id'', JString z)]"
  have p: "path sample_read = ''/zones/{zone_id}/dns_records''" by (simp add: sample_read_def capability_new_def Let_def)
  have "validate_selector_contract sample_wire sample_read (?in ''z1'') = Inr ()"
    "validate_selector_contract sample_wire sample_read (?in ''..'') = Inr ()" by code_simp+
  moreover have "path sample_read \<noteq> object_key_template" by code_simp
  moreover have "pushes_segments sample_transport"
    by (auto simp: pushes_segments_def sample_transport_def url_stable_def filter_id_conv)
  moreover have "rendered_segments sample_wire ''/zones/{zone_id}/dns_records'' (?in ''z1'') = [''zones'', ''z1'', ''dns_records'']"
    "rendered_segments sample_wire ''/zones/{zone_id}/dns_records'' (?in ''..'') = [''zones'', ''..'', ''dns_records'']" by code_simp+
  moreover have "list_all url_stable [''zones'', ''z1'', ''dns_records'']" "list_all url_stable [''zones'', ''..'', ''dns_records'']" by code_simp+
  ultimately show ?thesis
    using validated_path_follows_template [of sample_wire sample_read "?in ''z1''" sample_transport "[''client'', ''v4'']"]
      validated_path_follows_template [of sample_wire sample_read "?in ''..''" sample_transport "[''client'', ''v4'']"]
    by (simp add: p)
qed

section \<open>Accepted bodies are typed\<close>

text \<open>
  The places of a body that its schema describes: members with a declared property, items, and the
  members of an \<^verbatim>\<open>allOf\<close>, which describe the same value again.
\<close>

inductive describes :: "json \<Rightarrow> json \<Rightarrow> json \<Rightarrow> json \<Rightarrow> bool" for schema body where
  whole: "describes schema body schema body"
| member: "describes schema body s (JObject m) \<Longrightarrow> property_schema s name = Some p \<Longrightarrow> (name, v) \<in> set m \<Longrightarrow>
    describes schema body p v"
| item: "describes schema body s (JArray vs) \<Longrightarrow> json_get s ''items'' = Some t \<Longrightarrow> v \<in> set vs \<Longrightarrow> describes schema body t v"
| all_of: "describes schema body s v \<Longrightarrow> v \<noteq> JNull \<Longrightarrow> t \<in> set (members_entry s ''allOf'') \<Longrightarrow> describes schema body t v"

lemma described_conforms:
  assumes "describes schema body s v" "conforms w [] schema body"
  shows "\<exists>inherited. conforms w inherited s v"
  using assms
proof (induction rule: describes.induct)
  case whole
  then show ?case by blast
next
  case (member s m name p v)
  then show ?case by (fastforce simp: conforms.simps [of w _ s] null_accepted_def)
next
  case (item s vs t v)
  then show ?case by (fastforce simp: conforms.simps [of w _ s] null_accepted_def)
next
  case (all_of s v t)
  then show ?case by (fastforce simp: conforms.simps [of w _ s] null_accepted_def)
qed

fun has_members :: "json \<Rightarrow> json \<Rightarrow> bool" where
  "has_members s (JObject m) \<longleftrightarrow> set (required_names s) \<subseteq> fst ` set m"
| "has_members s _ \<longleftrightarrow> True"

text \<open>
  C25. An accepted request body is well typed: every value in it that the pinned schema describes, at any
  depth, is a null that its schema allows, or has the declared type, is one of the enumerated values,
  keeps the declared bounds and has every required member.
\<close>

theorem accepted_body_typed:
  assumes "validate_request_body w cap (Some body) = Inr ()" "request_schema cap = Some schema"
    and "rep_json schema" "rep_json body" "describes schema body s v"
  shows "null_accepted s v \<or> type_accepts s v \<and> enum_accepts s v \<and> bounds_accept w s v \<and> has_members s v"
proof -
  have "validate_request_schema_value w schema body [] 0 = Inr ()"
    using assms(1,2) by (auto simp: validate_request_body_def map_err_def split: sum.splits)
  then have "conforms w [] schema body" using inner_agrees [OF assms(3,4), of w 65 "[]" "[]"]
    unfolding agrees_def validate_request_schema_value_def by (auto split: sum.splits)
  then obtain inherited where "conforms w inherited s v" using described_conforms [OF assms(5)] by blast
  then show ?thesis by (cases v) (auto simp: conforms.simps [of w _ s])
qed

theorem accepted_body_typed_witness:
  "\<exists>cap schema. validate_request_body sample_wire cap (Some (JObject [(''name'', JArray [JString ''www''])])) = Inr () \<and>
     request_schema cap = Some schema \<and>
     describes schema (JObject [(''name'', JArray [JString ''www''])]) (JObject [(''type'', JString ''string'')]) (JString ''www'') \<and>
     type_accepts (JObject [(''type'', JString ''string'')]) (JString ''www'')"
proof -
  let ?s = "JObject [(''type'', JString ''string'')]"
  let ?list = "JObject [(''items'', ?s), (''type'', JString ''array'')]"
  let ?schema = "JObject [(''properties'', JObject [(''name'', ?list)])]"
  let ?body = "JObject [(''name'', JArray [JString ''www''])]"
  let ?cap = "sample_read\<lparr>request_schema := Some ?schema\<rparr>"
  have names: "composed_names ?schema = [''name'']" by code_simp
  have "validate_request_schema_value_inner sample_wire (Suc (Suc (Suc n))) ?schema ?body [] [] 65536 = (Inr (), 65533)" for n
    by (simp add: metered_eval entry_eval names validate_step_def null_accepted_def type_accepts_def enum_accepts_def
      json_type_matches.simps validate_request_schema_bounds_def validate_multiple_def validate_range_def
      validate_length_bounds_def validate_string_format_def validate_request_object_def validate_member_def
      validate_schema_composition_def validate_all_of_def validate_one_of_def validate_any_of_def
      declared_properties_def char_count_def required_names_def)
  from this [of 62] have ok: "validate_request_body sample_wire ?cap (Some ?body) = Inr ()"
    by (simp add: validate_request_body_def map_err_def validate_request_schema_value_def)
  have described: "describes ?schema ?body ?s (JString ''www'')"
    by (rule describes.item [OF describes.member [OF describes.whole]])
      (auto simp: property_schema_def entry_eval)
  have "null_accepted ?s (JString ''www'') \<or> type_accepts ?s (JString ''www'')"
    using accepted_body_typed [OF ok _ _ _ described] by (auto simp: bt_invar_def)
  then have "type_accepts ?s (JString ''www'')" by (simp add: null_accepted_def)
  with ok described show ?thesis by (intro exI [of _ ?cap] exI [of _ ?schema]) simp
qed

end
