(* ===== verification/Sql_Rendering.thy ===== *)
theory Sql_Rendering
  imports Schema_Validation Cloudflare_Errors
begin

text \<open>
  The read-only SQL that cfctl writes for the analytics and log-explorer adapters from a structured body
  (\<^verbatim>\<open>render_structured_select_sql\<close> and its helpers in \<^verbatim>\<open>crates/cfctl-cloudflare/src/lib.rs\<close>). The main
  result is that data stays data: a reader of SQL that takes a doubled quote for a quote finds exactly the
  tokens of the statement that the body describes, each string of the body inside one literal. Readers
  differ in the texts they take literally; one with backslash escapes does not take a backslash so, and a
  body can then change the statement.
\<close>

section \<open>Rendering\<close>

datatype output_format = Out_Json | Out_Ndjson | Out_Csv

definition parse_output_format :: "string \<Rightarrow> cloudflare_error + output_format" where
  "parse_output_format s =
     (if s = ''json'' then Inr Out_Json else if s = ''ndjson'' then Inr Out_Ndjson else if s = ''csv'' then Inr Out_Csv
      else Inl (InvalidAnalyticsQuery (''output format `'' @ s @ ''` is not declared'')))"

fun output_media_type :: "output_format \<Rightarrow> string" where
  "output_media_type Out_Json = ''application/json''"
| "output_media_type Out_Ndjson = ''application/x-ndjson''"
| "output_media_type Out_Csv = ''text/csv''"

fun output_clause :: "output_format \<Rightarrow> string" where
  "output_clause Out_Json = ''JSON''"
| "output_clause Out_Ndjson = ''JSONEachRow''"
| "output_clause Out_Csv = ''CSVWithNames''"

definition valid_sql_identifier :: "string \<Rightarrow> bool" where
  "valid_sql_identifier s \<longleftrightarrow>
     s \<noteq> [] \<and> (is_ascii_alphabetic (hd s) \<or> hd s = CHR ''_'') \<and> length s \<le> 64 \<and>
     list_all (\<lambda>c. is_ascii_alphanumeric c \<or> c = CHR ''_'') (tl s)"

definition quote :: char where
  "quote = CHR 0x27"

definition sql_quote :: "string \<Rightarrow> string" where
  "sql_quote s = concat (map (\<lambda>c. if c = quote then [quote, quote] else [c]) s)"

definition quoted :: "string \<Rightarrow> string" where
  "quoted s = [quote] @ sql_quote s @ [quote]"

fun sql_literal :: "wire \<Rightarrow> json \<Rightarrow> cloudflare_error + string" where
  "sql_literal w (JString s) = Inr (quoted s)"
| "sql_literal w (JNumber n) = Inr (show_number (ryu w) n)"
| "sql_literal w (JBool b) = Inr (if b then ''true'' else ''false'')"
| "sql_literal w _ = Inl (InvalidAnalyticsQuery ''filter values must be strings, numbers, or booleans'')"

definition identifier_entry :: "json \<Rightarrow> string \<Rightarrow> string option" where
  "identifier_entry v k = Option.bind (string_entry v k) (\<lambda>s. if valid_sql_identifier s then Some s else None)"

definition sql_identifier_value :: "string \<Rightarrow> json \<Rightarrow> cloudflare_error + string" where
  "sql_identifier_value label v =
     ok_or (Option.bind (json_as_str v) (\<lambda>s. if valid_sql_identifier s then Some s else None))
       (InvalidAnalyticsQuery (label @ '' values must be plain identifiers''))"

definition sql_identifier_array :: "json \<Rightarrow> string \<Rightarrow> string \<Rightarrow> cloudflare_error + string list" where
  "sql_identifier_array body k label = res_map (sql_identifier_value label) (members_entry body k)"

definition aggregate_functions :: "string list" where
  "aggregate_functions = [''count'', ''sum'', ''avg'', ''min'', ''max'']"

definition render_aggregate :: "json \<Rightarrow> cloudflare_error + string" where
  "render_aggregate v =
     res_bind (ensure (json_as_object v \<noteq> None) (InvalidAnalyticsQuery ''aggregate must be an object'')) (\<lambda>_.
     res_bind (ok_or (Option.bind (string_entry v ''function'') (\<lambda>f. if f \<in> set aggregate_functions then Some f else None))
       (InvalidAnalyticsQuery ''aggregate function must be count, sum, avg, min, or max'')) (\<lambda>f.
     res_bind (if f = ''count'' then Inr ''count(*)''
       else res_bind (ok_or (identifier_entry v ''field'')
           (InvalidAnalyticsQuery (''aggregate `'' @ f @ ''` requires one plain field identifier''))) (\<lambda>field.
         Inr (f @ ''('' @ field @ '')''))) (\<lambda>expression.
     res_bind (ok_or (identifier_entry v ''alias'') (InvalidAnalyticsQuery ''aggregate alias must be one plain identifier'')) (\<lambda>alias.
     Inr (expression @ '' AS '' @ alias)))))"

definition scalar_operator :: "string \<Rightarrow> string option" where
  "scalar_operator s = map_of [(''eq'', ''=''), (''ne'', ''!=''), (''gt'', ''>''), (''gte'', ''>=''), (''lt'', ''<''), (''lte'', ''<='')] s"

definition render_structured_filter :: "wire \<Rightarrow> json \<Rightarrow> cloudflare_error + string" where
  "render_structured_filter w v =
     res_bind (ensure (json_as_object v \<noteq> None) (InvalidAnalyticsQuery ''filter must be an object'')) (\<lambda>_.
     res_bind (ok_or (identifier_entry v ''field'') (InvalidAnalyticsQuery ''filter field must be one plain identifier'')) (\<lambda>field.
     res_bind (ok_or (Option.bind (string_entry v ''operator'') (\<lambda>operator.
         if scalar_operator operator \<noteq> None \<or> operator \<in> set [''in'', ''not_in''] then Some operator else None))
       (InvalidAnalyticsQuery ''filter operator must be eq, ne, gt, gte, lt, lte, in, or not_in'')) (\<lambda>operator.
     res_bind (ok_or (json_get v ''value'') (InvalidAnalyticsQuery ''filter value is missing'')) (\<lambda>operand.
     case scalar_operator operator of
       Some symbol \<Rightarrow> res_bind (sql_literal w operand) (\<lambda>text. Inr (field @ '' '' @ symbol @ '' '' @ text))
     | None \<Rightarrow>
         res_bind (ok_or (Option.bind (json_as_array operand) (\<lambda>vs. if vs \<noteq> [] \<and> length vs \<le> 100 then Some vs else None))
           (InvalidAnalyticsQuery ''in and not_in filters require between 1 and 100 scalar values'')) (\<lambda>vs.
         res_bind (res_map (sql_literal w) vs) (\<lambda>texts.
         Inr (field @ '' '' @ (if operator = ''in'' then ''IN'' else ''NOT IN'') @ '' ('' @ join '', '' texts @ '')'')))))))"

definition render_order :: "json \<Rightarrow> cloudflare_error + string" where
  "render_order v =
     res_bind (ensure (json_as_object v \<noteq> None) (InvalidAnalyticsQuery ''order_by entries must be objects'')) (\<lambda>_.
     res_bind (ok_or (identifier_entry v ''field'') (InvalidAnalyticsQuery ''order_by field must be one plain identifier'')) (\<lambda>field.
     res_bind (if string_entry v ''direction'' = Some ''asc'' then Inr ''ASC''
       else if string_entry v ''direction'' = Some ''desc'' then Inr ''DESC''
       else Inl (InvalidAnalyticsQuery ''order_by direction must be asc or desc'')) (\<lambda>direction.
     Inr (field @ '' '' @ direction))))"

definition time_literal :: "bool \<Rightarrow> string \<Rightarrow> string" where
  "time_literal clickhouse_time s = (if clickhouse_time then ''toDateTime64('' @ quoted s @ '', 3)'' else quoted s)"

definition sql_clause :: "string \<Rightarrow> string list \<Rightarrow> string" where
  "sql_clause keyword items = (if items = [] then [] else keyword @ join '', '' items)"

definition render_structured_select_sql :: "wire \<Rightarrow> json \<Rightarrow> string \<Rightarrow> bool \<Rightarrow> output_format option \<Rightarrow> cloudflare_error + string" where
  "render_structured_select_sql w body timestamp_field clickhouse_time format =
     res_bind (ensure (json_as_object body \<noteq> None) (InvalidAnalyticsQuery ''structured SQL input must be an object'')) (\<lambda>_.
     res_bind (ok_or (identifier_entry body ''dataset'') (InvalidAnalyticsQuery ''dataset must be one plain SQL identifier'')) (\<lambda>dataset.
     res_bind (ok_or (string_entry body ''start'') (InvalidAnalyticsQuery ''start timestamp is missing'')) (\<lambda>start.
     res_bind (ok_or (string_entry body ''end'') (InvalidAnalyticsQuery ''end timestamp is missing'')) (\<lambda>end.
     res_bind (sql_identifier_array body ''columns'' ''column'') (\<lambda>columns.
     res_bind (res_map render_aggregate (members_entry body ''aggregates'')) (\<lambda>aggregates.
     res_bind (ensure (columns @ aggregates \<noteq> []) (InvalidAnalyticsQuery ''at least one column or aggregate is required'')) (\<lambda>_.
     res_bind (res_map (render_structured_filter w) (members_entry body ''filters'')) (\<lambda>filters.
     res_bind (sql_identifier_array body ''group_by'' ''group_by'') (\<lambda>group_by.
     res_bind (res_map render_order (members_entry body ''order_by'')) (\<lambda>order_by.
     res_bind (ok_or (u64_entry body ''limit'') (InvalidAnalyticsQuery ''positive row limit is missing'')) (\<lambda>limit.
     Inr (''SELECT '' @ join '', '' (columns @ aggregates) @ '' FROM '' @ dataset @ '' WHERE '' @
       join '' AND '' ([timestamp_field @ '' >= '' @ time_literal clickhouse_time start,
         timestamp_field @ '' < '' @ time_literal clickhouse_time end] @ filters) @
       sql_clause '' GROUP BY '' group_by @ sql_clause '' ORDER BY '' order_by @ '' LIMIT '' @ show_nat limit @
       (case format of None \<Rightarrow> [] | Some f \<Rightarrow> '' FORMAT '' @ output_clause f)))))))))))))"

definition render_structured_analytics_sql :: "wire \<Rightarrow> json \<Rightarrow> output_format \<Rightarrow> cloudflare_error + string" where
  "render_structured_analytics_sql w body format = render_structured_select_sql w body ''timestamp'' True (Some format)"

definition render_structured_log_explorer_sql :: "wire \<Rightarrow> json \<Rightarrow> cloudflare_error + string" where
  "render_structured_log_explorer_sql w body =
     res_bind (ok_or (identifier_entry body ''timestamp_field'')
       (InvalidAnalyticsQuery ''timestamp_field must be one plain SQL identifier'')) (\<lambda>timestamp_field.
     render_structured_select_sql w body timestamp_field False None)"

section \<open>Readers of SQL\<close>

datatype token = Word string | Quoted string | Punct char

definition word_char :: "char \<Rightarrow> bool" where
  "word_char c \<longleftrightarrow> is_ascii_alphanumeric c \<or> c \<in> {CHR ''_'', CHR ''.'', CHR ''+'', CHR ''-''}"

text \<open>Names, keywords and numbers; two dashes would start a comment.\<close>

definition wordly :: "string \<Rightarrow> bool" where
  "wordly s \<longleftrightarrow> list_all word_char s \<and> successively (\<lambda>a b. \<not> (a = CHR ''-'' \<and> b = CHR ''-'')) s"

definition symbols :: string where
  "symbols = ''()*,=<>!''"

text \<open>Text that does not continue the word or the literal before it.\<close>

definition boundary :: "string \<Rightarrow> bool" where
  "boundary rest \<longleftrightarrow> rest = [] \<or> \<not> word_char (hd rest) \<and> hd rest \<noteq> quote"

lemma boundary_simps [simp]: "boundary []" "boundary (c # s) \<longleftrightarrow> \<not> word_char c \<and> c \<noteq> quote"
  by (simp_all add: boundary_def)

lemma boundary_append: "boundary a \<Longrightarrow> boundary b \<Longrightarrow> boundary (a @ b)"
  by (cases a) auto

lemma boundary_words: "boundary rest \<Longrightarrow> takeWhile word_char rest = [] \<and> dropWhile word_char rest = rest"
  by (cases rest) auto

text \<open>
  What is assumed of the provider's reader: blanks separate, words and symbols stand for themselves, and
  a literal whose quotes are doubled is read as its text, for the texts that the reader takes literally.
\<close>

locale sql_reader =
  fixes lex :: "string \<Rightarrow> token list option" and literally :: "string \<Rightarrow> bool"
  assumes lex_nil: "lex [] = Some []"
    and lex_space: "lex (CHR '' '' # s) = lex s"
    and lex_word: "s \<noteq> [] \<Longrightarrow> wordly s \<Longrightarrow> boundary rest \<Longrightarrow> lex (s @ rest) = map_option (Cons (Word s)) (lex rest)"
    and lex_symbol: "c \<in> set symbols \<Longrightarrow> lex (c # s) = map_option (Cons (Punct c)) (lex s)"
    and lex_literal: "literally t \<Longrightarrow> boundary rest \<Longrightarrow> lex (quoted t @ rest) = map_option (Cons (Quoted t)) (lex rest)"

text \<open>
  Two readers: one of the standard, in which a doubled quote stands for one and nothing else is special,
  and one in which a backslash also escapes, as in the dialect whose \<^verbatim>\<open>toDateTime64\<close> and \<^verbatim>\<open>FORMAT\<close> the rendered
  statement uses. The rest of a literal after its opening quote:
\<close>

definition backslash :: char where
  "backslash = CHR 0x5C"

fun read_quoted :: "bool \<Rightarrow> string \<Rightarrow> (string \<times> string) option" where
  "read_quoted escapes [] = None"
| "read_quoted escapes (c # s) =
     (if c = quote then
        (case s of
           d # s' \<Rightarrow> if d = quote then map_option (\<lambda>(v, rest). (quote # v, rest)) (read_quoted escapes s') else Some ([], s)
         | [] \<Rightarrow> Some ([], []))
      else if escapes \<and> c = backslash then
        (case s of d # s' \<Rightarrow> map_option (\<lambda>(v, rest). (d # v, rest)) (read_quoted escapes s') | [] \<Rightarrow> None)
      else map_option (\<lambda>(v, rest). (c # v, rest)) (read_quoted escapes s))"

lemma read_quoted_length: "read_quoted escapes s = Some (v, rest) \<Longrightarrow> length rest < length s"
  by (induction escapes s arbitrary: v rest rule: read_quoted.induct) (fastforce split: if_splits list.splits)+

function sql_lex :: "bool \<Rightarrow> string \<Rightarrow> token list option" where
  "sql_lex escapes [] = Some []"
| "sql_lex escapes (c # s) =
     (if c = CHR '' '' then sql_lex escapes s
      else if c = CHR ''-'' \<and> starts_with s ''-'' then sql_lex escapes (dropWhile (\<lambda>d. d \<noteq> CHR 0x0A) s)
      else if c = quote then
        (case read_quoted escapes s of None \<Rightarrow> None | Some (v, rest) \<Rightarrow> map_option (Cons (Quoted v)) (sql_lex escapes rest))
      else if word_char c then
        map_option (Cons (Word (c # takeWhile word_char s))) (sql_lex escapes (dropWhile word_char s))
      else map_option (Cons (Punct c)) (sql_lex escapes s))"
  by pat_completeness auto
termination
  by (relation "measure (length \<circ> snd)") (auto dest: read_quoted_length simp: le_imp_less_Suc length_dropWhile_le)

lemmas lex_char = word_char_def wordly_def symbols_def is_ascii_alphanumeric_def is_ascii_alphabetic_def is_ascii_digit_def quote_def

lemma read_quoted_quote:
  "boundary rest \<Longrightarrow> \<not> (escapes \<and> backslash \<in> set s) \<Longrightarrow> read_quoted escapes (sql_quote s @ quote # rest) = Some (s, rest)"
proof (induction s)
  case Nil
  then show ?case by (cases rest) (auto simp: sql_quote_def)
next
  case (Cons c s)
  have "quote \<noteq> backslash" by (simp add: quote_def backslash_def)
  with Cons show ?case by (auto simp: sql_quote_def)
qed

lemma sql_lex_word:
  assumes "s \<noteq> []" "wordly s" "boundary rest"
  shows "sql_lex escapes (s @ rest) = map_option (Cons (Word s)) (sql_lex escapes rest)"
proof -
  from assms(1,2) obtain c t where ct: "s = c # t" "word_char c" "list_all word_char t" by (cases s) (auto simp: wordly_def)
  then have c: "c \<noteq> CHR '' ''" "c \<noteq> quote" by (auto simp: lex_char)
  have dash: "\<not> (c = CHR ''-'' \<and> starts_with (t @ rest) ''-'')"
    using assms(2,3) unfolding ct(1) by (cases t; cases rest) (auto simp: wordly_def starts_with_def word_char_def)
  have "takeWhile word_char (t @ rest) = t \<and> dropWhile word_char (t @ rest) = rest"
    using ct(3) boundary_words [OF assms(3)] by (simp add: list_all_iff)
  then show ?thesis using ct(2) c dash by (auto simp: ct(1))
qed

lemma sql_lex_space: "sql_lex escapes (CHR '' '' # s) = sql_lex escapes s"
  by simp

lemma sql_lex_symbol: "c \<in> set symbols \<Longrightarrow> sql_lex escapes (c # s) = map_option (Cons (Punct c)) (sql_lex escapes s)"
  by (auto simp: lex_char)

lemma sql_lex_literal:
  "\<not> (escapes \<and> backslash \<in> set t) \<Longrightarrow> boundary rest \<Longrightarrow>
     sql_lex escapes (quoted t @ rest) = map_option (Cons (Quoted t)) (sql_lex escapes rest)"
  using read_quoted_quote [of rest escapes t] by (simp add: quoted_def) (simp add: lex_char)

interpretation standard: sql_reader "sql_lex False" "\<lambda>_. True"
  by unfold_locales (simp_all add: sql_lex_space sql_lex_word sql_lex_symbol sql_lex_literal del: sql_lex.simps(2))

interpretation escaping: sql_reader "sql_lex True" "\<lambda>t. backslash \<notin> set t"
  by unfold_locales (simp_all add: sql_lex_space sql_lex_word sql_lex_symbol sql_lex_literal del: sql_lex.simps(2))


section \<open>The statement a body describes\<close>

fun join_tokens :: "token list \<Rightarrow> token list list \<Rightarrow> token list" where
  "join_tokens sep [] = []"
| "join_tokens sep [ts] = ts"
| "join_tokens sep (ts # tss) = ts @ sep @ join_tokens sep tss"

definition entry_text :: "json \<Rightarrow> string \<Rightarrow> string" where
  "entry_text v k = (case string_entry v k of None \<Rightarrow> [] | Some s \<Rightarrow> s)"

fun literal_token :: "wire \<Rightarrow> json \<Rightarrow> token" where
  "literal_token w (JString s) = Quoted s"
| "literal_token w (JNumber n) = Word (show_number (ryu w) n)"
| "literal_token w (JBool b) = Word (if b then ''true'' else ''false'')"
| "literal_token w _ = Word []"

definition name_token :: "json \<Rightarrow> token" where
  "name_token v = Word (case json_as_str v of None \<Rightarrow> [] | Some s \<Rightarrow> s)"

definition aggregate_tokens :: "json \<Rightarrow> token list" where
  "aggregate_tokens v =
     Word (entry_text v ''function'') #
     (if entry_text v ''function'' = ''count'' then map Punct ''(*)''
      else [Punct (CHR ''(''), Word (entry_text v ''field''), Punct (CHR '')'')]) @
     [Word ''AS'', Word (entry_text v ''alias'')]"

definition filter_tokens :: "wire \<Rightarrow> json \<Rightarrow> token list" where
  "filter_tokens w v =
     Word (entry_text v ''field'') #
     (case scalar_operator (entry_text v ''operator'') of
        Some symbol \<Rightarrow> map Punct symbol @ [literal_token w (the (json_get v ''value''))]
      | None \<Rightarrow>
          (if entry_text v ''operator'' = ''in'' then [Word ''IN''] else [Word ''NOT'', Word ''IN'']) @ [Punct (CHR ''('')] @
          join_tokens [Punct (CHR '','')] (map (\<lambda>x. [literal_token w x]) (members_entry v ''value'')) @ [Punct (CHR '')'')])"

definition order_tokens :: "json \<Rightarrow> token list" where
  "order_tokens v = [Word (entry_text v ''field''), Word (if string_entry v ''direction'' = Some ''asc'' then ''ASC'' else ''DESC'')]"

definition time_tokens :: "bool \<Rightarrow> string \<Rightarrow> token list" where
  "time_tokens clickhouse_time s =
     (if clickhouse_time then [Word ''toDateTime64'', Punct (CHR ''(''), Quoted s, Punct (CHR '',''), Word ''3'', Punct (CHR '')'')]
      else [Quoted s])"

definition clause_tokens :: "token list \<Rightarrow> token list list \<Rightarrow> token list" where
  "clause_tokens keyword items = (if items = [] then [] else keyword @ join_tokens [Punct (CHR '','')] items)"

definition select_tokens :: "wire \<Rightarrow> json \<Rightarrow> string \<Rightarrow> bool \<Rightarrow> output_format option \<Rightarrow> token list" where
  "select_tokens w body timestamp_field clickhouse_time format =
     [Word ''SELECT''] @
     join_tokens [Punct (CHR '','')]
       (map (\<lambda>v. [name_token v]) (members_entry body ''columns'') @ map aggregate_tokens (members_entry body ''aggregates'')) @
     [Word ''FROM'', Word (entry_text body ''dataset''), Word ''WHERE''] @
     join_tokens [Word ''AND'']
       ([[Word timestamp_field, Punct (CHR ''>''), Punct (CHR ''='')] @ time_tokens clickhouse_time (entry_text body ''start''),
         [Word timestamp_field, Punct (CHR ''<'')] @ time_tokens clickhouse_time (entry_text body ''end'')] @
        map (filter_tokens w) (members_entry body ''filters'')) @
     clause_tokens [Word ''GROUP'', Word ''BY''] (map (\<lambda>v. [name_token v]) (members_entry body ''group_by'')) @
     clause_tokens [Word ''ORDER'', Word ''BY''] (map order_tokens (members_entry body ''order_by'')) @
     [Word ''LIMIT'', Word (show_nat (case u64_entry body ''limit'' of None \<Rightarrow> 0 | Some n \<Rightarrow> n))] @
     (case format of None \<Rightarrow> [] | Some f \<Rightarrow> [Word ''FORMAT'', Word (output_clause f)])"

text \<open>The texts of a body that are rendered as literals.\<close>

fun literal_texts :: "json \<Rightarrow> string list" where
  "literal_texts (JString s) = [s]"
| "literal_texts _ = []"

definition filter_texts :: "json \<Rightarrow> string list" where
  "filter_texts v = (case json_get v ''value'' of
       None \<Rightarrow> []
     | Some operand \<Rightarrow> literal_texts operand @ concat (map literal_texts (members_entry v ''value'')))"

definition caller_texts :: "json \<Rightarrow> string list" where
  "caller_texts body =
     [entry_text body ''start'', entry_text body ''end''] @ concat (map filter_texts (members_entry body ''filters''))"


section \<open>Data stays data\<close>

text \<open>What is assumed of the printer of doubles: the characters of a number.\<close>

definition prints_numbers :: "wire \<Rightarrow> bool" where
  "prints_numbers w \<longleftrightarrow> (\<forall>r. ryu w r \<noteq> [] \<and> wordly (ryu w r))"

lemma successively_absent: "x \<notin> set s \<Longrightarrow> successively (\<lambda>a b. \<not> (a = x \<and> b = x)) s"
  by (induction s rule: induct_list012) auto

lemma digits_wordly: "list_all is_ascii_digit s \<Longrightarrow> wordly s \<and> wordly (CHR ''-'' # s)"
proof -
  assume s: "list_all is_ascii_digit s"
  then have "CHR ''-'' \<notin> set s" by (auto simp: list_all_iff is_ascii_digit_def)
  with s show ?thesis using successively_absent [of "CHR ''-''" s]
    by (cases s) (auto simp: wordly_def word_char_def is_ascii_alphanumeric_def list_all_iff)
qed

lemma show_nat_word: "show_nat n \<noteq> [] \<and> wordly (show_nat n)"
  using show_nat_digits [of n] digits_wordly by blast

lemma show_number_word: "prints_numbers w \<Longrightarrow> show_number (ryu w) n \<noteq> [] \<and> wordly (show_number (ryu w) n)"
  using show_nat_word digits_wordly show_nat_digits by (cases n) (simp_all add: prints_numbers_def show_int_def)

lemma identifier_wordly: "valid_sql_identifier s \<Longrightarrow> s \<noteq> [] \<and> wordly s"
proof -
  assume s: "valid_sql_identifier s"
  then have "list_all (\<lambda>c. is_ascii_alphanumeric c \<or> c = CHR ''_'') s"
    by (cases s) (auto simp: valid_sql_identifier_def is_ascii_alphanumeric_def)
  then have "list_all word_char s" "CHR ''-'' \<notin> set s"
    by (auto simp: list_all_iff word_char_def is_ascii_alphanumeric_def is_ascii_alphabetic_def is_ascii_digit_def)
  with s show ?thesis using successively_absent by (auto simp: wordly_def valid_sql_identifier_def)
qed

lemma identifier_entry_Some: "identifier_entry v k = Some s \<Longrightarrow> entry_text v k = s \<and> valid_sql_identifier s"
  by (auto simp: identifier_entry_def entry_text_def bind_eq_Some_conv split: if_splits)

context sql_reader
begin

text \<open>Text that is read the same before anything that does not continue it.\<close>

definition lexes :: "string \<Rightarrow> token list \<Rightarrow> bool" where
  "lexes s ts \<longleftrightarrow> (\<forall>rest. boundary rest \<longrightarrow> lex (s @ rest) = map_option (\<lambda>us. ts @ us) (lex rest))"

lemma lexesD: "lexes s ts \<Longrightarrow> boundary rest \<Longrightarrow> lex (s @ rest) = map_option (\<lambda>us. ts @ us) (lex rest)"
  by (simp add: lexes_def)

lemma lexes_append: "lexes a ts \<Longrightarrow> boundary b \<Longrightarrow> lexes b us \<Longrightarrow> lexes (a @ b) (ts @ us)"
  by (auto simp: lexes_def boundary_append option.map_comp o_def)

lemma lexes_word: "s \<noteq> [] \<Longrightarrow> wordly s \<Longrightarrow> lexes s [Word s]"
  by (simp add: lexes_def lex_word)

lemma lexes_quoted: "literally s \<Longrightarrow> lexes (quoted s) [Quoted s]"
  by (simp add: lexes_def lex_literal)

lemma lexes_punct: "c \<in> set symbols \<Longrightarrow> \<not> word_char c \<Longrightarrow> c \<noteq> quote \<Longrightarrow> lexes s ts \<Longrightarrow> lexes (c # s) (Punct c # ts)"
  by (simp add: lexes_def lex_symbol option.map_comp o_def)

lemma lexes_space: "lexes s ts \<Longrightarrow> lexes (CHR '' '' # s) ts"
  by (simp add: lexes_def lex_space)

lemma lexes_nil: "lexes [] []"
  by (simp add: lexes_def option.map_id [unfolded id_def])

lemma lexes_keyword:
  "k \<noteq> [] \<Longrightarrow> wordly k \<Longrightarrow> lexes s ts \<Longrightarrow> lexes (k @ CHR '' '' # s) (Word k # ts)"
  using lexes_append [OF lexes_word _ lexes_space, of k s ts] by (simp add: lex_char)

lemma identifier_word: "valid_sql_identifier s \<Longrightarrow> lexes s [Word s]"
  using identifier_wordly by (intro lexes_word) blast+

lemma lexes_join:
  assumes "list_all2 lexes ss tss"
    and "boundary sep" "sep \<noteq> []" "\<And>s ts. lexes s ts \<Longrightarrow> lexes (sep @ s) (sept @ ts)"
  shows "lexes (join sep ss) (join_tokens sept tss)"
  using assms(1)
proof (induction ss arbitrary: tss rule: induct_list012)
  case (3 a b ss)
  then obtain ta tb tss' where t: "tss = ta # tb # tss'" "lexes a ta" "list_all2 lexes (b # ss) (tb # tss')"
    by (auto simp: list_all2_Cons1)
  have "lexes (sep @ join sep (b # ss)) (sept @ join_tokens sept (tb # tss'))"
    by (rule assms(4)) (rule "3.IH"(2) [OF t(3)])
  moreover have "boundary (sep @ join sep (b # ss))" using assms(2,3) by (cases sep) auto
  ultimately show ?case using lexes_append [OF t(2)] t(1) by simp
qed (auto simp: list_all2_Cons1 lexes_nil)

lemma lexes_commas:
  assumes "list_all2 lexes ss tss"
  shows "lexes (join '', '' ss) (join_tokens [Punct (CHR '','')] tss)"
proof (rule lexes_join [OF assms])
  fix s ts assume "lexes s ts"
  then show "lexes ('', '' @ s) ([Punct (CHR '','')] @ ts)" by (simp add: lexes_punct lexes_space lex_char)
qed (simp_all add: lex_char)

lemma lexes_ands:
  assumes "list_all2 lexes ss tss"
  shows "lexes (join '' AND '' ss) (join_tokens [Word ''AND''] tss)"
proof (rule lexes_join [OF assms])
  fix s ts assume "lexes s ts"
  from lexes_space [OF lexes_keyword [OF _ _ this, of "''AND''"]] show "lexes ('' AND '' @ s) ([Word ''AND''] @ ts)"
    by (simp add: lex_char)
qed (simp_all add: lex_char)

lemma literal_lexes:
  "prints_numbers w \<Longrightarrow> sql_literal w v = Inr s \<Longrightarrow> list_all literally (literal_texts v) \<Longrightarrow> lexes s [literal_token w v]"
proof (cases v)
  case (JBool b)
  then show "sql_literal w v = Inr s \<Longrightarrow> lexes s [literal_token w v]" by (cases b) (auto intro!: lexes_word simp: lex_char)
qed (auto simp: lexes_quoted show_number_word intro!: lexes_word)

lemma name_lexes: "sql_identifier_value label v = Inr s \<Longrightarrow> lexes s [name_token v]"
  by (auto simp: sql_identifier_value_def name_token_def bind_eq_Some_conv split: if_splits intro: identifier_word)

lemma names_lex: "sql_identifier_array body k label = Inr ss \<Longrightarrow> list_all2 lexes ss (map (\<lambda>v. [name_token v]) (members_entry body k))"
  by (auto simp: sql_identifier_array_def res_map_Inr_iff list_all2_conv_all_nth intro: name_lexes)

lemma lexes_infix:
  assumes "lexes a ts" "boundary b" "lexes b us" "v = ts @ us" "s = a @ b"
  shows "lexes s v"
  using lexes_append [OF assms(1,2,3)] assms(4,5) by simp

lemma aggregate_lexes:
  assumes "render_aggregate v = Inr s"
  shows "lexes s (aggregate_tokens v)"
proof -
  obtain f al expression where f: "string_entry v ''function'' = Some f" "f \<in> set aggregate_functions"
    and a: "identifier_entry v ''alias'' = Some al" and s: "s = expression @ '' AS '' @ al"
    and e: "if f = ''count'' then expression = ''count(*)'' else \<exists>field. identifier_entry v ''field'' = Some field \<and> expression = f @ ''('' @ field @ '')''"
    using assms by (auto simp: render_aggregate_def result_simps bind_eq_Some_conv split: if_splits)
  have word: "f \<noteq> []" "wordly f" using f(2) by (auto simp: aggregate_functions_def lex_char)
  let ?tail = "[Word ''AS'', Word (entry_text v ''alias'')]"
  have tail: "lexes ('' AS '' @ al) ?tail"
    using lexes_space [OF lexes_keyword [OF _ _ identifier_word, of "''AS''" al]] identifier_entry_Some [OF a] by (simp add: lex_char)
  have close: "lexes (CHR '')'' # '' AS '' @ al) (Punct (CHR '')'') # ?tail)" by (rule lexes_punct [OF _ _ _ tail]) (simp_all add: lex_char)
  show ?thesis
  proof (cases "f = ''count''")
    case True
    have "lexes (''(*)'' @ '' AS '' @ al) (map Punct ''(*)'' @ ?tail)" using close by (simp add: lexes_punct lex_char)
    from lexes_append [OF lexes_word _ this, of "''count''"] show ?thesis
      using True e f(1) by (simp add: s aggregate_tokens_def entry_text_def lex_char)
  next
    case False
    with e obtain field where field: "identifier_entry v ''field'' = Some field" "expression = f @ ''('' @ field @ '')''" by auto
    note id = identifier_entry_Some [OF field(1)]
    have "lexes (field @ CHR '')'' # '' AS '' @ al) ([Word field] @ Punct (CHR '')'') # ?tail)"
      by (rule lexes_append [OF identifier_word _ close]) (use id in \<open>simp_all add: lex_char\<close>)
    then have "lexes (CHR ''('' # field @ CHR '')'' # '' AS '' @ al) (Punct (CHR ''('') # Word field # Punct (CHR '')'') # ?tail)"
      by (simp add: lexes_punct lex_char)
    from lexes_append [OF lexes_word [OF word] _ this] show ?thesis
      using False f(1) id by (simp add: s field(2) aggregate_tokens_def entry_text_def lex_char)
  qed
qed

lemma symbol_lexes:
  "scalar_operator operator = Some symbol \<Longrightarrow> lexes s ts \<Longrightarrow> lexes (symbol @ CHR '' '' # s) (map Punct symbol @ ts)"
  by (auto simp: scalar_operator_def lex_char split: if_splits intro!: lexes_punct lexes_space)

lemma filter_lexes:
  assumes "prints_numbers w" "render_structured_filter w v = Inr s" "list_all literally (filter_texts v)"
  shows "lexes s (filter_tokens w v)"
proof -
  obtain field operator operand where field: "identifier_entry v ''field'' = Some field"
    and operator: "string_entry v ''operator'' = Some operator" and operand: "json_get v ''value'' = Some operand"
    using assms(2) by (auto simp: render_structured_filter_def result_simps bind_eq_Some_conv split: if_splits)
  note id = identifier_entry_Some [OF field]
  show ?thesis
  proof (cases "scalar_operator operator")
    case (Some symbol)
    then obtain t where lit: "sql_literal w operand = Inr t" "s = field @ '' '' @ symbol @ '' '' @ t"
      using assms(2) field operator operand by (auto simp: render_structured_filter_def result_simps)
    have "lexes (symbol @ CHR '' '' # t) (map Punct symbol @ [literal_token w operand])"
      by (rule symbol_lexes [OF Some literal_lexes [OF assms(1) lit(1)]]) (use assms(3) operand in \<open>simp add: filter_texts_def\<close>)
    from lexes_append [OF identifier_word _ lexes_space [OF this], of field] show ?thesis
      using id Some operator operand by (simp add: lit(2) filter_tokens_def entry_text_def [of v "''operator''"] lex_char)
  next
    case None
    then obtain vs texts where vs: "operand = JArray vs" "res_map (sql_literal w) vs = Inr texts"
      and s: "s = field @ '' '' @ (if operator = ''in'' then ''IN'' else ''NOT IN'') @ '' ('' @ join '', '' texts @ '')''"
      using assms(2) field operator operand
      by (cases operand) (auto simp: render_structured_filter_def result_simps split: if_splits)
    let ?list = "join_tokens [Punct (CHR '','')] (map (\<lambda>x. [literal_token w x]) vs)"
    have members: "members_entry v ''value'' = vs" using operand vs(1) by (simp add: members_entry_def list_entry_def)
    have "lexes (join '', '' texts) ?list"
    proof (rule lexes_commas)
      have "list_all literally (concat (map literal_texts vs))" using assms(3) operand members by (simp add: filter_texts_def)
      then have "list_all literally (literal_texts x)" if "x \<in> set vs" for x using that by (auto simp: list_all_iff)
      then show "list_all2 lexes texts (map (\<lambda>x. [literal_token w x]) vs)"
        using vs(2) literal_lexes [OF assms(1)] by (auto simp: res_map_Inr_iff list_all2_conv_all_nth)
    qed
    from lexes_append [OF this _ lexes_punct [OF _ _ _ lexes_nil], of "CHR '')''"]
    have "lexes (join '', '' texts @ '')'') (?list @ [Punct (CHR '')'')])" by (simp add: lex_char)
    from lexes_punct [OF _ _ _ this, of "CHR ''(''"]
    have group: "lexes (''('' @ join '', '' texts @ '')'') (Punct (CHR ''('') # ?list @ [Punct (CHR '')'')])" by (simp add: lex_char)
    note in_list = lexes_keyword [OF _ _ group, of "''IN''"]
    have "lexes ((if operator = ''in'' then ''IN'' else ''NOT IN'') @ '' ('' @ join '', '' texts @ '')'')
        ((if operator = ''in'' then [Word ''IN''] else [Word ''NOT'', Word ''IN'']) @ Punct (CHR ''('') # ?list @ [Punct (CHR '')'')])"
      using in_list lexes_keyword [OF _ _ in_list, of "''NOT''"] by (simp add: lex_char)
    from lexes_append [OF identifier_word _ lexes_space [OF this], of field] show ?thesis
      using id None operator by (simp add: s filter_tokens_def entry_text_def [of v "''operator''"] members lex_char)
  qed
qed

lemma order_lexes:
  assumes "render_order v = Inr s"
  shows "lexes s (order_tokens v)"
proof -
  obtain field direction where field: "identifier_entry v ''field'' = Some field" and s: "s = field @ '' '' @ direction"
    and direction: "direction = (if string_entry v ''direction'' = Some ''asc'' then ''ASC'' else ''DESC'')"
    using assms by (auto simp: render_order_def result_simps split: if_splits)
  note id = identifier_entry_Some [OF field]
  have "lexes direction [Word direction]" by (rule lexes_word) (simp_all add: direction lex_char)
  from lexes_append [OF identifier_word _ lexes_space [OF this], of field] show ?thesis
    using id by (simp add: s order_tokens_def direction lex_char)
qed

lemma time_lexes:
  assumes "literally s"
  shows "lexes (time_literal clickhouse_time s) (time_tokens clickhouse_time s)"
proof (cases clickhouse_time)
  case True
  have "lexes ''3)'' [Word ''3'', Punct (CHR '')'')]"
    using lexes_append [OF lexes_word _ lexes_punct [OF _ _ _ lexes_nil], of "''3''" "CHR '')''"] by (simp add: lex_char)
  from lexes_punct [OF _ _ _ lexes_space [OF this], of "CHR '',''"]
  have "lexes '', 3)'' [Punct (CHR '',''), Word ''3'', Punct (CHR '')'')]" by (simp add: lex_char)
  from lexes_append [OF lexes_quoted [OF assms] _ this]
  have "lexes (quoted s @ '', 3)'') [Quoted s, Punct (CHR '',''), Word ''3'', Punct (CHR '')'')]" by (simp add: lex_char)
  from lexes_punct [OF _ _ _ this, of "CHR ''(''"]
  have "lexes (''('' @ quoted s @ '', 3)'') (Punct (CHR ''('') # [Quoted s, Punct (CHR '',''), Word ''3'', Punct (CHR '')'')])" by (simp add: lex_char)
  from lexes_append [OF lexes_word _ this, of "''toDateTime64''"] True show ?thesis
    by (simp add: time_literal_def time_tokens_def lex_char)
qed (simp add: time_literal_def time_tokens_def lexes_quoted assms)

lemma bound_lexes:
  assumes "valid_sql_identifier field" "scalar_operator operator = Some symbol" "literally s"
  shows "lexes (field @ '' '' @ symbol @ '' '' @ time_literal ch s) ([Word field] @ map Punct symbol @ time_tokens ch s)"
  using lexes_append [OF identifier_word [OF assms(1)] _ lexes_space [OF symbol_lexes [OF assms(2) time_lexes [OF assms(3)]]], of ch]
  by (simp add: lex_char)

lemma clause_lexes:
  assumes "list_all2 lexes ss tss" "\<And>s ts. lexes s ts \<Longrightarrow> lexes (keyword @ s) (kts @ ts)"
  shows "lexes (sql_clause keyword ss) (clause_tokens kts tss)"
  using assms lexes_commas [OF assms(1)] by (auto simp: sql_clause_def clause_tokens_def lexes_nil)

lemma two_words:
  assumes "lexes s ts" "a \<noteq> []" "wordly a" "b \<noteq> []" "wordly b"
  shows "lexes (CHR '' '' # a @ CHR '' '' # b @ CHR '' '' # s) (Word a # Word b # ts)"
  by (intro lexes_space lexes_keyword assms)

lemma boundary_clause [simp]: "boundary (sql_clause (CHR '' '' # k) ss)"
  by (simp add: sql_clause_def lex_char)


lemma format_lexes:
  "lexes (case format of None \<Rightarrow> [] | Some f \<Rightarrow> '' FORMAT '' @ output_clause f)
     (case format of None \<Rightarrow> [] | Some f \<Rightarrow> [Word ''FORMAT'', Word (output_clause f)])"
proof (cases format)
  case (Some f)
  have "lexes (output_clause f) [Word (output_clause f)]" by (rule lexes_word; cases f) (simp_all add: lex_char)
  from lexes_space [OF lexes_keyword [OF _ _ this, of "''FORMAT''"]] Some show ?thesis by (simp add: lex_char)
qed (simp add: lexes_nil)

lemma boundary_format: "boundary (case format of None \<Rightarrow> [] | Some f \<Rightarrow> '' FORMAT '' @ output_clause f)"
  by (cases format) (simp_all add: lex_char)

lemma limit_lexes:
  assumes "lexes f fs" "boundary f"
  shows "lexes ('' LIMIT '' @ show_nat n @ f) ([Word ''LIMIT'', Word (show_nat n)] @ fs)"
proof -
  have "lexes (show_nat n @ f) (Word (show_nat n) # fs)"
    using lexes_append [OF lexes_word assms(2,1), of "show_nat n"] show_nat_word [of n] by simp
  from lexes_space [OF lexes_keyword [OF _ _ this, of "''LIMIT''"]] show ?thesis by (simp add: lex_char)
qed

lemma clauses_lex:
  assumes "list_all2 lexes gs gts" "list_all2 lexes os ots" "lexes l lts" "boundary l"
  shows "lexes (sql_clause '' GROUP BY '' gs @ sql_clause '' ORDER BY '' os @ l)
    (clause_tokens [Word ''GROUP'', Word ''BY''] gts @ clause_tokens [Word ''ORDER'', Word ''BY''] ots @ lts)"
proof -
  have "lexes (sql_clause '' GROUP BY '' gs) (clause_tokens [Word ''GROUP'', Word ''BY''] gts)"
    "lexes (sql_clause '' ORDER BY '' os) (clause_tokens [Word ''ORDER'', Word ''BY''] ots)"
    using two_words [of _ _ "''GROUP''" "''BY''"] two_words [of _ _ "''ORDER''" "''BY''"]
    by (auto intro!: clause_lexes assms simp: lex_char)
  then show ?thesis by (intro lexes_append boundary_append assms) simp_all
qed

lemma select_lexes:
  assumes "lexes p pts" "valid_sql_identifier ds" "lexes c cts" "lexes r rts" "boundary r"
  shows "lexes (''SELECT '' @ p @ '' FROM '' @ ds @ '' WHERE '' @ c @ r)
    ([Word ''SELECT''] @ pts @ [Word ''FROM'', Word ds, Word ''WHERE''] @ cts @ rts)"
proof -
  have "lexes ('' WHERE '' @ c @ r) (Word ''WHERE'' # cts @ rts)"
    using lexes_space [OF lexes_keyword [OF _ _ lexes_append [OF assms(3,5,4)], of "''WHERE''"]] by (simp add: lex_char)
  from lexes_append [OF identifier_word [OF assms(2)] _ this]
  have "lexes (ds @ '' WHERE '' @ c @ r) (Word ds # Word ''WHERE'' # cts @ rts)" by (simp add: lex_char)
  from lexes_space [OF lexes_keyword [OF _ _ this, of "''FROM''"]]
  have "lexes ('' FROM '' @ ds @ '' WHERE '' @ c @ r) (Word ''FROM'' # Word ds # Word ''WHERE'' # cts @ rts)" by (simp add: lex_char)
  from lexes_append [OF assms(1) _ this]
  have "lexes (p @ '' FROM '' @ ds @ '' WHERE '' @ c @ r) (pts @ [Word ''FROM'', Word ds, Word ''WHERE''] @ cts @ rts)" by (simp add: lex_char)
  from lexes_keyword [OF _ _ this, of "''SELECT''"] show ?thesis by (simp add: lex_char)
qed

lemma res_map_lexes:
  "res_map f xs = Inr ss \<Longrightarrow> (\<And>x s. x \<in> set xs \<Longrightarrow> f x = Inr s \<Longrightarrow> lexes s (g x)) \<Longrightarrow> list_all2 lexes ss (map g xs)"
  by (auto simp: res_map_Inr_iff list_all2_conv_all_nth)

lemma select_sqlE:
  assumes "render_structured_select_sql w body timestamp_field clickhouse_time format = Inr sql"
  obtains dataset start stop columns aggregates filters group_by order_by limit where
    "identifier_entry body ''dataset'' = Some dataset" and "string_entry body ''start'' = Some start" "string_entry body ''end'' = Some stop"
    and "sql_identifier_array body ''columns'' ''column'' = Inr columns" "res_map render_aggregate (members_entry body ''aggregates'') = Inr aggregates"
      "res_map (render_structured_filter w) (members_entry body ''filters'') = Inr filters"
      "sql_identifier_array body ''group_by'' ''group_by'' = Inr group_by" "res_map render_order (members_entry body ''order_by'') = Inr order_by"
    and "u64_entry body ''limit'' = Some limit"
    and "sql = ''SELECT '' @ join '', '' (columns @ aggregates) @ '' FROM '' @ dataset @ '' WHERE '' @
       join '' AND '' ([timestamp_field @ '' >= '' @ time_literal clickhouse_time start,
         timestamp_field @ '' < '' @ time_literal clickhouse_time stop] @ filters) @
       sql_clause '' GROUP BY '' group_by @ sql_clause '' ORDER BY '' order_by @ '' LIMIT '' @ show_nat limit @
       (case format of None \<Rightarrow> [] | Some f \<Rightarrow> '' FORMAT '' @ output_clause f)"
  using assms unfolding render_structured_select_sql_def
  by (simp only: res_bind_Inr_iff ok_or_Inr_iff ensure_Inr_iff sum.inject) (elim exE conjE, rule that, assumption+, rule sym)

lemma rendered_tokens:
  assumes "prints_numbers w" "valid_sql_identifier timestamp_field" "list_all literally (caller_texts body)"
    and "render_structured_select_sql w body timestamp_field clickhouse_time format = Inr sql"
  shows "lex sql = Some (select_tokens w body timestamp_field clickhouse_time format)"
proof -
  from assms(4) obtain dataset start stop columns aggregates filters group_by order_by limit where
    ds: "identifier_entry body ''dataset'' = Some dataset" and time: "string_entry body ''start'' = Some start" "string_entry body ''end'' = Some stop"
    and lists: "sql_identifier_array body ''columns'' ''column'' = Inr columns" "res_map render_aggregate (members_entry body ''aggregates'') = Inr aggregates"
      "res_map (render_structured_filter w) (members_entry body ''filters'') = Inr filters"
      "sql_identifier_array body ''group_by'' ''group_by'' = Inr group_by" "res_map render_order (members_entry body ''order_by'') = Inr order_by"
    and limit: "u64_entry body ''limit'' = Some limit"
    and sql: "sql = ''SELECT '' @ join '', '' (columns @ aggregates) @ '' FROM '' @ dataset @ '' WHERE '' @
       join '' AND '' ([timestamp_field @ '' >= '' @ time_literal clickhouse_time start,
         timestamp_field @ '' < '' @ time_literal clickhouse_time stop] @ filters) @
       sql_clause '' GROUP BY '' group_by @ sql_clause '' ORDER BY '' order_by @ '' LIMIT '' @ show_nat limit @
       (case format of None \<Rightarrow> [] | Some f \<Rightarrow> '' FORMAT '' @ output_clause f)"
    by (rule select_sqlE)
  have texts: "literally start" "literally stop" "\<And>x. x \<in> set (members_entry body ''filters'') \<Longrightarrow> list_all literally (filter_texts x)"
    using assms(3) time by (auto simp: caller_texts_def entry_text_def list_all_iff)
  have projections: "list_all2 lexes (columns @ aggregates)
      (map (\<lambda>v. [name_token v]) (members_entry body ''columns'') @ map aggregate_tokens (members_entry body ''aggregates''))"
    by (intro list_all2_appendI names_lex [OF lists(1)] res_map_lexes [OF lists(2)] aggregate_lexes)
  have bounds: "lexes (timestamp_field @ '' >= '' @ time_literal clickhouse_time start) ([Word timestamp_field, Punct (CHR ''>''), Punct (CHR ''='')] @ time_tokens clickhouse_time start)"
    "lexes (timestamp_field @ '' < '' @ time_literal clickhouse_time stop) ([Word timestamp_field, Punct (CHR ''<'')] @ time_tokens clickhouse_time stop)"
    using bound_lexes [OF assms(2) _ texts(1), of "''gte''" "''>=''" clickhouse_time] bound_lexes [OF assms(2) _ texts(2), of "''lt''" "''<''" clickhouse_time]
    by (simp_all add: scalar_operator_def)
  have filters: "list_all2 lexes filters (map (filter_tokens w) (members_entry body ''filters''))"
    by (rule res_map_lexes [OF lists(3)]) (rule filter_lexes [OF assms(1) _ texts(3)])
  let ?format = "case format of None \<Rightarrow> [] | Some f \<Rightarrow> '' FORMAT '' @ output_clause f"
  have conditions: "lexes (join '' AND '' ([timestamp_field @ '' >= '' @ time_literal clickhouse_time start,
      timestamp_field @ '' < '' @ time_literal clickhouse_time stop] @ filters))
      (join_tokens [Word ''AND''] ([[Word timestamp_field, Punct (CHR ''>''), Punct (CHR ''='')] @ time_tokens clickhouse_time start,
        [Word timestamp_field, Punct (CHR ''<'')] @ time_tokens clickhouse_time stop] @ map (filter_tokens w) (members_entry body ''filters'')))"
    using bounds filters by (intro lexes_ands list_all2_appendI) auto
  have rest: "lexes (sql_clause '' GROUP BY '' group_by @ sql_clause '' ORDER BY '' order_by @ '' LIMIT '' @ show_nat limit @ ?format)
      (clause_tokens [Word ''GROUP'', Word ''BY''] (map (\<lambda>v. [name_token v]) (members_entry body ''group_by'')) @
       clause_tokens [Word ''ORDER'', Word ''BY''] (map order_tokens (members_entry body ''order_by'')) @
       [Word ''LIMIT'', Word (show_nat limit)] @ (case format of None \<Rightarrow> [] | Some f \<Rightarrow> [Word ''FORMAT'', Word (output_clause f)]))"
    by (rule clauses_lex [OF names_lex [OF lists(4)] res_map_lexes [OF lists(5) order_lexes] limit_lexes [OF format_lexes boundary_format]])
      (simp_all add: lex_char)
  have "boundary (sql_clause '' GROUP BY '' group_by @ sql_clause '' ORDER BY '' order_by @ '' LIMIT '' @ show_nat limit @ ?format)"
    by (rule boundary_append, simp, rule boundary_append) (simp_all add: lex_char)
  from select_lexes [OF lexes_commas [OF projections] _ conditions rest this, of dataset]
  have "lexes sql (select_tokens w body timestamp_field clickhouse_time format)"
    using identifier_entry_Some [OF ds] time limit
    by (simp add: sql select_tokens_def entry_text_def [of body "''start''"] entry_text_def [of body "''end''"])
  from lexesD [OF this, of "[]"] show ?thesis by (simp add: lex_nil)
qed

end

section \<open>Properties\<close>


definition sample_sql_wire :: wire where
  "sample_sql_wire = \<lparr>ryu = \<lambda>_. ''1.5'', rfc3339_valid = \<lambda>_. False, calendar_valid = \<lambda>_. False, json_number = \<lambda>_. None\<rparr>"

definition sample_query :: "string \<Rightarrow> json list \<Rightarrow> json" where
  "sample_query stop filters = jobj [(''dataset'', JString ''hits''), (''start'', JString ''a''), (''end'', JString stop),
     (''columns'', JArray [JString ''ip'']), (''filters'', JArray filters), (''limit'', jnat 5)]"

definition sample_tokens :: "token list" where
  "sample_tokens = [Word ''SELECT'', Word ''ip'', Word ''FROM'', Word ''hits'', Word ''WHERE'', Word ''timestamp'',
     Punct (CHR ''>''), Punct (CHR ''=''), Quoted ''a'', Word ''AND'', Word ''timestamp'', Punct (CHR ''<''),
     Quoted [quote, CHR '' '', CHR ''O'', CHR ''R''], Word ''LIMIT'', Word ''5'']"


definition reshaping_filters :: "json list" where
  "reshaping_filters =
     [jobj [(''field'', JString ''ip''), (''operator'', JString ''eq''), (''value'', JString [backslash])],
      jobj [(''field'', JString ''ip''), (''operator'', JString ''eq''), (''value'', JString '' OR 1=1 --'')]]"


end
