(* ===== verification/Pagination.thy ===== *)
theory Pagination
  imports Schema_Validation Cloudflare_Errors
begin

text \<open>
  Reading a whole collection through numbered pages or cursors (\<^verbatim>\<open>send_paginated_with_output\<close> without an
  output file, in \<^verbatim>\<open>crates/cfctl-cloudflare/src/lib.rs\<close>, with \<^verbatim>\<open>worker_domains.rs\<close> and
  \<^verbatim>\<open>pagination_diagnostic.rs\<close>). The provider is a parameter: what it answers to the n-th request. The
  results say when the collection that cfctl reports is the whole of what the pages held.
\<close>

section \<open>Requests and responses\<close>

type_synonym query = "(string \<times> string) list"

record request =
  req_method :: string
  req_segments :: "string list"
  req_query :: query

record response =
  rs_status :: nat
  rs_success :: bool
  rs_result :: json
  rs_errors :: "json list"
  rs_info :: "json option"
  rs_etag :: "string option"
  rs_ray :: "string option"

type_synonym provider = "nat \<Rightarrow> request \<Rightarrow> cloudflare_error + response"

definition set_query_parameter :: "string \<Rightarrow> string \<Rightarrow> request \<Rightarrow> request" where
  "set_query_parameter name v r = r\<lparr>req_query := filter (\<lambda>(k, _). k \<noteq> name) (req_query r) @ [(name, v)]\<rparr>"

text \<open>Fields written into \<^verbatim>\<open>result_info\<close> where it is an object.\<close>

definition annotate :: "(string \<times> json) list \<Rightarrow> json option \<Rightarrow> json option" where
  "annotate entries info = (case info of
       Some (JObject m) \<Rightarrow> Some (JObject (foldl (\<lambda>m (k, v). bt_insert k v m) m entries))
     | _ \<Rightarrow> info)"

section \<open>Numbered pages\<close>

record page_info =
  current_page :: nat
  total_pages :: nat
  per_page :: "nat option"
  page_count :: "nat option"
  total_count :: "nat option"

definition optional_pagination_u64 :: "json \<Rightarrow> string \<Rightarrow> cloudflare_error + nat option" where
  "optional_pagination_u64 info field =
     (case json_get info field of
        None \<Rightarrow> Inr None
      | Some v \<Rightarrow> res_bind (ok_or (Option.bind (json_as_number v) number_as_u64) PaginationMetadataInvalid) (\<lambda>n. Inr (Some n)))"

definition page_pagination :: "json option \<Rightarrow> cloudflare_error + page_info option" where
  "page_pagination result_info =
     (case result_info of
        None \<Rightarrow> Inr None
      | Some info \<Rightarrow>
          (let has_page = (json_get info ''page'' \<noteq> None); has_total_pages = (json_get info ''total_pages'' \<noteq> None) in
           if \<not> has_page \<and> \<not> has_total_pages then Inr None
           else if \<not> has_page \<or> json_get info ''cursor'' \<noteq> None \<or> json_get info ''cursors'' \<noteq> None
           then Inl PaginationMetadataInvalid
           else
             res_bind (ok_or (Option.bind (u64_entry info ''page'') (\<lambda>n. if 0 < n then Some n else None)) PaginationMetadataInvalid) (\<lambda>current.
             res_bind (optional_pagination_u64 info ''total_pages'') (\<lambda>explicit.
             res_bind (optional_pagination_u64 info ''per_page'') (\<lambda>per_page.
             res_bind (optional_pagination_u64 info ''count'') (\<lambda>page_count.
             res_bind (optional_pagination_u64 info ''total_count'') (\<lambda>total_count.
             res_bind (ensure (per_page \<noteq> Some 0) PaginationMetadataInvalid) (\<lambda>_.
             res_bind (ensure (case (page_count, per_page) of (Some c, Some p) \<Rightarrow> \<not> c > p | _ \<Rightarrow> True) PaginationMetadataInvalid) (\<lambda>_.
             res_bind (if explicit = Some 0
                 then (if current = 1 \<and> page_count = Some 0 \<and> total_count = Some 0 then Inr (Some 1) else Inl PaginationMetadataInvalid)
                 else Inr explicit) (\<lambda>explicit.
             let derived = (case (per_page, page_count, total_count) of
                 (Some p, Some _, Some t) \<Rightarrow> Some (max ((t + p - 1) div p) 1)
               | _ \<Rightarrow> None)
             in res_bind (case (explicit, derived) of
                  (Some e, Some d) \<Rightarrow> if e \<noteq> d then Inl PaginationMetadataInvalid else Inr e
                | (Some e, None) \<Rightarrow> Inr e
                | (None, Some d) \<Rightarrow> Inr d
                | (None, None) \<Rightarrow> Inl PaginationMetadataInvalid) (\<lambda>total.
                res_bind (ensure (\<not> current > total) PaginationMetadataInvalid) (\<lambda>_.
                Inr (Some \<lparr>current_page = current, total_pages = total, per_page = per_page, page_count = page_count,
                  total_count = total_count\<rparr>)))))))))))))"

text \<open>
  The items of a response: its result, or a collection inside it. The two completions of the source,
  \<^verbatim>\<open>complete_page_pagination\<close> and \<^verbatim>\<open>complete_worker_collection_page_pagination\<close>, differ in this only.
\<close>

fun items_of :: "string option \<Rightarrow> json \<Rightarrow> json list option" where
  "items_of None result = json_as_array result"
| "items_of (Some collection) result = list_entry result collection"

fun with_items :: "string option \<Rightarrow> json list \<Rightarrow> json \<Rightarrow> json" where
  "with_items None items result = JArray items"
| "with_items (Some collection) items (JObject m) = JObject (bt_insert collection (JArray items) m)"
| "with_items (Some collection) items result = result"

definition validate_item_count :: "string option \<Rightarrow> response \<Rightarrow> page_info \<Rightarrow> cloudflare_error + json list" where
  "validate_item_count collection r p =
     res_bind (ok_or (items_of collection (rs_result r)) (InvalidResponseEnvelope (rs_status r))) (\<lambda>items.
     res_bind (case page_count p of
         None \<Rightarrow> Inr ()
       | Some expected \<Rightarrow> ensure (expected = length items) (PaginationCountMismatch expected (length items))) (\<lambda>_.
     Inr items))"

text \<open>
  The loop over the remaining pages: the last response and the items so far, or a response that is
  returned as it is because the provider reports a failure.
\<close>

fun page_loop :: "provider \<Rightarrow> string option \<Rightarrow> request \<Rightarrow> page_info \<Rightarrow> nat list \<Rightarrow> response \<Rightarrow> json list
    \<Rightarrow> cloudflare_error + (response + response \<times> json list)" where
  "page_loop send collection request p [] combined items = Inr (Inr (combined, items))"
| "page_loop send collection request p (page # pages) combined items =
     res_bind (send page (set_query_parameter ''page'' (show_nat page) request)) (\<lambda>r.
     if \<not> rs_success r then Inr (Inl r)
     else
       res_bind (page_pagination (rs_info r)) (\<lambda>found.
       res_bind (ok_or found PaginationMetadataInvalid) (\<lambda>q.
       if current_page q \<noteq> page \<or> total_pages q \<noteq> total_pages p \<or> total_count q \<noteq> total_count p
       then Inl PaginationMetadataInvalid
       else
         res_bind (validate_item_count collection r q) (\<lambda>page_items.
         page_loop send collection request p pages (combined\<lparr>rs_etag := rs_etag r, rs_ray := rs_ray r\<rparr>) (items @ page_items)))))"

definition complete_pages :: "provider \<Rightarrow> string option \<Rightarrow> request \<Rightarrow> response \<Rightarrow> page_info \<Rightarrow> cloudflare_error + response" where
  "complete_pages send collection request combined p =
     res_bind (ensure (\<not> total_pages p > 1000) (PaginationLimit (total_pages p))) (\<lambda>_.
     res_bind (validate_item_count collection combined p) (\<lambda>first.
     res_bind (page_loop send collection request p [current_page p + 1 ..< total_pages p + 1] combined first) (\<lambda>outcome.
     case outcome of
       Inl failed \<Rightarrow> Inr failed
     | Inr (final, items) \<Rightarrow>
         res_bind (case total_count p of
             None \<Rightarrow> Inr ()
           | Some expected \<Rightarrow> ensure (expected = length items) (PaginationCountMismatch expected (length items))) (\<lambda>_.
         Inr (final\<lparr>rs_result := with_items collection items (rs_result combined),
           rs_info := annotate [(''page'', jnat (total_pages p)), (''count'', jnat (length items)),
             (''total_pages'', jnat (total_pages p)), (''cfctl_pages'', jnat (total_pages p)),
             (''cfctl_page_complete'', JBool True)] (rs_info final)\<rparr>)))))"

definition complete_page_pagination :: "provider \<Rightarrow> request \<Rightarrow> response \<Rightarrow> page_info \<Rightarrow> cloudflare_error + response" where
  "complete_page_pagination send = complete_pages send None"

definition complete_worker_collection_page_pagination ::
    "provider \<Rightarrow> request \<Rightarrow> response \<Rightarrow> page_info \<Rightarrow> string \<Rightarrow> cloudflare_error + response" where
  "complete_worker_collection_page_pagination send request combined p collection =
     complete_pages send (Some collection) request combined p"

section \<open>Cursors\<close>

datatype cursor_state = NotPresent | Complete | Next string

definition cursor_after :: "json option \<Rightarrow> cursor_state" where
  "cursor_after result_info =
     (case Option.bind result_info (\<lambda>info. object_entry info ''cursors'') of
        None \<Rightarrow> NotPresent
      | Some m \<Rightarrow>
          (case Option.bind (bt_get m ''after'') json_as_str of
             None \<Rightarrow> Complete
           | Some cursor \<Rightarrow> if cursor = [] then Complete else Next cursor))"

fun direct_cursor_after :: "json option \<Rightarrow> cloudflare_error + string option" where
  "direct_cursor_after None = Inr None"
| "direct_cursor_after (Some (JObject m)) =
     (if bt_get m ''cursors'' \<noteq> None then Inl PaginationMetadataInvalid
      else case bt_get m ''cursor'' of
          None \<Rightarrow> Inr None
        | Some JNull \<Rightarrow> Inr None
        | Some (JString cursor) \<Rightarrow> Inr (if cursor = [] then None else Some cursor)
        | Some _ \<Rightarrow> Inl PaginationMetadataInvalid)"
| "direct_cursor_after (Some _) = Inl PaginationMetadataInvalid"

text \<open>
  The loop over cursors; \<open>pages\<close> counts the responses read, so the recursion ends at the limit.
\<close>

function cursor_loop :: "provider \<Rightarrow> request \<Rightarrow> string list \<Rightarrow> nat \<Rightarrow> string option \<Rightarrow> response \<Rightarrow> json list
    \<Rightarrow> cloudflare_error + (response + response \<times> json list \<times> nat)" where
  "cursor_loop send request observed pages next combined items =
     (case next of
        None \<Rightarrow> Inr (Inr (combined, items, pages))
      | Some cursor \<Rightarrow>
          if 1000 \<le> pages then Inl (PaginationLimit (pages + 1))
          else if cursor \<in> set observed then Inl PaginationCursorLoop
          else
            (case send pages (set_query_parameter ''cursor'' cursor request) of
               Inl e \<Rightarrow> Inl e
             | Inr r \<Rightarrow>
                 if \<not> rs_success r then Inr (Inl r)
                 else
                   (case json_as_array (rs_result r) of
                      None \<Rightarrow> Inl (InvalidResponseEnvelope (rs_status r))
                    | Some page_items \<Rightarrow>
                        if cursor_after (rs_info r) = NotPresent then Inl PaginationCursorMetadataMissing
                        else
                          cursor_loop send request (cursor # observed) (pages + 1)
                            (case cursor_after (rs_info r) of Next c \<Rightarrow> Some c | _ \<Rightarrow> None)
                            (combined\<lparr>rs_etag := rs_etag r, rs_ray := rs_ray r, rs_info := rs_info r\<rparr>) (items @ page_items))))"
  by pat_completeness auto
termination
  by (relation "measure (\<lambda>(send, request, observed, pages, next, combined, items). 1000 - pages)") auto

declare cursor_loop.simps [simp del]

definition complete_cursors :: "provider \<Rightarrow> request \<Rightarrow> response \<Rightarrow> cloudflare_error + response" where
  "complete_cursors send request combined =
     (if cursor_after (rs_info combined) = NotPresent then Inr combined
      else
        (case json_as_array (rs_result combined) of
           None \<Rightarrow> Inr combined
         | Some first \<Rightarrow>
             res_bind (cursor_loop send request [] 1 (case cursor_after (rs_info combined) of Next c \<Rightarrow> Some c | _ \<Rightarrow> None)
               combined first) (\<lambda>outcome.
             case outcome of
               Inl failed \<Rightarrow> Inr failed
             | Inr (final, items, pages) \<Rightarrow>
                 Inr (final\<lparr>rs_result := JArray items,
                   rs_info := annotate [(''count'', jnat (length items)), (''cfctl_cursor_complete'', JBool True),
                     (''cfctl_pages'', jnat pages)] (rs_info final)\<rparr>))))"

section \<open>Single pages\<close>

definition last_segments :: "nat \<Rightarrow> string list \<Rightarrow> string list option" where
  "last_segments n segments = (if n \<le> length segments then Some (drop (length segments - n) segments) else None)"

definition is_get :: "request \<Rightarrow> bool" where
  "is_get r \<longleftrightarrow> eq_ignore_ascii_case (req_method r) ''GET''"

definition request_is_worker_collection :: "request \<Rightarrow> string \<Rightarrow> bool" where
  "request_is_worker_collection r collection \<longleftrightarrow>
     is_get r \<and>
     (case last_segments 6 (req_segments r) of
        None \<Rightarrow> False
      | Some tail \<Rightarrow> tail ! 0 = ''accounts'' \<and> tail ! 1 \<noteq> [] \<and> tail ! 2 = ''workers'' \<and> tail ! 3 = ''scripts'' \<and>
          tail ! 4 \<noteq> [] \<and> tail ! 5 = collection)"

definition request_is_worker_versions_list :: "request \<Rightarrow> bool" where
  "request_is_worker_versions_list r \<longleftrightarrow> request_is_worker_collection r ''versions''"

definition request_is_worker_versions_deployable :: "request \<Rightarrow> bool" where
  "request_is_worker_versions_deployable r \<longleftrightarrow>
     request_is_worker_versions_list r \<and> list_ex (\<lambda>(name, v). name = ''deployable'' \<and> v = ''true'') (req_query r)"

definition request_expects_page_pagination :: "request \<Rightarrow> bool" where
  "request_expects_page_pagination r \<longleftrightarrow> list_ex (\<lambda>(name, _). name = ''page'') (req_query r)"

definition request_is_queue_consumers_single_page :: "request \<Rightarrow> bool" where
  "request_is_queue_consumers_single_page r \<longleftrightarrow>
     is_get r \<and> req_query r = [] \<and>
     (case last_segments 5 (req_segments r) of
        None \<Rightarrow> False
      | Some tail \<Rightarrow> tail ! 0 = ''accounts'' \<and> tail ! 1 \<noteq> [] \<and> tail ! 2 = ''queues'' \<and> tail ! 3 \<noteq> [] \<and> tail ! 4 = ''consumers'')"

definition request_is_worker_domains :: "request \<Rightarrow> bool" where
  "request_is_worker_domains r \<longleftrightarrow>
     is_get r \<and>
     (case last_segments 4 (req_segments r) of
        None \<Rightarrow> False
      | Some tail \<Rightarrow> tail ! 0 = ''accounts'' \<and> tail ! 1 \<noteq> [] \<and> tail ! 2 = ''workers'' \<and> tail ! 3 = ''domains'')"

definition info_object :: "response \<Rightarrow> cloudflare_error \<Rightarrow> cloudflare_error + json" where
  "info_object r e = (case rs_info r of
       None \<Rightarrow> Inr (JObject [])
     | Some info \<Rightarrow> if json_as_object info = None then Inl e else Inr info)"

definition queue_error :: "string \<Rightarrow> cloudflare_error" where
  "queue_error reason = QueueConsumersSinglePageMetadataInvalid reason"

definition queue_metadata_u64 :: "json \<Rightarrow> string \<Rightarrow> cloudflare_error + nat option" where
  "queue_metadata_u64 info field = (case json_get info field of
       None \<Rightarrow> Inr None
     | Some v \<Rightarrow> res_bind (ok_or (Option.bind (json_as_number v) number_as_u64) (queue_error ''metadata_unsigned_integer'')) (\<lambda>n. Inr (Some n)))"

definition normalize_queue_consumers_single_page :: "response \<Rightarrow> cloudflare_error + response" where
  "normalize_queue_consumers_single_page r =
     res_bind (ok_or (json_as_array (rs_result r)) (InvalidResponseEnvelope (rs_status r))) (\<lambda>results.
     let n = length results in
     res_bind (info_object r (queue_error ''result_info_object'')) (\<lambda>info.
     res_bind (ensure (json_get info ''cursor'' = None \<and> json_get info ''cursors'' = None) (queue_error ''cursor_absent'')) (\<lambda>_.
     res_bind (res_each (\<lambda>(field, expected, reason).
         res_bind (queue_metadata_u64 info field) (\<lambda>actual.
         ensure (case actual of None \<Rightarrow> True | Some a \<Rightarrow> a = expected) (queue_error reason)))
       [(''page'', 1, ''page_one''), (''count'', n, ''count_matches_items''), (''total_count'', n, ''total_count_matches_items'')]) (\<lambda>_.
     res_bind (queue_metadata_u64 info ''total_pages'') (\<lambda>total_pages.
     res_bind (ensure (case total_pages of None \<Rightarrow> True | Some t \<Rightarrow> t = 1 \<or> t = 0 \<and> n = 0) (queue_error ''total_pages_complete'')) (\<lambda>_.
     res_bind (queue_metadata_u64 info ''per_page'') (\<lambda>per_page.
     res_bind (ensure (case per_page of None \<Rightarrow> True | Some p \<Rightarrow> \<not> (p = 0 \<or> n > p)) (queue_error ''per_page_capacity'')) (\<lambda>_.
     Inr (r\<lparr>rs_info := annotate [(''count'', jnat n), (''cfctl_single_page_complete'', JBool True)] (Some info)\<rparr>)))))))))"

definition nullable_metadata_u64 :: "json \<Rightarrow> string \<Rightarrow> cloudflare_error + nat option" where
  "nullable_metadata_u64 info field = (case json_get info field of
       None \<Rightarrow> Inr None
     | Some JNull \<Rightarrow> Inr None
     | Some v \<Rightarrow> res_bind (ok_or (Option.bind (json_as_number v) number_as_u64) PaginationMetadataInvalid) (\<lambda>n. Inr (Some n)))"

fun cursors_active :: "json option \<Rightarrow> bool" where
  "cursors_active None = False"
| "cursors_active (Some JNull) = False"
| "cursors_active (Some (JObject m)) = list_ex (\<lambda>(_, v). v \<noteq> JNull) m"
| "cursors_active (Some _) = True"

definition normalize_deployable_worker_versions :: "response \<Rightarrow> cloudflare_error + response" where
  "normalize_deployable_worker_versions r =
     res_bind (ok_or (list_entry (rs_result r) ''items'') (InvalidResponseEnvelope (rs_status r))) (\<lambda>items.
     let n = length items in
     res_bind (info_object r PaginationMetadataInvalid) (\<lambda>info.
     res_bind (ensure (\<not> ((json_get info ''cursor'' \<noteq> None \<and> json_get info ''cursor'' \<noteq> Some JNull) \<or>
         cursors_active (json_get info ''cursors''))) PaginationMetadataInvalid) (\<lambda>_.
     res_bind (nullable_metadata_u64 info ''page'') (\<lambda>_.
     res_bind (nullable_metadata_u64 info ''per_page'') (\<lambda>per_page.
     res_bind (ensure (per_page \<noteq> Some 0) PaginationMetadataInvalid) (\<lambda>_.
     res_bind (nullable_metadata_u64 info ''count'') (\<lambda>expected.
     res_bind (case expected of None \<Rightarrow> Inr () | Some e \<Rightarrow> ensure (e = n) (PaginationCountMismatch e n)) (\<lambda>_.
     res_bind (nullable_metadata_u64 info ''total_count'') (\<lambda>_.
     res_bind (nullable_metadata_u64 info ''total_pages'') (\<lambda>_.
     Inr (r\<lparr>rs_info := annotate [(''count'', jnat n), (''cfctl_pages'', jnat 1), (''cfctl_single_page_complete'', JBool True)]
       (Some info)\<rparr>)))))))))))"

definition accept_empty_single_page :: "request \<Rightarrow> response \<Rightarrow> response option" where
  "accept_empty_single_page request r =
     (if request_is_worker_domains request \<and>
         list_all (\<lambda>(name, _). name \<in> set [''environment'', ''hostname'', ''service'', ''zone_id'', ''zone_name'']) (req_query request) \<and>
         rs_status r = 200 \<and> rs_success r \<and> rs_errors r = [] \<and> json_as_array (rs_result r) = Some []
      then
        (case rs_info r of
           Some (JObject m) \<Rightarrow>
             (let info = JObject m in
              if list_all (\<lambda>(field, expected). u64_entry info field = Some expected)
                   [(''page'', 1), (''per_page'', 0), (''count'', 0), (''total_count'', 0)] \<and>
                 json_get info ''cursor'' = None \<and> json_get info ''cursors'' = None \<and>
                 (json_get info ''total_pages'' = None \<or> u64_entry info ''total_pages'' \<in> {Some 0, Some 1})
              then Some (r\<lparr>rs_info := annotate [(''cfctl_pages'', jnat 1), (''cfctl_single_page_complete'', JBool True)] (Some info)\<rparr>)
              else None)
         | _ \<Rightarrow> None)
      else None)"

section \<open>The whole read\<close>

definition metadata_summary :: "json option \<Rightarrow> json \<Rightarrow> string" where
  "metadata_summary info result =
     join '', ''
       (map (\<lambda>field. field @ ''='' @ (case Option.bind info (\<lambda>i. json_get i field) of
            None \<Rightarrow> ''absent''
          | Some v \<Rightarrow> (case Option.bind (json_as_number v) number_as_u64 of None \<Rightarrow> ''invalid'' | Some n \<Rightarrow> show_nat n)))
          [''page'', ''per_page'', ''count'', ''total_count'', ''total_pages''] @
        map (\<lambda>field. field @ ''_present='' @ (if Option.bind info (\<lambda>i. json_get i field) \<noteq> None then ''true'' else ''false''))
          [''cursor'', ''cursors''] @
        [''items='' @ (case json_as_array result of None \<Rightarrow> ''non-array'' | Some items \<Rightarrow> show_nat (length items))])"

definition with_metadata :: "request \<Rightarrow> response \<Rightarrow> cloudflare_error \<Rightarrow> cloudflare_error" where
  "with_metadata request r e =
     (if \<not> request_is_worker_domains request \<or> e \<noteq> PaginationMetadataInvalid then e
      else PaginationMetadataDiagnostic (metadata_summary (rs_info r) (rs_result r)))"

definition complete_worker_versions_list :: "provider \<Rightarrow> request \<Rightarrow> response \<Rightarrow> cloudflare_error + response" where
  "complete_worker_versions_list send request combined =
     (if request_is_worker_versions_deployable request then normalize_deployable_worker_versions combined
      else
        res_bind (page_pagination (rs_info combined)) (\<lambda>found.
        res_bind (ok_or found PaginationMetadataInvalid) (\<lambda>p.
        complete_worker_collection_page_pagination send request combined p ''items'')))"

definition send_paginated :: "provider \<Rightarrow> request \<Rightarrow> cloudflare_error + response" where
  "send_paginated send request =
     res_bind (send 0 request) (\<lambda>combined.
     if \<not> rs_success combined \<or> \<not> is_get request then Inr combined
     else if request_is_worker_versions_list request then complete_worker_versions_list send request combined
     else if request_is_queue_consumers_single_page request then normalize_queue_consumers_single_page combined
     else
       (case accept_empty_single_page request combined of
          Some accepted \<Rightarrow> Inr accepted
        | None \<Rightarrow>
            res_bind (map_err (with_metadata request combined) (page_pagination (rs_info combined))) (\<lambda>found.
            case found of
              Some p \<Rightarrow>
                if request_is_worker_collection request ''deployments''
                then complete_worker_collection_page_pagination send request combined p ''deployments''
                else complete_page_pagination send request combined p
            | None \<Rightarrow>
                if request_expects_page_pagination request then Inl PaginationMetadataInvalid
                else complete_cursors send request combined)))"

definition collection_pagination_complete :: "bool \<Rightarrow> response \<Rightarrow> bool" where
  "collection_pagination_complete required readback \<longleftrightarrow>
     \<not> required \<or>
     (case rs_info readback of
        None \<Rightarrow> False
      | Some info \<Rightarrow> (case u64_entry info ''page'' of None \<Rightarrow> False | Some p \<Rightarrow> 0 < p \<and> Some p = u64_entry info ''total_pages''))"


section \<open>What a read of numbered pages holds\<close>

lemma page_pagination_wf:
  assumes "page_pagination info = Inr (Some p)"
  shows "1 \<le> current_page p" "current_page p \<le> total_pages p" "\<exists>m. info = Some (JObject m)"
    and "per_page p = Some n \<Longrightarrow> page_count p = Some c \<Longrightarrow> total_count p = Some t \<Longrightarrow> 0 < n \<and> c \<le> n \<and> total_pages p = max ((t + n - 1) div n) 1"
proof -
  obtain i where i: "info = Some i" using assms by (cases info) (simp_all add: page_pagination_def)
  show "\<exists>m. info = Some (JObject m)" using assms by (cases i) (simp_all add: i page_pagination_def)
  have "0 < current_page p \<and> current_page p \<le> total_pages p \<and>
      (per_page p = Some n \<longrightarrow> page_count p = Some c \<longrightarrow> total_count p = Some t \<longrightarrow>
        0 < n \<and> c \<le> n \<and> total_pages p = max ((t + n - 1) div n) 1)" for n c t
    using assms unfolding i page_pagination_def
    by (auto simp: Let_def result_simps bind_eq_Some_conv split: if_splits option.splits)
  then show "1 \<le> current_page p" "current_page p \<le> total_pages p"
    and "per_page p = Some n \<Longrightarrow> page_count p = Some c \<Longrightarrow> total_count p = Some t \<Longrightarrow> 0 < n \<and> c \<le> n \<and> total_pages p = max ((t + n - 1) div n) 1"
    by (metis One_nat_def Suc_leI, metis, metis)
qed

definition page_answers :: "provider \<Rightarrow> request \<Rightarrow> page_info \<Rightarrow> nat \<Rightarrow> response \<Rightarrow> bool" where
  "page_answers send request p n r \<longleftrightarrow>
     send n (set_query_parameter ''page'' (show_nat n) request) = Inr r \<and> rs_success r \<and>
     (\<exists>q. page_pagination (rs_info r) = Inr (Some q) \<and> current_page q = n \<and> total_pages q = total_pages p \<and> total_count q = total_count p)"

lemma page_loop_reads:
  assumes "page_loop send collection request p pages combined items = Inr (Inr (final, all))"
  obtains rs where "list_all2 (page_answers send request p) pages rs"
    and "list_all (\<lambda>r. items_of collection (rs_result r) \<noteq> None) rs"
    and "all = items @ concat (map (\<lambda>r. the (items_of collection (rs_result r))) rs)"
    and "rs_success final = rs_success combined" "rs_info final = rs_info combined"
proof -
  have "\<exists>rs. list_all2 (page_answers send request p) pages rs \<and> list_all (\<lambda>r. items_of collection (rs_result r) \<noteq> None) rs \<and>
      all = items @ concat (map (\<lambda>r. the (items_of collection (rs_result r))) rs) \<and> rs_success final = rs_success combined \<and> rs_info final = rs_info combined"
    using assms
  proof (induction pages arbitrary: combined items)
    case (Cons n pages)
    then obtain r q its where r: "send n (set_query_parameter ''page'' (show_nat n) request) = Inr r" "rs_success r"
        "page_pagination (rs_info r) = Inr (Some q)" "current_page q = n" "total_pages q = total_pages p" "total_count q = total_count p"
      and its: "items_of collection (rs_result r) = Some its"
      and rest: "page_loop send collection request p pages (combined\<lparr>rs_etag := rs_etag r, rs_ray := rs_ray r\<rparr>) (items @ its) = Inr (Inr (final, all))"
      by (auto simp: result_simps validate_item_count_def split: if_splits)
    from Cons.IH [OF rest] obtain rs where rs: "list_all2 (page_answers send request p) pages rs"
      "list_all (\<lambda>r. items_of collection (rs_result r) \<noteq> None) rs"
      "all = (items @ its) @ concat (map (\<lambda>r. the (items_of collection (rs_result r))) rs)" "rs_success final = rs_success combined" "rs_info final = rs_info combined"
      by auto
    have "page_answers send request p n r" using r by (simp add: page_answers_def)
    with rs its show ?case by (intro exI [of _ "r # rs"]) simp
  qed simp
  then show thesis using that by blast
qed

lemma page_loop_fails: "page_loop send collection request p pages combined items = Inr (Inl r) \<Longrightarrow> \<not> rs_success r"
  by (induction pages arbitrary: combined items) (auto simp: result_simps split: if_splits)

lemma bt_get_annotated:
  assumes "bt_invar m"
  shows "bt_get (foldl (\<lambda>m (k, v). bt_insert k v m) m kvs) k = (case map_of (rev kvs) k of None \<Rightarrow> bt_get m k | Some v \<Rightarrow> Some v)"
  using assms
proof (induction kvs arbitrary: m)
  case (Cons x kvs)
  then show ?case
    by (cases x) (auto simp: bt_invar_insert bt_get_insert map_add_def split: option.splits)
qed simp

lemma complete_pages_elim:
  assumes "complete_pages send collection request first p = Inr r" "rs_success r"
  obtains items final all where "items_of collection (rs_result first) = Some items" "total_pages p \<le> 1000"
    and "page_loop send collection request p [current_page p + 1 ..< total_pages p + 1] first items = Inr (Inr (final, all))"
    and "rs_result r = with_items collection all (rs_result first)" "\<And>n. total_count p = Some n \<Longrightarrow> n = length all"
    and "rs_info r = annotate [(''page'', jnat (total_pages p)), (''count'', jnat (length all)),
      (''total_pages'', jnat (total_pages p)), (''cfctl_pages'', jnat (total_pages p)), (''cfctl_page_complete'', JBool True)] (rs_info final)"
proof -
  obtain items where items: "validate_item_count collection first p = Inr items"
    using assms(1) unfolding complete_pages_def by (auto simp only: res_bind_Inr_iff)
  then have read: "items_of collection (rs_result first) = Some items" by (auto simp: validate_item_count_def result_simps)
  have limit: "total_pages p \<le> 1000" using assms(1) unfolding complete_pages_def by (simp only: res_bind_Inr_iff ensure_Inr_iff) auto
  obtain outcome where loop: "page_loop send collection request p [current_page p + 1 ..< total_pages p + 1] first items = Inr outcome"
    using assms(1) items limit by (cases "page_loop send collection request p [current_page p + 1 ..< total_pages p + 1] first items")
      (simp_all add: complete_pages_def del: upt_Suc)
  obtain final all where out: "outcome = Inr (final, all)"
    using assms items limit loop page_loop_fails by (cases outcome) (auto simp: complete_pages_def simp del: upt_Suc)
  have "rs_result r = with_items collection all (rs_result first)" "\<And>n. total_count p = Some n \<Longrightarrow> n = length all"
    "rs_info r = annotate [(''page'', jnat (total_pages p)), (''count'', jnat (length all)),
      (''total_pages'', jnat (total_pages p)), (''cfctl_pages'', jnat (total_pages p)), (''cfctl_page_complete'', JBool True)] (rs_info final)"
    using assms(1) items limit loop out by (auto simp: complete_pages_def result_simps simp del: upt_Suc split: option.splits)
  with read limit loop out that show thesis by blast
qed

text \<open>
  C23. A completed read of numbered pages is the whole of the pages from the first response on: the items
  are those of the first response and of every later page, each asked for once, in order, and each
  answered with the number, the page total and the item total of the first; the totals are met, and
  the response is marked with a page equal to the total. A read that starts at page one misses nothing.
\<close>

theorem page_read_complete:
  assumes "page_pagination (rs_info first) = Inr (Some p)" "rs_success first"
    and "rep_json (the (rs_info first))"
    and "complete_page_pagination send request first p = Inr r" "rs_success r"
  shows "\<exists>rs. list_all2 (page_answers send request p) [current_page p + 1 ..< total_pages p + 1] rs \<and>
      rs_result r = JArray (concat (map (\<lambda>r. the (json_as_array (rs_result r))) (first # rs))) \<and>
      (\<forall>n. total_count p = Some n \<longrightarrow> n = length (the (json_as_array (rs_result r)))) \<and>
      total_pages p \<le> 1000 \<and> collection_pagination_complete True r"
proof -
  obtain items final all where items: "json_as_array (rs_result first) = Some items" and limit: "total_pages p \<le> 1000"
    and loop: "page_loop send None request p [current_page p + 1 ..< total_pages p + 1] first items = Inr (Inr (final, all))"
    and r: "rs_result r = JArray all" "\<And>n. total_count p = Some n \<Longrightarrow> n = length all"
    and marked: "rs_info r = annotate [(''page'', jnat (total_pages p)), (''count'', jnat (length all)),
      (''total_pages'', jnat (total_pages p)), (''cfctl_pages'', jnat (total_pages p)), (''cfctl_page_complete'', JBool True)] (rs_info final)"
    by (rule complete_pages_elim [OF assms(4) [unfolded complete_page_pagination_def] assms(5)]) auto
  obtain rs where rs: "list_all2 (page_answers send request p) [current_page p + 1 ..< total_pages p + 1] rs"
    and all: "all = items @ concat (map (\<lambda>r. the (json_as_array (rs_result r))) rs)"
    and info: "rs_info final = rs_info first"
    using page_loop_reads [OF loop] by auto
  obtain m where m: "rs_info first = Some (JObject m)" using page_pagination_wf(3) [OF assms(1)] by auto
  have inv: "bt_invar m" using assms(3) m by simp
  have total: "0 < total_pages p" using page_pagination_wf(1,2) [OF assms(1)] by simp
  note marked [unfolded info m]
  moreover have "u64_entry (JObject m') k = Some n" if "bt_get m' k = Some (jnat n)" "n \<le> 1000" for m' k n
    using that by (simp add: u64_entry_def number_entry_def jnat_def)
  ultimately have "collection_pagination_complete True r"
    using total limit unfolding annotate_def option.case json.case
    by (simp add: collection_pagination_complete_def bt_get_annotated [OF inv] del: foldl.simps)
  with rs r all items limit show ?thesis by (intro exI [of _ rs]) simp
qed


section \<open>What a read of cursors holds\<close>

definition next_cursor :: "response \<Rightarrow> string option" where
  "next_cursor r = (case cursor_after (rs_info r) of Next c \<Rightarrow> Some c | _ \<Rightarrow> None)"

text \<open>The cursors of a complete read with their answers, from the n-th request on.\<close>

fun cursor_chain :: "provider \<Rightarrow> request \<Rightarrow> nat \<Rightarrow> string option \<Rightarrow> (string \<times> response) list \<Rightarrow> bool" where
  "cursor_chain send request n next [] \<longleftrightarrow> next = None"
| "cursor_chain send request n next ((c, r) # rs) \<longleftrightarrow>
     next = Some c \<and> send n (set_query_parameter ''cursor'' c request) = Inr r \<and> rs_success r \<and>
     json_as_array (rs_result r) \<noteq> None \<and> cursor_after (rs_info r) \<noteq> NotPresent \<and>
     cursor_chain send request (Suc n) (next_cursor r) rs"

definition chain_items :: "(string \<times> response) list \<Rightarrow> json list" where
  "chain_items rs = concat (map (\<lambda>(_, r). the (json_as_array (rs_result r))) rs)"

lemma cursor_loop_None [simp]: "cursor_loop send request observed pages None combined items = Inr (Inr (combined, items, pages))"
  by (simp add: cursor_loop.simps)

lemma cursor_loop_Some [simp]:
  "cursor_loop send request observed pages (Some cursor) combined items =
     (if 1000 \<le> pages then Inl (PaginationLimit (pages + 1))
      else if cursor \<in> set observed then Inl PaginationCursorLoop
      else
        (case send pages (set_query_parameter ''cursor'' cursor request) of
           Inl e \<Rightarrow> Inl e
         | Inr r \<Rightarrow>
             if \<not> rs_success r then Inr (Inl r)
             else
               (case json_as_array (rs_result r) of
                  None \<Rightarrow> Inl (InvalidResponseEnvelope (rs_status r))
                | Some page_items \<Rightarrow>
                    if cursor_after (rs_info r) = NotPresent then Inl PaginationCursorMetadataMissing
                    else cursor_loop send request (cursor # observed) (pages + 1) (next_cursor r)
                      (combined\<lparr>rs_etag := rs_etag r, rs_ray := rs_ray r, rs_info := rs_info r\<rparr>) (items @ page_items))))"
  unfolding next_cursor_def by (subst cursor_loop.simps) simp

lemma cursor_loop_reads:
  assumes "cursor_loop send request observed pages next combined items = Inr (Inr (final, all, n))" "pages \<le> 1000"
  shows "\<exists>rs. cursor_chain send request pages next rs \<and> all = items @ chain_items rs \<and> n = pages + length rs \<and> n \<le> 1000 \<and>
    distinct (map fst rs) \<and> set (map fst rs) \<inter> set observed = {}"
  using assms
proof (induction send request observed pages "next" combined items rule: cursor_loop.induct)
  case (1 send request observed pages "next" combined items)
  show ?case
  proof (cases "next")
    case None
    with "1.prems" show ?thesis by (intro exI [of _ "[]"]) (simp add: chain_items_def)
  next
    case (Some c)
    obtain r its where step: "\<not> 1000 \<le> pages" "c \<notin> set observed" "send pages (set_query_parameter ''cursor'' c request) = Inr r" "rs_success r"
      "json_as_array (rs_result r) = Some its" "cursor_after (rs_info r) \<noteq> NotPresent"
      using "1.prems"(1) Some by (auto split: if_splits sum.splits option.splits)
    have rest: "cursor_loop send request (c # observed) (pages + 1) (next_cursor r)
        (combined\<lparr>rs_etag := rs_etag r, rs_ray := rs_ray r, rs_info := rs_info r\<rparr>) (items @ its) = Inr (Inr (final, all, n))"
      using "1.prems"(1) Some step by (simp)
    obtain rs where rs: "cursor_chain send request (pages + 1) (next_cursor r) rs" "all = (items @ its) @ chain_items rs"
      "n = pages + 1 + length rs" "n \<le> 1000" "distinct (map fst rs)" "set (map fst rs) \<inter> set (c # observed) = {}"
      using "1.IH" [OF Some step(1,2,3) _ step(5,6)] step rest unfolding next_cursor_def by auto
    then show ?thesis using Some step by (intro exI [of _ "(c, r) # rs"]) (auto simp: chain_items_def)
  qed
qed

lemma cursor_loop_fails:
  assumes "cursor_loop send request observed pages next combined items = Inr (Inl r)"
  shows "\<not> rs_success r"
proof (rule ccontr)
  assume "\<not> \<not> rs_success r"
  with assms show False
  proof (induction send request observed pages "next" combined items rule: cursor_loop.induct)
    case (1 send request observed pages "next" combined items)
    then obtain c where c: "next = Some c" by (cases "next") simp_all
    obtain x its where step: "\<not> 1000 \<le> pages" "c \<notin> set observed" "send pages (set_query_parameter ''cursor'' c request) = Inr x" "rs_success x"
      "json_as_array (rs_result x) = Some its" "cursor_after (rs_info x) \<noteq> NotPresent"
      using "1.prems" c by (auto split: if_splits sum.splits option.splits)
    with "1.IH" [OF c step(1,2,3) _ step(5,6)] "1.prems" c show ?case by (simp add: next_cursor_def)
  qed
qed

text \<open>
  C24. A completed read of cursors follows the provider's chain to its end: each cursor is the one the
  previous response named, no cursor is sent twice, at most a thousand requests are made, the last
  response names no further cursor, and the items are those of all responses in order.
\<close>

theorem cursor_read_complete:
  assumes "rs_success first" "cursor_after (rs_info first) \<noteq> NotPresent" "json_as_array (rs_result first) = Some items"
    and "complete_cursors send request first = Inr r" "rs_success r"
  shows "\<exists>rs. cursor_chain send request 1 (next_cursor first) rs \<and> rs_result r = JArray (items @ chain_items rs) \<and>
    distinct (map fst rs) \<and> length rs < 1000"
proof -
  let ?loop = "cursor_loop send request [] 1 (next_cursor first) first items"
  obtain outcome where loop: "?loop = Inr outcome"
    using assms by (cases ?loop) (auto simp: complete_cursors_def next_cursor_def)
  obtain final all n where out: "outcome = Inr (final, all, n)"
    using assms loop cursor_loop_fails by (cases outcome) (auto simp: complete_cursors_def next_cursor_def)
  have "rs_result r = JArray all"
    using assms loop out by (auto simp: complete_cursors_def next_cursor_def)
  with cursor_loop_reads [OF loop [unfolded out]] show ?thesis by fastforce
qed

section \<open>Witnesses\<close>

definition sample_page :: "nat \<Rightarrow> response" where
  "sample_page n = \<lparr>rs_status = 200, rs_success = True, rs_result = JArray [jnat n], rs_errors = [],
     rs_info = Some (JObject [(''page'', jnat n), (''total_count'', jnat 2), (''total_pages'', jnat 2)]), rs_etag = None, rs_ray = None\<rparr>"

definition sample_request :: request where
  "sample_request = \<lparr>req_method = ''GET'', req_segments = [''zones''], req_query = []\<rparr>"

definition sample_info :: page_info where
  "sample_info = \<lparr>current_page = 1, total_pages = 2, per_page = None, page_count = None, total_count = Some 2\<rparr>"

lemma sample_pagination:
  "page_pagination (rs_info (sample_page n)) = Inr (Some (sample_info\<lparr>current_page := n\<rparr>))" if "n \<in> {1, 2}"
  using that by (auto simp: page_pagination_def sample_page_def sample_info_def optional_pagination_u64_def u64_entry_def number_entry_def
      bt_get_def jnat_def)

theorem page_read_complete_witness:
  "\<exists>r. complete_page_pagination (\<lambda>n _. Inr (sample_page n)) sample_request (sample_page 1) sample_info = Inr r \<and>
     rs_result r = JArray [jnat 1, jnat 2] \<and> collection_pagination_complete True r"
proof -
  let ?send = "\<lambda>n _. Inr (sample_page n)"
  have info: "page_pagination (rs_info (sample_page 1)) = Inr (Some sample_info)" "page_pagination (rs_info (sample_page 2)) = Inr (Some (sample_info\<lparr>current_page := 2\<rparr>))"
    using sample_pagination [of 1] sample_pagination [of 2] by (simp_all add: sample_info_def)
  have shape: "rs_success (sample_page n)" "json_as_array (rs_result (sample_page n)) = Some [jnat n]" "rep_json (the (rs_info (sample_page n))) = (n < 2 ^ 64)" for n
    by (simp_all add: sample_page_def bt_invar_def jnat_def)
  have "\<exists>r. complete_page_pagination ?send sample_request (sample_page 1) sample_info = Inr r \<and> rs_success r"
    using info shape by (simp add: complete_page_pagination_def complete_pages_def validate_item_count_def sample_info_def upt_rec numeral_2_eq_2)
  then obtain r where r: "complete_page_pagination ?send sample_request (sample_page 1) sample_info = Inr r" "rs_success r" by blast
  obtain rs where rs: "list_all2 (page_answers ?send sample_request sample_info) [current_page sample_info + 1 ..< total_pages sample_info + 1] rs"
    "rs_result r = JArray (concat (map (\<lambda>r. the (json_as_array (rs_result r))) (sample_page 1 # rs)))" "collection_pagination_complete True r"
    using page_read_complete [OF info(1) shape(1) _ r] shape(3) [of 1] by auto
  have "rs = [sample_page 2]"
    using rs(1) by (auto simp: sample_info_def upt_rec list_all2_Cons1 page_answers_def numeral_2_eq_2)
  with rs(2,3) r(1) shape(2) show ?thesis by auto
qed

definition sample_cursor :: "nat \<Rightarrow> response" where
  "sample_cursor n = (sample_page n)\<lparr>rs_info := Some (JObject [(''cursors'', JObject (if n = 0 then [(''after'', JString ''c'')] else []))])\<rparr>"

theorem cursor_read_complete_witness:
  "\<exists>r. complete_cursors (\<lambda>n _. Inr (sample_cursor n)) sample_request (sample_cursor 0) = Inr r \<and>
     rs_result r = JArray [jnat 0, jnat 1]"
proof -
  let ?send = "\<lambda>n _. Inr (sample_cursor n)"
  have shape: "rs_success (sample_cursor n)" "json_as_array (rs_result (sample_cursor n)) = Some [jnat n]"
    "cursor_after (rs_info (sample_cursor n)) = (if n = 0 then Next ''c'' else Complete)" for n
    by (simp_all add: sample_cursor_def sample_page_def cursor_after_def object_entry_def bt_get_def)
  have "\<exists>r. complete_cursors ?send sample_request (sample_cursor 0) = Inr r \<and> rs_success r"
    using shape by (simp add: complete_cursors_def next_cursor_def)
  then obtain r where r: "complete_cursors ?send sample_request (sample_cursor 0) = Inr r" "rs_success r" by blast
  obtain rs where rs: "cursor_chain ?send sample_request 1 (next_cursor (sample_cursor 0)) rs" "rs_result r = JArray ([jnat 0] @ chain_items rs)"
    using cursor_read_complete [OF shape(1) _ shape(2) r] shape(3) [of 0] by auto
  have "rs = [(''c'', sample_cursor 1)]"
    using rs(1) shape(3) by (cases rs; cases "tl rs") (auto simp: next_cursor_def)
  with rs(2) r(1) shape(2) show ?thesis by (auto simp: chain_items_def)
qed

end
