(* ===== verification/Plan_Set.thy ===== *)
theory Plan_Set
  imports Plan_V2
begin

text \<open>
  Deployment plan sets (\<^verbatim>\<open>DeploymentPlanSetV1\<close> in \<^verbatim>\<open>crates/cfctl-core/src/lib.rs\<close>): the immutable review
  receipt of an ordered set of child plans. A set carries no authority; what it promises is coherence:
  children in dependency order, one expiry, one view of the provider.
\<close>

section \<open>Documents\<close>

record plan_set_repository =
  repository_id :: string
  root_sha256 :: string
  origin_identity :: string
  repo_head :: string
  repo_tree :: string

record plan_set_child =
  sequence :: nat
  child_operation_id :: string
  plan_content_hash :: string
  pins_hash :: string
  child_capability_id :: string
  child_account_id :: string
  zone_ids :: "string list"
  child_expires_at :: datetime
  initial_status :: plan_status
  depends_on :: "string list"
  child_resources :: "string list"
  child_permissions :: "string list"
  child_risk :: risk_class
  child_effect :: effect_class
  child_cost :: cost
  child_warnings :: "string list"
  child_rollback :: rollback_spec
  child_compensation :: "string list"
  child_snapshots :: "(string, string) btree"

record plan_set =
  ps_schema_version :: nat
  ps_id :: string
  ps_name :: string
  ps_created_at :: datetime
  ps_expires_at :: datetime
  source_spec_sha256 :: string
  ps_profile_id :: string
  account_ids :: "string list"
  ps_build_hash :: string
  ps_catalog_hash :: string
  ps_credential_generation :: string
  ps_policy_hash :: string
  ps_graph_hash :: string
  repositories :: "plan_set_repository list"
  children :: "plan_set_child list"
  snapshots :: "(string, string) btree"
  exclusions :: "string list"
  ps_content_hash :: string

section \<open>Checks\<close>

definition is_lower_hex :: "char \<Rightarrow> bool" where
  "is_lower_hex c \<longleftrightarrow> is_ascii_hexdigit c \<and> \<not> is_ascii_uppercase c"

definition valid_sha256_identity :: "string \<Rightarrow> bool" where
  "valid_sha256_identity s \<longleftrightarrow>
     (case strip_prefix s ''sha256:'' of None \<Rightarrow> False | Some digest \<Rightarrow> length digest = 64 \<and> list_all is_lower_hex digest)"

definition valid_policy_identity :: "string \<Rightarrow> bool" where
  "valid_policy_identity s \<longleftrightarrow>
     list_ex (\<lambda>prefix. case strip_prefix s prefix of None \<Rightarrow> False | Some rest \<Rightarrow> valid_sha256_identity rest) [''bundle:'', ''compiled:'']"

definition valid_git_object_id :: "string \<Rightarrow> bool" where
  "valid_git_object_id s \<longleftrightarrow> (length s = 40 \<or> length s = 64) \<and> list_all is_lower_hex s"

fun increasing :: "string list \<Rightarrow> bool" where
  "increasing (a # b # s) \<longleftrightarrow> a < b \<and> increasing (b # s)"
| "increasing _ \<longleftrightarrow> True"

definition sorted_unique_nonempty_values :: "string list \<Rightarrow> bool" where
  "sorted_unique_nonempty_values vs \<longleftrightarrow> list_all (\<lambda>v. \<not> trim_is_empty v) vs \<and> increasing vs"

definition rollback_spec_is_explicit :: "rollback_spec \<Rightarrow> bool" where
  "rollback_spec_is_explicit r \<longleftrightarrow>
     (if supported r then (case rb_strategy r of None \<Rightarrow> False | Some s \<Rightarrow> \<not> trim_is_empty s)
      else rb_strategy r = None \<and> (case warning r of None \<Rightarrow> False | Some s \<Rightarrow> \<not> trim_is_empty s))"

fun insert_snapshots :: "(string \<times> string) list \<Rightarrow> (string, string) btree \<Rightarrow> core_error + (string, string) btree" where
  "insert_snapshots [] merged = Inr merged"
| "insert_snapshots ((k, v) # rest) merged =
     (if bt_get merged k \<noteq> None \<and> bt_get merged k \<noteq> Some v
      then Inl (InvalidDeploymentPlanSet (''provider snapshot `'' @ k @ ''` disagrees across child plans''))
      else insert_snapshots rest (bt_insert k v merged))"

fun provider_hashes_from :: "plan_set_child list \<Rightarrow> (string, string) btree \<Rightarrow> core_error + (string, string) btree" where
  "provider_hashes_from [] merged = Inr merged"
| "provider_hashes_from (c # cs) merged = res_bind (insert_snapshots (child_snapshots c) merged) (provider_hashes_from cs)"

definition deployment_plan_set_provider_hashes :: "plan_set_child list \<Rightarrow> core_error + (string, string) btree" where
  "deployment_plan_set_provider_hashes cs = provider_hashes_from cs []"

definition invalid_set :: "string \<Rightarrow> core_error" where
  "invalid_set reason = InvalidDeploymentPlanSet reason"

text \<open>
  The identities \<^verbatim>\<open>Uuid\<close> prints back unchanged are a parameter, and so is the derived serialisation
  of the document.
\<close>

definition child_malformed :: "(string \<Rightarrow> bool) \<Rightarrow> plan_set \<Rightarrow> string list \<Rightarrow> nat \<Rightarrow> plan_set_child \<Rightarrow> bool" where
  "child_malformed canonical_uuid ps prior expected_sequence c \<longleftrightarrow>
     sequence c \<noteq> expected_sequence \<or> \<not> canonical_uuid (child_operation_id c) \<or>
     \<not> valid_sha256_identity (plan_content_hash c) \<or> \<not> valid_sha256_identity (pins_hash c) \<or>
     trim_is_empty (child_capability_id c) \<or> trim_is_empty (child_account_id c) \<or>
     child_account_id c \<notin> set (account_ids ps) \<or> child_expires_at c < ps_expires_at ps \<or>
     initial_status c \<noteq> Draft \<or> child_risk c = Risk_Unknown \<or> child_effect c = Effect_Unknown \<or>
     \<not> known (child_cost c) \<or> child_permissions c = [] \<or>
     \<not> sorted_unique_nonempty_values (child_permissions c) \<or> \<not> sorted_unique_nonempty_values (zone_ids c) \<or>
     \<not> sorted_unique_nonempty_values (child_resources c) \<or> \<not> sorted_unique_nonempty_values (child_warnings c) \<or>
     \<not> sorted_unique_nonempty_values (depends_on c) \<or> list_ex (\<lambda>d. d \<notin> set prior) (depends_on c) \<or>
     \<not> rollback_spec_is_explicit (child_rollback c) \<or>
     list_ex (\<lambda>(k, v). trim_is_empty k \<or> \<not> valid_sha256_identity v) (child_snapshots c)"

fun check_children :: "(string \<Rightarrow> bool) \<Rightarrow> plan_set \<Rightarrow> string list \<Rightarrow> nat \<Rightarrow> plan_set_child list \<Rightarrow> core_error + unit" where
  "check_children canonical_uuid ps prior index [] = Inr ()"
| "check_children canonical_uuid ps prior index (c # cs) =
     (if 2 ^ 32 \<le> int index + 1 then Inl (invalid_set ''child sequence exceeds supported range'')
      else if child_malformed canonical_uuid ps prior (index + 1) c
      then Inl (invalid_set ''a child plan, dependency, target, cost, permission, or rollback pin is malformed'')
      else if child_operation_id c \<in> set prior then Inl (invalid_set ''child operation IDs must be unique'')
      else check_children canonical_uuid ps (child_operation_id c # prior) (index + 1) cs)"

definition identity_malformed :: "(string \<Rightarrow> bool) \<Rightarrow> plan_set \<Rightarrow> bool" where
  "identity_malformed canonical_uuid ps \<longleftrightarrow>
     ps_schema_version ps \<noteq> 1 \<or> \<not> canonical_uuid (ps_id ps) \<or> trim_is_empty (ps_name ps) \<or> 128 < length (ps_name ps) \<or>
     trim_is_empty (ps_profile_id ps) \<or> trim_is_empty (ps_credential_generation ps) \<or>
     ps_expires_at ps \<le> ps_created_at ps \<or> \<not> valid_sha256_identity (source_spec_sha256 ps) \<or>
     \<not> valid_sha256_identity (ps_build_hash ps) \<or> \<not> valid_sha256_identity (ps_catalog_hash ps) \<or>
     \<not> valid_policy_identity (ps_policy_hash ps) \<or> \<not> valid_sha256_identity (ps_graph_hash ps)"

definition lists_malformed :: "plan_set \<Rightarrow> bool" where
  "lists_malformed ps \<longleftrightarrow>
     account_ids ps = [] \<or> \<not> sorted_unique_nonempty_values (account_ids ps) \<or> repositories ps = [] \<or> children ps = [] \<or>
     exclusions ps = [] \<or> \<not> sorted_unique_nonempty_values (exclusions ps)"

definition repositories_malformed :: "plan_set \<Rightarrow> bool" where
  "repositories_malformed ps \<longleftrightarrow>
     \<not> sorted_unique_nonempty_values (map repository_id (repositories ps)) \<or>
     list_ex (\<lambda>r. \<not> valid_sha256_identity (root_sha256 r) \<or> trim_is_empty (origin_identity r) \<or>
       \<not> valid_git_object_id (repo_head r) \<or> \<not> valid_git_object_id (repo_tree r)) (repositories ps)"

definition earliest_expiry :: "plan_set_child list \<Rightarrow> datetime option" where
  "earliest_expiry cs = (case map child_expires_at cs of [] \<Rightarrow> None | t # ts \<Rightarrow> Some (fold min ts t))"

definition set_content :: "(plan_set \<Rightarrow> json) \<Rightarrow> plan_set \<Rightarrow> json" where
  "set_content ser ps = ser (ps\<lparr>ps_content_hash := []\<rparr>)"

definition set_refresh_hash :: "env \<Rightarrow> (plan_set \<Rightarrow> json) \<Rightarrow> plan_set \<Rightarrow> plan_set" where
  "set_refresh_hash e ser ps = ps\<lparr>ps_content_hash := hash_value e (set_content ser ps)\<rparr>"

definition set_validate :: "env \<Rightarrow> (plan_set \<Rightarrow> json) \<Rightarrow> (string \<Rightarrow> bool) \<Rightarrow> plan_set \<Rightarrow> core_error + unit" where
  "set_validate e ser canonical_uuid ps =
     (if identity_malformed canonical_uuid ps then Inl (invalid_set ''bundle identity or top-level pins are malformed'')
      else if lists_malformed ps then Inl (invalid_set ''accounts, repositories, children, or exclusions are empty or non-canonical'')
      else if repositories_malformed ps then Inl (invalid_set ''repository pins are malformed or non-canonical'')
      else
        res_bind (check_children canonical_uuid ps [] 0 (children ps)) (\<lambda>_.
        res_bind (ok_or (earliest_expiry (children ps)) (invalid_set ''bundle has no child expiration'')) (\<lambda>expiry.
        res_bind (if ps_expires_at ps \<noteq> expiry then Inr False
          else res_bind (deployment_plan_set_provider_hashes (children ps)) (\<lambda>merged. Inr (snapshots ps = merged))) (\<lambda>coherent.
        res_bind (ensure coherent (invalid_set ''bundle expiration or provider snapshot union drifted from its children'')) (\<lambda>_.
        ensure (ps_content_hash ps = hash_value e (set_content ser ps))
          (invalid_set ''content hash no longer matches the plan set''))))))"

text \<open>The constructor; its argument is the document without the fields that it computes.\<close>

definition set_new :: "env \<Rightarrow> (plan_set \<Rightarrow> json) \<Rightarrow> (string \<Rightarrow> bool) \<Rightarrow> string \<Rightarrow> datetime \<Rightarrow> plan_set \<Rightarrow> core_error + plan_set" where
  "set_new e ser canonical_uuid uuid now pre =
     res_bind (ok_or (earliest_expiry (children pre)) (invalid_set ''at least one child plan is required'')) (\<lambda>expiry.
     res_bind (deployment_plan_set_provider_hashes (children pre)) (\<lambda>merged.
     let ps = set_refresh_hash e ser (pre\<lparr>ps_schema_version := 1, ps_id := uuid, ps_created_at := now,
          ps_expires_at := expiry, snapshots := merged, ps_content_hash := []\<rparr>)
     in res_bind (set_validate e ser canonical_uuid ps) (\<lambda>_. Inr ps)))"

section \<open>Facts\<close>

interpretation ps: hash_bound "hash_value e" "set_content ser" ps_content_hash "\<lambda>h. ps_content_hash_update (\<lambda>_. h)" for e ser
  by unfold_locales (simp_all add: set_content_def)

lemma set_new_fields:
  assumes "set_new e ser canonical_uuid uuid now pre = Inr ps"
  shows "children ps = children pre" "ps_profile_id ps = ps_profile_id pre" "ps_build_hash ps = ps_build_hash pre"
    "ps_catalog_hash ps = ps_catalog_hash pre" "ps_credential_generation ps = ps_credential_generation pre" "ps_id ps = uuid"
    "set_validate e ser canonical_uuid ps = Inr ()"
proof -
  obtain expiry merged where ps: "ps = set_refresh_hash e ser (pre\<lparr>ps_schema_version := 1, ps_id := uuid, ps_created_at := now,
      ps_expires_at := expiry, snapshots := merged, ps_content_hash := []\<rparr>)" and valid: "set_validate e ser canonical_uuid ps = Inr ()"
    using assms unfolding set_new_def Let_def res_bind_Inr_iff sum.inject by (elim exE conjE) (rule that, erule sym, simp)
  show "children ps = children pre" "ps_profile_id ps = ps_profile_id pre" "ps_build_hash ps = ps_build_hash pre"
    "ps_catalog_hash ps = ps_catalog_hash pre" "ps_credential_generation ps = ps_credential_generation pre" "ps_id ps = uuid"
    by (simp_all add: ps set_refresh_hash_def)
  show "set_validate e ser canonical_uuid ps = Inr ()" by (rule valid)
qed

lemma increasing_iff: "increasing vs \<longleftrightarrow> sorted_wrt (<) vs"
  by (induction vs rule: increasing.induct) (auto simp: order.strict_trans)

lemma check_children_ok:
  assumes "check_children canonical_uuid ps prior n cs = Inr ()" "i < length cs"
  shows "\<not> child_malformed canonical_uuid ps (rev (map child_operation_id (take i cs)) @ prior) (n + i + 1) (cs ! i)"
    and "child_operation_id (cs ! i) \<notin> child_operation_id ` set (take i cs) \<union> set prior"
  using assms
proof (induction cs arbitrary: prior n i)
  case (Cons c cs)
  { case 1
    then show ?case using Cons.IH(1) [of "child_operation_id c # prior" "n + 1" "i - 1"] by (cases i) (auto split: if_splits)
  next
    case 2
    then show ?case using Cons.IH(2) [of "child_operation_id c # prior" "n + 1" "i - 1"] by (cases i) (auto split: if_splits) }
qed simp_all

lemma earliest_expiry_min:
  assumes "earliest_expiry cs = Some t"
  shows "(\<forall>c \<in> set cs. t \<le> child_expires_at c) \<and> (\<exists>c \<in> set cs. child_expires_at c = t)"
proof -
  obtain c cs' where cs: "cs = c # cs'" using assms by (cases cs) (simp_all add: earliest_expiry_def)
  then have t: "t = Min (child_expires_at ` set cs)"
    using assms Min.set_eq_fold [of "child_expires_at c" "map child_expires_at cs'"] by (simp add: earliest_expiry_def)
  then have "t \<in> child_expires_at ` set cs" using Min_in [of "child_expires_at ` set cs"] cs by simp
  with t show ?thesis by auto
qed

lemma insert_snapshots_agrees:
  assumes "insert_snapshots kvs m = Inr m'" "bt_invar m"
  shows "bt_invar m' \<and> (\<forall>(k, v) \<in> set kvs. bt_get m' k = Some v) \<and> (\<forall>k v. bt_get m k = Some v \<longrightarrow> bt_get m' k = Some v) \<and>
    (\<forall>k v. bt_get m' k = Some v \<longrightarrow> bt_get m k = Some v \<or> (k, v) \<in> set kvs)"
  using assms
proof (induction kvs arbitrary: m)
  case (Cons x kvs)
  obtain k v where x: "x = (k, v)" by (cases x)
  from Cons.prems x have step: "insert_snapshots kvs (bt_insert k v m) = Inr m'" "bt_get m k = None \<or> bt_get m k = Some v"
    by (auto split: if_splits)
  note ih = Cons.IH [OF step(1) bt_invar_insert [OF Cons.prems(2)]]
  have get: "bt_get (bt_insert k v m) j = (if j = k then Some v else bt_get m j)" for j
    using bt_get_insert [OF Cons.prems(2), of k v] by simp
  have "bt_get m' k = Some v" using ih get by auto
  moreover have "bt_get m j = Some u \<Longrightarrow> bt_get m' j = Some u" for j u using ih get step(2) by (cases "j = k") auto
  moreover have "bt_get m' j = Some u \<Longrightarrow> bt_get m j = Some u \<or> (j, u) \<in> set (x # kvs)" for j u
    using ih get [of j] x by (metis list.set_intros(1) list.set_intros(2) option.inject)
  ultimately show ?case using ih x by auto
qed auto

lemma provider_hashes_from_agree:
  assumes "provider_hashes_from cs m = Inr m'" "bt_invar m"
  shows "bt_invar m' \<and> (\<forall>c \<in> set cs. \<forall>(k, v) \<in> set (child_snapshots c). bt_get m' k = Some v) \<and>
    (\<forall>k v. bt_get m k = Some v \<longrightarrow> bt_get m' k = Some v) \<and>
    (\<forall>k v. bt_get m' k = Some v \<longrightarrow> bt_get m k = Some v \<or> (\<exists>c \<in> set cs. (k, v) \<in> set (child_snapshots c)))"
  using assms
proof (induction cs arbitrary: m)
  case (Cons c cs)
  then obtain m1 where m1: "insert_snapshots (child_snapshots c) m = Inr m1" "provider_hashes_from cs m1 = Inr m'"
    by (auto simp: result_simps)
  note one = insert_snapshots_agrees [OF m1(1) Cons.prems(2)]
  note rest = Cons.IH [OF m1(2) conjunct1 [OF one]]
  have "\<forall>(k, v) \<in> set (child_snapshots c). bt_get m' k = Some v" using one rest by fast
  moreover have "bt_get m' k = Some v \<Longrightarrow> bt_get m k = Some v \<or> (k, v) \<in> set (child_snapshots c) \<or> (\<exists>c \<in> set cs. (k, v) \<in> set (child_snapshots c))" for k v
    using rest one by blast
  ultimately show ?case using rest one by auto
qed simp

text \<open>
  C20. A valid plan set is coherent: its children are numbered in order, each depends only on earlier
  children, so the order of the list respects every dependency and there is no cycle; identities are
  unique; no child was approved or consumed when the set was made; the set expires with its earliest
  child; and what it says of the provider is exactly what its children observed, without contradiction.
\<close>

theorem plan_set_coherent:
  assumes "set_validate e ser canonical_uuid ps = Inr ()"
  shows "children ps \<noteq> [] \<and> distinct (map child_operation_id (children ps)) \<and>
    (\<forall>i < length (children ps).
       sequence (children ps ! i) = i + 1 \<and> initial_status (children ps ! i) = Draft \<and>
       ps_expires_at ps \<le> child_expires_at (children ps ! i) \<and>
       (\<forall>d \<in> set (depends_on (children ps ! i)). \<exists>j < i. child_operation_id (children ps ! j) = d)) \<and>
    (\<exists>c \<in> set (children ps). child_expires_at c = ps_expires_at ps) \<and>
    (\<forall>k v. bt_get (snapshots ps) k = Some v \<longleftrightarrow> (\<exists>c \<in> set (children ps). (k, v) \<in> set (child_snapshots c)))"
proof -
  have ok: "check_children canonical_uuid ps [] 0 (children ps) = Inr ()" "children ps \<noteq> []"
    and expiry: "earliest_expiry (children ps) = Some (ps_expires_at ps)"
    and merged: "deployment_plan_set_provider_hashes (children ps) = Inr (snapshots ps)"
    using assms by (auto simp: set_validate_def lists_malformed_def result_simps split: if_splits)
  note child = check_children_ok [OF ok(1)]
  have "child_operation_id (children ps ! i) \<noteq> child_operation_id (children ps ! j)" if "j < i" "i < length (children ps)" for i j
  proof -
    have "children ps ! j \<in> set (take i (children ps))" using that by (auto simp: in_set_conv_nth intro!: exI [of _ j])
    with child(2) [OF that(2)] show ?thesis by (metis UnI1 imageI)
  qed
  then have d: "distinct (map child_operation_id (children ps))"
    by (auto simp: distinct_conv_nth) (metis linorder_neqE_nat)
  have "\<exists>j < i. child_operation_id (children ps ! j) = d" if "i < length (children ps)" "d \<in> set (depends_on (children ps ! i))" for i d
  proof -
    have "d \<in> child_operation_id ` set (take i (children ps))"
      using child(1) [OF that(1)] that(2) by (auto simp: child_malformed_def list_ex_iff)
    then obtain c where "c \<in> set (take i (children ps))" "child_operation_id c = d" by auto
    then show ?thesis using that(1) by (auto simp: in_set_conv_nth)
  qed
  moreover have "\<forall>k v. bt_get (snapshots ps) k = Some v \<longleftrightarrow> (\<exists>c \<in> set (children ps). (k, v) \<in> set (child_snapshots c))"
    using provider_hashes_from_agree [OF merged [unfolded deployment_plan_set_provider_hashes_def]]
    by (fastforce simp: bt_invar_def bt_get_def)
  ultimately show ?thesis
    using ok(2) d earliest_expiry_min [OF expiry] child(1) by (auto simp: child_malformed_def)
qed

end
