(* ===== verification/Plan_Set_Commands.thy ===== *)
theory Plan_Set_Commands
  imports Plan_Set Plan_Commands
begin

text \<open>
  Storing plan sets (\<^verbatim>\<open>create_deployment_plan_set\<close>, \<^verbatim>\<open>load_deployment_plan_set\<close> in
  \<^verbatim>\<open>crates/cfctl-storage/src/lib.rs\<close>) and the bundle commands over them
  (\<^verbatim>\<open>crates/cfctl-cli/src/runtime/plan_set.rs\<close>): compiling a set from stored child plans, and checking
  later that nothing it pins has moved.
\<close>

section \<open>Storage\<close>

type_synonym set_files = "string \<Rightarrow> plan_set document option"

definition validate_deployment_plan_set_id :: "(string \<Rightarrow> bool) \<Rightarrow> string \<Rightarrow> storage_error + unit" where
  "validate_deployment_plan_set_id u i = ensure (u i) (InvalidDeploymentPlanSetId i)"

definition create_deployment_plan_set ::
    "env \<Rightarrow> (plan_set \<Rightarrow> json) \<Rightarrow> (string \<Rightarrow> bool) \<Rightarrow> write_fault \<Rightarrow> plan_set \<Rightarrow> set_files \<Rightarrow> (storage_error + unit) \<times> set_files" where
  "create_deployment_plan_set e ser u fault ps files =
     (case res_bind (map_err InvalidPlan (set_validate e ser u ps)) (\<lambda>_.
           res_bind (validate_deployment_plan_set_id u (ps_id ps)) (\<lambda>_.
           res_bind (managed_exists (files (ps_id ps))) (\<lambda>present.
           res_bind (ensure (\<not> present) (DeploymentPlanSetAlreadyExists (ps_id ps))) (\<lambda>_.
           ensure (redact_json (ser ps) = ser ps) SensitiveData)))) of
        Inl err \<Rightarrow> (Inl err, files)
      | Inr _ \<Rightarrow>
          (case fault of
             Write_Ok \<Rightarrow> (Inr (), files(ps_id ps \<mapsto> Document ps))
           | Write_Failed \<Rightarrow> (Inl Io, files)
           | Write_Unsynced \<Rightarrow> (Inl WriteDurabilityUnknown, files(ps_id ps \<mapsto> Document ps))))"

definition load_deployment_plan_set :: "env \<Rightarrow> (plan_set \<Rightarrow> json) \<Rightarrow> (string \<Rightarrow> bool) \<Rightarrow> string \<Rightarrow> set_files \<Rightarrow> storage_error + plan_set" where
  "load_deployment_plan_set e ser u i files =
     res_bind (validate_deployment_plan_set_id u i) (\<lambda>_.
     res_bind (managed_exists (files i)) (\<lambda>present.
     res_bind (ensure present (DeploymentPlanSetNotFound i)) (\<lambda>_.
     res_bind (read_document (files i)) (\<lambda>ps.
     res_bind (ensure (ps_id ps = i) (ManagedDocumentIdentityMismatch ''deployment plan set'' i (ps_id ps))) (\<lambda>_.
     res_bind (map_err InvalidPlan (set_validate e ser u ps)) (\<lambda>_. Inr ps))))))"

section \<open>Aggregated pins\<close>

definition sort_dedup :: "string list \<Rightarrow> string list" where
  "sort_dedup xs = remdups_adj (sort xs)"

definition canonical_pin_set :: "string list \<Rightarrow> string \<Rightarrow> cli_error + string list" where
  "canonical_pin_set hashes label =
     (if hashes = [] \<or> list_ex trim_is_empty hashes
      then Inl (Cli_Input (''deployment plan-set '' @ label @ '' pins must be non-empty''))
      else Inr (sort_dedup hashes))"

definition aggregate_admission_policy_hash :: "env \<Rightarrow> string list \<Rightarrow> cli_error + string" where
  "aggregate_admission_policy_hash e hashes =
     res_bind (canonical_pin_set hashes ''admission policy'') (\<lambda>canonical.
     if length canonical = 1 then Inr (canonical ! 0)
     else if list_all (\<lambda>h. starts_with h ''compiled:'') canonical
     then Inr (''compiled:'' @ hash_value e (jobj [(''child_admission_policy_hashes'', jlist JString canonical)]))
     else Inl (Cli_Input ''deployment plan-set children disagree on the active admission policy bundle''))"

definition aggregate_sha256_pins :: "env \<Rightarrow> string \<Rightarrow> string list \<Rightarrow> cli_error + string" where
  "aggregate_sha256_pins e label hashes =
     res_bind (canonical_pin_set hashes label) (\<lambda>canonical.
     Inr (if length canonical = 1 then canonical ! 0
          else hash_value e (jobj [(''pin_scope'', JString label), (''hashes'', jlist JString canonical)])))"

definition graph_scope :: string where
  "graph_scope = ''child_workspace_graph_hashes''"

definition validate_child_aggregate_pins :: "env \<Rightarrow> plan_set \<Rightarrow> string list \<Rightarrow> string list \<Rightarrow> cli_error + unit" where
  "validate_child_aggregate_pins e ps policies graphs =
     res_bind (aggregate_admission_policy_hash e policies) (\<lambda>policy.
     if policy = ps_policy_hash ps then
       res_bind (aggregate_sha256_pins e graph_scope graphs) (\<lambda>graph.
       ensure (graph = ps_graph_hash ps) (Cli_Guided ''CFCTL_PLAN_SET_CHILD_DRIFT''))
     else Inl (Cli_Guided ''CFCTL_PLAN_SET_CHILD_DRIFT''))"

definition validate_plan_set_policy_presence :: "env \<Rightarrow> (string \<Rightarrow> bool) \<Rightarrow> plan_set \<Rightarrow> disk \<Rightarrow> cli_error + unit" where
  "validate_plan_set_policy_presence e u ps d =
     res_bind (map_err Cli_Storage (active_admission_policy e u d)) (\<lambda>active.
     let current = map_option (\<lambda>b. ''bundle:'' @ b_content_hash b) active
     in if starts_with (ps_policy_hash ps) ''bundle:'' \<and> current \<noteq> Some (ps_policy_hash ps)
        then Inl (Cli_Guided ''CFCTL_PLAN_SET_POLICY_DRIFT'')
        else ensure (\<not> (starts_with (ps_policy_hash ps) ''compiled:'' \<and> current \<noteq> None)) (Cli_Guided ''CFCTL_PLAN_SET_POLICY_DRIFT''))"

section \<open>Compiling a child\<close>

definition worker_deployment_snapshot_key :: "env \<Rightarrow> string \<Rightarrow> string \<Rightarrow> string" where
  "worker_deployment_snapshot_key e account service =
     ''worker_deployment_state:'' @ hash_value e (jobj [(''account_id'', JString account), (''service_name'', JString service)])"

definition service_target :: "json \<Rightarrow> string option" where
  "service_target tgts =
     Option.bind (json_get tgts ''adapter'') (\<lambda>adapter.
     Option.bind (json_get adapter ''worker_deployment'') (\<lambda>deployment.
     Option.bind (json_get deployment ''service_name'') json_as_str))"

definition bt_remove :: "string \<Rightarrow> (string, 'v) btree \<Rightarrow> (string, 'v) btree" where
  "bt_remove k m = filter (\<lambda>(j, _). j \<noteq> k) m"

definition target_scoped_provider_snapshot_hashes ::
    "env \<Rightarrow> string \<Rightarrow> json \<Rightarrow> (string, string) btree \<Rightarrow> cli_error + (string, string) btree" where
  "target_scoped_provider_snapshot_hashes e account tgts observed =
     (case bt_get observed ''worker_deployment_state'' of
        None \<Rightarrow> Inr observed
      | Some worker_state \<Rightarrow>
          (case service_target tgts of
             None \<Rightarrow> Inr observed
           | Some service \<Rightarrow>
               if account = [] \<or> service = []
               then Inl (Cli_Input ''Worker deployment snapshot has an empty account or service target'')
               else
                 (let projected = bt_remove ''worker_deployment_state'' observed;
                      scoped_key = worker_deployment_snapshot_key e account service
                  in if bt_get projected scoped_key \<noteq> None
                     then Inl (Cli_Input (''Worker deployment snapshot collides with target-scoped key `'' @ scoped_key @ ''`''))
                     else Inr (bt_insert scoped_key worker_state projected))))"

text \<open>
  The derived reader of \<^verbatim>\<open>CallInput\<close> is a parameter: the selectors of a stored input, or the error of
  an input that does not parse.
\<close>

type_synonym input_reader = "json \<Rightarrow> cli_error + json"

definition compile_child :: "env \<Rightarrow> input_reader \<Rightarrow> nat \<Rightarrow> plan_v2 \<Rightarrow> string list \<Rightarrow> cli_error + plan_set_child" where
  "compile_child e read_input seq q deps =
     (let p = v2_plan q; cap = p_capability p in
      res_bind (read_input (p_input p)) (\<lambda>chosen.
      res_bind (target_scoped_provider_snapshot_hashes e (p_account_id p) (targets p) (resource_observation_hashes (pins q))) (\<lambda>hashes.
      Inr \<lparr>sequence = seq, child_operation_id = operation_id p, plan_content_hash = content_hash p,
        pins_hash = hash_value e (pins_json (pins q)), child_capability_id = cap_id cap, child_account_id = p_account_id p,
        zone_ids = (case Option.bind (json_get chosen ''zone_id'') json_as_str of None \<Rightarrow> [] | Some z \<Rightarrow> [z]),
        child_expires_at = p_expires_at p, initial_status = status p, depends_on = sort_dedup deps,
        child_resources = sort_dedup (affected_resources p), child_permissions = sort_dedup (permissions cap),
        child_risk = risk cap, child_effect = effect cap, child_cost = cost cap,
        child_warnings = sort_dedup (non_reversible_warnings p @ (case warning (rollback cap) of None \<Rightarrow> [] | Some x \<Rightarrow> [x])),
        child_rollback = rollback cap, child_compensation = compensation_steps p, child_snapshots = hashes\<rparr>)))"

definition load_initial_child :: "env \<Rightarrow> (string \<Rightarrow> bool) \<Rightarrow> datetime \<Rightarrow> string \<Rightarrow> disk \<Rightarrow> cli_error + plan_v2" where
  "load_initial_child e u now i d =
     res_bind (map_err Cli_Storage (load_plan_v2 e u i d)) (\<lambda>q.
     res_bind (map_err Cli_Core (v2_validate e q)) (\<lambda>_.
     if status (v2_plan q) \<noteq> Draft \<or> p_approval (v2_plan q) \<noteq> None \<or> cancelled_at (v2_plan q) \<noteq> None \<or> p_expires_at (v2_plan q) < now
     then Inl (Cli_Input (''child plan `'' @ i @ ''` must be unexpired, draft, unapproved, and unconsumed when the bundle is compiled''))
     else Inr q))"

record shared_pins =
  sp_profile :: string
  sp_build :: string
  sp_catalog :: string
  sp_credential :: string

definition shared_pins_from_plan :: "plan_v2 \<Rightarrow> cli_error + shared_pins" where
  "shared_pins_from_plan q =
     (if authority_hash (pins q) \<noteq> None then Inl (Cli_Input ''deployment plan-set children cannot carry standing authority'')
      else Inr \<lparr>sp_profile = profile_id (v2_plan q), sp_build = build_identity_hash (pins q), sp_catalog = pin_catalog_hash (pins q),
        sp_credential = credential_generation_id (pins q)\<rparr>)"

section \<open>Creating a set\<close>

text \<open>
  The session belongs to the profile of a plan; one catalog is loaded for the whole command. The
  loop over the children carries the shared pins, the plans so far and the children so far.
\<close>

fun compile_children :: "env \<Rightarrow> (string \<Rightarrow> bool) \<Rightarrow> input_reader \<Rightarrow> (string \<Rightarrow> cli_error + session) \<Rightarrow> datetime \<Rightarrow> string \<Rightarrow> disk
    \<Rightarrow> (string \<times> string list) list \<Rightarrow> nat \<Rightarrow> shared_pins option \<Rightarrow> cli_error + shared_pins option \<times> plan_v2 list \<times> plan_set_child list" where
  "compile_children e u read_input profile now catalog d [] index shared = Inr (shared, [], [])"
| "compile_children e u read_input profile now catalog d ((i, deps) # specs) index shared =
     res_bind (load_initial_child e u now i d) (\<lambda>q.
     res_bind (profile (profile_id (v2_plan q))) (\<lambda>s.
     res_bind (validate_plan_v2_runtime_pins e u s now (v2_plan q) d) (\<lambda>_.
     res_bind (session_preconditions s (v2_plan q)) (\<lambda>_.
     res_bind (ensure (catalog_hash (v2_plan q) = catalog) (Cli_Input (''child plan `'' @ operation_id (v2_plan q) @
       ''` no longer matches the current catalog; create a new child plan''))) (\<lambda>_.
     res_bind (shared_pins_from_plan q) (\<lambda>current.
     res_bind (ensure (shared = None \<or> shared = Some current) (Cli_Input
       ''all deployment plan-set children must share one profile, build, catalog, and credential generation'')) (\<lambda>_.
     res_bind (ensure (int index + 1 < 2 ^ 32) (Cli_Input ''too many child plans'')) (\<lambda>_.
     res_bind (compile_child e read_input (index + 1) q deps) (\<lambda>c.
     res_bind (compile_children e u read_input profile now catalog d specs (index + 1) (Some current)) (\<lambda>(final, qs, cs).
     Inr (final, q # qs, c # cs)))))))))))"

record set_spec =
  spec_schema_version :: nat
  spec_name :: string
  spec_repositories :: "string list"
  spec_children :: "(string \<times> string list) list"
  spec_exclusions :: "string list"

definition validate_spec_shape :: "set_spec \<Rightarrow> cli_error + unit" where
  "validate_spec_shape s =
     (if spec_schema_version s \<noteq> 1 \<or> trim_is_empty (spec_name s) \<or> 128 < length (spec_name s) \<or> spec_repositories s = [] \<or>
         spec_children s = [] \<or> spec_exclusions s = [] \<or> 32 < length (spec_repositories s) \<or> 256 < length (spec_children s) \<or>
         64 < length (spec_exclusions s) \<or> list_ex (\<lambda>x. trim_is_empty x \<or> 256 < length x) (spec_exclusions s)
      then Inl (Cli_Input ''deployment plan-set source has an unsupported schema, empty required set, or exceeds bounded counts'')
      else Inr ())"

text \<open>Git state is a parameter: the repository pins that a root has now.\<close>

definition compile_repositories :: "(string \<Rightarrow> cli_error + plan_set_repository) \<Rightarrow> string list \<Rightarrow> cli_error + plan_set_repository list" where
  "compile_repositories repository roots =
     res_bind (res_map repository roots) (\<lambda>rs.
     let sorted_rs = sort_key repository_id rs
     in if distinct (map repository_id sorted_rs) then Inr sorted_rs
        else Inl (Cli_Input ''plan-set repository identities must be unique''))"

definition compile_plan_set :: "env \<Rightarrow> (plan_set \<Rightarrow> json) \<Rightarrow> (string \<Rightarrow> bool) \<Rightarrow> input_reader \<Rightarrow> (string \<Rightarrow> cli_error + session)
    \<Rightarrow> (string \<Rightarrow> cli_error + plan_set_repository) \<Rightarrow> string \<Rightarrow> string \<Rightarrow> bool \<Rightarrow> string \<Rightarrow> string \<Rightarrow> datetime \<times> datetime
    \<Rightarrow> set_spec \<Rightarrow> disk \<Rightarrow> cli_error + plan_set" where
  "compile_plan_set e ser u read_input profile repository catalog build stale source_hash uuid clock spec d =
     res_bind (validate_spec_shape spec) (\<lambda>_.
     res_bind (ensure (\<not> stale) (Cli_Guided ''CFCTL_PLAN_SET_CATALOG_STALE'')) (\<lambda>_.
     res_bind (compile_repositories repository (spec_repositories spec)) (\<lambda>repos.
     res_bind (compile_children e u read_input profile (fst clock) catalog d (spec_children spec) 0 None) (\<lambda>(found, qs, cs).
     res_bind (ok_or found (Cli_Input ''plan set has no children'')) (\<lambda>shared.
     res_bind (aggregate_admission_policy_hash e (map (\<lambda>q. admission_policy_hash (pins q)) qs)) (\<lambda>policy_hash.
     res_bind (aggregate_sha256_pins e graph_scope (map (\<lambda>q. workspace_graph_hash (pins q)) qs)) (\<lambda>graph_hash.
     res_bind (ensure (build = sp_build shared) (Cli_Input ''the running cfctl build no longer matches the child-plan build pin'')) (\<lambda>_.
     map_err Cli_Core (set_new e ser u uuid (snd clock)
       \<lparr>ps_schema_version = 1, ps_id = uuid, ps_name = spec_name spec, ps_created_at = snd clock, ps_expires_at = 0,
        source_spec_sha256 = source_hash, ps_profile_id = sp_profile shared,
        account_ids = sort_dedup (map (\<lambda>q. p_account_id (v2_plan q)) qs), ps_build_hash = sp_build shared,
        ps_catalog_hash = sp_catalog shared, ps_credential_generation = sp_credential shared, ps_policy_hash = policy_hash,
        ps_graph_hash = graph_hash, repositories = repos, children = cs, snapshots = [],
        exclusions = sort_dedup (spec_exclusions spec), ps_content_hash = []\<rparr>)))))))))"

definition create_plan_set :: "env \<Rightarrow> (plan_set \<Rightarrow> json) \<Rightarrow> (string \<Rightarrow> bool) \<Rightarrow> input_reader \<Rightarrow> (string \<Rightarrow> cli_error + session)
    \<Rightarrow> (string \<Rightarrow> cli_error + plan_set_repository) \<Rightarrow> string \<Rightarrow> string \<Rightarrow> bool \<Rightarrow> string \<Rightarrow> string \<Rightarrow> datetime \<times> datetime \<Rightarrow> write_fault
    \<Rightarrow> set_spec \<Rightarrow> disk \<Rightarrow> set_files \<Rightarrow> (cli_error + plan_set) \<times> set_files" where
  "create_plan_set e ser u read_input profile repository catalog build stale source_hash uuid clock fault spec d files =
     (case compile_plan_set e ser u read_input profile repository catalog build stale source_hash uuid clock spec d of
        Inl err \<Rightarrow> (Inl err, files)
      | Inr ps \<Rightarrow>
          (case create_deployment_plan_set e ser u fault ps files of
             (Inl err, files') \<Rightarrow> (Inl (Cli_Storage err), files')
           | (Inr _, files') \<Rightarrow> (Inr ps, files')))"

section \<open>Verifying a set\<close>

definition validate_current_child :: "env \<Rightarrow> input_reader \<Rightarrow> plan_set \<Rightarrow> plan_set_child \<Rightarrow> plan_v2 \<Rightarrow> cli_error + unit" where
  "validate_current_child e read_input ps c q =
     res_bind (map_err Cli_Core (v2_validate e q)) (\<lambda>_.
     res_bind (compile_child e read_input (sequence c) q (depends_on c)) (\<lambda>current.
     ensure
       (status (v2_plan q) \<in> {Draft, Approved} \<and> content_hash (v2_plan q) = plan_content_hash c \<and>
        hash_value e (pins_json (pins q)) = pins_hash c \<and>
        child_capability_id current = child_capability_id c \<and> child_account_id current = child_account_id c \<and>
        zone_ids current = zone_ids c \<and> child_resources current = child_resources c \<and>
        child_permissions current = child_permissions c \<and> child_risk current = child_risk c \<and>
        child_effect current = child_effect c \<and> child_cost current = child_cost c \<and> child_warnings current = child_warnings c \<and>
        child_rollback current = child_rollback c \<and> child_compensation current = child_compensation c \<and>
        child_snapshots current = child_snapshots c \<and> profile_id (v2_plan q) = ps_profile_id ps \<and>
        build_identity_hash (pins q) = ps_build_hash ps \<and> pin_catalog_hash (pins q) = ps_catalog_hash ps \<and>
        credential_generation_id (pins q) = ps_credential_generation ps)
       (Cli_Guided ''CFCTL_PLAN_SET_CHILD_DRIFT'')))"

definition verify_child :: "env \<Rightarrow> (string \<Rightarrow> bool) \<Rightarrow> input_reader \<Rightarrow> session \<Rightarrow> datetime \<Rightarrow> plan_set \<Rightarrow> disk \<Rightarrow> plan_set_child \<Rightarrow> cli_error + plan_v2" where
  "verify_child e u read_input s now ps d c =
     res_bind (map_err Cli_Storage (load_plan_v2 e u (child_operation_id c) d)) (\<lambda>q.
     res_bind (validate_current_child e read_input ps c q) (\<lambda>_.
     res_bind (validate_plan_v2_runtime_pins e u s now (v2_plan q) d) (\<lambda>_.
     res_bind (session_preconditions s (v2_plan q)) (\<lambda>_. Inr q))))"

text \<open>
  The checks of the verification that use no provider; the live reads of the provider follow them.
\<close>

definition verify_plan_set :: "env \<Rightarrow> (plan_set \<Rightarrow> json) \<Rightarrow> (string \<Rightarrow> bool) \<Rightarrow> input_reader \<Rightarrow> (string \<Rightarrow> cli_error + session)
    \<Rightarrow> (plan_set_repository \<Rightarrow> cli_error + plan_set_repository option) \<Rightarrow> string \<Rightarrow> string \<Rightarrow> datetime \<Rightarrow> string \<Rightarrow> disk \<Rightarrow> set_files
    \<Rightarrow> cli_error + plan_set \<times> plan_v2 list" where
  "verify_plan_set e ser u read_input profile repository catalog build now i d files =
     res_bind (map_err Cli_Storage (load_deployment_plan_set e ser u i files)) (\<lambda>ps.
     res_bind (ensure (now \<le> ps_expires_at ps) (Cli_Guided ''CFCTL_PLAN_SET_EXPIRED'')) (\<lambda>_.
     res_bind (res_each (\<lambda>r. res_bind (repository r) (\<lambda>current.
         ensure (current = Some r) (Cli_Guided ''CFCTL_PLAN_SET_SOURCE_DRIFT''))) (repositories ps)) (\<lambda>_.
     res_bind (ensure (catalog = ps_catalog_hash ps) (Cli_Guided ''CFCTL_PLAN_SET_CATALOG_DRIFT'')) (\<lambda>_.
     res_bind (ensure (build = ps_build_hash ps) (Cli_Guided ''CFCTL_PLAN_SET_BUILD_DRIFT'')) (\<lambda>_.
     res_bind (profile (ps_profile_id ps)) (\<lambda>s.
     res_bind (ensure (session_credential s = Some (ps_credential_generation ps)) (Cli_Guided ''CFCTL_PLAN_SET_CREDENTIAL_DRIFT'')) (\<lambda>_.
     res_bind (validate_plan_set_policy_presence e u ps d) (\<lambda>_.
     res_bind (res_map (verify_child e u read_input s now ps d) (children ps)) (\<lambda>qs.
     res_bind (validate_child_aggregate_pins e ps (map (\<lambda>q. admission_policy_hash (pins q)) qs)
       (map (\<lambda>q. workspace_graph_hash (pins q)) qs)) (\<lambda>_.
     Inr (ps, qs)))))))))))"


section \<open>Facts\<close>

lemma sorted_distinct_adj: "sorted (xs :: string list) \<Longrightarrow> distinct_adj xs \<Longrightarrow> distinct xs"
  by (induction xs rule: induct_list012) (auto simp: order.antisym)

lemma sort_dedup_cong: "set xs = set ys \<Longrightarrow> sort_dedup xs = sort_dedup ys"
proof -
  assume "set xs = set ys"
  then have "set (sort_dedup xs) = set (sort_dedup ys)" by (simp add: sort_dedup_def)
  moreover have "sorted (sort_dedup zs) \<and> distinct (sort_dedup zs)" for zs
    unfolding sort_dedup_def by (simp add: sorted_distinct_adj)
  ultimately show ?thesis by (meson sorted_distinct_set_unique)
qed

text \<open>The aggregated pins do not depend on the order or the repetition of the children's pins.\<close>

lemma canonical_pin_set_cong: "set xs = set ys \<Longrightarrow> canonical_pin_set xs label = canonical_pin_set ys label"
  using sort_dedup_cong [of xs ys] by (auto simp: canonical_pin_set_def list_ex_iff)

lemma aggregate_pins_cong:
  assumes "set xs = set ys"
  shows "aggregate_admission_policy_hash e xs = aggregate_admission_policy_hash e ys"
    "aggregate_sha256_pins e label xs = aggregate_sha256_pins e label ys"
  by (simp_all only: aggregate_admission_policy_hash_def aggregate_sha256_pins_def canonical_pin_set_cong [OF assms])

lemma verify_child_facts:
  assumes "verify_child e u read_input s now ps d c = Inr q"
  shows "load_plan_v2 e u (child_operation_id c) d = Inr q" "v2_validate e q = Inr ()" "status (v2_plan q) \<in> {Draft, Approved}"
    "content_hash (v2_plan q) = plan_content_hash c" "hash_value e (pins_json (pins q)) = pins_hash c"
    "session_preconditions s (v2_plan q) = Inr ()"
  using assms by (auto simp: verify_child_def validate_current_child_def result_simps)

lemma compile_child_facts:
  assumes "compile_child e read_input n q deps = Inr c"
  shows "sequence c = n" "child_operation_id c = operation_id (v2_plan q)" "plan_content_hash c = content_hash (v2_plan q)"
    "pins_hash c = hash_value e (pins_json (pins q))" "initial_status c = status (v2_plan q)" "child_expires_at c = p_expires_at (v2_plan q)"
  using assms by (auto simp: compile_child_def Let_def result_simps)

lemma verify_plan_set_facts:
  assumes "verify_plan_set e ser u read_input profile repository catalog build now i d files = Inr (ps, qs)"
  shows "now \<le> ps_expires_at ps" "load_deployment_plan_set e ser u i files = Inr ps" "catalog = ps_catalog_hash ps" "build = ps_build_hash ps"
    "\<exists>s. profile (ps_profile_id ps) = Inr s \<and> list_all2 (\<lambda>c q. verify_child e u read_input s now ps d c = Inr q) (children ps) qs"
    "\<forall>r \<in> set (repositories ps). repository r = Inr (Some r)"
  using assms unfolding verify_plan_set_def by (auto simp: result_simps)

text \<open>Approving and consuming a plan recompute the hash of its content.\<close>

lemma accepted_hash:
  "fst (approve e t1 t2 t3 yes c p) = Inr () \<Longrightarrow> content_hash p = hash_value e (hashable_content e p)"
  "fst (mark_consumed e t1 t2 p) = Inr () \<Longrightarrow> content_hash p = hash_value e (hashable_content e p)"
  by (auto simp: approve_def mark_consumed_def Let_def split: if_splits sum.splits)


definition reviewed_draft :: "env \<Rightarrow> (string \<Rightarrow> bool) \<Rightarrow> datetime \<Rightarrow> shared_pins \<Rightarrow> disk \<Rightarrow> plan_set_child \<Rightarrow> plan_v2 \<Rightarrow> bool" where
  "reviewed_draft e u now shared d c q \<longleftrightarrow>
     load_plan_v2 e u (child_operation_id c) d = Inr q \<and> status (v2_plan q) = Draft \<and> p_approval (v2_plan q) = None \<and>
     cancelled_at (v2_plan q) = None \<and> now \<le> p_expires_at (v2_plan q) \<and> authority_hash (pins q) = None \<and>
     shared_pins_from_plan q = Inr shared \<and> plan_content_hash c = content_hash (v2_plan q) \<and>
     pins_hash c = hash_value e (pins_json (pins q))"

lemma load_plan_v2_identity: "load_plan_v2 e u i d = Inr q \<Longrightarrow> operation_id (v2_plan q) = i"
  by (auto simp: load_plan_v2_def read_plan_v2_def ensure_plan_identity_def result_simps split: if_splits)

lemma load_initial_child_facts:
  assumes "load_initial_child e u now i d = Inr q"
  shows "load_plan_v2 e u (operation_id (v2_plan q)) d = Inr q" "status (v2_plan q) = Draft" "p_approval (v2_plan q) = None"
    "cancelled_at (v2_plan q) = None" "now \<le> p_expires_at (v2_plan q)"
  using assms load_plan_v2_identity [of e u i d q] by (auto simp: load_initial_child_def result_simps split: if_splits)

lemma compile_children_reviewed:
  assumes "compile_children e u read_input profile now catalog d specs index shared = Inr (final, qs, cs)"
  shows "(\<forall>x. shared = Some x \<longrightarrow> final = Some x) \<and> (specs \<noteq> [] \<longrightarrow> final \<noteq> None) \<and>
    (\<forall>x. final = Some x \<longrightarrow> list_all2 (reviewed_draft e u now x d) cs qs)"
  using assms
proof (induction specs arbitrary: index shared qs cs)
  case (Cons spec specs)
  obtain i deps where spec: "spec = (i, deps)" by (cases spec)
  obtain q current c qs' cs' where q: "load_initial_child e u now i d = Inr q" and current: "shared_pins_from_plan q = Inr current"
    and shared: "shared = None \<or> shared = Some current" and c: "compile_child e read_input (index + 1) q deps = Inr c"
    and rest: "compile_children e u read_input profile now catalog d specs (index + 1) (Some current) = Inr (final, qs', cs')"
    and eqs: "qs = q # qs'" "cs = c # cs'"
    using Cons.prems by (auto simp: spec result_simps)
  note ih = Cons.IH [OF rest]
  then have final: "final = Some current" by blast
  have "authority_hash (pins q) = None" using current by (auto simp: shared_pins_from_plan_def split: if_splits)
  then have "reviewed_draft e u now current d c q"
    using load_initial_child_facts [OF q] compile_child_facts [OF c] current by (simp add: reviewed_draft_def)
  with ih final shared show ?case by (auto simp: eqs)
qed simp

lemma create_deployment_plan_set_Inr:
  "create_deployment_plan_set e ser u fault ps files = (Inr (), files') \<Longrightarrow>
     set_validate e ser u ps = Inr () \<and> u (ps_id ps) \<and> files' = files(ps_id ps \<mapsto> Document ps) \<and> files (ps_id ps) = None"
  by (auto simp: create_deployment_plan_set_def validate_deployment_plan_set_id_def managed_exists_def result_simps
      split: sum.splits write_fault.splits option.splits document.splits)

lemma compile_plan_set_elim:
  assumes "compile_plan_set e ser u read_input profile repository catalog build stale source_hash uuid clock spec d = Inr ps"
  obtains shared qs cs pre where "compile_children e u read_input profile (fst clock) catalog d (spec_children spec) 0 None = Inr (Some shared, qs, cs)"
    and "build = sp_build shared" "set_new e ser u uuid (snd clock) pre = Inr ps"
    and "children pre = cs" "ps_profile_id pre = sp_profile shared" "ps_build_hash pre = sp_build shared"
      "ps_catalog_hash pre = sp_catalog shared" "ps_credential_generation pre = sp_credential shared"
proof -
  obtain found qs cs where c: "compile_children e u read_input profile (fst clock) catalog d (spec_children spec) 0 None = Inr (found, qs, cs)"
  proof (cases "compile_children e u read_input profile (fst clock) catalog d (spec_children spec) 0 None")
    case (Inr r)
    with that show ?thesis by (cases r) auto
  qed (use assms in \<open>simp add: compile_plan_set_def res_bind_Inr_iff\<close>)
  obtain shared where found: "found = Some shared"
    using assms c by (cases found) (simp_all add: compile_plan_set_def res_bind_Inr_iff)
  obtain repos policy_hash graph_hash where "build = sp_build shared"
    and new: "set_new e ser u uuid (snd clock)
       \<lparr>ps_schema_version = 1, ps_id = uuid, ps_name = spec_name spec, ps_created_at = snd clock, ps_expires_at = 0,
        source_spec_sha256 = source_hash, ps_profile_id = sp_profile shared,
        account_ids = sort_dedup (map (\<lambda>q. p_account_id (v2_plan q)) qs), ps_build_hash = sp_build shared,
        ps_catalog_hash = sp_catalog shared, ps_credential_generation = sp_credential shared, ps_policy_hash = policy_hash,
        ps_graph_hash = graph_hash, repositories = repos, children = cs, snapshots = [],
        exclusions = sort_dedup (spec_exclusions spec), ps_content_hash = []\<rparr> = Inr ps"
    using assms by (simp add: compile_plan_set_def c found res_bind_Inr_iff) blast
  with c found show thesis by (intro that [OF _ _ new]) simp_all
qed

text \<open>
  C21. A created plan set can be read back as it was made, replaces no other, and consists of drafts: each of
  its children is a stored plan that is neither approved nor cancelled nor expired, carries no standing
  authority, has the hashes that the set records for it, and shares the one profile, build, catalog and
  credential generation that the set names.
\<close>

theorem created_plan_set_reviews_drafts:
  assumes "create_plan_set e ser u read_input profile repository catalog build stale source_hash uuid clock fault spec d files = (Inr ps, files')"
  shows "load_deployment_plan_set e ser u (ps_id ps) files' = Inr ps \<and> files (ps_id ps) = None \<and> build = ps_build_hash ps \<and>
    (\<exists>qs. list_all2 (reviewed_draft e u (fst clock) \<lparr>sp_profile = ps_profile_id ps, sp_build = ps_build_hash ps,
       sp_catalog = ps_catalog_hash ps, sp_credential = ps_credential_generation ps\<rparr> d) (children ps) qs)"
proof -
  have stored: "create_deployment_plan_set e ser u fault ps files = (Inr (), files')"
    using assms by (auto simp: create_plan_set_def split: sum.splits prod.splits)
  have compiled: "compile_plan_set e ser u read_input profile repository catalog build stale source_hash uuid clock spec d = Inr ps"
    using assms by (auto simp: create_plan_set_def split: sum.splits prod.splits)
  obtain shared qs cs pre where children: "compile_children e u read_input profile (fst clock) catalog d (spec_children spec) 0 None = Inr (Some shared, qs, cs)"
    and build: "build = sp_build shared" and new: "set_new e ser u uuid (snd clock) pre = Inr ps"
    and pre: "children pre = cs" "ps_profile_id pre = sp_profile shared" "ps_build_hash pre = sp_build shared"
      "ps_catalog_hash pre = sp_catalog shared" "ps_credential_generation pre = sp_credential shared"
    by (rule compile_plan_set_elim [OF compiled])
  have ps: "children ps = cs" "ps_profile_id ps = sp_profile shared" "ps_build_hash ps = sp_build shared"
      "ps_catalog_hash ps = sp_catalog shared" "ps_credential_generation ps = sp_credential shared"
    using set_new_fields [OF new] pre by simp_all
  have shared: "\<lparr>sp_profile = ps_profile_id ps, sp_build = ps_build_hash ps, sp_catalog = ps_catalog_hash ps, sp_credential = ps_credential_generation ps\<rparr> = shared"
    using ps by simp
  have "list_all2 (reviewed_draft e u (fst clock) shared d) (children ps) qs"
    using compile_children_reviewed [OF children] ps(1) by simp
  moreover have "load_deployment_plan_set e ser u (ps_id ps) files' = Inr ps" "files (ps_id ps) = None"
    using create_deployment_plan_set_Inr [OF stored]
    by (auto simp: load_deployment_plan_set_def validate_deployment_plan_set_id_def managed_exists_def read_document_def)
  ultimately show ?thesis unfolding shared using build ps(3) by auto
qed


section \<open>A concrete set\<close>

definition zero_digest :: string where
  "zero_digest = replicate 64 (CHR ''0'')"

definition set_env :: env where
  "set_env = \<lparr>to_vec = \<lambda>_. [], sha256_hex = \<lambda>_. zero_digest, rfc3339 = \<lambda>_. [], capability_value = \<lambda>_. JNull\<rparr>"

definition set_capability :: capability where
  "set_capability = (capability_new ''dns-create'' ''Create a record'' ''POST'' ''/zones/{zone_id}/dns_records'')
     \<lparr>permissions := [''DNS Write''], risk := Risk_Read, effect := Effect_ReadOnly, cost := cost_default\<rparr>"

definition set_plan :: "string \<Rightarrow> plan" where
  "set_plan i = \<lparr>p_schema_version = 1, operation_id = i, p_created_at = 0, p_expires_at = 100, profile_id = ''default'',
     p_account_id = ''acct'', catalog_hash = ''sha256:'' @ zero_digest, permission_lane = [], precondition_hashes = [],
     p_capability = set_capability, targets = JNull, p_input = JObject [], affected_repositories = [], affected_resources = [],
     local_diffs = [], cloudflare_diffs = [], verification_steps = [], compensation_steps = [], non_reversible_warnings = [],
     policy = \<lparr>pd_schema_version = 1, pd_disposition = AutoExecute, pd_reasons = [], pd_requires_cost_ceiling = False\<rparr>,
     status = Draft, p_approval = None, cancelled_at = None, content_hash = ''sha256:'' @ zero_digest, p_stage = PlanPrepared,
     journal = [], artifacts = []\<rparr>"

definition set_doc :: "string \<Rightarrow> plan_v2" where
  "set_doc i = \<lparr>v2_schema_version = 2, v2_plan = set_plan i, pins = \<lparr>build_identity_hash = ''sha256:'' @ zero_digest,
     pin_catalog_hash = ''sha256:'' @ zero_digest, credential_generation_id = ''gen'', admission_policy_hash = ''compiled:sha256:'' @ zero_digest,
     authority_hash = None, workspace_graph_hash = ''sha256:'' @ zero_digest, resource_observation_hashes = [], cost_budget = None\<rparr>,
     v2_content_hash = ''sha256:'' @ zero_digest\<rparr>"

definition set_disk :: disk where
  "set_disk = empty_disk\<lparr>plan_v2_file := (\<lambda>i. if i \<in> {''a'', ''b''} then Some (Document (set_doc i)) else None)\<rparr>"

definition set_session :: session where
  "set_session = \<lparr>session_build_hash = ''sha256:'' @ zero_digest, session_credential = Some ''gen'', session_catalog_hash = [],
     session_impact = \<lambda>_. Inr \<lparr>ic_affected_repositories = 0, ic_affected_resources = 0, dependent_configurations = 0,
       has_unmanaged_dependencies = False, has_dirty_overlap = False, selector_ambiguous = False\<rparr>,
     session_tables = \<lparr>verification_table = \<lambda>_ _. False, rollback_table = \<lambda>_ _. False\<rparr>, session_listing = [],
     session_qualified = Inr (), session_collision = \<lambda>_. Inr (), session_preconditions = \<lambda>_. Inr (), session_early = \<lambda>_. Inr (),
     session_late = \<lambda>_. Inr ()\<rparr>"

definition set_repository :: "string \<Rightarrow> plan_set_repository" where
  "set_repository r = \<lparr>repository_id = r, root_sha256 = ''sha256:'' @ zero_digest, origin_identity = r,
     repo_head = replicate 40 (CHR ''0''), repo_tree = replicate 40 (CHR ''0'')\<rparr>"

definition sample_spec :: set_spec where
  "sample_spec = \<lparr>spec_schema_version = 1, spec_name = ''release'', spec_repositories = [''repo''],
     spec_children = [(''a'', []), (''b'', [''a''])], spec_exclusions = [''billing'']\<rparr>"

definition zero_hash :: string where
  "zero_hash = ''sha256:'' @ zero_digest"

lemma set_hash [simp]: "hash_value set_env v = zero_hash" "canonical_hash_value set_env v = zero_hash"
  by (simp_all add: hash_value_def canonical_hash_value_def set_env_def zero_hash_def)

lemma zero_hash_valid: "valid_sha256_identity zero_hash" "valid_policy_identity (''compiled:'' @ zero_hash)"
  "trim_is_empty zero_hash = False" "trim_is_empty (''compiled:'' @ zero_hash) = False" "zero_hash \<noteq> []"
  by code_simp+

lemma set_doc_loads: "i \<in> {''a'', ''b''} \<Longrightarrow> load_plan_v2 set_env (\<lambda>_. True) i set_disk = Inr (set_doc i)"
  using zero_hash_valid(5)
  by (auto simp: load_plan_v2_def has_plan_v2_def validate_plan_id_def managed_exists_def read_plan_v2_def read_document_def
      ensure_plan_identity_def v2_validate_def validate_transaction_journal_def validate_transaction_journal_inner_def
      set_disk_def set_doc_def set_plan_def zero_hash_def)

lemma set_doc_valid: "v2_validate set_env (set_doc i) = Inr ()"
  using zero_hash_valid(5)
  by (simp add: v2_validate_def validate_transaction_journal_def validate_transaction_journal_inner_def set_doc_def set_plan_def zero_hash_def)

lemma set_doc_runtime:
  "i \<in> {''a'', ''b''} \<Longrightarrow> validate_plan_v2_runtime_pins set_env (\<lambda>_. True) set_session now (v2_plan (set_doc i)) set_disk = Inr ()"
proof -
  assume i: "i \<in> {''a'', ''b''}"
  have "load_stored_plan_record set_env (\<lambda>_. True) i set_disk = Inr (Current (set_doc i))"
    using set_doc_loads [OF i] i by (simp add: current_record_iff load_plan_v2_iff) (simp add: set_disk_def empty_disk_def)
  moreover have "active_admission_policy set_env (\<lambda>_. True) set_disk = Inr None" by (simp add: no_policy_iff set_disk_def empty_disk_def)
  ultimately show ?thesis
    by (simp add: validate_plan_v2_runtime_pins_def validate_policy_pin_def validate_authority_pin_def set_session_def set_doc_def set_plan_def zero_hash_def)
qed

definition set_child :: "nat \<Rightarrow> string \<Rightarrow> string list \<Rightarrow> plan_set_child" where
  "set_child n i deps = projr (compile_child set_env (\<lambda>_. Inr JNull) n (set_doc i) deps)"

lemma set_child_compiled: "compile_child set_env (\<lambda>_. Inr JNull) n (set_doc i) deps = Inr (set_child n i deps)"
proof -
  have "\<exists>c. compile_child set_env (\<lambda>_. Inr JNull) n (set_doc i) deps = Inr c"
    by (simp add: compile_child_def target_scoped_provider_snapshot_hashes_def bt_get_def set_doc_def Let_def)
  then show ?thesis by (auto simp: set_child_def)
qed

lemma set_doc_initial: "i \<in> {''a'', ''b''} \<Longrightarrow> load_initial_child set_env (\<lambda>_. True) 1 i set_disk = Inr (set_doc i)"
  using set_doc_loads [of i] set_doc_valid [of i] by (simp add: load_initial_child_def) (simp add: set_doc_def set_plan_def)

abbreviation set_shared :: shared_pins where
  "set_shared \<equiv> \<lparr>sp_profile = ''default'', sp_build = zero_hash, sp_catalog = zero_hash, sp_credential = ''gen''\<rparr>"

lemma sample_children:
  "compile_children set_env (\<lambda>_. True) (\<lambda>_. Inr JNull) (\<lambda>_. Inr set_session) 1 zero_hash set_disk (spec_children sample_spec) 0 None =
     Inr (Some set_shared, [set_doc ''a'', set_doc ''b''], [set_child 1 ''a'' [], set_child 2 ''b'' [''a'']])"
proof -
  have p: "catalog_hash (v2_plan (set_doc i)) = zero_hash" "shared_pins_from_plan (set_doc i) = Inr set_shared" for i
    by (simp_all add: set_doc_def set_plan_def shared_pins_from_plan_def zero_hash_def)
  have s: "session_preconditions set_session q = Inr ()" for q by (simp add: set_session_def)
  show ?thesis
    using set_doc_initial [of "''a''"] set_doc_initial [of "''b''"] set_doc_runtime [of "''a''"] set_doc_runtime [of "''b''"]
    by (simp add: sample_spec_def p s set_child_compiled numeral_2_eq_2)
qed

definition sample_set :: plan_set where
  "sample_set = set_refresh_hash set_env (\<lambda>_. JNull)
     \<lparr>ps_schema_version = 1, ps_id = ''set-1'', ps_name = ''release'', ps_created_at = 2, ps_expires_at = 100,
      source_spec_sha256 = zero_hash, ps_profile_id = ''default'', account_ids = [''acct''], ps_build_hash = zero_hash,
      ps_catalog_hash = zero_hash, ps_credential_generation = ''gen'', ps_policy_hash = ''compiled:'' @ zero_hash,
      ps_graph_hash = zero_hash, repositories = [set_repository ''repo''], children = [set_child 1 ''a'' [], set_child 2 ''b'' [''a'']],
      snapshots = [], exclusions = [''billing''], ps_content_hash = []\<rparr>"

lemma set_child_fields:
  "set_child n i deps = \<lparr>sequence = n, child_operation_id = i, plan_content_hash = zero_hash, pins_hash = zero_hash,
     child_capability_id = ''dns-create'', child_account_id = ''acct'', zone_ids = [], child_expires_at = 100, initial_status = Draft,
     depends_on = sort_dedup deps, child_resources = [], child_permissions = [''DNS Write''], child_risk = Risk_Read,
     child_effect = Effect_ReadOnly, child_cost = cost_default, child_warnings = [''rollback semantics have not been declared''],
     child_rollback = \<lparr>supported = False, rb_strategy = None, warning = Some ''rollback semantics have not been declared''\<rparr>,
     child_compensation = [], child_snapshots = []\<rparr>"
  by (simp add: set_child_def compile_child_def target_scoped_provider_snapshot_hashes_def bt_get_def set_doc_def set_plan_def
      set_capability_def capability_new_def Let_def sort_dedup_def zero_hash_def to_ascii_uppercase_def ascii_upper_def ascii_defs)

lemma sample_set_valid: "set_validate set_env (\<lambda>_. JNull) (\<lambda>_. True) sample_set = Inr ()"
proof -
  have texts: "trim_is_empty ''release'' = False" "trim_is_empty ''default'' = False" "trim_is_empty ''gen'' = False" "trim_is_empty ''acct'' = False"
    "trim_is_empty ''billing'' = False" "trim_is_empty ''repo'' = False" "trim_is_empty ''dns-create'' = False" "trim_is_empty ''DNS Write'' = False"
    "trim_is_empty ''a'' = False" "trim_is_empty ''rollback semantics have not been declared'' = False" by code_simp+
  have repo: "valid_git_object_id (repo_head (set_repository r)) = True" "valid_git_object_id (repo_tree (set_repository r)) = True" for r
    unfolding set_repository_def plan_set_repository.simps by code_simp+
  have "repository_id (set_repository r) = r" "root_sha256 (set_repository r) = zero_hash" "origin_identity (set_repository r) = r" for r
    by (simp_all add: set_repository_def zero_hash_def)
  then show ?thesis
    using texts repo zero_hash_valid
    by (simp add: set_validate_def sample_set_def set_refresh_hash_def identity_malformed_def lists_malformed_def repositories_malformed_def
        set_child_fields child_malformed_def sorted_unique_nonempty_values_def rollback_spec_is_explicit_def sort_dedup_def
        earliest_expiry_def deployment_plan_set_provider_hashes_def cost_default_def)
qed

theorem plan_set_coherent_witness:
  "sequence (children sample_set ! 1) = 2 \<and> (\<exists>j < 1. child_operation_id (children sample_set ! j) = ''a'')"
proof -
  have "children sample_set = [set_child 1 ''a'' [], set_child 2 ''b'' [''a'']]" by (simp add: sample_set_def set_refresh_hash_def)
  moreover have "''a'' \<in> set (depends_on (set_child 2 ''b'' [''a'']))" by (simp add: set_child_fields sort_dedup_def)
  ultimately show ?thesis using plan_set_coherent [OF sample_set_valid] by auto
qed

lemma two_pins: "sort_dedup [h, h] = [h]"
  by (simp add: sort_dedup_def)

lemma sample_pins:
  "aggregate_admission_policy_hash set_env (map (\<lambda>q. admission_policy_hash (pins q)) [set_doc ''a'', set_doc ''b'']) = Inr (''compiled:'' @ zero_hash)"
  "aggregate_sha256_pins set_env graph_scope (map (\<lambda>q. workspace_graph_hash (pins q)) [set_doc ''a'', set_doc ''b'']) = Inr zero_hash"
proof -
  have p: "admission_policy_hash (pins (set_doc i)) = ''compiled:'' @ zero_hash" "workspace_graph_hash (pins (set_doc i)) = zero_hash" for i
    by (simp_all add: set_doc_def zero_hash_def)
  show "aggregate_admission_policy_hash set_env (map (\<lambda>q. admission_policy_hash (pins q)) [set_doc ''a'', set_doc ''b'']) = Inr (''compiled:'' @ zero_hash)"
    "aggregate_sha256_pins set_env graph_scope (map (\<lambda>q. workspace_graph_hash (pins q)) [set_doc ''a'', set_doc ''b'']) = Inr zero_hash"
    unfolding aggregate_admission_policy_hash_def aggregate_sha256_pins_def canonical_pin_set_def list.map p two_pins
    using zero_hash_valid by simp_all
qed

abbreviation sample_reader :: input_reader where
  "sample_reader \<equiv> \<lambda>_. Inr JNull"

lemma sample_compiled:
  "compile_plan_set set_env (\<lambda>_. JNull) (\<lambda>_. True) sample_reader (\<lambda>_. Inr set_session) (\<lambda>r. Inr (set_repository r))
     zero_hash zero_hash False zero_hash ''set-1'' (1, 2) sample_spec set_disk = Inr sample_set"
proof -
  have shape: "validate_spec_shape sample_spec = Inr ()" by code_simp
  have repos: "compile_repositories (\<lambda>r. Inr (set_repository r)) (spec_repositories sample_spec) = Inr [set_repository ''repo'']"
    by (simp add: compile_repositories_def sample_spec_def)
  have accounts: "sort_dedup (map (\<lambda>q. p_account_id (v2_plan q)) [set_doc ''a'', set_doc ''b'']) = [''acct'']"
    by (simp add: set_doc_def set_plan_def two_pins)
  have rest: "earliest_expiry [set_child 1 ''a'' [], set_child 2 ''b'' [''a'']] = Some 100"
    "deployment_plan_set_provider_hashes [set_child 1 ''a'' [], set_child 2 ''b'' [''a'']] = Inr []"
    "sort_dedup (spec_exclusions sample_spec) = [''billing'']" "spec_name sample_spec = ''release''"
    by (simp_all add: set_child_fields earliest_expiry_def deployment_plan_set_provider_hashes_def sort_dedup_def sample_spec_def)
  show ?thesis
    unfolding compile_plan_set_def shape repos sample_children fst_conv snd_conv
    by (simp only: res_bind_simps ensure_simps prod.case ok_or_simps sample_pins accounts rest set_new_def plan_set.simps shared_pins.simps
        simp_thms Let_def plan_set.update_convs map_err_simps sample_set_valid [unfolded sample_set_def])
      (simp add: sample_set_def)
qed

theorem created_plan_set_reviews_drafts_witness:
  "\<exists>files'. create_plan_set set_env (\<lambda>_. JNull) (\<lambda>_. True) sample_reader (\<lambda>_. Inr set_session) (\<lambda>r. Inr (set_repository r))
       zero_hash zero_hash False zero_hash ''set-1'' (1, 2) Write_Ok sample_spec set_disk Map.empty = (Inr sample_set, files') \<and>
     load_deployment_plan_set set_env (\<lambda>_. JNull) (\<lambda>_. True) ''set-1'' files' = Inr sample_set"
proof -
  let ?files = "[''set-1'' \<mapsto> Document sample_set]"
  have i: "ps_id sample_set = ''set-1''" by (simp add: sample_set_def set_refresh_hash_def)
  have "create_plan_set set_env (\<lambda>_. JNull) (\<lambda>_. True) sample_reader (\<lambda>_. Inr set_session) (\<lambda>r. Inr (set_repository r))
       zero_hash zero_hash False zero_hash ''set-1'' (1, 2) Write_Ok sample_spec set_disk Map.empty = (Inr sample_set, ?files)"
    by (simp add: create_plan_set_def sample_compiled create_deployment_plan_set_def sample_set_valid validate_deployment_plan_set_id_def
        managed_exists_def i)
  from created_plan_set_reviews_drafts [OF this] this i show ?thesis by auto
qed


end
