(* ===== verification/Readback.thy ===== *)
theory Readback
  imports Request_Schema Schema_Validation
begin

text \<open>
  Comparing what was planned with what a live read returned after a mutation
  (\<^verbatim>\<open>contains_verifiable_planned_value\<close> and its helpers in \<^verbatim>\<open>crates/cfctl-cloudflare/src/lib.rs\<close>). The
  request schema says which values a read cannot show (write-only or marked unobservable) and which
  arrays are compared by the identity of their items. The result is that a match leaves no planned
  value unobserved: each is found in the read at its own place, or the schema omits it.
\<close>

section \<open>The schemas of a route\<close>

datatype schema_step = Property string | Item

text \<open>
  \<^verbatim>\<open>request_schema_path_candidates\<close>: the schemas that describe a route, through compositions. Nothing is
  returned once the depth or the shared budget is spent. As elsewhere the recursion is on the depth
  that is left.
\<close>

fun gather :: "('a \<Rightarrow> nat \<Rightarrow> (json list \<times> nat) option) \<Rightarrow> 'a list \<Rightarrow> nat \<Rightarrow> (json list \<times> nat) option" where
  "gather f [] k = Some ([], k)"
| "gather f (x # xs) k =
     Option.bind (f x k) (\<lambda>(cs, k1). Option.bind (gather f xs k1) (\<lambda>(ds, k2). Some (cs @ ds, k2)))"

fun child_schema :: "json \<Rightarrow> schema_step \<Rightarrow> json option" where
  "child_schema schema (Property name) = Option.bind (object_entry schema ''properties'') (\<lambda>m. bt_get m name)"
| "child_schema schema Item = json_get schema ''items''"

definition composition_members :: "json \<Rightarrow> json list" where
  "composition_members schema = concat (map (members_entry schema) [''allOf'', ''oneOf'', ''anyOf''])"

primrec path_candidates :: "nat \<Rightarrow> json \<times> schema_step list \<Rightarrow> nat \<Rightarrow> (json list \<times> nat) option" where
  "path_candidates 0 = (\<lambda>_ _. None)"
| "path_candidates (Suc left) = (\<lambda>(schema, route) k.
     if k = 0 then None
     else case route of
         [] \<Rightarrow> Some ([schema], k - 1)
       | step # remaining \<Rightarrow>
           gather (path_candidates left)
             ((case child_schema schema step of None \<Rightarrow> [] | Some child \<Rightarrow> [(child, remaining)]) @
              map (\<lambda>member. (member, route)) (composition_members schema)) (k - 1))"

abbreviation max_request_schema_projection_steps :: nat where
  "max_request_schema_projection_steps \<equiv> 4096"

definition request_schema_path_candidates :: "json \<Rightarrow> schema_step list \<Rightarrow> (json list \<times> nat) option" where
  "request_schema_path_candidates schema route =
     path_candidates (max_request_validation_depth + 1) (schema, route) max_request_schema_projection_steps"

definition request_schema_path_is_verification_omitted :: "json \<Rightarrow> schema_step list \<Rightarrow> bool" where
  "request_schema_path_is_verification_omitted schema route \<longleftrightarrow>
     (case request_schema_path_candidates schema route of
        None \<Rightarrow> False
      | Some (candidates, k) \<Rightarrow>
          candidates \<noteq> [] \<and> fst (all_member (\<lambda>c. schema_declares_verification_omitted c 0) candidates k))"

definition nonempty_string :: "json \<Rightarrow> string option" where
  "nonempty_string v = Option.bind (json_as_str v) (\<lambda>s. if s = [] then None else Some s)"

definition identity_of :: "json \<Rightarrow> string \<Rightarrow> string option" where
  "identity_of v k = Option.bind (json_get v k) nonempty_string"

definition request_schema_path_array_identity :: "json option \<Rightarrow> schema_step list \<Rightarrow> string option" where
  "request_schema_path_array_identity schema route =
     Option.bind schema (\<lambda>s.
     Option.bind (request_schema_path_candidates s route) (\<lambda>(candidates, _).
     Option.bind (those (map (\<lambda>c. identity_of c ''x-cfctl-verification-array-identity'') candidates)) (\<lambda>identities.
     case identities of
       [] \<Rightarrow> None
     | i # _ \<Rightarrow> if list_all ((=) i) identities then Some i else None)))"

text \<open>The items of an array by their identity; none when one lacks it or two share it.\<close>

fun identity_keyed_from :: "string \<Rightarrow> (string, json) btree \<Rightarrow> json list \<Rightarrow> (string, json) btree option" where
  "identity_keyed_from identity keyed [] = Some keyed"
| "identity_keyed_from identity keyed (v # vs) =
     Option.bind (identity_of v identity) (\<lambda>key.
     if bt_get keyed key \<noteq> None then None else identity_keyed_from identity (bt_insert key v keyed) vs)"

definition identity_keyed_array :: "json list \<Rightarrow> string \<Rightarrow> (string, json) btree option" where
  "identity_keyed_array vs identity = identity_keyed_from identity [] vs"


section \<open>Comparing\<close>

primrec contains_verifiable :: "nat \<Rightarrow> json option \<Rightarrow> json \<Rightarrow> json option \<Rightarrow> schema_step list \<Rightarrow> bool" where
  "contains_verifiable 0 = (\<lambda>_ _ _ _. False)"
| "contains_verifiable (Suc left) = (\<lambda>actual planned schema route.
     if (case schema of None \<Rightarrow> False | Some s \<Rightarrow> request_schema_path_is_verification_omitted s route) then True
     else case actual of
         None \<Rightarrow> False
       | Some a \<Rightarrow>
           (case (a, planned) of
              (JObject am, JObject pm) \<Rightarrow>
                list_all (\<lambda>(name, v). contains_verifiable left (bt_get am name) v schema (route @ [Property name])) pm
            | (JArray xs, JArray ps) \<Rightarrow>
                if length xs \<noteq> length ps then False
                else (case request_schema_path_array_identity schema route of
                    Some identity \<Rightarrow>
                      (case identity_keyed_array xs identity of
                         None \<Rightarrow> False
                       | Some keyed \<Rightarrow>
                           (case identity_keyed_array ps identity of
                              None \<Rightarrow> False
                            | Some planned_by_identity \<Rightarrow>
                                if length keyed \<noteq> length planned_by_identity \<or> map fst keyed \<noteq> map fst planned_by_identity
                                then False
                                else list_all (\<lambda>(i, p). contains_verifiable left (bt_get keyed i) p schema (route @ [Item]))
                                  planned_by_identity))
                  | None \<Rightarrow>
                      list_all (\<lambda>(x, p). contains_verifiable left (Some x) p schema (route @ [Item])) (zip xs ps))
            | _ \<Rightarrow> a = planned))"

definition contains_verifiable_planned_value ::
    "json option \<Rightarrow> json \<Rightarrow> json option \<Rightarrow> schema_step list \<Rightarrow> nat \<Rightarrow> bool" where
  "contains_verifiable_planned_value actual planned schema route depth =
     contains_verifiable (max_request_validation_depth + 1 - depth) actual planned schema route"

text \<open>The comparison without a schema, used for DNS records.\<close>

fun contains_planned_value :: "json \<Rightarrow> json \<Rightarrow> bool" where
  "contains_planned_value (JObject am) (JObject pm) \<longleftrightarrow>
     (\<forall>(name, v) \<in> set pm. case bt_get am name of None \<Rightarrow> False | Some a \<Rightarrow> contains_planned_value a v)"
| "contains_planned_value a planned \<longleftrightarrow> a = planned"

definition mismatched_planned_fields :: "(string \<times> json) list \<Rightarrow> json \<Rightarrow> string list" where
  "mismatched_planned_fields planned actual =
     map fst (filter (\<lambda>(name, v). case json_get actual name of
         None \<Rightarrow> True | Some a \<Rightarrow> \<not> contains_planned_value a v) planned)"


section \<open>Values inside values\<close>

datatype trail_step = Field string | Index nat

fun step_of :: "trail_step \<Rightarrow> schema_step" where
  "step_of (Field name) = Property name"
| "step_of (Index _) = Item"

fun value_at :: "json \<Rightarrow> trail_step list \<Rightarrow> json option" where
  "value_at v [] = Some v"
| "value_at v (Field name # trail) = Option.bind (json_get v name) (\<lambda>x. value_at x trail)"
| "value_at (JArray vs) (Index i # trail) = (if i < length vs then value_at (vs ! i) trail else None)"
| "value_at v (Index i # trail) = None"

fun is_leaf :: "json \<Rightarrow> bool" where
  "is_leaf (JObject _) = False"
| "is_leaf (JArray vs) = (vs = [])"
| "is_leaf _ = True"

definition omitted_on :: "json option \<Rightarrow> schema_step list \<Rightarrow> trail_step list \<Rightarrow> bool" where
  "omitted_on schema route trail \<longleftrightarrow>
     (\<exists>s k. schema = Some s \<and> k \<le> length trail \<and>
        request_schema_path_is_verification_omitted s (route @ map step_of (take k trail)))"

text \<open>
  Where the item of an array is to be looked for in the array that was read: at the same position, or,
  where the schema names an identity, wherever the one item with the same identity stands.
\<close>

definition counterpart :: "json option \<Rightarrow> schema_step list \<Rightarrow> json list \<Rightarrow> json list \<Rightarrow> nat \<Rightarrow> nat \<Rightarrow> bool" where
  "counterpart schema route xs ps i j \<longleftrightarrow>
     length xs = length ps \<and> i < length ps \<and> j < length xs \<and>
     (case request_schema_path_array_identity schema route of
        None \<Rightarrow> j = i
      | Some identity \<Rightarrow>
          identity_of (ps ! i) identity \<noteq> None \<and>
          (\<forall>l < length xs. identity_of (xs ! l) identity = identity_of (ps ! i) identity \<longleftrightarrow> l = j))"

text \<open>
  A planned value at a trail is observed: following the trail through the planned value and what was
  read together, by the name of each field and by the counterpart of each item, leads to that value.
\<close>

fun observed :: "json option \<Rightarrow> schema_step list \<Rightarrow> json \<Rightarrow> json \<Rightarrow> trail_step list \<Rightarrow> bool" where
  "observed schema route actual planned [] \<longleftrightarrow> actual = planned"
| "observed schema route actual planned (Field name # trail) \<longleftrightarrow>
     (\<exists>a p. json_get actual name = Some a \<and> json_get planned name = Some p \<and>
        observed schema (route @ [Property name]) a p trail)"
| "observed schema route actual planned (Index i # trail) \<longleftrightarrow>
     (\<exists>xs ps j. actual = JArray xs \<and> planned = JArray ps \<and> counterpart schema route xs ps i j \<and>
        observed schema (route @ [Item]) (xs ! j) (ps ! i) trail)"


lemma omitted_on_Cons: "omitted_on schema (route @ [step_of t]) trail \<Longrightarrow> omitted_on schema route (t # trail)"
proof -
  assume "omitted_on schema (route @ [step_of t]) trail"
  then obtain s k where "schema = Some s" "k \<le> length trail"
      "request_schema_path_is_verification_omitted s ((route @ [step_of t]) @ map step_of (take k trail))"
    unfolding omitted_on_def by blast
  then show ?thesis unfolding omitted_on_def by (intro exI [of _ s] exI [of _ "Suc k"]) simp
qed

lemma omitted_on_start:
  "request_schema_path_is_verification_omitted s route \<Longrightarrow> omitted_on (Some s) route trail"
  unfolding omitted_on_def by (intro exI [of _ s] exI [of _ 0]) simp

text \<open>An array that can be keyed has one item per identity, filed under it.\<close>

lemma keyed_from_facts:
  assumes "identity_keyed_from identity m vs = Some m'" "bt_invar m"
  shows "bt_invar m' \<and> distinct (map (\<lambda>v. identity_of v identity) vs) \<and>
    (\<forall>v \<in> set vs. \<exists>k. identity_of v identity = Some k \<and> bt_get m k = None \<and> bt_get m' k = Some v) \<and>
    (\<forall>k v. bt_get m' k = Some v \<longrightarrow> bt_get m k = Some v \<or> v \<in> set vs \<and> identity_of v identity = Some k) \<and>
    (\<forall>k v. bt_get m k = Some v \<longrightarrow> bt_get m' k = Some v)"
  using assms
proof (induction vs arbitrary: m)
  case (Cons v vs)
  then obtain k where k: "identity_of v identity = Some k" "bt_get m k = None"
    and rest: "identity_keyed_from identity (bt_insert k v m) vs = Some m'"
    by (auto simp: bind_eq_Some_conv split: if_splits)
  note IH = Cons.IH [OF rest bt_invar_insert [OF Cons.prems(2)]]
  have ins: "bt_get (bt_insert k v m) l = (if l = k then Some v else bt_get m l)" for l
    using Cons.prems(2) by (simp add: bt_get_insert)
  from IH k have "identity_of v identity \<notin> (\<lambda>v. identity_of v identity) ` set vs" by (fastforce simp: ins)
  moreover from IH have "bt_get m' k = Some v" by (simp add: ins)
  moreover from IH have "\<exists>l. identity_of w identity = Some l \<and> bt_get m l = None \<and> bt_get m' l = Some w" if "w \<in> set vs" for w
    using that by (fastforce simp: ins split: if_splits)
  moreover have "bt_get m l = Some w \<or> w \<in> set (v # vs) \<and> identity_of w identity = Some l" if "bt_get m' l = Some w" for l w
  proof (cases "l = k")
    case False
    from IH that have "bt_get (bt_insert k v m) l = Some w \<or> w \<in> set vs \<and> identity_of w identity = Some l" by blast
    with False show ?thesis by (auto simp: ins)
  qed (use that IH k in \<open>auto simp: ins\<close>)
  moreover have "bt_get m' l = Some w" if "bt_get m l = Some w" for l w
  proof -
    from that k have "bt_get (bt_insert k v m) l = Some w" by (auto simp: ins)
    with IH show ?thesis by blast
  qed
  ultimately show ?case using IH k by auto
qed simp

lemma identity_keyed_facts:
  assumes "identity_keyed_array vs identity = Some m"
  shows "v \<in> set vs \<Longrightarrow> \<exists>k. identity_of v identity = Some k \<and> bt_get m k = Some v"
    "bt_get m k = Some v \<Longrightarrow> v \<in> set vs \<and> identity_of v identity = Some k"
    "distinct (map (\<lambda>v. identity_of v identity) vs)"
  using keyed_from_facts [OF assms [unfolded identity_keyed_array_def]] by (auto simp: bt_invar_def bt_get_def)

text \<open>The item filed under the identity of a planned item is its counterpart.\<close>

lemma keyed_counterpart:
  assumes "request_schema_path_array_identity schema route = Some identity" "identity_keyed_array xs identity = Some ka"
    and "length xs = length ps" "i < length ps" "identity_of (ps ! i) identity = Some k" "bt_get ka k = Some x"
  obtains j where "counterpart schema route xs ps i j" "xs ! j = x"
proof -
  from identity_keyed_facts(2) [OF assms(2,6)] obtain j where j: "j < length xs" "xs ! j = x" "identity_of x identity = Some k"
    by (auto simp: in_set_conv_nth)
  have "identity_of (xs ! l) identity = Some k \<longleftrightarrow> l = j" if "l < length xs" for l
    using that j nth_eq_iff_index_eq [OF identity_keyed_facts(3) [OF assms(2)], of l j] by auto
  with assms j have "counterpart schema route xs ps i j" by (simp add: counterpart_def)
  with j(2) show ?thesis using that by blast
qed

lemma bt_get_list_all: "list_all (\<lambda>(k, v). P k v) m \<Longrightarrow> bt_get m k = Some v \<Longrightarrow> P k v"
  by (auto simp: list_all_iff bt_get_def dest: map_of_SomeD)

lemma contains_observed:
  assumes "contains_verifiable n actual planned schema route" "value_at planned trail = Some v" "is_leaf v"
    and "\<not> omitted_on schema route trail"
  shows "\<exists>a. actual = Some a \<and> observed schema route a planned trail"
  using assms
proof (induction n arbitrary: actual planned route trail)
  case (Suc n)
  have shown: "\<not> (case schema of None \<Rightarrow> False | Some s \<Rightarrow> request_schema_path_is_verification_omitted s route)"
    using Suc.prems(4) omitted_on_start by (auto split: option.splits)
  with Suc.prems(1) obtain a where a: "actual = Some a" by (auto split: option.splits)
  note step = Suc.prems(1) [unfolded a, simplified, simplified shown, simplified]
  have "observed schema route a planned trail"
  proof (cases trail)
    case Nil
    with Suc.prems(2,3) step have "a = planned" by (cases a; cases v) (auto split: if_splits)
    with Nil show ?thesis by simp
  next
    case (Cons t rest)
    have rest: "\<not> omitted_on schema (route @ [step_of t]) rest"
      using Suc.prems(4) omitted_on_Cons Cons by blast
    show ?thesis
    proof (cases t)
      case (Field name)
      with Suc.prems(2) Cons obtain pm p where planned: "planned = JObject pm" "bt_get pm name = Some p" "value_at p rest = Some v"
        by (cases planned) (auto simp: bind_eq_Some_conv)
      with step obtain am where am: "a = JObject am"
        "list_all (\<lambda>(name, v). contains_verifiable n (bt_get am name) v schema (route @ [Property name])) pm"
        by (cases a) auto
      from Suc.IH [OF bt_get_list_all [OF am(2) planned(2)] planned(3) Suc.prems(3)] rest Field am(1) Cons planned(1,2)
      show ?thesis by auto
    next
      case (Index i)
      with Suc.prems(2) Cons obtain ps where planned: "planned = JArray ps" "i < length ps" "value_at (ps ! i) rest = Some v"
        by (cases planned) (auto split: if_splits)
      with step obtain xs where xs: "a = JArray xs" "length xs = length ps" by (cases a) (auto split: if_splits)
      show ?thesis
      proof (cases "request_schema_path_array_identity schema route")
        case None
        with step planned xs have "list_all (\<lambda>(x, p). contains_verifiable n (Some x) p schema (route @ [Item])) (zip xs ps)"
          by simp
        with planned(2) xs(2) have "contains_verifiable n (Some (xs ! i)) (ps ! i) schema (route @ [Item])"
          by (auto simp: list_all_length)
        from Suc.IH [OF this planned(3) Suc.prems(3)] rest Index
        have "observed schema (route @ [Item]) (xs ! i) (ps ! i) rest" by auto
        moreover have "counterpart schema route xs ps i i" using None xs(2) planned(2) by (simp add: counterpart_def)
        ultimately show ?thesis using Cons Index xs(1) planned(1) by auto
      next
        case (Some identity)
        with step planned xs obtain ka kp where keyed: "identity_keyed_array xs identity = Some ka"
            "identity_keyed_array ps identity = Some kp"
          and all: "list_all (\<lambda>(i, p). contains_verifiable n (bt_get ka i) p schema (route @ [Item])) kp"
          by (auto split: option.splits if_splits)
        from identity_keyed_facts(1) [OF keyed(2)] planned(2) obtain k
          where k: "identity_of (ps ! i) identity = Some k" "bt_get kp k = Some (ps ! i)" by (meson nth_mem)
        from Suc.IH [OF bt_get_list_all [OF all k(2)] planned(3) Suc.prems(3)] rest Index
        obtain x where x: "bt_get ka k = Some x" "observed schema (route @ [Item]) x (ps ! i) rest" by auto
        from keyed_counterpart [OF Some keyed(1) xs(2) planned(2) k(1) x(1)]
        obtain j where "counterpart schema route xs ps i j" "xs ! j = x" .
        with x(2) Cons Index xs(1) planned(1) show ?thesis by auto
      qed
    qed
  qed
  with a show ?case by blast
qed simp

end
