(* ===== verification/Access_Readback.thy ===== *)
theory Access_Readback
  imports Readback "HOL-Library.Product_Lexorder"
begin

text \<open>
  The comparisons that \<^verbatim>\<open>crates/cfctl-cloudflare/src/lib.rs\<close> makes for Access applications and policies,
  whose snapshots are compared exactly: collections that the provider reorders are normalised to sorted
  lists without duplicates, members that were not planned are mismatches. The result is that the
  normalised comparison of a set field is equality of sets.
\<close>

section \<open>The snapshots\<close>

definition application_path :: string where
  "application_path = ''/accounts/{account_id}/access/apps/{app_id}''"

definition policy_path :: string where
  "policy_path = ''/accounts/{account_id}/access/apps/{app_id}/policies/{policy_id}''"

definition is_application_snapshot :: "capability \<Rightarrow> bool" where
  "is_application_snapshot cap \<longleftrightarrow>
     cap_id cap \<in> {''access-applications-update-self-hosted-login-methods'',
       ''access-applications-update-owned-self-hosted-whole-host'',
       ''access-applications-update-app-launcher-login-methods''} \<and>
     http_method cap = ''PUT'' \<and> path cap = application_path"

definition is_policy_snapshot :: "capability \<Rightarrow> bool" where
  "is_policy_snapshot cap \<longleftrightarrow>
     cap_id cap \<in> {''access-policies-update-human-access-controls'', ''access-policies-update-operator-group-allow-policy''} \<and>
     http_method cap = ''PUT'' \<and> path cap = policy_path"

definition access_application_field_is_order_insensitive :: "string \<Rightarrow> string \<Rightarrow> bool" where
  "access_application_field_is_order_insensitive capability_id field \<longleftrightarrow>
     capability_id \<in> {''access-applications-update-self-hosted-login-methods'', ''access-applications-update-owned-self-hosted-whole-host''} \<and>
       field \<in> {''allowed_idps'', ''policies'', ''self_hosted_domains''} \<or>
     capability_id = ''access-applications-update-app-launcher-login-methods'' \<and>
       field \<in> {''allowed_idps'', ''custom_pages'', ''policies''}"

text \<open>The selector that names the resource, compared with the \<^verbatim>\<open>id\<close> of the read.\<close>

definition readback_identity_selector :: "capability \<Rightarrow> string option" where
  "readback_identity_selector cap =
     (if is_application_snapshot cap then Some ''app_id''
      else if is_policy_snapshot cap then Some ''policy_id''
      else None)"

definition exact_resource_readback_identity_matches :: "capability \<Rightarrow> json \<Rightarrow> json \<Rightarrow> bool" where
  "exact_resource_readback_identity_matches cap inputs actual \<longleftrightarrow>
     (case readback_identity_selector cap of
        None \<Rightarrow> True
      | Some selector \<Rightarrow>
          (case identity_of inputs selector of
             None \<Rightarrow> False
           | Some expected \<Rightarrow> identity_of actual ''id'' = Some expected))"


section \<open>Normalised collections\<close>

definition distinct_sorted :: "('a::linorder \<Rightarrow> 'b) \<Rightarrow> 'a list \<Rightarrow> 'a list option" where
  "distinct_sorted key xs =
     (let ys = sort xs in if list_ex (\<lambda>(x, y). key x = key y) (zip ys (tl ys)) then None else Some ys)"

definition nonempty_list :: "'a list \<Rightarrow> 'a list option" where
  "nonempty_list xs = (if xs = [] then None else Some xs)"

definition zip_equal :: "'a option \<Rightarrow> 'a option \<Rightarrow> bool" where
  "zip_equal x y = (case (x, y) of (Some a, Some b) \<Rightarrow> a = b | _ \<Rightarrow> False)"

definition canonical_cloudflare_uuid :: "string \<Rightarrow> string option" where
  "canonical_cloudflare_uuid s =
     (if is_valid_cloudflare_uuid s then Some (to_ascii_lowercase (filter (\<lambda>c. c \<noteq> CHR ''-'') s)) else None)"

definition normalized_idps :: "json list \<Rightarrow> string list option" where
  "normalized_idps vs =
     Option.bind (those (map json_as_str vs)) (\<lambda>ss.
     Option.bind (those (map canonical_cloudflare_uuid ss)) (\<lambda>ids.
     Option.bind (distinct_sorted (\<lambda>x. x) ids) nonempty_list))"

definition normalized_access_string_set :: "json list \<Rightarrow> string list option" where
  "normalized_access_string_set vs = Option.bind (those (map nonempty_string vs)) (distinct_sorted (\<lambda>x. x))"

definition policy_reference :: "json \<Rightarrow> (string \<times> nat) option" where
  "policy_reference v =
     Option.bind (identity_of v ''id'') (\<lambda>i.
     Option.bind (Option.bind (json_get v ''precedence'') (\<lambda>p. Option.bind (json_as_number p) number_as_u64)) (\<lambda>n.
     if n > 0 then Some (i, n) else None))"

definition normalized_policies :: "json list \<Rightarrow> (string \<times> nat) list option" where
  "normalized_policies vs =
     Option.bind (those (map policy_reference vs)) (\<lambda>ps. Option.bind (distinct_sorted fst ps) nonempty_list)"

definition access_application_set_field_matches :: "string \<Rightarrow> json option \<Rightarrow> json \<Rightarrow> bool" where
  "access_application_set_field_matches name actual planned \<longleftrightarrow>
     (case Option.bind actual json_as_array of
        None \<Rightarrow> False
      | Some xs \<Rightarrow>
          (case json_as_array planned of
             None \<Rightarrow> False
           | Some ps \<Rightarrow>
               if name = ''allowed_idps'' then zip_equal (normalized_idps xs) (normalized_idps ps)
               else if name = ''custom_pages'' \<or> name = ''self_hosted_domains''
               then zip_equal (normalized_access_string_set xs) (normalized_access_string_set ps)
               else if name = ''policies'' then zip_equal (normalized_policies xs) (normalized_policies ps)
               else False))"


section \<open>Policies\<close>

definition sole_member :: "json \<Rightarrow> (string \<times> json) option" where
  "sole_member v = (case json_as_object v of Some [entry] \<Rightarrow> Some entry | _ \<Rightarrow> None)"

definition sole_entry :: "json \<Rightarrow> string \<Rightarrow> json option" where
  "sole_entry v k = Option.bind (sole_member v) (\<lambda>(name, x). if name = k then Some x else None)"

definition exact_operator_group_rule :: "json list \<Rightarrow> string option" where
  "exact_operator_group_rule vs =
     (case vs of
        [rule] \<Rightarrow>
          Option.bind (sole_entry rule ''group'') (\<lambda>group.
          Option.bind (sole_entry group ''id'') (\<lambda>i. Option.bind (json_as_str i) canonical_cloudflare_uuid))
      | _ \<Rightarrow> None)"

definition access_operator_group_policy_field_matches :: "string \<Rightarrow> json option \<Rightarrow> json \<Rightarrow> bool" where
  "access_operator_group_policy_field_matches name actual planned \<longleftrightarrow>
     (case Option.bind actual json_as_array of
        None \<Rightarrow> False
      | Some xs \<Rightarrow>
          (case json_as_array planned of
             None \<Rightarrow> False
           | Some ps \<Rightarrow>
               if name = ''exclude'' then xs = [] \<and> ps = []
               else if name = ''include'' then zip_equal (exact_operator_group_rule xs) (exact_operator_group_rule ps)
               else False))"

definition human_identity_rule :: "json \<Rightarrow> (string \<times> string) option" where
  "human_identity_rule v =
     Option.bind (sole_member v) (\<lambda>(name, inner).
     if name = ''email''
     then map_option (\<lambda>s. (''email'', s)) (Option.bind (sole_entry inner ''email'') nonempty_string)
     else if name = ''email_domain''
     then map_option (\<lambda>s. (''email_domain'', s)) (Option.bind (sole_entry inner ''domain'') nonempty_string)
     else None)"

definition normalized_access_human_identity_rules :: "json list \<Rightarrow> bool \<Rightarrow> (string \<times> string) list option" where
  "normalized_access_human_identity_rules vs require_nonempty =
     (if require_nonempty \<and> vs = [] then None
      else Option.bind (those (map human_identity_rule vs)) (distinct_sorted (\<lambda>x. x)))"

definition normalized_access_authenticators :: "json list \<Rightarrow> string list option" where
  "normalized_access_authenticators vs =
     Option.bind (those (map json_as_str vs)) (\<lambda>ss. Option.bind (distinct_sorted (\<lambda>x. x) ss) nonempty_list)"

definition mfa_session_duration :: "(string \<times> json) list \<Rightarrow> bool \<Rightarrow> string option option" where
  "mfa_session_duration config tolerate_empty =
     (case bt_get config ''session_duration'' of
        None \<Rightarrow> Some None
      | Some v \<Rightarrow>
          Option.bind (json_as_str v) (\<lambda>s.
          if s = [] then (if tolerate_empty then Some None else None) else Some (Some s)))"

definition normalized_access_human_mfa_config ::
    "(string \<times> json) list \<Rightarrow> bool \<Rightarrow> (string list \<times> bool \<times> string option) option" where
  "normalized_access_human_mfa_config config tolerate_empty =
     (if list_ex (\<lambda>(k, _). k \<notin> {''allowed_authenticators'', ''mfa_disabled'', ''session_duration''}) config then None
      else
        Option.bind (Option.bind (Option.bind (bt_get config ''allowed_authenticators'') json_as_array) normalized_access_authenticators) (\<lambda>authenticators.
        Option.bind (Option.bind (bt_get config ''mfa_disabled'') json_as_bool) (\<lambda>disabled.
        Option.bind (mfa_session_duration config tolerate_empty) (\<lambda>duration. Some (authenticators, disabled, duration)))))"

definition access_human_policy_field_matches :: "string \<Rightarrow> json option \<Rightarrow> json \<Rightarrow> bool" where
  "access_human_policy_field_matches name actual planned \<longleftrightarrow>
     (if name = ''include'' \<or> name = ''exclude'' then
        (case (Option.bind actual json_as_array, json_as_array planned) of
           (Some xs, Some ps) \<Rightarrow>
             zip_equal (normalized_access_human_identity_rules xs (name = ''include''))
               (normalized_access_human_identity_rules ps (name = ''include''))
         | _ \<Rightarrow> False)
      else if name = ''mfa_config'' then
        (case (Option.bind actual json_as_object, json_as_object planned) of
           (Some xm, Some pm) \<Rightarrow>
             zip_equal (normalized_access_human_mfa_config xm True) (normalized_access_human_mfa_config pm False)
         | _ \<Rightarrow> False)
      else False)"


section \<open>Members that were not planned\<close>

function has_unplanned_recursive_members :: "json \<Rightarrow> json \<Rightarrow> bool" where
  "has_unplanned_recursive_members actual planned \<longleftrightarrow>
     (case (actual, planned) of
        (JObject am, JObject pm) \<Rightarrow>
          (\<exists>(name, v) \<in> set am. case bt_get pm name of None \<Rightarrow> True | Some p \<Rightarrow> has_unplanned_recursive_members v p)
      | (JArray xs, JArray ps) \<Rightarrow>
          length xs \<noteq> length ps \<or> (\<exists>(x, p) \<in> set (zip xs ps). has_unplanned_recursive_members x p)
      | _ \<Rightarrow> False)"
  by pat_completeness auto
termination
  by (relation "measure (\<lambda>(actual, planned). size actual)")
    (auto dest!: set_zip_leftD dest: size_entry_less size_item_less)

declare has_unplanned_recursive_members.simps [simp del]

text \<open>
  The name of a request field in the response, where the catalog pins one
  (\<^verbatim>\<open>request_object_field_verification_response_field\<close> in \<^verbatim>\<open>crates/cfctl-core/src/lib.rs\<close>).
\<close>

definition response_field_name :: "json \<Rightarrow> string option" where
  "response_field_name schema =
     Option.bind (identity_of schema ''x-cfctl-verification-response-field'') (\<lambda>name.
     if list_all (\<lambda>c. is_ascii_alphanumeric c \<or> c = CHR ''_'') name then Some name else None)"

primrec collect_response_names :: "nat \<Rightarrow> json \<Rightarrow> nat \<times> string list \<Rightarrow> nat \<times> string list" where
  "collect_response_names 0 = (\<lambda>schema found. found)"
| "collect_response_names (Suc left) = (\<lambda>schema (k, names).
     if k = 0 then (k, names)
     else fold (collect_response_names left) (composition_members schema)
       (k - 1, case response_field_name schema of None \<Rightarrow> names | Some name \<Rightarrow> List.insert name names))"

definition collect_verification_response_field_names :: "json \<Rightarrow> nat \<times> string list \<Rightarrow> nat \<times> string list" where
  "collect_verification_response_field_names = collect_response_names (max_request_object_schema_depth + 1)"

definition request_object_field_verification_response_field :: "capability \<Rightarrow> string \<Rightarrow> string option" where
  "request_object_field_verification_response_field cap field =
     Option.bind (field_schemas cap field) (\<lambda>schemas.
     case snd (fold collect_verification_response_field_names schemas (max_request_object_schema_steps, [])) of
       [name] \<Rightarrow> Some name
     | _ \<Rightarrow> None)"

definition verification_response_field :: "capability \<Rightarrow> string \<Rightarrow> string option" where
  "verification_response_field cap request_field =
     (if cap_id cap \<noteq> ''r2-create-bucket'' \<or> http_method cap \<noteq> ''POST'' \<or> product cap \<noteq> ''R2 Bucket'' \<or>
         path cap \<noteq> ''/accounts/{account_id}/r2/buckets'' \<or> request_field \<noteq> ''storageClass''
      then None
      else Option.bind (request_object_field_verification_response_field cap request_field)
        (\<lambda>field. if field = ''storage_class'' then Some field else None))"

definition response_field :: "capability \<Rightarrow> string \<Rightarrow> string" where
  "response_field cap name = (case verification_response_field cap name of None \<Rightarrow> name | Some field \<Rightarrow> field)"

definition access_application_complete_snapshot_mismatches :: "capability \<Rightarrow> (string \<times> json) list \<Rightarrow> json \<Rightarrow> string list" where
  "access_application_complete_snapshot_mismatches cap planned actual =
     (if \<not> is_application_snapshot cap then []
      else case json_as_object actual of
        None \<Rightarrow> [''access_application_snapshot'']
      | Some am \<Rightarrow>
          filter (\<lambda>field. bt_get planned field = None \<and>
              field \<notin> {''aud'', ''created_at'', ''id'', ''uid'', ''updated_at''} \<and>
              \<not> (cap_id cap = ''access-applications-update-app-launcher-login-methods'' \<and> field \<in> {''domain'', ''name''}))
            (map fst am) @
          map fst (filter (\<lambda>(name, v). name \<notin> {''allowed_idps'', ''policies''} \<and>
              (case bt_get am (response_field cap name) of
                 None \<Rightarrow> False | Some x \<Rightarrow> has_unplanned_recursive_members x v)) planned))"

definition access_human_policy_complete_snapshot_mismatches :: "capability \<Rightarrow> json \<Rightarrow> string list" where
  "access_human_policy_complete_snapshot_mismatches cap actual =
     (if \<not> is_policy_snapshot cap then []
      else case json_as_object actual of
        None \<Rightarrow> [''human_policy_snapshot'', ''reusable'']
      | Some am \<Rightarrow>
          filter (\<lambda>field. field \<notin> {''created_at'', ''decision'', ''exclude'', ''id'', ''include'', ''name'', ''precedence'',
              ''require'', ''reusable'', ''session_duration'', ''uid'', ''updated_at''} \<and>
              \<not> (cap_id cap = ''access-policies-update-human-access-controls'' \<and> field = ''mfa_config'')) (map fst am) @
          (if Option.bind (bt_get am ''reusable'') json_as_bool \<noteq> Some False then [''reusable''] else []))"

definition access_exact_snapshot_optional_absence_mismatches :: "capability \<Rightarrow> (string \<times> json) list \<Rightarrow> json \<Rightarrow> string list" where
  "access_exact_snapshot_optional_absence_mismatches cap planned actual =
     (if \<not> is_application_snapshot cap \<and> \<not> is_policy_snapshot cap then []
      else case same_path_read cap of
        None \<Rightarrow> [''same_path_read'']
      | Some read \<Rightarrow>
          filter (\<lambda>field. bt_get planned field = None \<and>
            (case json_get actual field of
               None \<Rightarrow> False
             | Some v \<Rightarrow> \<not> (is_policy_snapshot cap \<and> field = ''session_duration'' \<and> json_as_str v = Some [])))
            (sp_verified_response_fields read))"


section \<open>The mismatches of a plan\<close>

definition field_matches :: "capability \<Rightarrow> json \<Rightarrow> string \<times> json \<Rightarrow> bool" where
  "field_matches cap actual = (\<lambda>(name, v).
     if access_application_field_is_order_insensitive (cap_id cap) name \<and> http_method cap = ''PUT'' \<and> path cap = application_path
     then access_application_set_field_matches name (json_get actual name) v
     else if cap_id cap = ''access-policies-update-operator-group-allow-policy'' \<and> http_method cap = ''PUT'' \<and>
       path cap = policy_path \<and> name \<in> {''include'', ''exclude''}
     then access_operator_group_policy_field_matches name (json_get actual name) v
     else if cap_id cap = ''access-policies-update-human-access-controls'' \<and> http_method cap = ''PUT'' \<and>
       path cap = policy_path \<and> name \<in> {''include'', ''exclude'', ''mfa_config''}
     then access_human_policy_field_matches name (json_get actual name) v
     else contains_verifiable_planned_value (json_get actual (response_field cap name)) v (request_schema cap) [Property name] 0)"

definition sorted_names :: "string list \<Rightarrow> string list" where
  "sorted_names xs = remdups_adj (sort xs)"

definition mismatched_verifiable_planned_fields :: "capability \<Rightarrow> (string \<times> json) list \<Rightarrow> json \<Rightarrow> string list" where
  "mismatched_verifiable_planned_fields cap planned actual = sorted_names
     (map fst (filter (\<lambda>entry. \<not> field_matches cap actual entry) planned) @
      access_exact_snapshot_optional_absence_mismatches cap planned actual @
      access_application_complete_snapshot_mismatches cap planned actual @
      access_human_policy_complete_snapshot_mismatches cap actual)"

definition extend_r2_bucket_create_mismatches :: "capability \<Rightarrow> json \<Rightarrow> json \<Rightarrow> string list \<Rightarrow> string list" where
  "extend_r2_bucket_create_mismatches cap inputs actual mismatches =
     (if cap_id cap \<noteq> ''r2-create-bucket'' \<or> product cap \<noteq> ''R2 Bucket'' \<or> path cap \<noteq> ''/accounts/{account_id}/r2/buckets''
      then mismatches
      else sorted_names (mismatches @
        (case json_get inputs ''cf-r2-jurisdiction'' of
           None \<Rightarrow> []
         | Some planned \<Rightarrow> if json_get actual ''jurisdiction'' \<noteq> Some planned then [''cf-r2-jurisdiction''] else [])))"


section \<open>Facts\<close>

lemma windows_distinct: "sorted ys \<Longrightarrow> list_ex (\<lambda>(x, y). x = y) (zip ys (tl ys)) \<longleftrightarrow> \<not> distinct ys"
  by (induction ys rule: induct_list012) (auto simp: order.antisym)

lemma windows_map: "list_ex (\<lambda>(x, y). f x = f y) (zip ys (tl ys)) \<longleftrightarrow> list_ex (\<lambda>(x, y). x = y) (zip (map f ys) (tl (map f ys)))"
  by (induction ys rule: induct_list012) auto

lemma distinct_sorted_iff:
  fixes key :: "'a::linorder \<Rightarrow> 'b::linorder"
  assumes "mono key"
  shows "distinct_sorted key xs = Some ys \<longleftrightarrow> distinct (map key xs) \<and> ys = sort xs"
proof -
  have "sorted (map key (sort xs))" unfolding sorted_map
    by (rule sorted_wrt_mono_rel [where P = "(\<le>)"]) (use assms in \<open>simp_all add: mono_def\<close>)
  moreover have "distinct (map key (sort xs)) \<longleftrightarrow> distinct (map key xs)" by (simp add: distinct_map)
  ultimately show ?thesis using windows_distinct [of "map key (sort xs)"] by (auto simp: distinct_sorted_def Let_def windows_map [of key])
qed

lemma sort_eq_iff: "distinct xs \<Longrightarrow> distinct ys \<Longrightarrow> sort xs = sort ys \<longleftrightarrow> set xs = set ys"
  by (metis set_sort distinct_sort sorted_distinct_set_unique sorted_sort)

lemma sorted_names_Nil [simp]: "sorted_names xs = [] \<longleftrightarrow> xs = []"
  by (simp add: sorted_names_def) (metis length_0_conv length_sort)

lemma no_mismatch_iff:
  "mismatched_verifiable_planned_fields cap planned actual = [] \<longleftrightarrow>
     list_all (field_matches cap actual) planned \<and>
     access_exact_snapshot_optional_absence_mismatches cap planned actual = [] \<and>
     access_application_complete_snapshot_mismatches cap planned actual = [] \<and>
     access_human_policy_complete_snapshot_mismatches cap actual = []"
  by (auto simp: mismatched_verifiable_planned_fields_def filter_empty_conv list_all_iff)


section \<open>Sets compared as sets\<close>

text \<open>
  Two lists of the provider name the same collection: every item is read, no key occurs twice, and the
  items read are the same up to order.
\<close>

definition same_collection :: "bool \<Rightarrow> (json \<Rightarrow> 'a option) \<Rightarrow> ('a \<Rightarrow> 'b) \<Rightarrow> json list \<Rightarrow> json list \<Rightarrow> bool" where
  "same_collection some parse key xs ps \<longleftrightarrow>
     (\<exists>as bs. map parse xs = map Some as \<and> map parse ps = map Some bs \<and> distinct (map key as) \<and> distinct (map key bs) \<and>
        (some \<longrightarrow> as \<noteq> []) \<and> set as = set bs)"

definition normalised :: "bool \<Rightarrow> (json \<Rightarrow> 'a option) \<Rightarrow> ('a::linorder \<Rightarrow> 'b) \<Rightarrow> json list \<Rightarrow> 'a list option" where
  "normalised some parse key vs =
     Option.bind (those (map parse vs)) (\<lambda>as. Option.bind (distinct_sorted key as) (\<lambda>ys. if some then nonempty_list ys else Some ys))"

lemma sort_Nil: "sort xs = [] \<longleftrightarrow> xs = []"
  by (metis set_empty set_sort)

lemma normalised_Some:
  fixes key :: "'a::linorder \<Rightarrow> 'b::linorder"
  assumes "mono key"
  shows "normalised some parse key vs = Some ys \<longleftrightarrow>
    (\<exists>as. map parse vs = map Some as \<and> distinct (map key as) \<and> (some \<longrightarrow> as \<noteq> []) \<and> ys = sort as)"
proof -
  have "Option.bind (distinct_sorted key as) (\<lambda>ys. if some then nonempty_list ys else Some ys) = Some ys \<longleftrightarrow>
      distinct (map key as) \<and> (some \<longrightarrow> as \<noteq> []) \<and> ys = sort as" for as
    by (auto simp: bind_eq_Some_conv distinct_sorted_iff [where key = key, OF assms] nonempty_list_def sort_Nil split: if_splits)
  then show ?thesis by (simp add: normalised_def bind_eq_Some_conv those_Some_iff)
qed

lemma normalised_equal:
  fixes key :: "'a::linorder \<Rightarrow> 'b::linorder"
  assumes mono: "mono key"
  shows "zip_equal (normalised some parse key xs) (normalised some parse key ps) \<longleftrightarrow> same_collection some parse key xs ps"
proof -
  let ?reads = "\<lambda>vs as. map parse vs = map Some as \<and> distinct (map key as) \<and> (some \<longrightarrow> as \<noteq> [])"
  have equal: "sort as = sort bs \<longleftrightarrow> set as = set bs" if "?reads xs as" "?reads ps bs" for as bs
    using that by (intro sort_eq_iff) (simp_all add: distinct_map)
  have "zip_equal (normalised some parse key xs) (normalised some parse key ps) \<longleftrightarrow>
      (\<exists>z. normalised some parse key xs = Some z \<and> normalised some parse key ps = Some z)"
    by (auto simp: zip_equal_def split: option.splits)
  also have "\<dots> \<longleftrightarrow> (\<exists>as bs. ?reads xs as \<and> ?reads ps bs \<and> sort as = sort bs)"
    unfolding normalised_Some [OF mono] by blast
  also have "\<dots> \<longleftrightarrow> (\<exists>as bs. ?reads xs as \<and> ?reads ps bs \<and> set as = set bs)"
    by (intro arg_cong [where f = Ex] ext) (use equal in blast)
  also have "\<dots> \<longleftrightarrow> same_collection some parse key xs ps" unfolding same_collection_def by (metis set_empty)
  finally show ?thesis .
qed

lemma those_bind: "Option.bind (those (map f vs)) (\<lambda>as. those (map g as)) = those (map (\<lambda>v. Option.bind (f v) g) vs)"
proof (induction vs)
  case (Cons v vs)
  then show ?case
    by (cases "f v"; cases "those (map f vs)"; cases "g (the (f v))") (auto simp flip: Cons.IH)
qed simp

lemma normalised_fields:
  "normalized_idps vs = normalised True (\<lambda>v. Option.bind (json_as_str v) canonical_cloudflare_uuid) (\<lambda>x. x) vs"
  "normalized_access_string_set vs = normalised False nonempty_string (\<lambda>x. x) vs"
  "normalized_policies vs = normalised True policy_reference fst vs"
proof -
  show "normalized_idps vs = normalised True (\<lambda>v. Option.bind (json_as_str v) canonical_cloudflare_uuid) (\<lambda>x. x) vs"
    unfolding normalized_idps_def normalised_def those_bind [symmetric] by simp
qed (simp_all add: normalized_access_string_set_def normalized_policies_def normalised_def)

text \<open>
  C36. The order-insensitive comparison of Access collections is equality of sets: identity providers are
  equal as sets of canonical identifiers and policies as sets of identities with precedence, both not
  empty, custom pages and domains as sets of strings, always without repeated keys; no other field is
  ever found equal.
\<close>

theorem access_sets_compared:
  "access_application_set_field_matches name (Some (JArray xs)) (JArray ps) \<longleftrightarrow>
     name = ''allowed_idps'' \<and> same_collection True (\<lambda>v. Option.bind (json_as_str v) canonical_cloudflare_uuid) (\<lambda>x. x) xs ps \<or>
     name \<in> {''custom_pages'', ''self_hosted_domains''} \<and> same_collection False nonempty_string (\<lambda>x. x) xs ps \<or>
     name = ''policies'' \<and> same_collection True policy_reference fst xs ps"
proof -
  have "zip_equal (normalised True policy_reference fst xs) (normalised True policy_reference fst ps) \<longleftrightarrow>
      same_collection True policy_reference fst xs ps"
    by (rule normalised_equal) (auto simp: less_eq_prod_def mono_def)
  then show ?thesis
    unfolding access_application_set_field_matches_def normalised_fields by (auto simp: normalised_equal mono_def)
qed

end
