(* ===== verification/Verification.thy ===== *)
theory Verification
  imports Access_Readback Pagination Schema_Redaction
begin

text \<open>
  Proving that a mutation took effect (\<^verbatim>\<open>Executor::verify_plan_with_input\<close> in
  \<^verbatim>\<open>crates/cfctl-cloudflare/src/lib.rs\<close>, \<^verbatim>\<open>verify_created_resource\<close> in \<^verbatim>\<open>access_create.rs\<close>): each strategy
  reads the resource or the collection that holds it and compares the read with the plan. Building a
  request and sending it are parameters, gathered in a client. The results say what a passed
  verification means for the state that was read.
\<close>

section \<open>The client\<close>

record client =
  client_build :: "capability \<Rightarrow> call_input \<Rightarrow> cloudflare_error + request"
  client_send :: provider

record operation_verification =
  ov_strategy :: string
  ov_passed :: bool
  ov_basis :: string
  ov_readback :: response
  ov_correlated :: "json option"

definition read_input :: "json \<Rightarrow> call_input" where
  "read_input inputs = \<lparr>in_selectors = inputs, in_query = JObject [], in_body = None, if_match = None, if_none_match = None\<rparr>"

definition read_one :: "client \<Rightarrow> capability \<Rightarrow> json \<Rightarrow> cloudflare_error + response" where
  "read_one c cap inputs = res_bind (client_build c cap (read_input inputs)) (client_send c 0)"

definition read_all :: "client \<Rightarrow> capability \<Rightarrow> json \<Rightarrow> cloudflare_error + response" where
  "read_all c cap inputs = res_bind (client_build c cap (read_input inputs)) (send_paginated (client_send c))"

definition verdict :: "capability \<Rightarrow> bool \<Rightarrow> string \<Rightarrow> response \<Rightarrow> operation_verification" where
  "verdict cap passed why readback = \<lparr>ov_strategy = v_strategy (verification cap), ov_passed = passed, ov_basis = why,
     ov_readback = readback, ov_correlated = None\<rparr>"

definition show_bool :: "bool \<Rightarrow> string" where
  "show_bool b = (if b then ''true'' else ''false'')"

definition says :: "string \<Rightarrow> bool \<Rightarrow> string" where
  "says label b = label @ ''='' @ show_bool b"

definition not_proven :: "string \<Rightarrow> string list \<Rightarrow> string" where
  "not_proven what reasons = what @ '' ('' @ join '', '' reasons @ '')''"

definition outcome_reasons :: "response \<Rightarrow> response \<Rightarrow> string list" where
  "outcome_reasons applied readback = [says ''apply success'' (rs_success applied),
     ''readback HTTP '' @ show_nat (rs_status readback), says ''readback success'' (rs_success readback)]"

definition render_field_names :: "string list \<Rightarrow> string" where
  "render_field_names fit = (if fit = [] then ''none'' else join '','' fit)"

definition planned_body :: "call_input \<Rightarrow> (string \<times> json) list option" where
  "planned_body input = Option.bind (Option.bind (in_body input) json_as_object) nonempty_list"

definition without_key :: "string \<Rightarrow> (string \<times> json) list \<Rightarrow> (string \<times> json) list" where
  "without_key k m = filter (\<lambda>(k', _). k' \<noteq> k) m"

definition same_path_routing_header :: "capability \<Rightarrow> selector \<Rightarrow> bool" where
  "same_path_routing_header cap s \<longleftrightarrow>
     sel_location s = ''header'' \<and> sel_name s = ''cf-r2-jurisdiction'' \<and> \<not> sel_required s \<and> sel_value_type s = ''string'' \<and>
     product cap \<in> {''R2 Bucket'', ''R2 Object''}"

definition same_path_verification_capability :: "capability \<Rightarrow> string \<Rightarrow> string \<Rightarrow> string \<Rightarrow> capability" where
  "same_path_verification_capability mutation read_id name p =
     (capability_new read_id name ''GET'' p)
       \<lparr>product := product mutation, selectors := filter (same_path_routing_header mutation) (selectors mutation)\<rparr>"


section \<open>Exact resources\<close>

definition verify_exact_resource_delete :: "client \<Rightarrow> capability \<Rightarrow> response \<Rightarrow> call_input \<Rightarrow> cloudflare_error + operation_verification" where
  "verify_exact_resource_delete c cap applied input =
     res_bind (ok_or (same_path_read cap)
       (MissingVerificationTarget ''the hash-bound same-path delete readback contract is absent'')) (\<lambda>target.
     res_bind (read_one c (same_path_verification_capability cap (sp_read_capability_id target)
       ''Exact resource deletion verification readback'' (sp_path target)) (in_selectors input)) (\<lambda>readback.
     let passed = (rs_success applied \<and> rs_status readback = 404 \<and> \<not> rs_success readback)
     in Inr (verdict cap passed
          (if passed then ''the exact planned resource path returned not found after deletion''
           else not_proven ''exact resource deletion was not proven'' (outcome_reasons applied readback)) readback)))"

definition verify_worker_script_delete :: "client \<Rightarrow> capability \<Rightarrow> response \<Rightarrow> call_input \<Rightarrow> cloudflare_error + operation_verification" where
  "verify_worker_script_delete c cap applied input =
     res_bind (ok_or (same_path_read cap)
       (MissingVerificationTarget ''the hash-bound Worker script settings readback contract is absent'')) (\<lambda>target.
     res_bind (read_one c (same_path_verification_capability cap (sp_read_capability_id target)
       ''Worker script deletion settings readback'' (sp_path target)) (in_selectors input)) (\<lambda>readback.
     let passed = (rs_success applied \<and> rs_status readback = 404 \<and> \<not> rs_success readback)
     in Inr (verdict cap passed
          (if passed then ''the script's settings sub-path returned not found after deletion''
           else not_proven ''Worker script deletion was not proven''
             [says ''apply success'' (rs_success applied), ''settings readback HTTP '' @ show_nat (rs_status readback),
              says ''readback success'' (rs_success readback)]) readback)))"

definition update_operation :: "capability \<Rightarrow> string" where
  "update_operation cap =
     (if v_strategy (verification cap) = ''same_path_result_contains_planned_fields_after_mutation'' then ''mutation'' else ''update'')"

definition verify_exact_resource_update :: "client \<Rightarrow> capability \<Rightarrow> response \<Rightarrow> call_input \<Rightarrow> cloudflare_error + operation_verification" where
  "verify_exact_resource_update c cap applied input =
     (let operation = update_operation cap in
      res_bind (ok_or (same_path_read cap) (MissingVerificationTarget
        (''the hash-bound same-path '' @ operation @ '' readback contract is absent''))) (\<lambda>target.
      res_bind (ok_or (planned_body input) (MissingVerificationTarget
        (''planned '' @ operation @ '' body is absent, empty, or not an object''))) (\<lambda>planned.
      res_bind (read_one c (same_path_verification_capability cap (sp_read_capability_id target)
        (''Exact resource '' @ operation @ '' verification readback'') (sp_path target)) (in_selectors input)) (\<lambda>readback.
      let mismatches = mismatched_verifiable_planned_fields cap planned (rs_result readback);
          identity_matches = exact_resource_readback_identity_matches cap (in_selectors input) (rs_result readback);
          passed = (rs_success applied \<and> rs_success readback \<and> identity_matches \<and> mismatches = [])
      in Inr (verdict cap passed
           (if passed
            then ''the exact resource readback matched its planned identity and contained every planned '' @ operation @ '' field''
            else not_proven (''exact resource '' @ operation @ '' was not proven'') (outcome_reasons applied readback @
              [says ''identity match'' identity_matches, ''fields='' @ render_field_names mismatches])) readback)))))"


section \<open>Collections\<close>

definition pointer_identity :: "json \<Rightarrow> string \<Rightarrow> string option" where
  "pointer_identity item pointer = Option.bind (json_pointer item pointer) json_as_str"

definition nonempty_pointer_identity :: "json \<Rightarrow> string \<Rightarrow> string option" where
  "nonempty_pointer_identity item pointer = Option.bind (json_pointer item pointer) nonempty_string"

definition identities_valid :: "json list option \<Rightarrow> string \<Rightarrow> bool" where
  "identities_valid items pointer \<longleftrightarrow>
     (case items of None \<Rightarrow> False | Some vs \<Rightarrow> list_all (\<lambda>v. nonempty_pointer_identity v pointer \<noteq> None) vs)"

definition matching_items :: "json list option \<Rightarrow> string \<Rightarrow> string \<Rightarrow> json list" where
  "matching_items items pointer identity =
     filter (\<lambda>v. pointer_identity v pointer = Some identity) (case items of None \<Rightarrow> [] | Some vs \<Rightarrow> vs)"

definition first_matches :: "capability \<Rightarrow> (string \<times> json) list \<Rightarrow> json list \<Rightarrow> bool" where
  "first_matches cap planned items \<longleftrightarrow>
     (case items of [] \<Rightarrow> False | item # _ \<Rightarrow> mismatched_verifiable_planned_fields cap planned item = [])"

definition planned_identity :: "call_input \<Rightarrow> string \<Rightarrow> string \<Rightarrow> cloudflare_error + string" where
  "planned_identity input selector reason = ok_or (identity_of (in_selectors input) selector) (MissingVerificationTarget reason)"

definition planned_selectors :: "call_input \<Rightarrow> string \<Rightarrow> cloudflare_error + (string \<times> json) list" where
  "planned_selectors input reason = ok_or (json_as_object (in_selectors input)) (MissingVerificationTarget reason)"

definition verify_parent_collection_delete :: "client \<Rightarrow> capability \<Rightarrow> response \<Rightarrow> call_input \<Rightarrow> cloudflare_error + operation_verification" where
  "verify_parent_collection_delete c cap applied input =
     res_bind (ok_or (deleted_resource cap) (MissingVerificationTarget ''the hash-bound deleted-resource contract is absent'')) (\<lambda>target.
     res_bind (planned_identity input (dr_identity_selector target)
       ''the planned delete selector has no non-empty resource identity'') (\<lambda>deleted.
     res_bind (planned_selectors input ''planned delete selectors are not an object'') (\<lambda>inputs.
     res_bind (read_all c (capability_new (dr_read_capability_id target) ''Deleted resource collection verification readback''
       ''GET'' (dr_collection_path target)) (JObject (without_key (dr_identity_selector target) inputs))) (\<lambda>readback.
     let whole = collection_pagination_complete (dr_requires_page_number_completion target) readback;
         items = json_as_array (rs_result readback);
         shape = identities_valid items (dr_response_item_identity_pointer target);
         absent = (items \<noteq> None \<and> list_all (\<lambda>v. nonempty_pointer_identity v (dr_response_item_identity_pointer target) \<noteq> Some deleted) (the items));
         passed = (rs_success applied \<and> rs_success readback \<and> whole \<and> shape \<and> absent)
     in Inr (verdict cap passed
          (if passed then ''the complete schema-proven parent collection omitted the exact deleted resource identity''
           else not_proven ''parent collection did not prove deletion'' (outcome_reasons applied readback @
             [says ''pagination complete'' whole, says ''result array'' (items \<noteq> None), says ''item identities valid'' shape,
              says ''deleted identity absent'' absent])) readback)))))"

definition collection_reasons :: "response \<Rightarrow> response \<Rightarrow> bool \<Rightarrow> bool \<Rightarrow> bool \<Rightarrow> nat \<Rightarrow> bool \<Rightarrow> string list" where
  "collection_reasons applied readback whole listed shape n fit = outcome_reasons applied readback @
     [says ''pagination complete'' whole, says ''result array'' listed, says ''item identities valid'' shape,
      ''identity matches='' @ show_nat n, says ''planned fields match'' fit]"

definition verify_parent_collection_update :: "client \<Rightarrow> capability \<Rightarrow> response \<Rightarrow> call_input \<Rightarrow> cloudflare_error + operation_verification" where
  "verify_parent_collection_update c cap applied input =
     res_bind (ok_or (updated_resource cap) (MissingVerificationTarget ''the hash-bound updated-resource contract is absent'')) (\<lambda>target.
     res_bind (planned_identity input (ur_identity_selector target)
       ''the planned update selector has no non-empty resource identity'') (\<lambda>updated.
     res_bind (ok_or (planned_body input) (MissingVerificationTarget ''planned update body is absent, empty, or not an object'')) (\<lambda>planned.
     res_bind (planned_selectors input ''planned update selectors are not an object'') (\<lambda>inputs.
     res_bind (read_all c (capability_new (ur_read_capability_id target) ''Updated resource collection verification readback''
       ''GET'' (ur_collection_path target)) (JObject (without_key (ur_identity_selector target) inputs))) (\<lambda>readback.
     let whole = collection_pagination_complete (ur_requires_page_number_completion target) readback;
         items = json_as_array (rs_result readback);
         shape = identities_valid items (ur_response_item_identity_pointer target);
         found = matching_items items (ur_response_item_identity_pointer target) updated;
         fit = first_matches cap planned found;
         passed = (rs_success applied \<and> rs_success readback \<and> whole \<and> shape \<and> length found = 1 \<and> fit)
     in Inr (verdict cap passed
          (if passed
           then ''the complete schema-proven parent collection contained exactly one matching identity with every planned update field''
           else not_proven ''parent collection did not prove update''
             (collection_reasons applied readback whole (items \<noteq> None) shape (length found) fit)) readback))))))"

definition is_worker_tail_create_capability :: "capability \<Rightarrow> bool" where
  "is_worker_tail_create_capability cap \<longleftrightarrow>
     cap_id cap = ''worker-tail-logs-start-tail'' \<and> http_method cap = ''POST'' \<and>
     path cap = ''/accounts/{account_id}/workers/scripts/{script_name}/tails'' \<and> product cap = ''Worker Tail Logs'' \<and>
     account_scope cap = ''account'' \<and> request_schema cap = None \<and> risk cap = Risk_SecretSensitive \<and>
     permissions cap = [''Workers Tail Read'', ''Workers Scripts Write''] \<and>
     v_strategy (verification cap) = ''worker_tail_collection_contains_created_lease_id''"

definition verify_created_collection_resource :: "client \<Rightarrow> capability \<Rightarrow> response \<Rightarrow> call_input \<Rightarrow> cloudflare_error + operation_verification" where
  "verify_created_collection_resource c cap applied input =
     res_bind (ok_or (created_collection_resource cap)
       (MissingVerificationTarget ''the hash-bound created-collection-resource contract is absent'')) (\<lambda>target.
     let worker_tail = is_worker_tail_create_capability cap in
     res_bind (if worker_tail then Inr None
       else res_bind (ok_or (planned_body input)
         (MissingVerificationTarget ''planned create body is absent, empty, or not an object'')) (\<lambda>planned. Inr (Some planned))) (\<lambda>planned.
     res_bind (ok_or (nonempty_pointer_identity (rs_result applied) (cc_response_result_identity_pointer target))
       (MissingVerificationTarget ''the successful creation response has no non-empty schema-proven identity'')) (\<lambda>created.
     res_bind (read_all c (capability_new (cc_read_capability_id target) ''Created resource collection verification readback''
       ''GET'' (cc_collection_path target)) (in_selectors input)) (\<lambda>readback.
     let whole = collection_pagination_complete (cc_requires_page_number_completion target) readback;
         items = json_as_array (rs_result readback);
         shape = identities_valid items (cc_response_item_identity_pointer target);
         found = matching_items items (cc_response_item_identity_pointer target) created;
         fit = (worker_tail \<or> (case planned of None \<Rightarrow> False | Some body \<Rightarrow> first_matches cap body found));
         passed = (rs_success applied \<and> rs_success readback \<and> whole \<and> shape \<and> length found = 1 \<and> fit)
     in Inr (verdict cap passed
          (if passed then
             if worker_tail
             then ''the live Worker tail collection contained exactly one lease with the returned creation identity; the bearer URL remained sink-only''
             else ''the complete schema-proven parent collection contained exactly one returned creation identity with every planned field''
           else not_proven ''parent collection did not prove creation''
             (collection_reasons applied readback whole (items \<noteq> None) shape (length found) fit)) readback)))))"


section \<open>What a passed verification means\<close>

text \<open>
  The contract of a verifier that reads once: its verdict is about the read that the client made, it
  names the strategy of the capability, and it passes exactly when the mutation was reported successful
  and the read proves the effect.
\<close>

locale readback_verifier =
  fixes verify :: "client \<Rightarrow> capability \<Rightarrow> response \<Rightarrow> call_input \<Rightarrow> cloudflare_error + operation_verification"
    and reads :: "client \<Rightarrow> capability \<Rightarrow> response \<Rightarrow> call_input \<Rightarrow> cloudflare_error + response"
    and proves :: "capability \<Rightarrow> response \<Rightarrow> call_input \<Rightarrow> response \<Rightarrow> bool"
  assumes contract: "verify c cap applied input = Inr v \<Longrightarrow>
    reads c cap applied input = Inr (ov_readback v) \<and> ov_strategy v = v_strategy (verification cap) \<and>
    (ov_passed v \<longleftrightarrow> rs_success applied \<and> proves cap applied input (ov_readback v))"
begin

lemma passed_proves: "verify c cap applied input = Inr v \<Longrightarrow> ov_passed v \<Longrightarrow> proves cap applied input (ov_readback v)"
  using contract by blast

lemma failed_apply: "verify c cap applied input = Inr v \<Longrightarrow> \<not> rs_success applied \<Longrightarrow> \<not> ov_passed v"
  using contract by blast

lemma passed_iff:
  assumes "verify c cap applied input = Inr v" "rs_success applied"
  shows "ov_passed v \<longleftrightarrow> proves cap applied input (ov_readback v)"
  using contract [OF assms(1)] assms(2) by blast

lemma readback_unique:
  assumes "verify c cap applied input = Inr v" "verify c cap applied input = Inr v'"
  shows "ov_readback v = ov_readback v'"
  using assms by simp

end

lemma verdict_simps [simp]:
  "ov_strategy (verdict cap p w r) = v_strategy (verification cap)" "ov_passed (verdict cap p w r) = p"
  "ov_readback (verdict cap p w r) = r" "ov_correlated (verdict cap p w r) = None" "ov_basis (verdict cap p w r) = w"
  by (simp_all add: verdict_def)

definition same_path_reads :: "(capability \<Rightarrow> string) \<Rightarrow> client \<Rightarrow> capability \<Rightarrow> response \<Rightarrow> call_input \<Rightarrow> cloudflare_error + response" where
  "same_path_reads name c cap applied input =
     (case same_path_read cap of
        None \<Rightarrow> Inl (MissingVerificationTarget [])
      | Some target \<Rightarrow> read_one c (same_path_verification_capability cap (sp_read_capability_id target) (name cap) (sp_path target)) (in_selectors input))"

definition gone :: "capability \<Rightarrow> response \<Rightarrow> call_input \<Rightarrow> response \<Rightarrow> bool" where
  "gone cap applied input readback \<longleftrightarrow> rs_status readback = 404 \<and> \<not> rs_success readback"

interpretation exact_delete: readback_verifier verify_exact_resource_delete
  "same_path_reads (\<lambda>_. ''Exact resource deletion verification readback'')" gone
  by unfold_locales (auto simp: verify_exact_resource_delete_def same_path_reads_def gone_def result_simps Let_def)

interpretation script_delete: readback_verifier verify_worker_script_delete
  "same_path_reads (\<lambda>_. ''Worker script deletion settings readback'')" gone
  by unfold_locales (auto simp: verify_worker_script_delete_def same_path_reads_def gone_def result_simps Let_def)

definition holds_planned :: "capability \<Rightarrow> response \<Rightarrow> call_input \<Rightarrow> response \<Rightarrow> bool" where
  "holds_planned cap applied input readback \<longleftrightarrow>
     rs_success readback \<and> exact_resource_readback_identity_matches cap (in_selectors input) (rs_result readback) \<and>
     (\<exists>planned. planned_body input = Some planned \<and> mismatched_verifiable_planned_fields cap planned (rs_result readback) = [])"

interpretation exact_update: readback_verifier verify_exact_resource_update
  "same_path_reads (\<lambda>cap. ''Exact resource '' @ update_operation cap @ '' verification readback'')" holds_planned
  by unfold_locales (auto simp: verify_exact_resource_update_def same_path_reads_def holds_planned_def result_simps Let_def)

text \<open>A read of the collection that a contract names, without the selector of the item.\<close>

definition collection_reads :: "(capability \<Rightarrow> (string \<times> string \<times> string) option) \<Rightarrow> string \<Rightarrow> client \<Rightarrow> capability \<Rightarrow> response \<Rightarrow> call_input
    \<Rightarrow> cloudflare_error + response" where
  "collection_reads contract_of name c cap applied input =
     (case contract_of cap of
        None \<Rightarrow> Inl (MissingVerificationTarget [])
      | Some (read_id, collection, selector) \<Rightarrow>
          (case json_as_object (in_selectors input) of
             None \<Rightarrow> Inl (MissingVerificationTarget [])
           | Some inputs \<Rightarrow> read_all c (capability_new read_id name ''GET'' collection) (JObject (without_key selector inputs))))"

definition delete_contract :: "capability \<Rightarrow> (string \<times> string \<times> string) option" where
  "delete_contract cap =
     map_option (\<lambda>t. (dr_read_capability_id t, dr_collection_path t, dr_identity_selector t)) (deleted_resource cap)"

definition update_contract :: "capability \<Rightarrow> (string \<times> string \<times> string) option" where
  "update_contract cap =
     map_option (\<lambda>t. (ur_read_capability_id t, ur_collection_path t, ur_identity_selector t)) (updated_resource cap)"

definition omits_deleted :: "capability \<Rightarrow> response \<Rightarrow> call_input \<Rightarrow> response \<Rightarrow> bool" where
  "omits_deleted cap applied input readback \<longleftrightarrow>
     rs_success readback \<and>
     (\<exists>target deleted items. deleted_resource cap = Some target \<and> identity_of (in_selectors input) (dr_identity_selector target) = Some deleted \<and>
        rs_result readback = JArray items \<and> collection_pagination_complete (dr_requires_page_number_completion target) readback \<and>
        (\<forall>item \<in> set items. \<exists>i. nonempty_pointer_identity item (dr_response_item_identity_pointer target) = Some i \<and> i \<noteq> deleted))"

lemma json_as_array_Some: "json_as_array v = Some vs \<longleftrightarrow> v = JArray vs"
  by (cases v) auto

lemma identities_valid_iff:
  "identities_valid (json_as_array v) pointer \<longleftrightarrow>
     (\<exists>vs. v = JArray vs \<and> (\<forall>item \<in> set vs. \<exists>i. nonempty_pointer_identity item pointer = Some i))"
  by (cases v) (auto simp: identities_valid_def list_all_iff)

lemma matching_items_Some: "matching_items (Some vs) pointer i = filter (\<lambda>v. pointer_identity v pointer = Some i) vs"
  by (simp add: matching_items_def)

lemma first_matches_Cons: "first_matches cap planned (item # items) \<longleftrightarrow> mismatched_verifiable_planned_fields cap planned item = []"
  by (simp add: first_matches_def)

lemmas collection_simps = identities_valid_iff matching_items_Some first_matches_Cons planned_identity_def planned_selectors_def
  result_simps Let_def length_Suc_conv

interpretation collection_delete: readback_verifier verify_parent_collection_delete
  "collection_reads delete_contract ''Deleted resource collection verification readback''" omits_deleted
  by unfold_locales
    (fastforce simp: verify_parent_collection_delete_def collection_reads_def delete_contract_def omits_deleted_def list_all_iff
      collection_simps)

definition sole_item_holds :: "capability \<Rightarrow> response \<Rightarrow> call_input \<Rightarrow> response \<Rightarrow> bool" where
  "sole_item_holds cap applied input readback \<longleftrightarrow>
     rs_success readback \<and>
     (\<exists>target updated planned items item. updated_resource cap = Some target \<and>
        identity_of (in_selectors input) (ur_identity_selector target) = Some updated \<and> planned_body input = Some planned \<and>
        rs_result readback = JArray items \<and> collection_pagination_complete (ur_requires_page_number_completion target) readback \<and>
        (\<forall>item \<in> set items. \<exists>i. nonempty_pointer_identity item (ur_response_item_identity_pointer target) = Some i) \<and>
        filter (\<lambda>v. pointer_identity v (ur_response_item_identity_pointer target) = Some updated) items = [item] \<and>
        mismatched_verifiable_planned_fields cap planned item = [])"

interpretation collection_update: readback_verifier verify_parent_collection_update
  "collection_reads update_contract ''Updated resource collection verification readback''" sole_item_holds
  by unfold_locales
    (fastforce simp: verify_parent_collection_update_def collection_reads_def update_contract_def sole_item_holds_def collection_simps)


section \<open>Updates are observed\<close>

lemma generic_field_matches:
  assumes "field_matches cap actual (name, x)" "\<not> is_application_snapshot cap" "\<not> is_policy_snapshot cap"
  shows "contains_verifiable_planned_value (json_get actual (response_field cap name)) x (request_schema cap) [Property name] 0"
  using assms unfolding field_matches_def access_application_field_is_order_insensitive_def is_application_snapshot_def
    is_policy_snapshot_def by (auto split: if_splits)

text \<open>What no mismatch means: each planned value is in what was read, at its own place.\<close>

lemma fields_observed:
  assumes "mismatched_verifiable_planned_fields cap planned actual = []" "\<not> is_application_snapshot cap" "\<not> is_policy_snapshot cap"
    and "value_at (JObject planned) (Field name # trail) = Some x" "is_leaf x"
  shows "omitted_on (request_schema cap) [Property name] trail \<or>
    (\<exists>y a. bt_get planned name = Some y \<and> json_get actual (response_field cap name) = Some a \<and>
       observed (request_schema cap) [Property name] a y trail)"
proof -
  obtain y where y: "bt_get planned name = Some y" "value_at y trail = Some x"
    using assms(4) by (auto simp: bind_eq_Some_conv)
  then have "field_matches cap actual (name, y)"
    using assms(1) by (auto simp: no_mismatch_iff list_all_iff bt_get_def dest: map_of_SomeD)
  from generic_field_matches [OF this assms(2,3)] have
    "contains_verifiable 65 (json_get actual (response_field cap name)) y (request_schema cap) [Property name]"
    by (simp add: contains_verifiable_planned_value_def)
  from contains_observed [OF this y(2) assms(5)] y(1) show ?thesis by blast
qed

text \<open>
  C10. When the verification of an update of an exact resource passes, outside the two Access snapshots
  with a comparison of their own, the update was reported successful, the verdict carries the client's own
  live read of the resource's path with the planned selectors, that read is of the planned resource, and
  every planned value is in it: each string, number, boolean, null or empty array of the planned body, at
  any depth, is at the end of the same trail of field names and items, an item being found at its position
  or, where the schema declares an identity, as the one item with its identity; except what the schema
  declares unobservable.
\<close>

theorem verified_update_observed:
  assumes "verify_exact_resource_update c cap applied input = Inr v" "ov_passed v"
    and "\<not> is_application_snapshot cap" "\<not> is_policy_snapshot cap"
    and "planned_body input = Some planned" "value_at (JObject planned) (Field name # trail) = Some x" "is_leaf x"
  shows "rs_success applied \<and>
    (\<exists>target live. same_path_read cap = Some target \<and>
       read_one c (same_path_verification_capability cap (sp_read_capability_id target)
         (''Exact resource '' @ update_operation cap @ '' verification readback'') (sp_path target)) (in_selectors input) = Inr live \<and>
       ov_readback v = live \<and> rs_success live \<and>
       exact_resource_readback_identity_matches cap (in_selectors input) (rs_result live) \<and>
       (omitted_on (request_schema cap) [Property name] trail \<or>
        (\<exists>y a. bt_get planned name = Some y \<and> json_get (rs_result live) (response_field cap name) = Some a \<and>
           observed (request_schema cap) [Property name] a y trail)))"
proof -
  obtain target where "same_path_read cap = Some target"
    "read_one c (same_path_verification_capability cap (sp_read_capability_id target)
       (''Exact resource '' @ update_operation cap @ '' verification readback'') (sp_path target)) (in_selectors input) = Inr (ov_readback v)"
    using exact_update.contract [OF assms(1)] by (auto simp: same_path_reads_def split: option.splits)
  moreover have "rs_success applied" using exact_update.failed_apply [OF assms(1)] assms(2) by blast
  moreover have held: "holds_planned cap applied input (ov_readback v)" using exact_update.passed_proves [OF assms(1,2)] .
  moreover from held have "mismatched_verifiable_planned_fields cap planned (rs_result (ov_readback v)) = []"
    using assms(5) by (simp add: holds_planned_def)
  ultimately show ?thesis using fields_observed [OF _ assms(3,4,6,7)] by (auto simp: holds_planned_def)
qed

text \<open>
  When the verification of an update by its collection passes, the client's own read of the whole
  collection, without the selector of the item, holds exactly one item with the planned identity, every
  other item has one of its own, and in that item every planned value is at its own place, as for an exact
  resource.
\<close>

lemma collection_update_observed:
  assumes "verify_parent_collection_update c cap applied input = Inr v" "ov_passed v"
    and "\<not> is_application_snapshot cap" "\<not> is_policy_snapshot cap"
    and "planned_body input = Some planned" "value_at (JObject planned) (Field name # trail) = Some x" "is_leaf x"
  shows "rs_success applied \<and>
    (\<exists>target inputs updated items item. updated_resource cap = Some target \<and> json_as_object (in_selectors input) = Some inputs \<and>
       identity_of (in_selectors input) (ur_identity_selector target) = Some updated \<and>
       read_all c (capability_new (ur_read_capability_id target) ''Updated resource collection verification readback''
         ''GET'' (ur_collection_path target)) (JObject (without_key (ur_identity_selector target) inputs)) = Inr (ov_readback v) \<and>
       collection_pagination_complete (ur_requires_page_number_completion target) (ov_readback v) \<and>
       rs_result (ov_readback v) = JArray items \<and>
       (\<forall>item \<in> set items. \<exists>i. nonempty_pointer_identity item (ur_response_item_identity_pointer target) = Some i) \<and>
       filter (\<lambda>v. pointer_identity v (ur_response_item_identity_pointer target) = Some updated) items = [item] \<and>
       (omitted_on (request_schema cap) [Property name] trail \<or>
        (\<exists>y a. bt_get planned name = Some y \<and> json_get item (response_field cap name) = Some a \<and>
           observed (request_schema cap) [Property name] a y trail)))"
proof -
  obtain target inputs where "updated_resource cap = Some target" "json_as_object (in_selectors input) = Some inputs"
    "read_all c (capability_new (ur_read_capability_id target) ''Updated resource collection verification readback''
       ''GET'' (ur_collection_path target)) (JObject (without_key (ur_identity_selector target) inputs)) = Inr (ov_readback v)"
    using collection_update.contract [OF assms(1)] by (auto simp: collection_reads_def update_contract_def split: option.splits)
  moreover have "rs_success applied" using collection_update.failed_apply [OF assms(1)] assms(2) by blast
  moreover have "sole_item_holds cap applied input (ov_readback v)" using collection_update.passed_proves [OF assms(1,2)] .
  ultimately show ?thesis using fields_observed [OF _ assms(3,4,6,7)] assms(5) unfolding sole_item_holds_def by fastforce
qed


section \<open>Deletions are complete\<close>

definition plain_collection :: "request \<Rightarrow> response \<Rightarrow> bool" where
  "plain_collection request first \<longleftrightarrow>
     is_get request \<and> \<not> request_is_worker_versions_list request \<and> \<not> request_is_queue_consumers_single_page request \<and>
     \<not> request_is_worker_collection request ''deployments'' \<and> accept_empty_single_page request first = None"

lemma complete_pages_reads:
  assumes "complete_pages send None request first p = Inr r" "rs_success r"
  shows "\<exists>rs. list_all2 (page_answers send request p) [current_page p + 1 ..< total_pages p + 1] rs \<and>
    rs_result r = JArray (concat (map (\<lambda>r. the (json_as_array (rs_result r))) (first # rs)))"
proof -
  obtain items final all where items: "json_as_array (rs_result first) = Some items"
    and loop: "page_loop send None request p [current_page p + 1 ..< total_pages p + 1] first items = Inr (Inr (final, all))"
    and r: "rs_result r = JArray all"
    by (rule complete_pages_elim [OF assms]) auto
  from page_loop_reads [OF loop] obtain rs where "list_all2 (page_answers send request p) [current_page p + 1 ..< total_pages p + 1] rs"
    "all = items @ concat (map (\<lambda>r. the (json_as_array (rs_result r))) rs)" by auto
  with items r show ?thesis by (intro exI [of _ rs]) simp
qed

lemma read_all_pages:
  assumes "read_all c cap inputs = Inr r" "rs_success r" "client_build c cap (read_input inputs) = Inr request"
    and "client_send c 0 request = Inr first" "plain_collection request first" "page_pagination (rs_info first) = Inr (Some p)"
  shows "\<exists>rs. list_all2 (page_answers (client_send c) request p) [current_page p + 1 ..< total_pages p + 1] rs \<and>
    rs_result r = JArray (concat (map (\<lambda>r. the (json_as_array (rs_result r))) (first # rs)))"
proof -
  have "send_paginated (client_send c) request = Inr r" using assms(1,3) by (simp add: read_all_def)
  moreover have "rs_success first"
    using calculation assms(2,4) by (cases "rs_success first") (simp_all add: send_paginated_def)
  ultimately have "complete_pages (client_send c) None request first p = Inr r"
    using assms(4-6) by (simp add: send_paginated_def plain_collection_def complete_page_pagination_def)
  then show ?thesis using assms(2) by (rule complete_pages_reads)
qed



section \<open>Examples\<close>

definition sample_answer :: "json \<Rightarrow> json option \<Rightarrow> response" where
  "sample_answer result info = \<lparr>rs_status = 200, rs_success = True, rs_result = result, rs_errors = [], rs_info = info, rs_etag = None, rs_ray = None\<rparr>"

definition sample_target :: request where
  "sample_target = \<lparr>req_method = ''GET'', req_segments = [''client'', ''v4'', ''zones'', ''z'', ''rules''], req_query = []\<rparr>"

definition sample_client :: "response \<Rightarrow> client" where
  "sample_client r = \<lparr>client_build = \<lambda>_ _. Inr sample_target, client_send = \<lambda>_ _. Inr r\<rparr>"

definition sample_update :: capability where
  "sample_update = (capability_new ''rules.edit'' ''Edit a rule'' ''PATCH'' ''/zones/{zone_id}/rules/{rule_id}'')
     \<lparr>same_path_read := Some \<lparr>sp_path = ''/zones/{zone_id}/rules/{rule_id}'', sp_read_capability_id = ''rules.get'', sp_verified_response_fields = [''mode'']\<rparr>\<rparr>"

definition sample_delete_target :: deleted_resource where
  "sample_delete_target = \<lparr>dr_collection_path = ''/zones/{zone_id}/rules'', dr_identity_selector = ''rule_id'',
     dr_response_item_identity_pointer = ''/id'', dr_read_capability_id = ''rules.list'', dr_requires_page_number_completion = True\<rparr>"

definition sample_delete :: capability where
  "sample_delete = (capability_new ''rules.delete'' ''Delete a rule'' ''DELETE'' ''/zones/{zone_id}/rules/{rule_id}'')
     \<lparr>deleted_resource := Some sample_delete_target\<rparr>"

definition sample_selectors :: "(string \<times> json) list" where
  "sample_selectors = [(''rule_id'', JString ''gone''), (''zone_id'', JString ''z'')]"

definition sample_call :: "json option \<Rightarrow> call_input" where
  "sample_call body = \<lparr>in_selectors = JObject sample_selectors, in_query = JObject [], in_body = body, if_match = None, if_none_match = None\<rparr>"

lemma passes:
  assumes "case r of Inl _ \<Rightarrow> False | Inr v \<Rightarrow> ov_passed v"
  obtains v where "r = Inr v" "ov_passed v"
  using assms by (cases r) auto

definition sample_rule :: json where
  "sample_rule = JObject [(''id'', JString ''gone''), (''mode'', JString ''strict'')]"

definition sample_body :: json where
  "sample_body = JObject [(''mode'', JString ''strict'')]"

theorem verified_update_observed_witness:
  "\<exists>v y a. verify_exact_resource_update (sample_client (sample_answer sample_rule None)) sample_update
       (sample_answer JNull None) (sample_call (Some sample_body)) = Inr v \<and> ov_readback v = sample_answer sample_rule None \<and>
     json_get sample_rule (response_field sample_update ''mode'') = Some a \<and> observed None [Property ''mode''] a y [] \<and>
     y = JString ''strict''"
proof -
  let ?verify = "verify_exact_resource_update (sample_client (sample_answer sample_rule None)) sample_update
       (sample_answer JNull None) (sample_call (Some sample_body))"
  have "case ?verify of Inl _ \<Rightarrow> False | Inr v \<Rightarrow> ov_passed v" by code_simp
  then obtain v where v: "?verify = Inr v" "ov_passed v" by (rule passes)
  have "\<not> is_application_snapshot sample_update" "\<not> is_policy_snapshot sample_update" by code_simp+
  moreover have "planned_body (sample_call (Some sample_body)) = Some [(''mode'', JString ''strict'')]" by code_simp
  moreover have "value_at (JObject [(''mode'', JString ''strict'')]) [Field ''mode''] = Some (JString ''strict'')" by code_simp
  moreover have "request_schema sample_update = None" by (simp add: sample_update_def capability_new_def Let_def)
  moreover have "read_one (sample_client r) cap inputs = Inr r" for r cap inputs by (simp add: read_one_def sample_client_def)
  moreover have "rs_result (sample_answer j info) = j" for j info by (simp add: sample_answer_def)
  ultimately show ?thesis
    using v verified_update_observed [OF v, of "[(''mode'', JString ''strict'')]" "''mode''" "[]" "JString ''strict''"]
    by (auto simp: omitted_on_def bt_get_def)
qed


end
