(* ===== verification/Access_Ownership.thy ===== *)
theory Access_Ownership
  imports Verification Content_Hash
begin

text \<open>
  Exact ownership of a hostname by an Access application
  (\<^verbatim>\<open>crates/cfctl-cloudflare/src/access_create.rs\<close>): the input of an owned creation, the overlap of a
  hostname with the hosts an application publishes, the receipt over the complete inventory of the
  account, and the verification of the creation. The result is that a verified creation is the only
  application of the account, on any page of the inventory, with its name or with a claim on its host.
\<close>

section \<open>Input\<close>

definition owned_create_id :: string where
  "owned_create_id = ''access-applications-create-owned-self-hosted-whole-host''"

definition applications_path :: string where
  "applications_path = ''/accounts/{account_id}/access/apps''"

definition applications_list_id :: string where
  "applications_list_id = ''access-applications-list-access-applications''"

definition invalid_ownership :: "string \<Rightarrow> cloudflare_error" where
  "invalid_ownership message = InvalidRequestBody (''owned Access application: '' @ message)"

definition clean_verification_query :: "call_input \<Rightarrow> bool" where
  "clean_verification_query input \<longleftrightarrow> in_query input = JNull \<or> in_query input = JObject []"

definition host_char :: "char \<Rightarrow> bool" where
  "host_char c \<longleftrightarrow> is_ascii_alphabetic c \<or> is_ascii_digit c \<or> c = CHR ''-''"

definition whole_hostname :: "string \<Rightarrow> bool" where
  "whole_hostname hostname \<longleftrightarrow>
     hostname = to_ascii_lowercase hostname \<and> \<not> length hostname > 253 \<and> CHR ''.'' \<in> set hostname \<and>
     \<not> list_ex (\<lambda>label. label = [] \<or> length label > 63 \<or> starts_with label ''-'' \<or> ends_with label ''-'' \<or>
       \<not> list_all host_char label) (split_char CHR ''.'' hostname)"

definition validate_owned_access_create_input :: "call_input \<Rightarrow> cloudflare_error + unit" where
  "validate_owned_access_create_input input =
     res_bind (ok_or (json_as_object (in_selectors input)) (invalid_ownership ''selectors must be an object'')) (\<lambda>inputs.
     res_bind (ensure (length inputs = 1 \<and> identity_of (JObject inputs) ''account_id'' \<noteq> None \<and> clean_verification_query input)
       (invalid_ownership ''requires only account_id and no query controls'')) (\<lambda>_.
     res_bind (ok_or (Option.bind (in_body input) json_as_object) (invalid_ownership ''complete body required'')) (\<lambda>body.
     res_bind (ok_or (string_entry (JObject body) ''domain'') (invalid_ownership ''domain required'')) (\<lambda>hostname.
     res_bind (ensure (whole_hostname hostname) (invalid_ownership ''domain must be an exact lowercase whole hostname'')) (\<lambda>_.
     ensure (bt_get body ''type'' = Some (JString ''self_hosted'') \<and> identity_of (JObject body) ''name'' \<noteq> None \<and>
         bt_get body ''policies'' = Some (JArray []) \<and> bt_get body ''options_preflight_bypass'' = Some (JBool False) \<and>
         bt_get body ''self_hosted_domains'' = None \<and>
         bt_get body ''destinations'' = Some (JArray [jobj [(''type'', JString ''public''), (''uri'', JString hostname)]]))
       (invalid_ownership ''requires one bare whole-host destination and empty policies without bypass''))))))"


section \<open>Overlapping hostnames\<close>

definition or_whole :: "'a option \<Rightarrow> 'a \<Rightarrow> 'a" where
  "or_whole x d = (case x of None \<Rightarrow> d | Some y \<Rightarrow> y)"

definition without_scheme :: "string \<Rightarrow> string" where
  "without_scheme s =
     (case strip_prefix s ''https://'' of Some raw \<Rightarrow> raw | None \<Rightarrow> or_whole (strip_prefix s ''http://'') s)"

definition host_of :: "string \<Rightarrow> string" where
  "host_of s =
     to_ascii_lowercase (rev (dropWhile (\<lambda>c. c = CHR ''.'') (rev (hd (split_char CHR ''/'' (without_scheme s))))))"

definition hostname_overlap :: "string \<Rightarrow> string \<Rightarrow> cloudflare_error + bool" where
  "hostname_overlap s target =
     (let host = host_of s; base = or_whole (strip_prefix host ''*.'') host in
      if host = [] \<or> list_ex (\<lambda>c. c \<in> set '':?#@'') host
      then Inl (invalid_ownership ''unclassified hostname in application inventory'')
      else if list_ex (\<lambda>label. label = [] \<or> \<not> list_all host_char label) (split_char CHR ''.'' base)
      then Inl (invalid_ownership ''unclassified hostname pattern in application inventory'')
      else Inr (host = target \<or> starts_with host ''*.'' \<and> ends_with target (''.'' @ base)))"

definition present :: "json \<Rightarrow> string \<Rightarrow> json option" where
  "present v k = (case json_get v k of Some JNull \<Rightarrow> None | r \<Rightarrow> r)"

text \<open>The overlap of each published host, in the order the source visits them.\<close>

definition domain_overlap :: "string \<Rightarrow> json \<Rightarrow> cloudflare_error + bool" where
  "domain_overlap hostname v =
     res_bind (ok_or (json_as_str v) (invalid_ownership ''non-string domain'')) (\<lambda>s. hostname_overlap s hostname)"

definition destination_overlap :: "string \<Rightarrow> json \<Rightarrow> cloudflare_error + bool list" where
  "destination_overlap hostname v =
     (if string_entry v ''type'' = Some ''public''
      then res_bind (ok_or (string_entry v ''uri'') (invalid_ownership ''public destination has no URI'')) (\<lambda>uri.
        res_bind (hostname_overlap uri hostname) (\<lambda>b. Inr [b]))
      else if string_entry v ''type'' = Some ''private'' then Inr []
      else Inl (invalid_ownership ''unclassified destination type''))"

definition listed_values :: "json \<Rightarrow> string \<Rightarrow> string \<Rightarrow> cloudflare_error + json list" where
  "listed_values app k reason =
     (case present app k of None \<Rightarrow> Inr [] | Some v \<Rightarrow> ok_or (json_as_array v) (invalid_ownership reason))"

definition access_application_host_overlap :: "json \<Rightarrow> string \<Rightarrow> cloudflare_error + bool" where
  "access_application_host_overlap app hostname =
     res_bind (ensure (case present app ''name'' of None \<Rightarrow> True | Some v \<Rightarrow> json_as_str v \<noteq> None)
       (invalid_ownership ''unclassified application name'')) (\<lambda>_.
     res_bind (ok_or (string_entry app ''type'') (invalid_ownership ''application type absent'')) (\<lambda>app_type.
     res_bind (ensure (app_type \<in> {''self_hosted'', ''app_launcher'', ''saas''})
       (invalid_ownership ''unclassified application type cannot prove hostname absence'')) (\<lambda>_.
     res_bind (case present app ''domain'' of None \<Rightarrow> Inr [] | Some v \<Rightarrow> res_map (domain_overlap hostname) [v]) (\<lambda>domain.
     res_bind (res_bind (listed_values app ''self_hosted_domains'' ''non-array domains'') (res_map (domain_overlap hostname))) (\<lambda>domains.
     res_bind (res_bind (listed_values app ''destinations'' ''non-array destinations'') (res_map (destination_overlap hostname))) (\<lambda>destinations.
     let overlaps = domain @ domains @ concat destinations in
     if app_type = ''self_hosted'' \<and> overlaps = []
     then Inl (invalid_ownership ''self-hosted application omitted observable hostname ownership'')
     else Inr (True \<in> set overlaps)))))))"


section \<open>The receipt over the inventory\<close>

definition inventory_complete :: "response \<Rightarrow> bool" where
  "inventory_complete r \<longleftrightarrow>
     (case rs_info r of
        None \<Rightarrow> False
      | Some info \<Rightarrow>
          (case u64_entry info ''page'' of None \<Rightarrow> False | Some page \<Rightarrow> page > 0) \<and> u64_entry info ''page'' = u64_entry info ''total_pages'' \<and>
          json_get info ''cfctl_page_complete'' = Some (JBool True))"

definition ok_status :: "nat \<Rightarrow> bool" where
  "ok_status n \<longleftrightarrow> 200 \<le> n \<and> n < 300"

fun scan_applications :: "string \<Rightarrow> string \<Rightarrow> string option \<Rightarrow> string list \<Rightarrow> json list \<Rightarrow> cloudflare_error + string list" where
  "scan_applications name host created ids [] = Inr []"
| "scan_applications name host created ids (app # apps) =
     res_bind (ok_or (identity_of app ''id'') (invalid_ownership ''application id absent'')) (\<lambda>i.
     res_bind (ensure (i \<notin> set ids \<and> identity_of app ''type'' \<noteq> None)
       (invalid_ownership ''duplicate identity or unclassified application'')) (\<lambda>_.
     res_bind (access_application_host_overlap app host) (\<lambda>overlap.
     res_bind (ensure (\<not> (created = Some i \<and> (string_entry app ''type'' \<noteq> Some ''self_hosted'' \<or> string_entry app ''name'' \<noteq> Some name \<or> \<not> overlap)))
       (invalid_ownership ''returned application identity drifted in inventory'')) (\<lambda>_.
     res_bind (scan_applications name host created (i # ids) apps) (\<lambda>candidates.
     Inr (if string_entry app ''name'' = Some name \<or> overlap then i # candidates else candidates))))))"

definition access_create_collection_receipt :: "env \<Rightarrow> call_input \<Rightarrow> response \<Rightarrow> string option \<Rightarrow> cloudflare_error + json" where
  "access_create_collection_receipt e input r created =
     res_bind (validate_owned_access_create_input input) (\<lambda>_.
     res_bind (ensure (rs_success r \<and> ok_status (rs_status r) \<and> inventory_complete r)
       (invalid_ownership ''complete successful terminal application inventory required'')) (\<lambda>_.
     res_bind (ok_or (json_as_array (rs_result r)) (invalid_ownership ''application inventory must be an array'')) (\<lambda>apps.
     res_bind (ok_or (in_body input) (invalid_ownership ''body absent'')) (\<lambda>body.
     res_bind (ok_or (string_entry body ''name'') (invalid_ownership ''name absent'')) (\<lambda>name.
     res_bind (ok_or (string_entry body ''domain'') (invalid_ownership ''domain absent'')) (\<lambda>host.
     res_bind (scan_applications name host created [] apps) (\<lambda>candidates.
     res_bind (ensure (candidates = (case created of None \<Rightarrow> [] | Some i \<Rightarrow> [i]))
       (invalid_ownership ''name or hostname ownership conflicts with the expected absence/returned identity'')) (\<lambda>_.
     Inr (jobj [(''schema_version'', jnat 1), (''capability_id'', JString owned_create_id),
       (''account_id'', or_whole (json_get (in_selectors input) ''account_id'') JNull), (''name'', JString name), (''hostname'', JString host),
       (''created_id'', jopt JString created), (''candidate_count'', jnat (length candidates)), (''collection_count'', jnat (length apps)),
       (''collection_digest'', JString (hash_value e (rs_result r))), (''terminal_pagination'', JBool True)])))))))))"


section \<open>Verifying an owned creation\<close>

definition exact_created_fields :: "json \<Rightarrow> json \<Rightarrow> bool" where
  "exact_created_fields body actual \<longleftrightarrow>
     (case json_as_object body of
        None \<Rightarrow> False
      | Some fs \<Rightarrow> list_all (\<lambda>(field, planned).
          if field = ''allowed_idps'' then access_application_set_field_matches field (json_get actual field) planned
          else json_get actual field = Some planned) fs)"

definition read_access_application_inventory :: "client \<Rightarrow> capability \<Rightarrow> call_input \<Rightarrow> cloudflare_error + response" where
  "read_access_application_inventory c cap input =
     res_bind (ensure (cap_id cap = applications_list_id \<and> http_method cap = ''GET'' \<and> path cap = applications_path \<and>
         clean_verification_query input \<and> in_body input = None)
       (invalid_ownership ''application inventory read contract drifted'')) (\<lambda>_.
     res_bind (client_build c cap input) (\<lambda>request.
     res_bind (client_send c 0 request) (\<lambda>first.
     if \<not> rs_success first then Inr first
     else
       res_bind (page_pagination (rs_info first)) (\<lambda>found.
       res_bind (ok_or found (invalid_ownership ''page-one application inventory metadata missing'')) (\<lambda>p.
       res_bind (ensure (current_page p = 1) (invalid_ownership ''application inventory did not start at page one'')) (\<lambda>_.
       complete_page_pagination (client_send c) request first p))))))"

text \<open>The text of an error of the receipt, which is always one of this module.\<close>

definition ownership_error_text :: "cloudflare_error \<Rightarrow> string" where
  "ownership_error_text err =
     (case err of InvalidRequestBody m \<Rightarrow> ''request body does not satisfy the pinned schema: '' @ m | _ \<Rightarrow> [])"

definition verify_owned_access_create :: "env \<Rightarrow> client \<Rightarrow> capability \<Rightarrow> response \<Rightarrow> call_input \<Rightarrow> cloudflare_error + operation_verification" where
  "verify_owned_access_create e c cap applied input =
     res_bind (validate_owned_access_create_input input) (\<lambda>_.
     res_bind (ok_or (identity_of (rs_result applied) ''id'')
       (invalid_ownership ''creation response omitted exact app ID; inspect consumed operation, never replay'')) (\<lambda>i.
     res_bind (read_one c (capability_new ''access-applications-get-an-access-application'' ''Owned Access app verification''
       ''GET'' (applications_path @ ''/{app_id}''))
       (jobj [(''account_id'', or_whole (json_get (in_selectors input) ''account_id'') JNull), (''app_id'', JString i)])) (\<lambda>detail.
     res_bind (read_access_application_inventory c (capability_new applications_list_id ''Owned Access app uniqueness'' ''GET'' applications_path)
       (read_input (in_selectors input))) (\<lambda>inventory.
     let ownership = access_create_collection_receipt e input inventory (Some i);
         passed = (rs_success applied \<and> ok_status (rs_status applied) \<and> rs_success detail \<and> ok_status (rs_status detail) \<and>
           string_entry (rs_result detail) ''id'' = Some i \<and>
           (case in_body input of None \<Rightarrow> False | Some body \<Rightarrow> exact_created_fields body (rs_result detail)) \<and> \<not> isl ownership)
     in Inr (verdict cap passed
          ''verified only when the returned application ID has every exact planned field, empty policies and unique whole-host ownership in a terminal account inventory''
          (detail\<lparr>rs_result := jobj
            [(''application'', rs_result detail),
             (''ownership'', case ownership of Inl _ \<Rightarrow> JNull | Inr r \<Rightarrow> r),
             (''ownership_error'', case ownership of Inl err \<Rightarrow> JString (ownership_error_text err) | Inr _ \<Rightarrow> JNull),
             (''inventory_digest'', JString (hash_value e (rs_result inventory))),
             (''inventory_result_info'', or_whole (rs_info inventory) JNull)]\<rparr>))))))"



section \<open>Ownership is exclusive\<close>

text \<open>What an application publishes, and which hosts a published value covers.\<close>

inductive publishes :: "json \<Rightarrow> string \<Rightarrow> bool" where
  by_domain: "json_get app ''domain'' = Some (JString s) \<Longrightarrow> publishes app s"
| by_domains: "json_get app ''self_hosted_domains'' = Some (JArray vs) \<Longrightarrow> JString s \<in> set vs \<Longrightarrow> publishes app s"
| by_destination: "json_get app ''destinations'' = Some (JArray vs) \<Longrightarrow> v \<in> set vs \<Longrightarrow> string_entry v ''type'' = Some ''public'' \<Longrightarrow>
    string_entry v ''uri'' = Some s \<Longrightarrow> publishes app s"

definition covers :: "string \<Rightarrow> string \<Rightarrow> bool" where
  "covers s host \<longleftrightarrow> host_of s = host \<or> (\<exists>base. host_of s = ''*.'' @ base \<and> ends_with host (''.'' @ base))"

definition claims :: "json \<Rightarrow> string \<Rightarrow> bool" where
  "claims app host \<longleftrightarrow> (\<exists>s. publishes app s \<and> covers s host)"

lemma starts_with_iff: "starts_with s p \<longleftrightarrow> (\<exists>rest. s = p @ rest)"
  by (metis starts_withE starts_with_append)

lemma hostname_overlap_covers: "hostname_overlap s target = Inr b \<Longrightarrow> b \<longleftrightarrow> covers s target"
  unfolding hostname_overlap_def covers_def Let_def
  by (auto simp: starts_with_iff strip_prefix_def or_whole_def split: if_splits)

lemma domain_overlap_Inr: "domain_overlap host v = Inr b \<longleftrightarrow> (\<exists>s. v = JString s \<and> hostname_overlap s host = Inr b)"
  by (cases v) (auto simp: domain_overlap_def result_simps)

lemma destination_overlap_Inr:
  "destination_overlap host v = Inr bs \<longleftrightarrow>
     string_entry v ''type'' = Some ''public'' \<and> (\<exists>s b. string_entry v ''uri'' = Some s \<and> hostname_overlap s host = Inr b \<and> bs = [b]) \<or>
     string_entry v ''type'' = Some ''private'' \<and> bs = []"
  by (auto simp: destination_overlap_def result_simps)

lemma present_Some: "present v k = Some x \<longleftrightarrow> json_get v k = Some x \<and> x \<noteq> JNull"
  by (auto simp: present_def split: option.splits json.splits)

lemma res_map_True:
  assumes "res_map f xs = Inr bs"
  shows "True \<in> set bs \<longleftrightarrow> (\<exists>x \<in> set xs. f x = Inr True)"
  using assms by (induction xs arbitrary: bs) (auto simp: res_bind_Inr_iff)

lemma res_map_concat_True:
  assumes "res_map f xs = Inr bss"
  shows "True \<in> set (concat bss) \<longleftrightarrow> (\<exists>x \<in> set xs. \<exists>bs. f x = Inr bs \<and> True \<in> set bs)"
  using assms by (induction xs arbitrary: bss) (auto simp: res_bind_Inr_iff)

lemma listed_values_Inr:
  assumes "listed_values app k reason = Inr vs"
  shows "v \<in> set vs \<longleftrightarrow> (\<exists>ws. json_get app k = Some (JArray ws) \<and> v \<in> set ws)"
  using assms unfolding listed_values_def present_def by (auto simp: result_simps split: option.splits json.splits)

lemma overlap_elements:
  assumes "res_map f xs = Inr bs" "x \<in> set xs"
  obtains b where "f x = Inr b"
  using assms by (induction xs arbitrary: bs) (auto simp: res_bind_Inr_iff)

lemma domains_overlap:
  assumes "res_map (domain_overlap host) vs = Inr bs"
  shows "True \<in> set bs \<longleftrightarrow> (\<exists>s. JString s \<in> set vs \<and> covers s host)"
proof -
  have "domain_overlap host v = Inr True \<longleftrightarrow> (\<exists>s. v = JString s \<and> covers s host)" if v: "v \<in> set vs" for v
  proof -
    obtain b where "domain_overlap host v = Inr b" using overlap_elements [OF assms v] .
    then obtain s where "v = JString s" "hostname_overlap s host = Inr b" unfolding domain_overlap_Inr by blast
    then show ?thesis using hostname_overlap_covers [of s host b] by (auto simp: domain_overlap_Inr)
  qed
  then show ?thesis unfolding res_map_True [OF assms] by blast
qed

lemma destinations_overlap:
  assumes "res_map (destination_overlap host) vs = Inr bss"
  shows "True \<in> set (concat bss) \<longleftrightarrow>
    (\<exists>v \<in> set vs. \<exists>s. string_entry v ''type'' = Some ''public'' \<and> string_entry v ''uri'' = Some s \<and> covers s host)"
proof -
  have "(\<exists>bs. destination_overlap host v = Inr bs \<and> True \<in> set bs) \<longleftrightarrow>
      (\<exists>s. string_entry v ''type'' = Some ''public'' \<and> string_entry v ''uri'' = Some s \<and> covers s host)" if v: "v \<in> set vs" for v
  proof -
    obtain bs where bs: "destination_overlap host v = Inr bs" using overlap_elements [OF assms v] .
    then consider s b where "string_entry v ''type'' = Some ''public''" "string_entry v ''uri'' = Some s" "hostname_overlap s host = Inr b" "bs = [b]"
      | "string_entry v ''type'' = Some ''private''" "bs = []" unfolding destination_overlap_Inr by blast
    then show ?thesis using bs by cases (auto dest: hostname_overlap_covers)
  qed
  then show ?thesis unfolding res_map_concat_True [OF assms] by blast
qed

lemma refused_unless: "(if b then Inl e else Inr x) = Inr y \<longleftrightarrow> \<not> b \<and> y = x"
  by auto

lemma claims_iff:
  "claims app host \<longleftrightarrow>
     (\<exists>s. json_get app ''domain'' = Some (JString s) \<and> covers s host) \<or>
     (\<exists>vs s. json_get app ''self_hosted_domains'' = Some (JArray vs) \<and> JString s \<in> set vs \<and> covers s host) \<or>
     (\<exists>vs v s. json_get app ''destinations'' = Some (JArray vs) \<and> v \<in> set vs \<and> string_entry v ''type'' = Some ''public'' \<and>
        string_entry v ''uri'' = Some s \<and> covers s host)"
  unfolding claims_def publishes.simps by blast

lemma host_overlap_claims:
  assumes "access_application_host_overlap app host = Inr b"
  shows "b \<longleftrightarrow> claims app host"
proof -
  obtain ds ss ts vs ws where ds: "(case present app ''domain'' of None \<Rightarrow> Inr [] | Some v \<Rightarrow> res_map (domain_overlap host) [v]) = Inr ds"
    and vs: "listed_values app ''self_hosted_domains'' ''non-array domains'' = Inr vs" "res_map (domain_overlap host) vs = Inr ss"
    and ws: "listed_values app ''destinations'' ''non-array destinations'' = Inr ws" "res_map (destination_overlap host) ws = Inr ts"
    and b: "b \<longleftrightarrow> True \<in> set (ds @ ss @ concat ts)"
    using assms unfolding access_application_host_overlap_def Let_def res_bind_Inr_iff refused_unless by metis
  have "True \<in> set ds \<longleftrightarrow> (\<exists>s. json_get app ''domain'' = Some (JString s) \<and> covers s host)"
  proof (cases "present app ''domain''")
    case None
    with ds show ?thesis by (auto simp: present_def split: option.splits json.splits)
  next
    case (Some v)
    with ds domains_overlap [of host "[v]" ds] show ?thesis by (auto simp: present_Some)
  qed
  moreover have "True \<in> set ss \<longleftrightarrow> (\<exists>ws s. json_get app ''self_hosted_domains'' = Some (JArray ws) \<and> JString s \<in> set ws \<and> covers s host)"
    unfolding domains_overlap [OF vs(2)] listed_values_Inr [OF vs(1)] by blast
  moreover have "True \<in> set (concat ts) \<longleftrightarrow> (\<exists>ws v s. json_get app ''destinations'' = Some (JArray ws) \<and> v \<in> set ws \<and>
      string_entry v ''type'' = Some ''public'' \<and> string_entry v ''uri'' = Some s \<and> covers s host)"
    unfolding destinations_overlap [OF ws(2)] Bex_def listed_values_Inr [OF ws(1)] by blast
  ultimately show ?thesis unfolding b claims_iff set_append Un_iff by (simp only:)
qed

definition candidate :: "string \<Rightarrow> string \<Rightarrow> json \<Rightarrow> bool" where
  "candidate name host app \<longleftrightarrow> string_entry app ''name'' = Some name \<or> claims app host"

lemma scan_candidates:
  assumes "scan_applications name host created ids apps = Inr cs"
  shows "map Some cs = map (\<lambda>app. identity_of app ''id'') (filter (candidate name host) apps)"
  using assms
proof (induction name host created ids apps arbitrary: cs rule: scan_applications.induct)
  case (2 name host created ids app apps)
  then obtain i overlap cs' where i: "identity_of app ''id'' = Some i" "access_application_host_overlap app host = Inr overlap"
    and rest: "scan_applications name host created (i # ids) apps = Inr cs'"
    and cs: "cs = (if string_entry app ''name'' = Some name \<or> overlap then i # cs' else cs')"
    by (auto simp: result_simps)
  have "map Some cs' = map (\<lambda>app. identity_of app ''id'') (filter (candidate name host) apps)"
    using 2 i rest by (auto simp: result_simps)
  with i(1) cs host_overlap_claims [OF i(2)] show ?case by (auto simp: candidate_def [of name host app])
qed simp

lemma receipt_candidates:
  assumes "access_create_collection_receipt e input r created = Inr receipt"
    and "in_body input = Some body" "string_entry body ''name'' = Some name" "string_entry body ''domain'' = Some host"
  shows "rs_success r \<and> (\<exists>apps. rs_result r = JArray apps \<and>
    map (\<lambda>app. identity_of app ''id'') (filter (candidate name host) apps) = map Some (case created of None \<Rightarrow> [] | Some i \<Rightarrow> [i]))"
proof -
  from assms obtain apps where "rs_success r" "rs_result r = JArray apps"
    "scan_applications name host created [] apps = Inr (case created of None \<Rightarrow> [] | Some i \<Rightarrow> [i])"
    unfolding access_create_collection_receipt_def by (auto simp: result_simps json_as_array_Some)
  with scan_candidates [of name host created "[]" apps] show ?thesis by metis
qed

lemma inventory_pages:
  assumes "read_access_application_inventory c cap input = Inr r" "rs_success r"
  shows "\<exists>request first p rs. client_build c cap input = Inr request \<and> client_send c 0 request = Inr first \<and>
    page_pagination (rs_info first) = Inr (Some p) \<and> current_page p = 1 \<and>
    list_all2 (page_answers (client_send c) request p) [2 ..< total_pages p + 1] rs \<and>
    rs_result r = JArray (concat (map (\<lambda>r. the (json_as_array (rs_result r))) (first # rs)))"
proof -
  from assms obtain request first p where read: "client_build c cap input = Inr request" "client_send c 0 request = Inr first"
      "page_pagination (rs_info first) = Inr (Some p)" "current_page p = 1"
    and pages: "complete_pages (client_send c) None request first p = Inr r"
    unfolding read_access_application_inventory_def complete_page_pagination_def by (auto simp: result_simps split: if_splits)
  from complete_pages_reads [OF pages assms(2)] read(4) obtain rs
    where "list_all2 (page_answers (client_send c) request p) [2 ..< total_pages p + 1] rs"
      "rs_result r = JArray (concat (map (\<lambda>r. the (json_as_array (rs_result r))) (first # rs)))"
    by (auto simp: numeral_2_eq_2)
  with read show ?thesis by blast
qed

lemma not_isl: "\<not> isl r \<longleftrightarrow> (\<exists>x. r = Inr x)"
  by (cases r) auto

lemma owned_create_passed:
  assumes "verify_owned_access_create e c cap applied input = Inr v" "ov_passed v"
  obtains i inventory receipt where "identity_of (rs_result applied) ''id'' = Some i"
    and "read_access_application_inventory c (capability_new applications_list_id ''Owned Access app uniqueness'' ''GET'' applications_path)
      (read_input (in_selectors input)) = Inr inventory"
    and "access_create_collection_receipt e input inventory (Some i) = Inr receipt"
  using assms unfolding verify_owned_access_create_def Let_def res_bind_Inr_iff ok_or_Inr_iff by (auto simp: not_isl)

text \<open>
  C15. When the verification of an owned Access creation passes, the hostname is exclusively owned: the
  inventory of the account was read from page one through its last page, and over all these pages the
  applications that carry the planned name, or publish a host equal to the planned one or a wildcard over
  it, are exactly the one application that the creation returned.
\<close>

theorem owned_create_exclusive:
  assumes "verify_owned_access_create e c cap applied input = Inr v" "ov_passed v"
    and "in_body input = Some body" "string_entry body ''name'' = Some name" "string_entry body ''domain'' = Some host"
  shows "\<exists>i request first p rs. identity_of (rs_result applied) ''id'' = Some i \<and>
    client_build c (capability_new applications_list_id ''Owned Access app uniqueness'' ''GET'' applications_path)
      (read_input (in_selectors input)) = Inr request \<and>
    client_send c 0 request = Inr first \<and> page_pagination (rs_info first) = Inr (Some p) \<and> current_page p = 1 \<and>
    list_all2 (page_answers (client_send c) request p) [2 ..< total_pages p + 1] rs \<and>
    map (\<lambda>app. identity_of app ''id'') (filter (candidate name host)
      (concat (map (\<lambda>r. the (json_as_array (rs_result r))) (first # rs)))) = [Some i]"
proof -
  obtain i inventory receipt where i: "identity_of (rs_result applied) ''id'' = Some i"
    and inventory: "read_access_application_inventory c (capability_new applications_list_id ''Owned Access app uniqueness'' ''GET'' applications_path)
      (read_input (in_selectors input)) = Inr inventory"
    and receipt: "access_create_collection_receipt e input inventory (Some i) = Inr receipt"
    using owned_create_passed [OF assms(1,2)] .
  from receipt_candidates [OF receipt assms(3-5)] obtain apps where apps: "rs_success inventory" "rs_result inventory = JArray apps"
    "map (\<lambda>app. identity_of app ''id'') (filter (candidate name host) apps) = [Some i]" by auto
  from inventory_pages [OF inventory apps(1)] obtain request first p rs where pages:
      "client_build c (capability_new applications_list_id ''Owned Access app uniqueness'' ''GET'' applications_path)
        (read_input (in_selectors input)) = Inr request" "client_send c 0 request = Inr first"
      "page_pagination (rs_info first) = Inr (Some p)" "current_page p = 1"
      "list_all2 (page_answers (client_send c) request p) [2 ..< total_pages p + 1] rs"
    and all: "rs_result inventory = JArray (concat (map (\<lambda>r. the (json_as_array (rs_result r))) (first # rs)))" by blast
  have "apps = concat (map (\<lambda>r. the (json_as_array (rs_result r))) (first # rs))" using all apps(2) by (simp only: json.inject)
  with apps(3) show ?thesis by (intro exI conjI) (rule i pages | simp only:)+
qed

definition sample_owned_body :: json where
  "sample_owned_body = jobj [(''type'', JString ''self_hosted''), (''name'', JString ''desk''), (''domain'', JString ''a.b''),
     (''policies'', JArray []), (''options_preflight_bypass'', JBool False),
     (''destinations'', JArray [jobj [(''type'', JString ''public''), (''uri'', JString ''a.b'')]])]"

definition sample_application :: json where
  "sample_application = (case sample_owned_body of JObject m \<Rightarrow> JObject (bt_insert ''id'' (JString ''new'') m) | v \<Rightarrow> v)"

definition sample_inventory :: response where
  "sample_inventory = sample_answer (JArray [sample_application,
       jobj [(''id'', JString ''old''), (''type'', JString ''self_hosted''), (''domain'', JString ''*.c.d'')]])
     (Some (JObject [(''page'', jnat 1), (''total_pages'', jnat 1)]))"

definition sample_owned_client :: client where
  "sample_owned_client = \<lparr>client_build = \<lambda>cap _. Inr \<lparr>req_method = ''GET'', req_segments = [cap_id cap], req_query = []\<rparr>,
     client_send = \<lambda>_ r. Inr (if req_segments r = [applications_list_id] then sample_inventory else sample_answer sample_application None)\<rparr>"

definition sample_owned_input :: call_input where
  "sample_owned_input = \<lparr>in_selectors = JObject [(''account_id'', JString ''acct'')], in_query = JObject [],
     in_body = Some sample_owned_body, if_match = None, if_none_match = None\<rparr>"

definition sample_env :: env where
  "sample_env = \<lparr>to_vec = \<lambda>_. [], sha256_hex = \<lambda>_. [], rfc3339 = \<lambda>_. [], capability_value = \<lambda>_. JNull\<rparr>"

theorem owned_create_exclusive_witness:
  "\<exists>v. verify_owned_access_create sample_env sample_owned_client (capability_new owned_create_id [] ''POST'' applications_path)
       (sample_answer sample_application None) sample_owned_input = Inr v \<and> ov_passed v \<and>
     (\<exists>i first p rs. list_all2 (page_answers (client_send sample_owned_client)
         \<lparr>req_method = ''GET'', req_segments = [applications_list_id], req_query = []\<rparr> p) [2 ..< total_pages p + 1] rs \<and>
       map (\<lambda>app. identity_of app ''id'') (filter (candidate ''desk'' ''a.b'')
         (concat (map (\<lambda>r. the (json_as_array (rs_result r))) (first # rs)))) = [Some i])"
proof -
  let ?verify = "verify_owned_access_create sample_env sample_owned_client (capability_new owned_create_id [] ''POST'' applications_path)
       (sample_answer sample_application None) sample_owned_input"
  have "case ?verify of Inl _ \<Rightarrow> False | Inr v \<Rightarrow> ov_passed v" by code_simp
  then obtain v where v: "?verify = Inr v" "ov_passed v" by (rule passes)
  have body: "in_body sample_owned_input = Some sample_owned_body" by (simp add: sample_owned_input_def)
  have entries: "string_entry sample_owned_body ''name'' = Some ''desk''" "string_entry sample_owned_body ''domain'' = Some ''a.b''" by code_simp+
  have build: "client_build sample_owned_client (capability_new i n m q) input = Inr \<lparr>req_method = ''GET'', req_segments = [i], req_query = []\<rparr>"
    for i n m q input by (simp add: sample_owned_client_def capability_new_def Let_def)
  from owned_create_exclusive [OF v body entries] obtain i first p rs where
      "list_all2 (page_answers (client_send sample_owned_client)
         \<lparr>req_method = ''GET'', req_segments = [applications_list_id], req_query = []\<rparr> p) [2 ..< total_pages p + 1] rs"
      "map (\<lambda>app. identity_of app ''id'') (filter (candidate ''desk'' ''a.b'')
         (concat (map (\<lambda>r. the (json_as_array (rs_result r))) (first # rs)))) = [Some i]"
    unfolding build sum.inject by (elim exE conjE) simp
  then show ?thesis using v by (intro exI conjI) assumption+
qed

end
