(* ===== verification/Verification_Strategies.thy ===== *)
theory Verification_Strategies
  imports Access_Ownership
begin

text \<open>
  The verifiers of \<^verbatim>\<open>crates/cfctl-cloudflare/src/lib.rs\<close> and \<^verbatim>\<open>access_create.rs\<close> for created and nested
  resources, Web Analytics rules, Pages deployments, DNS records, secrets and tokens, and those that the
  response alone decides. Reading a timestamp and the current time are parameters. The polling of a
  deployment is shown to end within its attempts.
\<close>

section \<open>Created resources\<close>

definition resource_identity_value :: "json \<Rightarrow> json option" where
  "resource_identity_value v =
     (case v of
        JString s \<Rightarrow> if s = [] then None else Some v
      | JNumber n \<Rightarrow> if number_as_u64 n \<noteq> None \<or> number_as_i64 n \<noteq> None then Some v else None
      | _ \<Rightarrow> None)"

definition details_capability :: "capability \<Rightarrow> string \<Rightarrow> string \<Rightarrow> string \<Rightarrow> capability" where
  "details_capability cap read_id name p = (capability_new read_id name ''GET'' p)\<lparr>selectors := selectors cap\<rparr>"

definition verify_created_resource :: "env \<Rightarrow> client \<Rightarrow> capability \<Rightarrow> response \<Rightarrow> call_input \<Rightarrow> cloudflare_error + operation_verification" where
  "verify_created_resource e c cap applied input =
     (if cap_id cap = owned_create_id then verify_owned_access_create e c cap applied input
      else
     res_bind (ok_or (created_resource cap) (MissingVerificationTarget ''the hash-bound created-resource contract is absent'')) (\<lambda>target.
     res_bind (ok_or (planned_body input) (MissingVerificationTarget ''planned create body is absent, empty, or not an object'')) (\<lambda>planned.
     res_bind (ok_or (Option.bind (json_pointer (rs_result applied) (cr_response_result_identity_pointer target)) resource_identity_value)
       (MissingVerificationTarget ''the successful creation response has no non-empty string or integer schema-proven identity'')) (\<lambda>created.
     res_bind (planned_selectors input ''planned create selectors are not an object'') (\<lambda>inputs.
     res_bind (read_one c (details_capability cap (cr_read_capability_id target) ''Created resource verification readback''
       (cr_detail_path target)) (JObject (bt_insert (cr_identity_selector target) created inputs))) (\<lambda>readback.
     let read_identity = Option.bind (json_pointer (rs_result readback) (cr_response_result_identity_pointer target)) resource_identity_value;
         mismatches = extend_r2_bucket_create_mismatches cap (in_selectors input) (rs_result readback)
           (mismatched_verifiable_planned_fields cap planned (rs_result readback));
         passed = (rs_success applied \<and> rs_success readback \<and> read_identity = Some created \<and> mismatches = [])
     in Inr (verdict cap passed
          (if passed then ''the exact created-resource readback matched the returned identity and every planned field''
           else not_proven ''created resource was not proven'' (outcome_reasons applied readback @
             [says ''identity match'' (read_identity = Some created), ''fields='' @ render_field_names mismatches])) readback)))))))"


section \<open>Nested resources\<close>

definition items_at :: "json \<Rightarrow> string \<Rightarrow> json list option" where
  "items_at v pointer = Option.bind (json_pointer v pointer) json_as_array"

definition listed :: "json list option \<Rightarrow> json list" where
  "listed items = (case items of None \<Rightarrow> [] | Some vs \<Rightarrow> vs)"

definition verify_created_nested_resource :: "client \<Rightarrow> capability \<Rightarrow> response \<Rightarrow> call_input \<Rightarrow> cloudflare_error + operation_verification" where
  "verify_created_nested_resource c cap applied input =
     res_bind (ok_or (created_nested_resource cap)
       (MissingVerificationTarget ''the hash-bound created-nested-resource contract is absent'')) (\<lambda>target.
     res_bind (ok_or (planned_body input)
       (MissingVerificationTarget ''planned nested-resource create body is absent, empty, or not an object'')) (\<lambda>planned.
     res_bind (ok_or (Option.bind (bt_get planned (cn_correlation_field target)) nonempty_string)
       (MissingVerificationTarget ''planned nested-resource correlation value is absent or empty'')) (\<lambda>correlation.
     let correlated = (\<lambda>item. string_entry item (cn_correlation_field target) = Some correlation);
         apply_items = items_at (rs_result applied) (cn_items_pointer target);
         apply_matches = filter correlated (listed apply_items);
         created = (if length apply_matches = 1
           then nonempty_pointer_identity (apply_matches ! 0) (cn_response_item_identity_pointer target) else None);
         apply_fit = first_matches cap planned apply_matches in
     res_bind (read_one c (capability_new (cn_read_capability_id target) ''Created nested resource parent verification readback''
       ''GET'' (cn_parent_path target)) (in_selectors input)) (\<lambda>readback.
     let read_items = items_at (rs_result readback) (cn_items_pointer target);
         read_matches = filter (\<lambda>item. correlated item \<and>
           pointer_identity item (cn_response_item_identity_pointer target) = created) (listed read_items);
         read_fit = first_matches cap planned read_matches;
         passed = (rs_success applied \<and> rs_success readback \<and> created \<noteq> None \<and> length apply_matches = 1 \<and> apply_fit \<and>
           length read_matches = 1 \<and> read_fit)
     in Inr (verdict cap passed
          (if passed
           then ''the apply response and live parent readback each contained exactly one nested resource correlated by `'' @
             cn_correlation_field target @ ''` with the same schema-proven identity and every planned field''
           else not_proven ''nested resource was not proven''
             [says ''apply success'' (rs_success applied), says ''apply items'' (apply_items \<noteq> None),
              ''apply matches='' @ show_nat (length apply_matches), says ''identity present'' (created \<noteq> None),
              says ''apply fields match'' apply_fit, ''readback HTTP '' @ show_nat (rs_status readback),
              says ''readback success'' (rs_success readback), says ''readback items'' (read_items \<noteq> None),
              ''readback matches='' @ show_nat (length read_matches), says ''readback fields match'' read_fit]) readback)))))"

definition verify_parent_object_nested_delete :: "client \<Rightarrow> capability \<Rightarrow> response \<Rightarrow> call_input \<Rightarrow> cloudflare_error + operation_verification" where
  "verify_parent_object_nested_delete c cap applied input =
     res_bind (ok_or (deleted_nested_resource cap)
       (MissingVerificationTarget ''the hash-bound deleted-nested-resource contract is absent'')) (\<lambda>target.
     res_bind (planned_identity input (dn_identity_selector target) ''planned nested-resource delete identity is absent or empty'') (\<lambda>deleted.
     res_bind (planned_selectors input ''planned nested-resource delete selectors are not an object'') (\<lambda>inputs.
     res_bind (read_one c (capability_new (dn_read_capability_id target) ''Deleted nested resource parent verification readback''
       ''GET'' (dn_parent_path target)) (JObject (without_key (dn_identity_selector target) inputs))) (\<lambda>readback.
     let items = items_at (rs_result readback) (dn_items_pointer target);
         found = length (matching_items items (dn_response_item_identity_pointer target) deleted);
         passed = (rs_success applied \<and> rs_success readback \<and> items \<noteq> None \<and> found = 0)
     in Inr (verdict cap passed
          (if passed then ''the live parent object omitted the exact nested resource identity after deletion''
           else not_proven ''nested-resource deletion was not proven'' (outcome_reasons applied readback @
             [says ''child array'' (items \<noteq> None), ''identity matches='' @ show_nat found])) readback)))))"


section \<open>Web Analytics rules\<close>

definition rules_path :: string where
  "rules_path = ''/accounts/{account_id}/rum/v2/{ruleset_id}/rules''"

definition rules_with_id :: "json list option \<Rightarrow> string \<Rightarrow> json list" where
  "rules_with_id rules identity = filter (\<lambda>rule. string_entry rule ''id'' = Some identity) (listed rules)"

definition verify_web_analytics_rule_create :: "client \<Rightarrow> capability \<Rightarrow> response \<Rightarrow> call_input \<Rightarrow> cloudflare_error + operation_verification" where
  "verify_web_analytics_rule_create c cap applied input =
     res_bind (ok_or (created_resource cap) (MissingVerificationTarget ''the hash-bound Web Analytics rule creation contract is absent'')) (\<lambda>target.
     res_bind (ok_or (planned_body input)
       (MissingVerificationTarget ''planned Web Analytics rule body is absent, empty, or not an object'')) (\<lambda>planned.
     res_bind (ok_or (nonempty_pointer_identity (rs_result applied) (cr_response_result_identity_pointer target))
       (MissingVerificationTarget ''the successful Web Analytics rule response has no schema-proven identity'')) (\<lambda>created.
     res_bind (read_one c (capability_new (cr_read_capability_id target) ''Web Analytics rule list verification readback''
       ''GET'' rules_path) (in_selectors input)) (\<lambda>readback.
     let rules = items_at (rs_result readback) ''/rules'';
         shape = (rules \<noteq> None \<and> list_all (\<lambda>rule. identity_of rule ''id'' \<noteq> None) (listed rules));
         found = rules_with_id rules created;
         fit = first_matches cap planned found;
         passed = (rs_success applied \<and> rs_success readback \<and> shape \<and> length found = 1 \<and> fit)
     in Inr (verdict cap passed
          (if passed
           then ''the live Web Analytics rules list contained exactly one returned creation identity with every planned field''
           else not_proven ''Web Analytics rule creation was not proven'' (outcome_reasons applied readback @
             [says ''rules array'' (rules \<noteq> None), says ''item identities valid'' shape,
              ''identity matches='' @ show_nat (length found), says ''planned fields match'' fit])) readback)))))"

definition verify_web_analytics_rule_delete :: "client \<Rightarrow> capability \<Rightarrow> response \<Rightarrow> call_input \<Rightarrow> cloudflare_error + operation_verification" where
  "verify_web_analytics_rule_delete c cap applied input =
     res_bind (planned_identity input ''rule_id'' ''planned Web Analytics rule deletion identity is absent or empty'') (\<lambda>deleted.
     res_bind (planned_selectors input ''planned Web Analytics rule deletion selectors are not an object'') (\<lambda>inputs.
     res_bind (read_one c (capability_new ''web-analytics-list-rules'' ''Web Analytics rule list deletion readback''
       ''GET'' rules_path) (JObject (without_key ''rule_id'' inputs))) (\<lambda>readback.
     let rules = items_at (rs_result readback) ''/rules'';
         found = length (rules_with_id rules deleted);
         passed = (rs_success applied \<and> rs_success readback \<and> rules \<noteq> None \<and> found = 0)
     in Inr (verdict cap passed
          (if passed then ''the complete live Web Analytics rules list omitted the exact deleted identity''
           else not_proven ''Web Analytics rule deletion was not proven'' (outcome_reasons applied readback @
             [says ''rules array'' (rules \<noteq> None), ''identity matches='' @ show_nat found])) readback))))"


section \<open>Pages deployments\<close>

text \<open>
  The bounded polling of a deployment. The \<^verbatim>\<open>Debug\<close> text of a stage, which escapes by Unicode tables, is
  a parameter.
\<close>

abbreviation max_poll_attempts :: nat where
  "max_poll_attempts \<equiv> 120"

definition deployment_verdict :: "(string option \<Rightarrow> string) \<Rightarrow> capability \<Rightarrow> response \<Rightarrow> string \<Rightarrow> string \<Rightarrow> nat \<Rightarrow> response
    \<Rightarrow> operation_verification option" where
  "deployment_verdict debug cap applied deployment project attempt readback =
     (let identity_matches = (string_entry (rs_result readback) ''id'' = Some deployment);
          project_matches = (string_entry (rs_result readback) ''project_name'' = Some project);
          production = (string_entry (rs_result readback) ''environment'' = Some ''production'');
          stage = pointer_identity (rs_result readback) ''/latest_stage/status'';
          invariant_matches = (rs_status applied = 200 \<and> rs_success applied \<and> rs_status readback = 200 \<and> rs_success readback \<and>
            identity_matches \<and> project_matches \<and> production);
          remains_active = (invariant_matches \<and> (stage = Some ''active'' \<or> stage = Some ''idle''))
      in if invariant_matches \<and> stage = Some ''success''
         then Some (verdict cap True (''the exact Pages production deployment '' @ deployment @ '' for project '' @ project @
           '' reached terminal success'') readback)
         else if remains_active \<and> attempt + 1 < max_poll_attempts then None
         else Some (verdict cap False
           (if remains_active
            then ''the exact Pages production deployment '' @ deployment @ '' remained '' @ debug stage @ '' after '' @
              show_nat max_poll_attempts @ '' bounded readback attempts''
            else not_proven ''Pages production deployment was not proven''
              [''apply HTTP '' @ show_nat (rs_status applied), says ''apply success'' (rs_success applied),
               ''readback HTTP '' @ show_nat (rs_status readback), says ''readback success'' (rs_success readback),
               says ''identity match'' identity_matches, says ''project match'' project_matches,
               says ''production environment'' production, ''terminal stage='' @ debug stage]) readback))"

fun poll :: "provider \<Rightarrow> (nat \<Rightarrow> response \<Rightarrow> operation_verification option) \<Rightarrow> request \<Rightarrow> nat list
    \<Rightarrow> cloudflare_error + operation_verification option" where
  "poll send decide request [] = Inr None"
| "poll send decide request (attempt # attempts) =
     res_bind (send attempt request) (\<lambda>readback.
     case decide attempt readback of
       Some v \<Rightarrow> Inr (Some v)
     | None \<Rightarrow> poll send decide request attempts)"

text \<open>The outcome \<^term>\<open>None\<close> of the polling stands for the \<^verbatim>\<open>unreachable!\<close> after the loop.\<close>

definition verify_pages_production_deployment :: "(string option \<Rightarrow> string) \<Rightarrow> client \<Rightarrow> capability \<Rightarrow> response \<Rightarrow> call_input
    \<Rightarrow> cloudflare_error + operation_verification option" where
  "verify_pages_production_deployment debug c cap applied input =
     res_bind (ok_or (created_resource cap) (MissingVerificationTarget ''the hash-bound Pages deployment readback contract is absent'')) (\<lambda>target.
     res_bind (ok_or (nonempty_pointer_identity (rs_result applied) (cr_response_result_identity_pointer target))
       (MissingVerificationTarget ''the successful Pages deployment response omitted its deployment ID'')) (\<lambda>deployment.
     res_bind (planned_identity input ''project_name'' ''the Pages deployment plan omitted its project_name selector'') (\<lambda>project.
     res_bind (planned_selectors input ''planned Pages deployment selectors are not an object'') (\<lambda>inputs.
     res_bind (client_build c (details_capability cap (cr_read_capability_id target)
       ''Pages production deployment verification readback'' (cr_detail_path target))
       (read_input (JObject (bt_insert (cr_identity_selector target) (JString deployment) inputs)))) (\<lambda>request.
     poll (client_send c) (deployment_verdict debug cap applied deployment project) request [0 ..< max_poll_attempts])))))"


section \<open>DNS records\<close>

datatype dns_expectation = MatchesPlannedFields | DnsDeleted

definition planned_selector :: "call_input \<Rightarrow> string \<Rightarrow> cloudflare_error + string" where
  "planned_selector input name = planned_identity input name (''planned '' @ name @ '' selector is absent'')"

definition dns_record_verification_target :: "string \<Rightarrow> call_input \<Rightarrow> response \<Rightarrow> cloudflare_error + string \<times> string \<times> dns_expectation" where
  "dns_record_verification_target strategy input applied =
     res_bind (planned_selector input ''zone_id'') (\<lambda>zone.
     if strategy = ''dns_record_details_match_created_id_and_planned_fields''
     then res_bind (ok_or (identity_of (rs_result applied) ''id'') (MissingVerificationTarget ''created DNS record id is absent''))
       (\<lambda>record. Inr (zone, record, MatchesPlannedFields))
     else if strategy = ''dns_record_details_match_planned_id_and_fields''
     then res_bind (planned_selector input ''dns_record_id'') (\<lambda>record. Inr (zone, record, MatchesPlannedFields))
     else if strategy = ''dns_record_details_returns_not_found_after_delete''
     then res_bind (planned_selector input ''dns_record_id'') (\<lambda>record. Inr (zone, record, DnsDeleted))
     else Inl (UnsupportedVerificationStrategy strategy))"

definition or_missing :: "string option \<Rightarrow> string" where
  "or_missing s = (case s of None \<Rightarrow> ''missing'' | Some t \<Rightarrow> t)"

definition evaluate_dns_record_readback :: "dns_expectation \<Rightarrow> string \<Rightarrow> json option \<Rightarrow> response \<Rightarrow> response \<Rightarrow> cloudflare_error + bool \<times> string" where
  "evaluate_dns_record_readback expectation record body applied readback =
     (if expectation = DnsDeleted then
        (let passed = (rs_status readback = 404 \<and> \<not> rs_success readback)
         in Inr (passed, if passed
              then ''live DNS record details returned not found for deleted record `'' @ record @ ''`''
              else ''deleted DNS record `'' @ record @ ''` still produced HTTP '' @ show_nat (rs_status readback) @ '' with success='' @
                show_bool (rs_success readback)))
      else
        res_bind (ok_or (Option.bind body json_as_object)
          (MissingVerificationTarget ''planned DNS record request body is absent or not an object'')) (\<lambda>planned.
        let apply_id = string_entry (rs_result applied) ''id'';
            readback_id = string_entry (rs_result readback) ''id'';
            apply_mismatches = mismatched_planned_fields planned (rs_result applied);
            readback_mismatches = mismatched_planned_fields planned (rs_result readback);
            passed = (rs_success applied \<and> rs_success readback \<and> apply_id = Some record \<and> readback_id = Some record \<and>
              apply_mismatches = [] \<and> readback_mismatches = [])
        in Inr (passed, if passed
             then ''mutation response and live DNS record details matched record `'' @ record @ ''` and every planned field''
             else not_proven (''DNS record `'' @ record @ ''` verification mismatch'')
               [says ''apply success'' (rs_success applied), ''apply id='' @ or_missing apply_id,
                says ''readback success'' (rs_success readback), ''readback id='' @ or_missing readback_id,
                ''apply fields='' @ render_field_names apply_mismatches, ''readback fields='' @ render_field_names readback_mismatches])))"

definition verify_dns_record :: "client \<Rightarrow> capability \<Rightarrow> response \<Rightarrow> call_input \<Rightarrow> cloudflare_error + operation_verification" where
  "verify_dns_record c cap applied input =
     res_bind (dns_record_verification_target (v_strategy (verification cap)) input applied) (\<lambda>(zone, record, expectation).
     res_bind (read_one c (capability_new ''dns-record-verification-readback'' ''DNS record verification readback'' ''GET''
       ''/zones/{zone_id}/dns_records/{dns_record_id}'')
       (jobj [(''zone_id'', JString zone), (''dns_record_id'', JString record)])) (\<lambda>readback.
     res_bind (evaluate_dns_record_readback expectation record (in_body input) applied readback) (\<lambda>(passed, why).
     Inr (verdict cap passed why readback))))"


section \<open>Secrets and tokens\<close>

definition evaluate_oauth_client_secret_readback :: "string \<Rightarrow> string \<Rightarrow> response \<Rightarrow> response \<Rightarrow> cloudflare_error + bool \<times> string" where
  "evaluate_oauth_client_secret_readback strategy oauth_client applied readback =
     (let read_identity = (string_entry (rs_result readback) ''client_id'' = Some oauth_client);
          rotated = flag_entry (rs_result readback) ''has_rotated_secret'' in
      if strategy = ''oauth_client_reports_rotated_secret_after_value_roll'' then
        (let present = (identity_of (rs_result applied) ''client_secret'' \<noteq> None);
             passed = (rs_success applied \<and> rs_status applied = 200 \<and> present \<and> rs_success readback \<and> rs_status readback = 200 \<and>
               read_identity \<and> rotated = Some True)
         in Inr (passed, not_proven ''OAuth client rotation proof''
              [''apply HTTP '' @ show_nat (rs_status applied), says ''apply success'' (rs_success applied),
               says ''one-time client secret present'' present, ''readback HTTP '' @ show_nat (rs_status readback),
               says ''readback success'' (rs_success readback), says ''readback client identity matches'' read_identity,
               says ''has_rotated_secret=true'' (rotated = Some True)]))
      else if strategy = ''oauth_client_reports_no_rotated_secret_after_old_secret_delete'' then
        (let apply_identity = (string_entry (rs_result applied) ''id'' = Some oauth_client);
             passed = (rs_success applied \<and> rs_status applied = 200 \<and> apply_identity \<and> rs_success readback \<and> rs_status readback = 200 \<and>
               read_identity \<and> rotated = Some False)
         in Inr (passed, not_proven ''OAuth client old-secret deletion proof''
              [''apply HTTP '' @ show_nat (rs_status applied), says ''apply success'' (rs_success applied),
               says ''apply identity matches'' apply_identity, ''readback HTTP '' @ show_nat (rs_status readback),
               says ''readback success'' (rs_success readback), says ''readback client identity matches'' read_identity,
               says ''has_rotated_secret=false'' (rotated = Some False)]))
      else Inl (UnsupportedVerificationStrategy strategy))"

definition verify_oauth_client_secret_rotation :: "client \<Rightarrow> capability \<Rightarrow> response \<Rightarrow> call_input \<Rightarrow> cloudflare_error + operation_verification" where
  "verify_oauth_client_secret_rotation c cap applied input =
     res_bind (ok_or (same_path_read cap)
       (MissingVerificationTarget ''the hash-bound OAuth client detail readback contract is absent'')) (\<lambda>target.
     res_bind (planned_identity input ''oauth_client_id'' ''the planned OAuth client selector is absent or empty'') (\<lambda>oauth_client.
     res_bind (read_one c (same_path_verification_capability cap (sp_read_capability_id target)
       ''OAuth client secret rotation verification readback'' (sp_path target)) (in_selectors input)) (\<lambda>readback.
     res_bind (evaluate_oauth_client_secret_readback (v_strategy (verification cap)) oauth_client applied readback) (\<lambda>(passed, why).
     Inr (verdict cap passed why readback)))))"

definition evaluate_worker_script_secret_put_readback :: "string \<Rightarrow> string \<Rightarrow> response \<Rightarrow> response \<Rightarrow> bool \<times> string" where
  "evaluate_worker_script_secret_put_readback planned_name planned_type applied readback =
     (let apply_name = (string_entry (rs_result applied) ''name'' = Some planned_name);
          apply_type = (string_entry (rs_result applied) ''type'' = Some planned_type);
          read_name = (string_entry (rs_result readback) ''name'' = Some planned_name);
          read_type = (string_entry (rs_result readback) ''type'' = Some planned_type);
          apply_status = (rs_status applied = 200 \<or> rs_status applied = 201);
          passed = (apply_status \<and> rs_success applied \<and> apply_name \<and> apply_type \<and> rs_status readback = 200 \<and> rs_success readback \<and>
            read_name \<and> read_type)
      in (passed, not_proven ''Worker script secret proof''
           [''apply HTTP '' @ show_nat (rs_status applied) @ '' '' @ says ''accepted'' apply_status, says ''apply success'' (rs_success applied),
            says ''apply name matches'' apply_name, says ''apply type matches'' apply_type,
            ''readback HTTP '' @ show_nat (rs_status readback) @ '' '' @ says ''accepted'' (rs_status readback = 200),
            says ''readback success'' (rs_success readback), says ''readback name matches'' read_name,
            says ''readback type matches'' read_type]))"

definition verify_worker_script_secret_put :: "client \<Rightarrow> capability \<Rightarrow> response \<Rightarrow> call_input \<Rightarrow> cloudflare_error + operation_verification" where
  "verify_worker_script_secret_put c cap applied input =
     res_bind (ok_or (same_path_read cap)
       (MissingVerificationTarget ''the hash-bound Worker script secret readback contract is absent'')) (\<lambda>target.
     res_bind (ok_or (Option.bind (in_body input) json_as_object)
       (MissingVerificationTarget ''the planned Worker script secret body is absent or not an object'')) (\<lambda>body.
     res_bind (ok_or (string_entry (JObject body) ''name'')
       (MissingVerificationTarget ''the planned Worker script secret name is absent'')) (\<lambda>secret_name.
     res_bind (ok_or (string_entry (JObject body) ''type'')
       (MissingVerificationTarget ''the planned Worker script secret type is absent'')) (\<lambda>secret_type.
     res_bind (planned_selectors input ''the planned Worker script selectors are not an object'') (\<lambda>inputs.
     res_bind (read_one c (same_path_verification_capability cap (sp_read_capability_id target)
       ''Worker script secret verification readback'' (sp_path target))
       (JObject (bt_insert ''secret_name'' (JString secret_name) inputs))) (\<lambda>readback.
     let (passed, why) = evaluate_worker_script_secret_put_readback secret_name secret_type applied readback
     in Inr (verdict cap passed why readback)))))))"

definition expiration :: "(string \<Rightarrow> datetime option) \<Rightarrow> response \<Rightarrow> datetime option" where
  "expiration parse r = Option.bind (string_entry (rs_result r) ''expires_at'') parse"

definition evaluate_access_service_token_refresh_readback ::
    "(string \<Rightarrow> datetime option) \<Rightarrow> datetime \<Rightarrow> string \<Rightarrow> response \<Rightarrow> response \<Rightarrow> bool \<times> string" where
  "evaluate_access_service_token_refresh_readback parse now token applied readback =
     (let apply_identity = (string_entry (rs_result applied) ''id'' = Some token);
          read_identity = (string_entry (rs_result readback) ''id'' = Some token);
          future = (case expiration parse applied of None \<Rightarrow> False | Some t \<Rightarrow> now div seconds 1 < t div seconds 1);
          same = zip_equal (expiration parse applied) (expiration parse readback);
          passed = (rs_status applied = 200 \<and> rs_success applied \<and> apply_identity \<and> future \<and> rs_status readback = 200 \<and>
            rs_success readback \<and> read_identity \<and> same)
      in (passed, not_proven ''Access service-token refresh proof''
           [''apply HTTP '' @ show_nat (rs_status applied), says ''apply success'' (rs_success applied),
            says ''apply identity matches'' apply_identity, says ''apply expiration is valid and future'' future,
            ''readback HTTP '' @ show_nat (rs_status readback), says ''readback success'' (rs_success readback),
            says ''readback identity matches'' read_identity, says ''expiration matches'' same]))"

definition verify_access_service_token_refresh :: "(string \<Rightarrow> datetime option) \<Rightarrow> datetime \<Rightarrow> client \<Rightarrow> capability \<Rightarrow> response \<Rightarrow> call_input
    \<Rightarrow> cloudflare_error + operation_verification" where
  "verify_access_service_token_refresh parse now c cap applied input =
     res_bind (ok_or (same_path_read cap)
       (MissingVerificationTarget ''the hash-bound Access service-token detail readback contract is absent'')) (\<lambda>target.
     res_bind (planned_identity input ''service_token_id'' ''the planned Access service-token selector is absent or empty'') (\<lambda>token.
     res_bind (read_one c (same_path_verification_capability cap (sp_read_capability_id target)
       ''Access service-token refresh verification readback'' (sp_path target)) (in_selectors input)) (\<lambda>readback.
     let (passed, why) = evaluate_access_service_token_refresh_readback parse now token applied readback
     in Inr (verdict cap passed why readback))))"


section \<open>Verification by the response alone\<close>

definition verify_cache_purge :: "capability \<Rightarrow> response \<Rightarrow> call_input \<Rightarrow> cloudflare_error + operation_verification" where
  "verify_cache_purge cap applied input =
     res_bind (ok_or (string_entry (in_selectors input) ''zone_id'')
       (MissingVerificationTarget ''the planned cache purge zone_id selector is absent'')) (\<lambda>zone.
     let (passed, why) =
       (case pointer_identity (rs_result applied) ''/id'' of
          Some i \<Rightarrow>
            if i = zone
            then (True, ''Cloudflare accepted the cache purge and echoed the target zone id `'' @ zone @
              ''` in result.id; this proves the purge was accepted and scoped to the target zone, not that cached content was evicted (no readback can verify eviction)'')
            else (False, ''cache purge response reported zone id `'' @ i @ ''`, which does not match the target zone `'' @ zone @
              ''`; the purge scope cannot be confirmed'')
        | None \<Rightarrow> (False, ''cache purge response did not report a result.id; acceptance and scope cannot be confirmed''))
     in Inr (verdict cap passed why applied))"

definition verify_email_routing_settings :: "capability \<Rightarrow> response \<Rightarrow> cloudflare_error + operation_verification" where
  "verify_email_routing_settings cap applied =
     res_bind (if cap_id cap = ''email-routing-settings-enable-email-routing'' then Inr True
       else if cap_id cap = ''email-routing-settings-disable-email-routing'' then Inr False
       else Inl (MissingVerificationTarget (''the Email Routing settings verifier is bound to an unexpected capability `'' @ cap_id cap @ ''`''))) (\<lambda>expected.
     let (passed, why) =
       (case Option.bind (json_pointer (rs_result applied) ''/enabled'') json_as_bool of
          Some state \<Rightarrow>
            if state = expected
            then (True, ''Cloudflare accepted the request and its Email Routing settings response reports enabled='' @ show_bool state @
              '', matching the intended state; this proves the routing setting now reports the target value, not that MX/DNS propagation or live mail delivery has converged'')
            else (False, ''Email Routing settings response reports enabled='' @ show_bool state @
              '', but the operation intended enabled='' @ show_bool expected @ ''; the setting change cannot be confirmed'')
        | None \<Rightarrow> (False, ''Email Routing settings response did not report a boolean result.enabled; the setting change cannot be confirmed''))
     in Inr (verdict cap passed why applied))"


section \<open>Polling ends\<close>

lemma deployment_verdict_last:
  assumes "\<not> attempt + 1 < max_poll_attempts"
  shows "deployment_verdict debug cap applied deployment project attempt readback \<noteq> None"
  using assms by (simp add: deployment_verdict_def Let_def)

lemma poll_decides:
  assumes "\<And>readback. decide final readback \<noteq> None"
  shows "poll send decide request (attempts @ [final]) \<noteq> Inr None"
proof (induction attempts)
  case Nil
  show ?case using assms by (cases "send final request") (auto split: option.splits)
next
  case (Cons attempt attempts)
  then show ?case by (cases "send attempt request") (auto split: option.splits)
qed

lemma upt_last: "[0 ..< Suc n] = [0 ..< n] @ [n]"
  by simp

lemma deployment_decided: "verify_pages_production_deployment debug c cap applied input \<noteq> Inr None"
proof -
  have "poll (client_send c) (deployment_verdict debug cap applied deployment project) request ([0 ..< 119] @ [119]) \<noteq> Inr None"
    for deployment project request by (rule poll_decides) (rule deployment_verdict_last, simp)
  moreover have "[0 ..< max_poll_attempts] = [0 ..< 119] @ [119]" using upt_last [of 119] by simp
  ultimately show ?thesis
    unfolding verify_pages_production_deployment_def by (auto simp: result_simps simp del: upt_Suc)
qed

text \<open>The reads of a polling are a prefix of the attempts, and only the last of them decides.\<close>

lemma poll_reads:
  assumes "poll send decide request attempts = Inr (Some v)"
  shows "\<exists>before attempt after readback. attempts = before @ attempt # after \<and>
    send attempt request = Inr readback \<and> decide attempt readback = Some v \<and>
    (\<forall>a \<in> set before. \<exists>r. send a request = Inr r \<and> decide a r = None)"
  using assms
proof (induction attempts)
  case (Cons a attempts)
  then obtain r where r: "send a request = Inr r" by (auto simp: result_simps)
  show ?case
  proof (cases "decide a r")
    case None
    with Cons r obtain before attempt after readback where "attempts = before @ attempt # after" "send attempt request = Inr readback"
      "decide attempt readback = Some v" "\<forall>a \<in> set before. \<exists>r. send a request = Inr r \<and> decide a r = None" by auto
    with None r show ?thesis by (intro exI [of _ "a # before"] exI [of _ attempt] exI [of _ after] exI [of _ readback]) auto
  next
    case (Some w)
    with Cons.prems r show ?thesis by (intro exI [of _ "[]"] exI [of _ a] exI [of _ attempts] exI [of _ r]) auto
  qed
qed simp

lemma attempts_split:
  assumes "[0 ..< bound] = before @ n # after"
  shows "n < bound" "set before = {0 ..< n}"
proof -
  from arg_cong [OF assms, of length] have short: "length before < bound" by simp
  with arg_cong [OF assms, of "\<lambda>ns. ns ! length before"] have n: "n = length before" by simp
  from arg_cong [OF assms, of "take (length before)"] short have "before = [0 ..< length before]" by (simp add: take_upt)
  then have "set before = {0 ..< length before}" by (metis set_upt)
  with n short show "n < bound" "set before = {0 ..< n}" by simp_all
qed

text \<open>
  What a read says of a deployment: it and the creation succeeded and it names the deployment, its project
  and the production environment.
\<close>

definition shows_deployment :: "response \<Rightarrow> string \<Rightarrow> string \<Rightarrow> response \<Rightarrow> bool" where
  "shows_deployment applied deployment project r \<longleftrightarrow>
     rs_status applied = 200 \<and> rs_success applied \<and> rs_status r = 200 \<and> rs_success r \<and>
     string_entry (rs_result r) ''id'' = Some deployment \<and> string_entry (rs_result r) ''project_name'' = Some project \<and>
     string_entry (rs_result r) ''environment'' = Some ''production''"

definition unfinished :: "response \<Rightarrow> bool" where
  "unfinished r \<longleftrightarrow> pointer_identity (rs_result r) ''/latest_stage/status'' \<in> {Some ''active'', Some ''idle''}"

lemma deployment_verdict_None:
  "deployment_verdict debug cap applied deployment project attempt r = None \<longleftrightarrow>
     shows_deployment applied deployment project r \<and> unfinished r \<and> attempt + 1 < max_poll_attempts"
  unfolding deployment_verdict_def Let_def shows_deployment_def [symmetric] unfinished_def by auto

lemma deployment_verdict_Some:
  assumes "deployment_verdict debug cap applied deployment project attempt r = Some v"
  shows "ov_readback v = r"
    "ov_passed v \<longleftrightarrow> shows_deployment applied deployment project r \<and> pointer_identity (rs_result r) ''/latest_stage/status'' = Some ''success''"
    "shows_deployment applied deployment project r \<Longrightarrow> unfinished r \<Longrightarrow> max_poll_attempts \<le> attempt + 1"
  using assms unfolding deployment_verdict_def Let_def shows_deployment_def [symmetric] unfinished_def by (auto split: if_splits)

text \<open>
  C35. The verification of a Pages deployment that does not end in an error gives a verdict, after at most
  120 reads of the one detail request built for the deployment that the creation returned. Each read but
  the last shows the deployment unfinished; the verdict is about the last and passes exactly when it shows
  the deployment in production at the stage of success; it is given on an unfinished deployment only at the
  hundred-and-twentieth read.
\<close>

theorem deployment_polling_bounded:
  assumes "verify_pages_production_deployment debug c cap applied input = Inr outcome"
  shows "\<exists>v target deployment project inputs request n. outcome = Some v \<and> created_resource cap = Some target \<and>
    nonempty_pointer_identity (rs_result applied) (cr_response_result_identity_pointer target) = Some deployment \<and>
    identity_of (in_selectors input) ''project_name'' = Some project \<and> json_as_object (in_selectors input) = Some inputs \<and>
    client_build c (details_capability cap (cr_read_capability_id target)
        ''Pages production deployment verification readback'' (cr_detail_path target))
      (read_input (JObject (bt_insert (cr_identity_selector target) (JString deployment) inputs))) = Inr request \<and>
    n < 120 \<and>
    (\<forall>m < n. \<exists>q. client_send c m request = Inr q \<and> shows_deployment applied deployment project q \<and> unfinished q) \<and>
    client_send c n request = Inr (ov_readback v) \<and>
    (ov_passed v \<longleftrightarrow> shows_deployment applied deployment project (ov_readback v) \<and>
       pointer_identity (rs_result (ov_readback v)) ''/latest_stage/status'' = Some ''success'') \<and>
    (shows_deployment applied deployment project (ov_readback v) \<and> unfinished (ov_readback v) \<longrightarrow> n = 119)"
proof -
  obtain v where v: "outcome = Some v" using assms deployment_decided [of debug c cap applied input] by (cases outcome) auto
  from assms [unfolded v] obtain target deployment project inputs request where built: "created_resource cap = Some target"
      "nonempty_pointer_identity (rs_result applied) (cr_response_result_identity_pointer target) = Some deployment"
      "identity_of (in_selectors input) ''project_name'' = Some project" "json_as_object (in_selectors input) = Some inputs"
      "client_build c (details_capability cap (cr_read_capability_id target)
          ''Pages production deployment verification readback'' (cr_detail_path target))
        (read_input (JObject (bt_insert (cr_identity_selector target) (JString deployment) inputs))) = Inr request"
    and polled: "poll (client_send c) (deployment_verdict debug cap applied deployment project) request [0 ..< max_poll_attempts] = Inr (Some v)"
    unfolding verify_pages_production_deployment_def planned_identity_def planned_selectors_def
    by (auto simp: result_simps simp del: upt_rec_numeral)
  from poll_reads [OF polled] obtain before n after where split: "[0 ..< max_poll_attempts] = before @ n # after"
    and last: "client_send c n request = Inr (ov_readback v)" "deployment_verdict debug cap applied deployment project n (ov_readback v) = Some v"
    and earlier: "\<forall>m \<in> set before. \<exists>q. client_send c m request = Inr q \<and> deployment_verdict debug cap applied deployment project m q = None"
    using deployment_verdict_Some(1) by metis
  note n = attempts_split [OF split]
  from earlier have "\<forall>m < n. \<exists>q. client_send c m request = Inr q \<and> shows_deployment applied deployment project q \<and> unfinished q"
    unfolding deployment_verdict_None n(2) by auto
  moreover from deployment_verdict_Some(3) [OF last(2)] n(1)
  have "shows_deployment applied deployment project (ov_readback v) \<and> unfinished (ov_readback v) \<longrightarrow> n = 119" by auto
  ultimately show ?thesis using v built n(1) last(1) deployment_verdict_Some(2) [OF last(2)] by blast
qed

definition sample_pages :: capability where
  "sample_pages = (capability_new ''pages-deployment-create-deployment'' ''Create a deployment'' ''POST''
       ''/accounts/{account_id}/pages/projects/{project_name}/deployments'')
     \<lparr>created_resource := Some \<lparr>cr_detail_path = ''/accounts/{account_id}/pages/projects/{project_name}/deployments/{deployment_id}'',
        cr_identity_selector = ''deployment_id'', cr_response_result_identity_pointer = ''/id'', cr_read_capability_id = ''pages-deployment-get'', cr_delete_capability_id = ''pages-deployment-delete'',
        cr_verified_response_fields = []\<rparr>\<rparr>"

definition sample_pages_input :: call_input where
  "sample_pages_input = \<lparr>in_selectors = jobj [(''account_id'', JString ''a''), (''project_name'', JString ''p'')], in_query = JObject [],
     in_body = None, if_match = None, if_none_match = None\<rparr>"

definition sample_deployment :: "string \<Rightarrow> response" where
  "sample_deployment stage = sample_answer (jobj [(''id'', JString ''d''), (''project_name'', JString ''p''), (''environment'', JString ''production''),
     (''latest_stage'', jobj [(''status'', JString stage)])]) None"

definition sample_pages_client :: client where
  "sample_pages_client = \<lparr>client_build = \<lambda>_ _. Inr sample_target,
     client_send = \<lambda>n _. Inr (sample_deployment (if n < 2 then ''active'' else ''success''))\<rparr>"

theorem deployment_polling_bounded_witness:
  "\<exists>outcome v n. verify_pages_production_deployment (\<lambda>_. []) sample_pages_client sample_pages (sample_deployment ''idle'') sample_pages_input = Inr outcome \<and>
     outcome = Some v \<and> n < 120 \<and> client_send sample_pages_client n sample_target = Inr (ov_readback v) \<and>
     (\<forall>m < n. \<exists>q. client_send sample_pages_client m sample_target = Inr q \<and> unfinished q)"
proof -
  let ?verify = "verify_pages_production_deployment (\<lambda>_. []) sample_pages_client sample_pages (sample_deployment ''idle'') sample_pages_input"
  have "\<not> isl ?verify" by code_simp
  then obtain outcome where verified: "?verify = Inr outcome" by (cases ?verify) auto
  have built: "client_build sample_pages_client cap i = Inr request \<Longrightarrow> request = sample_target" for cap i request
    by (simp add: sample_pages_client_def)
  show ?thesis using verified deployment_polling_bounded [OF verified] built by metis
qed

end
