(* ===== verification/Verification_Jobs.thy ===== *)
theory Verification_Jobs
  imports Verification_Strategies Request_Contract "HOL-Library.Multiset"
begin

text \<open>
  Verifying what does not take effect at once or is compared by its meaning: the bulk operations on Lists,
  which are polled and then read through cursors (\<^verbatim>\<open>verify_async_list_mutation\<close> in
  \<^verbatim>\<open>crates/cfctl-cloudflare/src/lib.rs\<close>), API tokens (\<^verbatim>\<open>token_verification.rs\<close>), and the deployments,
  schedules and rollbacks of Workers. The parser of UUIDs is a parameter.
\<close>

section \<open>Items of a List\<close>

definition item_targets :: "json \<Rightarrow> string \<Rightarrow> json list" where
  "item_targets item comment =
     (case string_entry item ''ip'' of None \<Rightarrow> [] | Some ip \<Rightarrow> [jobj [(''comment'', JString comment), (''ip'', JString ip)]]) @
     (case u64_entry item ''asn'' of None \<Rightarrow> [] | Some asn \<Rightarrow> [jobj [(''asn'', jnat asn), (''comment'', JString comment)]]) @
     (case pointer_identity item ''/hostname/url_hostname'' of
        None \<Rightarrow> []
      | Some hostname \<Rightarrow> [jobj [(''comment'', JString comment), (''hostname'', jobj [(''url_hostname'', JString hostname)])]])"

definition governed_list_item_projection :: "json \<Rightarrow> json option" where
  "governed_list_item_projection item =
     Option.bind (json_as_object item) (\<lambda>_.
     Option.bind (identity_of item ''comment'') (\<lambda>comment.
     case item_targets item comment of [target] \<Rightarrow> Some target | _ \<Rightarrow> None))"

definition governed_list_delete_ids :: "call_input \<Rightarrow> cloudflare_error + string list" where
  "governed_list_delete_ids input =
     res_bind (ok_or (Option.bind (Option.bind (in_body input) (\<lambda>body. list_entry body ''items'')) (\<lambda>items. if length items = 1 then Some items else None))
       (MissingVerificationTarget ''the governed List removal must contain exactly one member identity''))
     (res_map (\<lambda>item. ok_or (identity_of item ''id'')
       (MissingVerificationTarget ''the governed List removal contains an invalid member identity'')))"


section \<open>Polling a bulk operation\<close>

record async_list_receipt =
  ar_status :: nat
  ar_operation_id :: string
  ar_operation_status :: string
  ar_cursor_complete :: bool
  ar_match_count :: nat
  ar_resource_id :: "string option"
  ar_resource_hash :: "string option"
  ar_failure :: "json option"

definition async_list_receipt_response :: "env \<Rightarrow> async_list_receipt \<Rightarrow> response" where
  "async_list_receipt_response e r =
     \<lparr>rs_status = ar_status r, rs_success = True,
      rs_result = jobj [(''schema_version'', jnat 1), (''operation_id'', JString (ar_operation_id r)),
        (''operation_status'', JString (ar_operation_status r)), (''cursor_complete'', JBool (ar_cursor_complete r)),
        (''match_count'', jnat (ar_match_count r)), (''resource_id'', jopt JString (ar_resource_id r)),
        (''resource_hash'', jopt JString (ar_resource_hash r)),
        (''failure_hash'', jopt (\<lambda>v. JString (hash_value e v)) (ar_failure r)),
        (''redaction'', JString ''list member target and audit comment omitted; only hashes and Cloudflare identities are retained'')],
      rs_errors = [], rs_info = None, rs_etag = None, rs_ray = None\<rparr>"

fun poll_status :: "provider \<Rightarrow> async_collection_mutation \<Rightarrow> string \<Rightarrow> request \<Rightarrow> nat list \<Rightarrow> cloudflare_error + response option" where
  "poll_status send k operation request [] = Inr None"
| "poll_status send k operation request (attempt # attempts) =
     res_bind (send attempt request) (\<lambda>r.
     if \<not> rs_success r \<or> pointer_identity (rs_result r) (am_status_operation_id_pointer k) \<noteq> Some operation
     then Inl (MissingVerificationTarget ''the bulk-operation status readback did not prove the exact operation identity'')
     else
       res_bind (ok_or (pointer_identity (rs_result r) (am_status_state_pointer k))
         (MissingVerificationTarget ''the bulk-operation status readback omitted its bounded state'')) (\<lambda>state.
       if state = am_completed_state k \<or> state = am_failed_state k then Inr (Some r)
       else if state \<notin> set (am_pending_states k)
       then Inl (MissingVerificationTarget (''the bulk-operation status `'' @ state @ ''` is outside the hash-bound state machine''))
       else poll_status send k operation request attempts))"

definition list_receipt :: "nat \<Rightarrow> string \<Rightarrow> string \<Rightarrow> bool \<Rightarrow> nat \<Rightarrow> string option \<Rightarrow> string option \<Rightarrow> async_list_receipt" where
  "list_receipt http operation state whole n resource hash =
     \<lparr>ar_status = http, ar_operation_id = operation, ar_operation_status = state, ar_cursor_complete = whole, ar_match_count = n,
      ar_resource_id = resource, ar_resource_hash = hash, ar_failure = None\<rparr>"


section \<open>Adding and removing members\<close>

definition list_add_verdict :: "env \<Rightarrow> capability \<Rightarrow> async_collection_mutation \<Rightarrow> response \<Rightarrow> call_input \<Rightarrow> string \<Rightarrow> string \<Rightarrow> response \<Rightarrow> bool \<Rightarrow> json list
    \<Rightarrow> cloudflare_error + operation_verification" where
  "list_add_verdict e cap k applied input operation state collection whole items =
     res_bind (ok_or (case Option.bind (in_body input) json_as_array of Some [planned] \<Rightarrow> Some planned | _ \<Rightarrow> None)
       (MissingVerificationTarget ''the governed List add must contain exactly one planned item'')) (\<lambda>planned.
     res_bind (ok_or (identity_of planned ''comment'')
       (MissingVerificationTarget ''the governed List add omitted its correlation comment'')) (\<lambda>correlation.
     let found = filter (\<lambda>item. string_entry item ''comment'' = Some correlation) items;
         first = (case found of [] \<Rightarrow> None | item # _ \<Rightarrow> Some item);
         projection = Option.bind first governed_list_item_projection;
         projection_matches = (projection = governed_list_item_projection planned);
         resource = Option.bind first (\<lambda>item. nonempty_pointer_identity item (am_collection_item_identity_pointer k));
         passed = (rs_success applied \<and> rs_success collection \<and> whole \<and> length found = 1 \<and> projection_matches \<and> resource \<noteq> None)
     in Inr ((verdict cap passed
          (if passed
           then ''Cloudflare completed the exact bulk operation and the complete cursor-paginated List contained one schema-matching member with a correlated identity''
           else not_proven ''List add verification failed''
             [says ''apply success'' (rs_success applied), says ''collection success'' (rs_success collection), says ''cursor complete'' whole,
              ''correlation matches='' @ show_nat (length found), says ''projection matches'' projection_matches,
              says ''identity present'' (resource \<noteq> None)])
          (async_list_receipt_response e (list_receipt (rs_status collection) operation state whole (length found) resource
            (map_option (hash_value e) projection))))
        \<lparr>ov_correlated := map_option JString resource\<rparr>)))"

definition list_removal_verdict :: "env \<Rightarrow> capability \<Rightarrow> async_collection_mutation \<Rightarrow> response \<Rightarrow> call_input \<Rightarrow> string \<Rightarrow> string \<Rightarrow> response \<Rightarrow> bool \<Rightarrow> json list
    \<Rightarrow> cloudflare_error + operation_verification" where
  "list_removal_verdict e cap k applied input operation state collection whole items =
     res_bind (governed_list_delete_ids input) (\<lambda>deleted.
     let live = map (\<lambda>item. nonempty_pointer_identity item (am_collection_item_identity_pointer k)) items;
         shape = list_all (\<lambda>i. i \<noteq> None) live;
         absent = list_all (\<lambda>d. list_all (\<lambda>i. i \<noteq> Some d) live) deleted;
         passed = (rs_success applied \<and> rs_success collection \<and> whole \<and> shape \<and> absent)
     in Inr (verdict cap passed
          (if passed
           then ''Cloudflare completed the exact bulk delete and the complete cursor-paginated List omitted every planned member identity''
           else not_proven ''List removal verification failed''
             [says ''apply success'' (rs_success applied), says ''collection success'' (rs_success collection), says ''cursor complete'' whole,
              says ''item identities valid'' shape, says ''every removed identity absent'' absent])
          (async_list_receipt_response e (list_receipt (rs_status collection) operation state whole (length deleted) None
            (Some (hash_value e (jlist JString deleted)))))))"

definition verify_list_collection :: "env \<Rightarrow> client \<Rightarrow> capability \<Rightarrow> async_collection_mutation \<Rightarrow> response \<Rightarrow> call_input \<Rightarrow> string \<Rightarrow> string \<Rightarrow> string \<Rightarrow> string
    \<Rightarrow> cloudflare_error + operation_verification" where
  "verify_list_collection e c cap k applied input account list_id operation state =
     res_bind (client_build c (capability_new (am_collection_capability_id k) ''Asynchronous List collection verification readback''
       ''GET'' (am_collection_path k))
       (read_input (jobj [(''account_id'', JString account), (''list_id'', JString list_id)]))) (\<lambda>request.
     res_bind (send_paginated (client_send c) (set_query_parameter ''per_page'' ''500'' request)) (\<lambda>collection.
     let whole = (\<not> am_requires_cursor_completion k \<or>
       (case rs_info collection of None \<Rightarrow> False | Some info \<Rightarrow> flag_entry info ''cfctl_cursor_complete'' = Some True)) in
     res_bind (ok_or (json_as_array (rs_result collection))
       (MissingVerificationTarget ''the List verification readback did not return an item array'')) (\<lambda>items.
     if v_strategy (verification cap) = ''async_list_operation_completes_and_correlated_member_exists''
     then list_add_verdict e cap k applied input operation state collection whole items
     else list_removal_verdict e cap k applied input operation state collection whole items)))"

definition verify_async_list_mutation :: "env \<Rightarrow> client \<Rightarrow> capability \<Rightarrow> response \<Rightarrow> call_input \<Rightarrow> cloudflare_error + operation_verification" where
  "verify_async_list_mutation e c cap applied input =
     res_bind (ok_or (async_collection_mutation cap)
       (MissingVerificationTarget ''the hash-bound asynchronous collection contract is absent'')) (\<lambda>k.
     res_bind (ok_or (nonempty_pointer_identity (rs_result applied) (am_apply_operation_id_pointer k))
       (MissingVerificationTarget ''Cloudflare accepted the List mutation without a non-empty bulk operation identity'')) (\<lambda>operation.
     res_bind (planned_identity input ''account_id'' ''the asynchronous List verifier requires an exact account selector'') (\<lambda>account.
     res_bind (planned_identity input ''list_id'' ''the asynchronous List verifier requires an exact list selector'') (\<lambda>list_id.
     res_bind (client_build c (capability_new (am_operation_status_capability_id k)
       ''Asynchronous List operation status verification readback'' ''GET'' (am_operation_status_path k))
       (read_input (jobj [(''account_id'', JString account), (am_operation_id_selector k, JString operation)]))) (\<lambda>request.
     res_bind (poll_status (client_send c) k operation request [0 ..< am_max_poll_attempts k]) (\<lambda>terminal.
     case terminal of
       None \<Rightarrow> Inr (verdict cap False
         (''Cloudflare did not report a terminal List bulk-operation state within '' @ show_nat (am_max_poll_attempts k) @
          '' hash-bound poll attempts'')
         (async_list_receipt_response e (list_receipt 200 operation ''timeout'' False 0 None None)))
     | Some r \<Rightarrow>
         res_bind (ok_or (pointer_identity (rs_result r) (am_status_state_pointer k))
           (MissingVerificationTarget ''the terminal bulk-operation readback omitted its validated state'')) (\<lambda>state.
         if state = am_failed_state k
         then Inr (verdict cap False
           ''Cloudflare reported that the exact List bulk operation failed; the collection mutation is not verified''
           (async_list_receipt_response e ((list_receipt (rs_status r) operation state False 0 None None)
             \<lparr>ar_failure := json_get (rs_result r) ''error''\<rparr>)))
         else verify_list_collection e c cap k applied input account list_id operation state)))))))"

definition validate_async_list_mutation_target :: "capability \<Rightarrow> call_input \<Rightarrow> cloudflare_error + unit" where
  "validate_async_list_mutation_target cap input =
     res_bind (planned_selectors input ''the governed List selectors are not an object'') (\<lambda>inputs.
     res_bind (ensure (length inputs = 2 \<and> list_all (\<lambda>name. identity_of (JObject inputs) name \<noteq> None) [''account_id'', ''list_id''] \<and>
         clean_verification_query input \<and> async_collection_mutation cap \<noteq> None)
       (MissingVerificationTarget ''the governed List operation is broader than its exact account, list, and body-only contract'')) (\<lambda>_.
     let strategy = v_strategy (verification cap) in
     if strategy = ''async_list_operation_completes_and_correlated_member_exists'' then
       res_bind (ok_or (case Option.bind (in_body input) json_as_array of Some [item] \<Rightarrow> Some item | _ \<Rightarrow> None)
         (MissingVerificationTarget ''the governed List add must carry exactly one item'')) (\<lambda>item.
       ensure (governed_list_item_projection item \<noteq> None) (MissingVerificationTarget
         ''the governed List add item lacks one exact IP, ASN, or hostname plus its correlation comment''))
     else if strategy = ''async_list_operation_completes_and_members_absent''
     then res_bind (governed_list_delete_ids input) (\<lambda>_. Inr ())
     else Inl (UnsupportedVerificationStrategy strategy)))"


section \<open>API tokens\<close>

definition trimmed :: "json \<Rightarrow> string option" where
  "trimmed v = Option.bind (json_as_str v) (\<lambda>s. if trim s = [] then None else Some (trim s))"

definition trimmed_entry :: "json \<Rightarrow> string \<Rightarrow> string option" where
  "trimmed_entry v k = Option.bind (json_get v k) trimmed"

text \<open>
  A policy of a token is its effect, the sorted identifiers of its permission groups and its resources;
  the derived order compares them in this order.
\<close>

type_synonym token_policy = "string \<times> string list \<times> (string \<times> string) list"

datatype token_expectation = TokenActive | TokenCreated "token_policy list" | TokenRevoked

definition policy_error :: "string \<Rightarrow> string \<Rightarrow> cloudflare_error" where
  "policy_error origin problem = MissingVerificationTarget (origin @ '' '' @ problem)"

definition token_policy_from_value :: "string \<Rightarrow> json \<Rightarrow> cloudflare_error + token_policy" where
  "token_policy_from_value origin policy =
     res_bind (ok_or (trimmed_entry policy ''effect'') (policy_error origin ''contain a policy without an effect'')) (\<lambda>effect.
     res_bind (ok_or (Option.bind (list_entry policy ''permission_groups'') nonempty_list)
       (policy_error origin ''contain a policy without permission groups'')) (\<lambda>groups.
     res_bind (res_map (\<lambda>group. ok_or (trimmed_entry group ''id'') (policy_error origin ''contain a permission group without an ID'')) groups) (\<lambda>ids.
     res_bind (ok_or (Option.bind (object_entry policy ''resources'') nonempty_list)
       (policy_error origin ''contain a policy without an account resource'')) (\<lambda>resources.
     res_bind (res_map (\<lambda>(k, v). res_bind (ok_or (trimmed v) (policy_error origin ''contain a non-string resource grant'')) (\<lambda>access. Inr (k, access))) resources) (\<lambda>grants.
     Inr (effect, sorted_names ids, grants))))))"

definition token_policy_set_from_value :: "json \<Rightarrow> string \<Rightarrow> cloudflare_error + token_policy list" where
  "token_policy_set_from_value policies origin =
     res_bind (ok_or (Option.bind (json_as_array policies) nonempty_list) (policy_error origin ''are absent'')) (\<lambda>vs.
     res_bind (res_map (token_policy_from_value origin) vs) (\<lambda>ps. Inr (sort ps)))"

definition policy_group_ids :: "token_policy list \<Rightarrow> string set" where
  "policy_group_ids ps = set (concat (map (\<lambda>(_, ids, _). ids) ps))"

definition policy_resources :: "token_policy list \<Rightarrow> (string \<times> string) set" where
  "policy_resources ps = set (concat (map (\<lambda>(_, _, grants). grants) ps))"

definition planned_token_id :: "call_input \<Rightarrow> cloudflare_error + string" where
  "planned_token_id input =
     ok_or (trimmed_entry (in_selectors input) ''token_id'') (MissingVerificationTarget ''planned token_id selector is absent'')"

definition planned_token_policy_set :: "call_input \<Rightarrow> cloudflare_error + token_policy list" where
  "planned_token_policy_set input =
     res_bind (ok_or (Option.bind (in_body input) (\<lambda>b. json_get b ''policies''))
       (MissingVerificationTarget ''planned token policies are absent'')) (\<lambda>policies.
     token_policy_set_from_value policies ''planned token policies'')"

definition token_verification_target :: "string \<Rightarrow> call_input \<Rightarrow> response \<Rightarrow> cloudflare_error + string \<times> token_expectation" where
  "token_verification_target strategy input applied =
     (if strategy = ''api_token_details_match_created_id_and_active_status'' then
        res_bind (ok_or (trimmed_entry (rs_result applied) ''id'') (MissingVerificationTarget ''created token id is absent'')) (\<lambda>token.
        res_bind (planned_token_policy_set input) (\<lambda>planned. Inr (token, TokenCreated planned)))
      else if strategy = ''api_token_details_report_active_after_value_roll'' then
        res_bind (planned_token_id input) (\<lambda>token. Inr (token, TokenActive))
      else if strategy = ''api_token_details_returns_not_found_after_revoke'' then
        res_bind (planned_token_id input) (\<lambda>token. Inr (token, TokenRevoked))
      else Inl (UnsupportedVerificationStrategy strategy))"

definition token_says :: "string \<Rightarrow> string \<Rightarrow> string" where
  "token_says token problem = ''live token details for `'' @ token @ ''` were active but '' @ problem"

definition evaluate_active_id_and_status :: "string \<Rightarrow> response \<Rightarrow> bool \<times> string" where
  "evaluate_active_id_and_status token readback =
     (let read_id = string_entry (rs_result readback) ''id''; read_status = string_entry (rs_result readback) ''status'';
          passed = (rs_success readback \<and> read_id = Some token \<and> read_status = Some ''active'')
      in (passed, if passed then ''live token details matched `'' @ token @ ''` with active status''
           else ''live token details did not match active token `'' @ token @ ''` (status '' @ or_missing read_status @ '', id '' @
             or_missing read_id @ '')''))"

text \<open>The text of an error of the policies, which is always a missing target.\<close>

definition target_error_text :: "cloudflare_error \<Rightarrow> string" where
  "target_error_text err =
     (case err of MissingVerificationTarget m \<Rightarrow> ''verification target is missing from the mutation result: '' @ m | _ \<Rightarrow> [])"

definition evaluate_created_token_readback :: "string \<Rightarrow> token_policy list \<Rightarrow> response \<Rightarrow> bool \<times> string" where
  "evaluate_created_token_readback token planned readback =
     (let (identity_passed, identity_basis) = evaluate_active_id_and_status token readback in
      if \<not> identity_passed then (False, identity_basis)
      else
        (case token_policy_set_from_value (or_whole (json_get (rs_result readback) ''policies'') JNull) ''live token details'' of
           Inl err \<Rightarrow> (False, token_says token (''policies were not comparable: '' @ target_error_text err))
         | Inr seen \<Rightarrow>
             if policy_group_ids seen \<noteq> policy_group_ids planned
             then (False, token_says token ''permission group IDs did not match the planned set'')
             else if policy_resources seen \<noteq> policy_resources planned
             then (False, token_says token ''the account resource did not match the planned resource'')
             else if seen \<noteq> planned
             then (False, token_says token ''its policies did not match the planned effect and permission-group-to-resource associations'')
             else (True, ''live token details matched `'' @ token @
               ''` with active status and the planned policies (effect, permission groups, and resources)'')))"

definition evaluate_token_readback :: "token_expectation \<Rightarrow> string \<Rightarrow> response \<Rightarrow> bool \<times> string" where
  "evaluate_token_readback expectation token readback =
     (case expectation of
        TokenActive \<Rightarrow> evaluate_active_id_and_status token readback
      | TokenCreated planned \<Rightarrow> evaluate_created_token_readback token planned readback
      | TokenRevoked \<Rightarrow>
          (let passed = (rs_status readback = 404 \<and> \<not> rs_success readback)
           in (passed, if passed then ''live token details returned not found for revoked token `'' @ token @ ''`''
                else ''revoked token `'' @ token @ ''` still produced HTTP '' @ show_nat (rs_status readback) @ '' with success='' @
                  show_bool (rs_success readback))))"

definition redact_token_secret_fields :: "response \<Rightarrow> response" where
  "redact_token_secret_fields r =
     (case rs_result r of
        JObject m \<Rightarrow> r\<lparr>rs_result := JObject (without_key ''token'' (without_key ''value'' m))\<rparr>
      | _ \<Rightarrow> r)"

text \<open>The account is the one of the plan.\<close>

definition verify_api_token :: "client \<Rightarrow> capability \<Rightarrow> string \<Rightarrow> response \<Rightarrow> call_input \<Rightarrow> cloudflare_error + operation_verification" where
  "verify_api_token c cap account applied input =
     res_bind (token_verification_target (v_strategy (verification cap)) input applied) (\<lambda>(token, expectation).
     let account_scoped = starts_with (path cap) ''/accounts/'' in
     res_bind (read_one c (capability_new ''api-token-verification-readback'' ''API token verification readback'' ''GET''
       (if account_scoped then ''/accounts/{account_id}/tokens/{token_id}'' else ''/user/tokens/{token_id}''))
       (jobj ((if account_scoped then [(''account_id'', JString account)] else []) @ [(''token_id'', JString token)]))) (\<lambda>r.
     let readback = redact_token_secret_fields r; (passed, why) = evaluate_token_readback expectation token readback
     in Inr (verdict cap passed why readback)))"


section \<open>Worker deployments and schedules\<close>

text \<open>
  \<^verbatim>\<open>f64\<close> multiplication rounds to the nearest double, ties to even; \<open>f64_nearest\<close> is that rounding for
  positive values in the normal range, where the tested percentages lie. \<^verbatim>\<open>f64::round\<close> rounds half up.
\<close>

definition f64_nearest :: "rat \<Rightarrow> rat" where
  "f64_nearest r =
     (let k = binary_exponent r; q = r * 2 powi (52 - k); n = \<lfloor>q\<rfloor>; d = q - of_int n
      in of_int (if d > 1 / 2 \<or> (d = 1 / 2 \<and> odd n) then n + 1 else n) * 2 powi (k - 52))"

definition percentage_milli :: "rat \<Rightarrow> int option" where
  "percentage_milli percentage =
     (let milli = \<lfloor>f64_nearest (percentage * 1000) + 1 / 2\<rfloor> in if 10 \<le> milli \<and> milli \<le> 100000 then Some milli else None)"

definition least_percentage :: rat where
  "least_percentage = 5764607523034235 / 576460752303423488"

fun version_pairs :: "(string \<Rightarrow> bool) \<Rightarrow> string list \<Rightarrow> json list \<Rightarrow> (string \<times> int) list option" where
  "version_pairs uuid seen [] = Some []"
| "version_pairs uuid seen (v # vs) =
     Option.bind (string_entry v ''version_id'') (\<lambda>i.
     if \<not> uuid i \<or> i \<in> set seen then None
     else
       Option.bind (number_entry v ''percentage'') (\<lambda>n.
       let percentage = number_as_f64 n in
       if \<not> (least_percentage \<le> percentage \<and> percentage \<le> 100) then None
       else
         Option.bind (percentage_milli percentage) (\<lambda>milli.
         map_option (\<lambda>pairs. (i, milli) # pairs) (version_pairs uuid (i # seen) vs))))"

definition deployment_version_pairs :: "(string \<Rightarrow> bool) \<Rightarrow> json option \<Rightarrow> (string \<times> int) list option" where
  "deployment_version_pairs uuid versions =
     Option.bind (Option.bind (Option.bind versions json_as_array) nonempty_list) (\<lambda>vs.
     Option.bind (version_pairs uuid [] vs) (\<lambda>pairs.
     if sum_list (map snd pairs) \<noteq> 100000 then None else Some (sort pairs)))"

definition worker_deployment_versions_match :: "(string \<Rightarrow> bool) \<Rightarrow> json \<Rightarrow> json \<Rightarrow> bool" where
  "worker_deployment_versions_match uuid planned latest \<longleftrightarrow>
     string_entry planned ''strategy'' = Some ''percentage'' \<and>
     \<not> (case string_entry latest ''strategy'' of None \<Rightarrow> False | Some strategy \<Rightarrow> strategy \<noteq> ''percentage'') \<and>
     zip_equal (deployment_version_pairs uuid (json_get planned ''versions'')) (deployment_version_pairs uuid (json_get latest ''versions''))"

definition cron_expression :: "json \<Rightarrow> string option" where
  "cron_expression item =
     Option.bind (string_entry item ''cron'') (\<lambda>cron. if cron = [] \<or> length cron > 128 \<or> has_control cron then None else Some cron)"

definition cron_expressions :: "json \<Rightarrow> string list option" where
  "cron_expressions v = Option.bind (json_as_array v) (\<lambda>items. those (map cron_expression items))"

definition worker_cron_lists_match :: "json \<Rightarrow> json \<Rightarrow> bool" where
  "worker_cron_lists_match planned readback \<longleftrightarrow>
     zip_equal (map_option sort (cron_expressions planned)) (map_option sort (cron_expressions readback))"

definition worker_mutation_read_target :: "capability \<Rightarrow> cloudflare_error + same_path_read" where
  "worker_mutation_read_target cap =
     ok_or (same_path_read cap) (MissingVerificationTarget ''the hash-bound Worker readback contract is absent'')"

definition read_worker_mutation_target :: "client \<Rightarrow> capability \<Rightarrow> call_input \<Rightarrow> same_path_read \<Rightarrow> string \<Rightarrow> cloudflare_error + response" where
  "read_worker_mutation_target c cap input target name =
     read_one c (same_path_verification_capability cap (sp_read_capability_id target) name (sp_path target)) (in_selectors input)"

definition redacted_worker_verification :: "capability \<Rightarrow> bool \<Rightarrow> string \<Rightarrow> response \<Rightarrow> operation_verification" where
  "redacted_worker_verification cap passed why readback =
     verdict cap passed why (readback\<lparr>rs_result := jobj [(''schema_version'', jnat 1), (''passed'', JBool passed),
       (''provider_output_retained'', JBool False)], rs_info := None, rs_errors := []\<rparr>)"

definition verify_worker_deployment_create :: "(string \<Rightarrow> bool) \<Rightarrow> client \<Rightarrow> capability \<Rightarrow> response \<Rightarrow> call_input \<Rightarrow> cloudflare_error + operation_verification" where
  "verify_worker_deployment_create uuid c cap applied input =
     res_bind (ok_or (in_body input) (MissingVerificationTarget ''Worker deployment plan body is absent'')) (\<lambda>planned.
     res_bind (worker_mutation_read_target cap) (\<lambda>target.
     res_bind (read_worker_mutation_target c cap input target ''Worker deployment list readback'') (\<lambda>readback.
     let latest = (case list_entry (rs_result readback) ''deployments'' of Some (d # _) \<Rightarrow> Some d | _ \<Rightarrow> None);
         latest_id = Option.bind latest (\<lambda>d. string_entry d ''id'');
         apply_id = string_entry (rs_result applied) ''id'';
         identity_matches = (apply_id \<noteq> None \<and> apply_id = latest_id);
         versions_match = (case latest of None \<Rightarrow> False | Some d \<Rightarrow> worker_deployment_versions_match uuid planned d);
         passed = (rs_success applied \<and> rs_success readback \<and> identity_matches \<and> versions_match)
     in Inr (redacted_worker_verification cap passed
          (if passed then ''the latest deployment is the created deployment and serves the planned version percentages''
           else not_proven ''Worker deployment was not proven''
             [says ''apply success'' (rs_success applied), says ''list success'' (rs_success readback),
              says ''latest identity match'' identity_matches, says ''versions match'' versions_match]) readback))))"

definition verify_worker_cron_update :: "client \<Rightarrow> capability \<Rightarrow> response \<Rightarrow> call_input \<Rightarrow> cloudflare_error + operation_verification" where
  "verify_worker_cron_update c cap applied input =
     res_bind (ok_or (in_body input) (MissingVerificationTarget ''Worker cron plan body is absent'')) (\<lambda>planned.
     res_bind (worker_mutation_read_target cap) (\<lambda>target.
     res_bind (read_worker_mutation_target c cap input target ''Worker cron schedule readback'') (\<lambda>readback.
     let matched = worker_cron_lists_match planned (rs_result readback);
         passed = (rs_success applied \<and> rs_success readback \<and> matched)
     in Inr (redacted_worker_verification cap passed
          (if passed then ''the schedule readback matches the planned cron list''
           else not_proven ''Worker cron update was not proven''
             [says ''apply success'' (rs_success applied), says ''readback success'' (rs_success readback),
              says ''schedules match'' matched]) readback))))"


section \<open>Worker rollbacks\<close>

definition worker_deployments_path :: string where
  "worker_deployments_path = ''/accounts/{account_id}/workers/scripts/{script_name}/deployments''"

definition is_worker_version_rollback_capability :: "capability \<Rightarrow> bool" where
  "is_worker_version_rollback_capability cap \<longleftrightarrow>
     cap_id cap = ''worker-version-rollback'' \<and> http_method cap = ''POST'' \<and> path cap = worker_deployments_path \<and> adapter_status cap = Native"

text \<open>The parameter prints the UUID that a string denotes, if it denotes one.\<close>

definition worker_version_rollback_annotation :: "(string \<Rightarrow> string option) \<Rightarrow> string \<Rightarrow> string \<Rightarrow> cloudflare_error + string" where
  "worker_version_rollback_annotation uuid_text message operation =
     res_bind (ok_or (uuid_text operation) (InvalidRequestBody ''Worker rollback operation identity must be a UUID'')) (\<lambda>printed.
     res_bind (ensure (printed = operation \<and> message \<noteq> [] \<and> \<not> char_count message > 900)
       (InvalidRequestBody ''Worker rollback operation identity or 1 to 900 character reason is invalid'')) (\<lambda>_.
     Inr (''cfctl-operation='' @ operation @ ''; '' @ message)))"

definition deployment_message :: "json \<Rightarrow> string option" where
  "deployment_message d = Option.bind (object_entry d ''annotations'') (\<lambda>m. Option.bind (bt_get m ''workers/message'') json_as_str)"

definition serves_only :: "string \<Rightarrow> json \<Rightarrow> bool" where
  "serves_only target d \<longleftrightarrow>
     (case list_entry d ''versions'' of
        Some [v] \<Rightarrow> string_entry v ''version_id'' = Some target \<and>
          (case number_entry v ''percentage'' of None \<Rightarrow> False | Some n \<Rightarrow> number_as_f64 n = 100)
      | _ \<Rightarrow> False)"

definition project_worker_version_rollback_readback :: "env \<Rightarrow> string \<Rightarrow> string \<Rightarrow> response \<Rightarrow> cloudflare_error + bool \<times> string option \<times> response" where
  "project_worker_version_rollback_readback e target annotation readback =
     res_bind (ok_or (list_entry (rs_result readback) ''deployments'')
       (MissingVerificationTarget ''Worker deployment readback omitted result.deployments'')) (\<lambda>history.
     let latest = (case history of [] \<Rightarrow> None | d # _ \<Rightarrow> Some d);
         latest_id = Option.bind latest (\<lambda>d. string_entry d ''id'');
         exact_target = (case latest of None \<Rightarrow> False | Some d \<Rightarrow> serves_only target d);
         found = length (filter (\<lambda>d. deployment_message d = Some annotation) history);
         current_exact = (rs_success readback \<and> Option.bind latest deployment_message = Some annotation \<and> found = 1 \<and> exact_target)
     in Inr (current_exact, latest_id, readback\<lparr>rs_result := jobj
          [(''schema_version'', jnat 1), (''latest_deployment_id'', jopt JString latest_id), (''target_version_id'', JString target),
           (''traffic_percentage'', if exact_target then jnat 100 else JNull),
           (''operation_marker_hash'', JString (hash_value e (JString annotation))),
           (''deployment_history_hash'', JString (hash_value e (rs_result readback))),
           (''operation_match_count'', jnat found), (''provider_output_retained'', JBool False)], rs_info := None, rs_errors := []\<rparr>))"

definition evaluate_worker_version_rollback_readback :: "env \<Rightarrow> string \<Rightarrow> string \<Rightarrow> response \<Rightarrow> response
    \<Rightarrow> cloudflare_error + bool \<times> string \<times> json option \<times> response" where
  "evaluate_worker_version_rollback_readback e target message applied readback =
     res_bind (project_worker_version_rollback_readback e target message readback) (\<lambda>(current_exact, latest_id, projected).
     let apply_id = string_entry (rs_result applied) ''id'';
         identity_matches = (apply_id \<noteq> None \<and> apply_id = latest_id);
         passed = (rs_success applied \<and> identity_matches \<and> current_exact)
     in Inr (passed,
          if passed
          then ''Cloudflare's new latest deployment `'' @ or_whole latest_id [] @ ''` serves only prior version `'' @ target @
            ''` at 100 percent with the reviewed rollback message''
          else not_proven ''Worker rollback was not proven''
            [says ''apply success'' (rs_success applied), says ''readback success'' (rs_success readback),
             says ''apply/latest deployment match'' identity_matches,
             says ''exact target and unique operation marker current'' current_exact],
          map_option JString latest_id, projected))"

definition verify_worker_version_rollback :: "(string \<Rightarrow> string option) \<Rightarrow> env \<Rightarrow> client \<Rightarrow> capability \<Rightarrow> string \<Rightarrow> response \<Rightarrow> call_input
    \<Rightarrow> cloudflare_error + operation_verification" where
  "verify_worker_version_rollback uuid_text e c cap operation applied input =
     res_bind (ensure (is_worker_version_rollback_capability cap)
       (MissingVerificationTarget ''Worker rollback verifier is attached to another capability'')) (\<lambda>_.
     res_bind (ok_or (Option.bind (in_body input) (\<lambda>b. string_entry b ''target_version_id''))
       (MissingVerificationTarget ''Worker rollback target version is absent'')) (\<lambda>target.
     res_bind (ok_or (Option.bind (in_body input) (\<lambda>b. string_entry b ''message''))
       (MissingVerificationTarget ''Worker rollback reason is absent'')) (\<lambda>reason.
     res_bind (worker_version_rollback_annotation uuid_text reason operation) (\<lambda>message.
     res_bind (read_one c ((capability_new ''worker-version-rollback-verification-readback''
         ''Worker rollback latest deployment readback'' ''GET'' worker_deployments_path)
         \<lparr>selectors := selectors cap, application_contracts := filter (\<lambda>(k, _). k = ''response_contract'') (application_contracts cap)\<rparr>)
       (in_selectors input)) (\<lambda>readback.
     res_bind (evaluate_worker_version_rollback_readback e target message applied readback) (\<lambda>(passed, why, correlated, projected).
     Inr ((verdict cap passed why projected)\<lparr>ov_correlated := correlated\<rparr>)))))))"


section \<open>Created tokens\<close>

text \<open>The policies that a value lists, whatever the text of the errors.\<close>

definition lists_policies :: "json \<Rightarrow> token_policy list \<Rightarrow> bool" where
  "lists_policies v ps \<longleftrightarrow> (\<exists>vs. v = JArray vs \<and> vs \<noteq> [] \<and> res_map (token_policy_from_value []) vs = Inr ps)"

lemma lists_policies_code [code]:
  "lists_policies v ps \<longleftrightarrow>
     (case json_as_array v of None \<Rightarrow> False | Some vs \<Rightarrow> vs \<noteq> [] \<and> res_map (token_policy_from_value []) vs = Inr ps)"
  by (cases v) (auto simp: lists_policies_def)

lemma res_map_cong_Inr:
  assumes "\<And>x y. f x = Inr y \<longleftrightarrow> g x = Inr y"
  shows "res_map f xs = Inr ys \<longleftrightarrow> res_map g xs = Inr ys"
  by (simp add: res_map_Inr_iff assms)

lemma token_policy_error: "token_policy_from_value origin v = Inr p \<longleftrightarrow> token_policy_from_value [] v = Inr p"
proof -
  have groups: "res_map (\<lambda>group. ok_or (trimmed_entry group ''id'') err) gs = Inr ids \<longleftrightarrow>
      res_map (\<lambda>group. ok_or (trimmed_entry group ''id'') err') gs = Inr ids" for gs ids and err err' :: cloudflare_error
    by (rule res_map_cong_Inr) simp
  have grants: "res_map (\<lambda>(k, v). res_bind (ok_or (trimmed v) err) (\<lambda>access. Inr (k, access))) rs = Inr gs \<longleftrightarrow>
      res_map (\<lambda>(k, v). res_bind (ok_or (trimmed v) err') (\<lambda>access. Inr (k, access))) rs = Inr gs"
    for rs :: "(string \<times> json) list" and gs and err err' :: cloudflare_error
    by (rule res_map_cong_Inr) (auto simp: res_bind_Inr_iff)
  show ?thesis unfolding token_policy_from_value_def res_bind_Inr_iff ok_or_Inr_iff
    by (simp only: groups [of "policy_error origin ''contain a permission group without an ID''" _ _ "policy_error [] ''contain a permission group without an ID''"]
      grants [of "policy_error origin ''contain a non-string resource grant''" _ _ "policy_error [] ''contain a non-string resource grant''"])
qed

lemma token_policies_listed:
  "token_policy_set_from_value v origin = Inr ps \<longleftrightarrow> (\<exists>qs. lists_policies v qs \<and> ps = sort qs)"
proof -
  have "res_map (token_policy_from_value origin) vs = Inr qs \<longleftrightarrow> res_map (token_policy_from_value []) vs = Inr qs" for vs qs
    by (rule res_map_cong_Inr) (rule token_policy_error)
  then show ?thesis
    by (cases v) (auto simp: token_policy_set_from_value_def lists_policies_def result_simps nonempty_list_def split: if_splits)
qed

lemma sort_same: "sort ps = sort qs \<longleftrightarrow> mset ps = mset qs"
  by (metis mset_sort properties_for_sort sorted_sort)

lemma without_key_get: "bt_get (without_key k m) k = None"
  by (auto simp: without_key_def bt_get_def map_of_eq_None_iff)

lemma without_key_other: "bt_get m j = None \<Longrightarrow> bt_get (without_key k m) j = None"
  by (auto simp: without_key_def bt_get_def map_of_eq_None_iff)

lemma without_key_kept: "j \<noteq> k \<Longrightarrow> bt_get (without_key k m) j = bt_get m j"
  by (induction m) (auto simp: without_key_def bt_get_def)

lemma redacted_no_secret:
  "json_get (rs_result (redact_token_secret_fields r)) ''value'' = None"
  "json_get (rs_result (redact_token_secret_fields r)) ''token'' = None"
  by (cases "rs_result r"; simp add: redact_token_secret_fields_def without_key_get without_key_other)+

lemma redacted_rest:
  "rs_success (redact_token_secret_fields r) = rs_success r"
  "k \<noteq> ''value'' \<Longrightarrow> k \<noteq> ''token'' \<Longrightarrow> json_get (rs_result (redact_token_secret_fields r)) k = json_get (rs_result r) k"
  by (cases "rs_result r"; simp add: redact_token_secret_fields_def without_key_kept)+

lemma created_readback_passed:
  assumes "fst (evaluate_created_token_readback token planned readback)"
  shows "rs_success readback \<and> string_entry (rs_result readback) ''id'' = Some token \<and>
    string_entry (rs_result readback) ''status'' = Some ''active'' \<and>
    token_policy_set_from_value (or_whole (json_get (rs_result readback) ''policies'') JNull) ''live token details'' = Inr planned"
  using assms unfolding evaluate_created_token_readback_def evaluate_active_id_and_status_def Let_def
  by (auto split: if_splits sum.splits)

text \<open>
  C12. When the verification of a created API token passes, the client read the details of the token that
  the creation response names, at the path of the account of the plan for an account's tokens, and that
  live answer was successful, gives that identity and an active status, and lists exactly the planned
  policies: each with its effect, its set of permission groups and its resources, as often as it was planned
  and in any order. What is kept is that answer with its value and token fields removed.
\<close>

theorem created_token_verified:
  assumes "verify_api_token c cap account applied input = Inr v" "ov_passed v"
    and "v_strategy (verification cap) = ''api_token_details_match_created_id_and_active_status''"
    and "in_body input = Some body" "json_get body ''policies'' = Some policies" "lists_policies policies planned"
  shows "\<exists>token live listed seen. trimmed_entry (rs_result applied) ''id'' = Some token \<and>
    read_one c (capability_new ''api-token-verification-readback'' ''API token verification readback'' ''GET''
        (if starts_with (path cap) ''/accounts/'' then ''/accounts/{account_id}/tokens/{token_id}'' else ''/user/tokens/{token_id}''))
      (jobj ((if starts_with (path cap) ''/accounts/'' then [(''account_id'', JString account)] else []) @ [(''token_id'', JString token)]))
      = Inr live \<and>
    rs_success live \<and> string_entry (rs_result live) ''id'' = Some token \<and> string_entry (rs_result live) ''status'' = Some ''active'' \<and>
    json_get (rs_result live) ''policies'' = Some listed \<and> lists_policies listed seen \<and> mset seen = mset planned \<and>
    ov_readback v = redact_token_secret_fields live \<and>
    json_get (rs_result (ov_readback v)) ''value'' = None \<and> json_get (rs_result (ov_readback v)) ''token'' = None"
proof -
  obtain token ps live where token: "trimmed_entry (rs_result applied) ''id'' = Some token"
    and ps: "planned_token_policy_set input = Inr ps"
    and read: "read_one c (capability_new ''api-token-verification-readback'' ''API token verification readback'' ''GET''
        (if starts_with (path cap) ''/accounts/'' then ''/accounts/{account_id}/tokens/{token_id}'' else ''/user/tokens/{token_id}''))
      (jobj ((if starts_with (path cap) ''/accounts/'' then [(''account_id'', JString account)] else []) @ [(''token_id'', JString token)]))
      = Inr live"
    and v: "ov_readback v = redact_token_secret_fields live"
    and passed: "fst (evaluate_created_token_readback token ps (redact_token_secret_fields live))"
    using assms(1-3) unfolding verify_api_token_def token_verification_target_def evaluate_token_readback_def Let_def
    by (auto simp: res_bind_Inr_iff case_prod_beta)
  have sorted: "ps = sort planned"
    using ps assms(4-6) unfolding planned_token_policy_set_def by (auto simp: res_bind_Inr_iff token_policies_listed lists_policies_def)
  from created_readback_passed [OF passed] obtain seen where
      seen: "rs_success live" "string_entry (rs_result live) ''id'' = Some token" "string_entry (rs_result live) ''status'' = Some ''active''"
        "lists_policies (or_whole (json_get (rs_result live) ''policies'') JNull) seen" "sort seen = ps"
    by (auto simp: token_policies_listed redacted_rest string_entry_def)
  then obtain listed where "json_get (rs_result live) ''policies'' = Some listed" "lists_policies listed seen"
    by (cases "json_get (rs_result live) ''policies''") (auto simp: or_whole_def lists_policies_def)
  moreover have "mset seen = mset planned" using seen(5) sorted sort_same by metis
  moreover note redacted_no_secret [of live, folded v]
  ultimately show ?thesis using token read v seen(1-3) by blast
qed

definition sample_policies :: json where
  "sample_policies = JArray [jobj [(''effect'', JString ''allow''), (''permission_groups'', JArray [jobj [(''id'', JString ''g'')]]),
     (''resources'', jobj [(''account.a'', JString ''*'')])]]"

definition sample_token :: json where
  "sample_token = jobj [(''id'', JString ''t''), (''status'', JString ''active''), (''policies'', sample_policies), (''value'', JString ''secret'')]"

definition sample_mint :: capability where
  "sample_mint = (capability_new ''user-api-tokens-create-token'' ''Create a token'' ''POST'' ''/user/tokens'')
     \<lparr>verification := \<lparr>required = True, v_strategy = ''api_token_details_match_created_id_and_active_status''\<rparr>\<rparr>"

definition sample_mint_input :: call_input where
  "sample_mint_input = sample_call (Some (jobj [(''policies'', sample_policies)]))"

theorem created_token_verified_witness:
  "\<exists>v listed seen. verify_api_token (sample_client (sample_answer sample_token None)) sample_mint [] (sample_answer sample_token None) sample_mint_input
       = Inr v \<and> ov_passed v \<and>
     json_get sample_token ''policies'' = Some listed \<and> lists_policies listed seen \<and>
     mset seen = mset [(''allow'', [''g''], [(''account.a'', ''*'')])] \<and> json_get (rs_result (ov_readback v)) ''value'' = None"
proof -
  let ?verify = "verify_api_token (sample_client (sample_answer sample_token None)) sample_mint [] (sample_answer sample_token None) sample_mint_input"
  have "case ?verify of Inl _ \<Rightarrow> False | Inr v \<Rightarrow> ov_passed v" by code_simp
  then obtain v where v: "?verify = Inr v" "ov_passed v" by (rule passes)
  have strategy: "v_strategy (verification sample_mint) = ''api_token_details_match_created_id_and_active_status''"
    by (simp add: sample_mint_def)
  have body: "in_body sample_mint_input = Some (jobj [(''policies'', sample_policies)])" by (simp add: sample_mint_input_def sample_call_def)
  have policies: "json_get (jobj [(''policies'', sample_policies)]) ''policies'' = Some sample_policies" by code_simp
  have listed: "lists_policies sample_policies [(''allow'', [''g''], [(''account.a'', ''*'')])]" by code_simp
  have "read_one (sample_client (sample_answer sample_token None)) cap inputs = Inr live \<Longrightarrow> rs_result live = sample_token" for cap inputs live
    by (auto simp: read_one_def sample_client_def sample_answer_def)
  with created_token_verified [OF v strategy body policies listed] v show ?thesis by metis
qed


section \<open>Shares of a deployment\<close>

lemma version_pairs_facts:
  assumes "version_pairs uuid seen vs = Some pairs"
  shows "distinct (map fst pairs) \<and> set (map fst pairs) \<inter> set seen = {} \<and> length pairs = length vs \<and>
    (\<forall>(i, n) \<in> set pairs. uuid i \<and> 10 \<le> n \<and> n \<le> 100000)"
  using assms
proof (induction uuid seen vs arbitrary: pairs rule: version_pairs.induct)
  case (2 uuid seen v vs)
  from "2.prems" obtain i n milli rest where step: "string_entry v ''version_id'' = Some i" "uuid i" "i \<notin> set seen"
      "number_entry v ''percentage'' = Some n" "least_percentage \<le> number_as_f64 n" "number_as_f64 n \<le> 100"
      "percentage_milli (number_as_f64 n) = Some milli" "version_pairs uuid (i # seen) vs = Some rest" "pairs = (i, milli) # rest"
    by (auto simp: bind_eq_Some_conv Let_def split: if_splits)
  have "\<not> (\<not> uuid i \<or> i \<in> set seen)" "\<not> \<not> (least_percentage \<le> number_as_f64 n \<and> number_as_f64 n \<le> 100)" using step by simp_all
  note rest = "2.IH" [OF step(1) this(1) step(4) refl this(2) step(7,8)]
  have "10 \<le> milli \<and> milli \<le> 100000" using step(7) by (auto simp: percentage_milli_def Let_def split: if_splits)
  with rest step(2,3,9) show ?case by auto
qed simp

lemma deployment_pairs_facts:
  assumes "deployment_version_pairs uuid versions = Some pairs"
  shows "distinct (map fst pairs) \<and> sum_list (map snd pairs) = 100000 \<and> pairs \<noteq> [] \<and> (\<forall>(i, n) \<in> set pairs. uuid i \<and> 10 \<le> n)"
proof -
  from assms obtain vs ps where ps: "vs \<noteq> []" "version_pairs uuid [] vs = Some ps" "sum_list (map snd ps) = 100000" "pairs = sort ps"
    by (auto simp: deployment_version_pairs_def bind_eq_Some_conv nonempty_list_def split: if_splits)
  have "mset pairs = mset ps" using ps(4) by simp
  then have "distinct (map fst pairs) = distinct (map fst ps)" "sum_list (map snd pairs) = sum_list (map snd ps)" "set pairs = set ps"
    by (metis mset_map mset_eq_imp_distinct_iff, metis mset_map sum_mset_sum_list, metis set_mset_mset)
  with ps(1,3) version_pairs_facts [OF ps(2)] show ?thesis by (cases ps) fastforce+
qed

text \<open>
  C14. When the verification of a Worker deployment passes, the newest live deployment is the one that was
  created, and it serves exactly the planned versions at the planned shares, which name each version
  once and sum to one hundred percent, counted in thousandths of a percent.
\<close>

theorem deployment_shares_verified:
  assumes "verify_worker_deployment_create uuid c cap applied input = Inr v" "ov_passed v" "in_body input = Some body"
  shows "\<exists>target readback d ds i pairs. same_path_read cap = Some target \<and>
    read_worker_mutation_target c cap input target ''Worker deployment list readback'' = Inr readback \<and>
    list_entry (rs_result readback) ''deployments'' = Some (d # ds) \<and>
    string_entry (rs_result applied) ''id'' = Some i \<and> string_entry d ''id'' = Some i \<and>
    deployment_version_pairs uuid (json_get body ''versions'') = Some pairs \<and> deployment_version_pairs uuid (json_get d ''versions'') = Some pairs \<and>
    distinct (map fst pairs) \<and> sum_list (map snd pairs) = 100000"
proof -
  obtain target readback where read: "same_path_read cap = Some target"
      "read_worker_mutation_target c cap input target ''Worker deployment list readback'' = Inr readback"
    and passed: "case (case list_entry (rs_result readback) ''deployments'' of Some (d # _) \<Rightarrow> Some d | _ \<Rightarrow> None) of
        None \<Rightarrow> False | Some d \<Rightarrow> worker_deployment_versions_match uuid body d"
      "string_entry (rs_result applied) ''id'' \<noteq> None"
      "string_entry (rs_result applied) ''id'' =
        Option.bind (case list_entry (rs_result readback) ''deployments'' of Some (d # _) \<Rightarrow> Some d | _ \<Rightarrow> None) (\<lambda>d. string_entry d ''id'')"
    using assms unfolding verify_worker_deployment_create_def worker_mutation_read_target_def redacted_worker_verification_def Let_def
    by (auto simp: res_bind_Inr_iff)
  obtain d ds where d: "list_entry (rs_result readback) ''deployments'' = Some (d # ds)" "worker_deployment_versions_match uuid body d"
    using passed(1) by (auto split: option.splits list.splits)
  obtain pairs where pairs: "deployment_version_pairs uuid (json_get body ''versions'') = Some pairs"
      "deployment_version_pairs uuid (json_get d ''versions'') = Some pairs"
    using d(2) by (auto simp: worker_deployment_versions_match_def zip_equal_def split: option.splits)
  from passed(2,3) d(1) obtain i where "string_entry (rs_result applied) ''id'' = Some i" "string_entry d ''id'' = Some i" by auto
  with read d(1) pairs deployment_pairs_facts [OF pairs(1)] show ?thesis by blast
qed

definition sample_shares :: json where
  "sample_shares = jobj [(''id'', JString ''d''), (''strategy'', JString ''percentage''),
     (''versions'', JArray [jobj [(''version_id'', JString ''v''), (''percentage'', jnat 100)]])]"

definition sample_deploy :: capability where
  "sample_deploy = (capability_new ''worker-deployments-create-deployment'' ''Deploy'' ''POST'' worker_deployments_path)
     \<lparr>same_path_read := Some \<lparr>sp_path = worker_deployments_path, sp_read_capability_id = ''worker-deployments-list-deployments'',
       sp_verified_response_fields = []\<rparr>\<rparr>"

text \<open>Whole numbers are doubles, so a percentage whose product is whole is not rounded.\<close>

lemma f64_nearest_whole:
  assumes "0 < n" "n < 2 ^ 53"
  shows "f64_nearest (of_int n) = of_int n"
proof -
  let ?k = "binary_exponent (of_int n)"
  have "?k \<le> 52"
    using f64_exponent_less [of "of_int n" "nat n" 0] assms by (simp add: nat_less_iff)
  then obtain m where m: "52 - ?k = int m" by (metis diff_ge_0_iff_ge nonneg_int_cases)
  have whole: "of_int n * 2 powi (52 - ?k) = (of_int (n * 2 ^ m) :: rat)" unfolding m by simp
  have "(2 :: rat) powi (?k - 52) = 1 / 2 ^ m" using m by (metis minus_diff_eq power_int_minus_divide power_int_of_nat)
  then show ?thesis unfolding f64_nearest_def Let_def whole by simp
qed

lemma percentage_milli_100: "percentage_milli 100 = Some 100000"
proof -
  have "f64_nearest (100 * 1000) = 100000" using f64_nearest_whole [of 100000] by simp
  then show ?thesis by (simp add: percentage_milli_def Let_def floor_eq_iff)
qed

theorem deployment_shares_verified_witness:
  "\<exists>v d pairs. verify_worker_deployment_create (\<lambda>_. True) (sample_client (sample_answer (jobj [(''deployments'', JArray [sample_shares])]) None))
       sample_deploy (sample_answer sample_shares None) (sample_call (Some sample_shares)) = Inr v \<and> ov_passed v \<and>
     deployment_version_pairs (\<lambda>_. True) (json_get d ''versions'') = Some pairs \<and> sum_list (map snd pairs) = 100000"
proof -
  let ?verify = "verify_worker_deployment_create (\<lambda>_. True) (sample_client (sample_answer (jobj [(''deployments'', JArray [sample_shares])]) None))
       sample_deploy (sample_answer sample_shares None) (sample_call (Some sample_shares))"
  have entries: "json_get sample_shares ''id'' = Some (JString ''d'')" "json_get sample_shares ''strategy'' = Some (JString ''percentage'')"
      "json_get sample_shares ''versions'' = Some (JArray [jobj [(''version_id'', JString ''v''), (''percentage'', jnat 100)]])"
      "json_get (jobj [(''version_id'', JString ''v''), (''percentage'', jnat 100)]) ''version_id'' = Some (JString ''v'')"
      "json_get (jobj [(''version_id'', JString ''v''), (''percentage'', jnat 100)]) ''percentage'' = Some (jnat 100)"
      "json_get (jobj [(''deployments'', JArray [sample_shares])]) ''deployments'' = Some (JArray [sample_shares])"
    by code_simp+
  have "f64_of_nat 100 = 100" by (rule f64_of_nat_exact [of _ 100 0]) simp_all
  then have "deployment_version_pairs (\<lambda>_. True) (json_get sample_shares ''versions'') = Some [(''v'', 100000)]"
    by (simp add: deployment_version_pairs_def entries nonempty_list_def string_entry_def number_entry_def jnat_def least_percentage_def
      percentage_milli_100)
  then have "worker_deployment_versions_match (\<lambda>_. True) sample_shares sample_shares"
    by (simp add: worker_deployment_versions_match_def string_entry_def zip_equal_def entries)
  then have "case ?verify of Inl _ \<Rightarrow> False | Inr v \<Rightarrow> ov_passed v"
    by (simp add: verify_worker_deployment_create_def worker_mutation_read_target_def read_worker_mutation_target_def read_one_def
      redacted_worker_verification_def sample_deploy_def sample_client_def sample_call_def sample_answer_def list_entry_def string_entry_def
      entries)
  then obtain v where v: "?verify = Inr v" "ov_passed v" by (rule passes)
  have "in_body (sample_call (Some sample_shares)) = Some sample_shares" by (simp add: sample_call_def)
  from deployment_shares_verified [OF v this] v show ?thesis by blast
qed


section \<open>Members removed from a List\<close>

text \<open>The polling stops at the first terminal state; before it the operation was pending.\<close>

lemma poll_terminal:
  assumes "poll_status send k operation request attempts = Inr (Some r)"
  shows "\<exists>before n after. attempts = before @ n # after \<and> send n request = Inr r \<and> rs_success r \<and>
    pointer_identity (rs_result r) (am_status_operation_id_pointer k) = Some operation \<and>
    (\<exists>state. pointer_identity (rs_result r) (am_status_state_pointer k) = Some state \<and> (state = am_completed_state k \<or> state = am_failed_state k)) \<and>
    (\<forall>m \<in> set before. \<exists>q state. send m request = Inr q \<and> pointer_identity (rs_result q) (am_status_state_pointer k) = Some state \<and>
       state \<in> set (am_pending_states k))"
  using assms
proof (induction attempts)
  case (Cons a attempts)
  then consider "send a request = Inr r" "rs_success r" "pointer_identity (rs_result r) (am_status_operation_id_pointer k) = Some operation"
      "\<exists>state. pointer_identity (rs_result r) (am_status_state_pointer k) = Some state \<and> (state = am_completed_state k \<or> state = am_failed_state k)"
    | q state where "send a request = Inr q" "pointer_identity (rs_result q) (am_status_state_pointer k) = Some state"
      "state \<in> set (am_pending_states k)" "poll_status send k operation request attempts = Inr (Some r)"
    by (auto simp: result_simps split: if_splits)
  then show ?case
  proof cases
    case 1
    then show ?thesis by (intro exI [of _ "[]"] exI [of _ a] exI [of _ attempts]) simp
  next
    case 2
    with Cons.IH obtain before n after where "attempts = before @ n # after" and rest: "send n request = Inr r" "rs_success r"
        "pointer_identity (rs_result r) (am_status_operation_id_pointer k) = Some operation"
        "\<exists>state. pointer_identity (rs_result r) (am_status_state_pointer k) = Some state \<and> (state = am_completed_state k \<or> state = am_failed_state k)"
        "\<forall>m \<in> set before. \<exists>q state. send m request = Inr q \<and> pointer_identity (rs_result q) (am_status_state_pointer k) = Some state \<and>
           state \<in> set (am_pending_states k)" by blast
    then have "a # attempts = (a # before) @ n # after" by simp
    moreover from 2 rest(5) have "\<forall>m \<in> set (a # before). \<exists>q state. send m request = Inr q \<and>
        pointer_identity (rs_result q) (am_status_state_pointer k) = Some state \<and> state \<in> set (am_pending_states k)" by auto
    ultimately show ?thesis using rest(1-4) by blast
  qed
qed simp

lemma poll_terminal_bounded:
  assumes "poll_status send k operation request [0 ..< bound] = Inr (Some r)"
  shows "\<exists>n < bound. send n request = Inr r \<and> rs_success r \<and>
    pointer_identity (rs_result r) (am_status_operation_id_pointer k) = Some operation \<and>
    (\<exists>state. pointer_identity (rs_result r) (am_status_state_pointer k) = Some state \<and> (state = am_completed_state k \<or> state = am_failed_state k)) \<and>
    (\<forall>m < n. \<exists>q state. send m request = Inr q \<and> pointer_identity (rs_result q) (am_status_state_pointer k) = Some state \<and>
       state \<in> set (am_pending_states k))"
proof -
  from poll_terminal [OF assms] obtain before n after where split: "[0 ..< bound] = before @ n # after"
    and last: "send n request = Inr r" "rs_success r" "pointer_identity (rs_result r) (am_status_operation_id_pointer k) = Some operation"
      "\<exists>state. pointer_identity (rs_result r) (am_status_state_pointer k) = Some state \<and> (state = am_completed_state k \<or> state = am_failed_state k)"
    and pending: "\<forall>m \<in> set before. \<exists>q state. send m request = Inr q \<and> pointer_identity (rs_result q) (am_status_state_pointer k) = Some state \<and>
       state \<in> set (am_pending_states k)" by blast
  from attempts_split [OF split] last pending show ?thesis by auto
qed

text \<open>The polling never sends a status request past the bound of the contract.\<close>

lemma poll_exhausted:
  assumes "poll_status send k operation request attempts = Inr None" "n \<in> set attempts"
  shows "\<exists>r state. send n request = Inr r \<and> pointer_identity (rs_result r) (am_status_state_pointer k) = Some state \<and>
    state \<in> set (am_pending_states k)"
  using assms by (induction attempts) (auto simp: result_simps split: if_splits)

lemma list_mutation_polled:
  assumes "verify_async_list_mutation e c cap applied input = Inr v" "ov_passed v" "async_collection_mutation cap = Some k"
  shows "\<exists>operation account list_id request terminal state.
    nonempty_pointer_identity (rs_result applied) (am_apply_operation_id_pointer k) = Some operation \<and>
    identity_of (in_selectors input) ''account_id'' = Some account \<and> identity_of (in_selectors input) ''list_id'' = Some list_id \<and>
    client_build c (capability_new (am_operation_status_capability_id k)
        ''Asynchronous List operation status verification readback'' ''GET'' (am_operation_status_path k))
      (read_input (jobj [(''account_id'', JString account), (am_operation_id_selector k, JString operation)])) = Inr request \<and>
    poll_status (client_send c) k operation request [0 ..< am_max_poll_attempts k] = Inr (Some terminal) \<and>
    pointer_identity (rs_result terminal) (am_status_state_pointer k) = Some state \<and> state \<noteq> am_failed_state k \<and>
    verify_list_collection e c cap k applied input account list_id operation state = Inr v"
  using assms unfolding verify_async_list_mutation_def planned_identity_def
  by (auto simp: res_bind_Inr_iff split: option.splits if_splits)

lemma removal_passed:
  assumes "list_removal_verdict e cap k applied input operation state collection whole items = Inr v" "ov_passed v"
  shows "\<exists>ids. governed_list_delete_ids input = Inr ids \<and> rs_success applied \<and> rs_success collection \<and> whole \<and>
    (\<forall>item \<in> set items. \<exists>i. nonempty_pointer_identity item (am_collection_item_identity_pointer k) = Some i \<and> i \<notin> set ids)"
  using assms unfolding list_removal_verdict_def Let_def res_bind_Inr_iff
  by (fastforce simp: list_all_iff)

text \<open>
  C13. When the verification of a bulk removal from a List passes, the provider reported within the bounded
  number of polls of the status path of that account and that operation, all of them pending before, that
  the very operation it had accepted was completed; and the paginated read, five hundred to a page, of the
  items of the List that the selectors name was successful, complete where the contract asks for it, and
  gave every item an identity that is none of the planned ones.
\<close>

theorem list_removal_verified:
  assumes "verify_async_list_mutation e c cap applied input = Inr v" "ov_passed v"
    and "v_strategy (verification cap) = ''async_list_operation_completes_and_members_absent''"
    and "async_collection_mutation cap = Some k"
  shows "rs_success applied \<and> (\<exists>operation account list_id request n r list_request collection items ids.
    nonempty_pointer_identity (rs_result applied) (am_apply_operation_id_pointer k) = Some operation \<and>
    identity_of (in_selectors input) ''account_id'' = Some account \<and> identity_of (in_selectors input) ''list_id'' = Some list_id \<and>
    client_build c (capability_new (am_operation_status_capability_id k)
        ''Asynchronous List operation status verification readback'' ''GET'' (am_operation_status_path k))
      (read_input (jobj [(''account_id'', JString account), (am_operation_id_selector k, JString operation)])) = Inr request \<and>
    n < am_max_poll_attempts k \<and>
    (\<forall>m < n. \<exists>q state. client_send c m request = Inr q \<and> pointer_identity (rs_result q) (am_status_state_pointer k) = Some state \<and>
       state \<in> set (am_pending_states k)) \<and>
    client_send c n request = Inr r \<and> rs_success r \<and>
    pointer_identity (rs_result r) (am_status_operation_id_pointer k) = Some operation \<and>
    pointer_identity (rs_result r) (am_status_state_pointer k) = Some (am_completed_state k) \<and>
    client_build c (capability_new (am_collection_capability_id k) ''Asynchronous List collection verification readback''
        ''GET'' (am_collection_path k))
      (read_input (jobj [(''account_id'', JString account), (''list_id'', JString list_id)])) = Inr list_request \<and>
    send_paginated (client_send c) (set_query_parameter ''per_page'' ''500'' list_request) = Inr collection \<and> rs_success collection \<and>
    (\<not> am_requires_cursor_completion k \<or> (\<exists>info. rs_info collection = Some info \<and> flag_entry info ''cfctl_cursor_complete'' = Some True)) \<and>
    json_as_array (rs_result collection) = Some items \<and> governed_list_delete_ids input = Inr ids \<and>
    (\<forall>item \<in> set items. \<exists>i. nonempty_pointer_identity item (am_collection_item_identity_pointer k) = Some i \<and> i \<notin> set ids))"
proof -
  from list_mutation_polled [OF assms(1,2,4)] obtain operation account list_id request terminal state where start:
      "nonempty_pointer_identity (rs_result applied) (am_apply_operation_id_pointer k) = Some operation"
      "identity_of (in_selectors input) ''account_id'' = Some account" "identity_of (in_selectors input) ''list_id'' = Some list_id"
      "client_build c (capability_new (am_operation_status_capability_id k)
          ''Asynchronous List operation status verification readback'' ''GET'' (am_operation_status_path k))
        (read_input (jobj [(''account_id'', JString account), (am_operation_id_selector k, JString operation)])) = Inr request"
    and poll: "poll_status (client_send c) k operation request [0 ..< am_max_poll_attempts k] = Inr (Some terminal)"
    and state: "pointer_identity (rs_result terminal) (am_status_state_pointer k) = Some state" "state \<noteq> am_failed_state k"
    and read: "verify_list_collection e c cap k applied input account list_id operation state = Inr v"
    by blast
  from poll_terminal_bounded [OF poll] state obtain n where polled: "n < am_max_poll_attempts k"
      "\<forall>m < n. \<exists>q state. client_send c m request = Inr q \<and> pointer_identity (rs_result q) (am_status_state_pointer k) = Some state \<and>
         state \<in> set (am_pending_states k)"
      "client_send c n request = Inr terminal" "rs_success terminal"
      "pointer_identity (rs_result terminal) (am_status_operation_id_pointer k) = Some operation"
      "pointer_identity (rs_result terminal) (am_status_state_pointer k) = Some (am_completed_state k)"
    by auto
  from read obtain list_request collection items where collection:
      "client_build c (capability_new (am_collection_capability_id k) ''Asynchronous List collection verification readback''
          ''GET'' (am_collection_path k))
        (read_input (jobj [(''account_id'', JString account), (''list_id'', JString list_id)])) = Inr list_request"
      "send_paginated (client_send c) (set_query_parameter ''per_page'' ''500'' list_request) = Inr collection"
      "json_as_array (rs_result collection) = Some items"
    and removal: "list_removal_verdict e cap k applied input operation state collection (\<not> am_requires_cursor_completion k \<or>
         (case rs_info collection of None \<Rightarrow> False | Some info \<Rightarrow> flag_entry info ''cfctl_cursor_complete'' = Some True)) items = Inr v"
    unfolding verify_list_collection_def Let_def assms(3) by (auto simp: res_bind_Inr_iff)
  from removal_passed [OF removal assms(2)] obtain ids where ids: "governed_list_delete_ids input = Inr ids" "rs_success collection" "rs_success applied"
      "\<not> am_requires_cursor_completion k \<or> (\<exists>info. rs_info collection = Some info \<and> flag_entry info ''cfctl_cursor_complete'' = Some True)"
      "\<forall>item \<in> set items. \<exists>i. nonempty_pointer_identity item (am_collection_item_identity_pointer k) = Some i \<and> i \<notin> set ids"
    by (auto split: option.splits)
  from start polled collection ids show ?thesis by blast
qed

definition sample_bulk :: async_collection_mutation where
  "sample_bulk = \<lparr>am_operation_status_path = ''/accounts/{account_id}/rules/lists/bulk_operations/{operation_id}'',
     am_operation_status_capability_id = ''lists-get-bulk-operation-status'', am_operation_id_selector = ''operation_id'',
     am_apply_operation_id_pointer = ''/operation_id'', am_status_operation_id_pointer = ''/id'', am_status_state_pointer = ''/status'',
     am_pending_states = [''pending'', ''running''], am_completed_state = ''completed'', am_failed_state = ''failed'',
     am_max_poll_attempts = 3, am_poll_interval_ms = 1000, am_collection_path = ''/accounts/{account_id}/rules/lists/{list_id}/items'',
     am_collection_capability_id = ''lists-get-list-items'', am_collection_metadata_path = ''/accounts/{account_id}/rules/lists/{list_id}'',
     am_collection_metadata_capability_id = ''lists-get-a-list'', am_collection_item_identity_pointer = ''/id'',
     am_correlation_field = None, am_remove_capability_id = None, am_requires_cursor_completion = True\<rparr>"

definition sample_removal :: capability where
  "sample_removal = (capability_new ''lists-delete-list-items'' ''Delete list items'' ''DELETE'' ''/accounts/{account_id}/rules/lists/{list_id}/items'')
     \<lparr>verification := \<lparr>required = True, v_strategy = ''async_list_operation_completes_and_members_absent''\<rparr>,
       async_collection_mutation := Some sample_bulk\<rparr>"

definition sample_removal_input :: call_input where
  "sample_removal_input = \<lparr>in_selectors = jobj [(''account_id'', JString ''a''), (''list_id'', JString ''l'')], in_query = JObject [],
     in_body = Some (jobj [(''items'', JArray [jobj [(''id'', JString ''gone'')]])]), if_match = None, if_none_match = None\<rparr>"

text \<open>The operation is pending on the first poll and completed on the second.\<close>

definition sample_bulk_client :: client where
  "sample_bulk_client = \<lparr>client_build = \<lambda>cap _. Inr (sample_target\<lparr>req_segments := [cap_id cap]\<rparr>),
     client_send = \<lambda>n r. Inr (if req_segments r = [''lists-get-list-items'']
       then sample_answer (JArray [jobj [(''id'', JString ''kept'')]]) (Some (jobj [(''cursors'', JObject [])]))
       else sample_answer (jobj [(''id'', JString ''o''), (''status'', JString (if n = 0 then ''pending'' else ''completed''))]) None)\<rparr>"

theorem list_removal_verified_witness:
  "\<exists>v request collection items. verify_async_list_mutation sample_env sample_bulk_client sample_removal
       (sample_answer (jobj [(''operation_id'', JString ''o'')]) None) sample_removal_input = Inr v \<and> ov_passed v \<and>
     send_paginated (client_send sample_bulk_client) request = Inr collection \<and> json_as_array (rs_result collection) = Some items \<and>
     (\<forall>item \<in> set items. \<exists>i. nonempty_pointer_identity item ''/id'' = Some i \<and> i \<noteq> ''gone'')"
proof -
  let ?verify = "verify_async_list_mutation sample_env sample_bulk_client sample_removal
    (sample_answer (jobj [(''operation_id'', JString ''o'')]) None) sample_removal_input"
  have "case ?verify of Inl _ \<Rightarrow> False | Inr v \<Rightarrow> ov_passed v" by code_simp
  then obtain v where v: "?verify = Inr v" "ov_passed v" by (rule passes)
  have strategy: "v_strategy (verification sample_removal) = ''async_list_operation_completes_and_members_absent''"
    and bulk: "async_collection_mutation sample_removal = Some sample_bulk"
    by (simp_all add: sample_removal_def)
  have ids: "governed_list_delete_ids sample_removal_input = Inr [''gone'']" by code_simp
  have pointer: "am_collection_item_identity_pointer sample_bulk = ''/id''" by (simp add: sample_bulk_def)
  from list_removal_verified [OF v strategy bulk] obtain request collection items xs
    where found: "send_paginated (client_send sample_bulk_client) request = Inr collection"
      "json_as_array (rs_result collection) = Some items" "Inr [''gone''] = (Inr xs :: cloudflare_error + string list)"
      "\<forall>item \<in> set items. \<exists>i. nonempty_pointer_identity item ''/id'' = Some i \<and> i \<notin> set xs"
    unfolding ids pointer by metis
  have "xs = [''gone'']" using found(3) by simp
  with found v show ?thesis by fastforce
qed

end
