(* ===== verification/Verification_Targets.thy ===== *)
theory Verification_Targets
  imports Access_Ownership Verification_Jobs Capability_Contracts
begin

text \<open>
  The checks that the executor makes before it verifies (\<^verbatim>\<open>validate_verification_preconditions\<close> and the
  targets it dispatches to, in \<^verbatim>\<open>crates/cfctl-cloudflare/src/lib.rs\<close>): the contract of the capability is
  well formed, and the planned input stays inside it. The gate of the core crate that classifies a
  capability (\<^verbatim>\<open>verification_contract_supported\<close>) and this one are written twice; the result is that they
  agree, so that a classified mutation is not refused after it was prepared.
\<close>

section \<open>Fields\<close>

text \<open>
  \<^verbatim>\<open>binary_search\<close> as membership, which is what it decides on a sorted slice; on another its result is
  unspecified.
\<close>

definition planned_field_is_bound_to_readback :: "capability \<Rightarrow> string list \<Rightarrow> string \<Rightarrow> bool" where
  "planned_field_is_bound_to_readback cap verified field \<longleftrightarrow>
     field \<in> set verified \<or> request_object_field_is_verification_omitted cap field"

definition unbound_field :: "capability \<Rightarrow> string list \<Rightarrow> (string \<times> json) list \<Rightarrow> bool" where
  "unbound_field cap verified planned \<longleftrightarrow> list_ex (\<lambda>(field, _). \<not> planned_field_is_bound_to_readback cap verified field) planned"

definition fields_not_increasing :: "string list \<Rightarrow> bool" where
  "fields_not_increasing names \<longleftrightarrow> list_ex (\<lambda>(a, b). \<not> a < b) (zip names (tl names))"

definition fields_malformed :: "string list \<Rightarrow> bool" where
  "fields_malformed names \<longleftrightarrow>
     names = [] \<or> list_ex (\<lambda>f. f = [] \<or> CHR ''/'' \<in> set f) names \<or> fields_not_increasing names"

definition target_check :: "bool \<Rightarrow> string \<Rightarrow> cloudflare_error + unit" where
  "target_check ok reason = ensure ok (MissingVerificationTarget reason)"

definition body_object :: "call_input \<Rightarrow> (string \<times> json) list option" where
  "body_object input = Option.bind (in_body input) json_as_object"

definition selector_missing :: "call_input \<Rightarrow> string \<Rightarrow> bool" where
  "selector_missing input name \<longleftrightarrow> identity_of (in_selectors input) name = None"

definition only_selectors :: "string list \<Rightarrow> (string \<times> json) list \<Rightarrow> bool" where
  "only_selectors names m \<longleftrightarrow> length m = length names \<and> list_all (\<lambda>name. identity_of (JObject m) name \<noteq> None) names"


section \<open>Exact resources\<close>

definition validate_same_path_delete_target :: "capability \<Rightarrow> call_input \<Rightarrow> cloudflare_error + unit" where
  "validate_same_path_delete_target cap input =
     res_bind (ok_or (same_path_read cap)
       (MissingVerificationTarget ''the hash-bound same-path delete readback contract is absent'')) (\<lambda>target.
     res_bind (target_check (sp_path target = path cap \<and> sp_read_capability_id target \<noteq> [] \<and> sp_verified_response_fields target = [])
       ''the exact delete contains inputs outside its hash-bound same-path readback contract'') (\<lambda>_.
     res_bind (if request_schema cap = None
       then target_check (in_body input = None) ''the exact delete contains inputs outside its hash-bound same-path readback contract''
       else target_check (required_empty_request_body_contract cap \<and> body_object input = Some [])
         ''the exact delete does not match its hash-bound required empty body contract'') (\<lambda>_.
     target_check (clean_verification_query input)
       ''the planned delete contains query controls outside the hash-bound same-path readback contract'')))"

definition validate_same_path_update_target :: "capability \<Rightarrow> call_input \<Rightarrow> cloudflare_error + unit" where
  "validate_same_path_update_target cap input =
     (let operation = update_operation cap in
      res_bind (ok_or (same_path_read cap)
        (MissingVerificationTarget (''the hash-bound same-path '' @ operation @ '' readback contract is absent''))) (\<lambda>target.
      res_bind (target_check (sp_path target = path cap \<and> sp_read_capability_id target \<noteq> [] \<and> sp_verified_response_fields target \<noteq> [] \<and>
          \<not> fields_not_increasing (sp_verified_response_fields target))
        (''the hash-bound same-path '' @ operation @ '' readback contract is malformed'')) (\<lambda>_.
      res_bind (target_check (clean_verification_query input)
        (''the planned '' @ operation @ '' contains query controls outside the hash-bound same-path readback contract'')) (\<lambda>_.
      res_bind (ok_or (body_object input)
        (MissingVerificationTarget (''planned '' @ operation @ '' body is absent, empty, or not an object''))) (\<lambda>planned.
      target_check (\<not> unbound_field cap (sp_verified_response_fields target) planned)
        (''the planned '' @ operation @ '' contains a field outside the hash-bound same-path readback fields''))))))"


section \<open>Created and updated resources\<close>

definition validate_created_resource_target :: "capability \<Rightarrow> call_input \<Rightarrow> cloudflare_error + unit" where
  "validate_created_resource_target cap input =
     res_bind (if cap_id cap = owned_create_id then validate_owned_access_create_input input else Inr ()) (\<lambda>_.
     res_bind (ok_or (created_resource cap) (MissingVerificationTarget ''the hash-bound created-resource contract is absent'')) (\<lambda>target.
     res_bind (target_check (cr_identity_selector target \<noteq> [] \<and>
         ends_with (cr_detail_path target) (''/{'' @ cr_identity_selector target @ ''}'') \<and>
         response_identity_pointer_supported (cr_identity_selector target) (cr_response_result_identity_pointer target) \<and>
         cr_read_capability_id target \<noteq> [] \<and> cr_delete_capability_id target \<noteq> [] \<and>
         \<not> fields_malformed (cr_verified_response_fields target))
       ''the hash-bound created-resource contract is malformed'') (\<lambda>_.
     res_bind (target_check (clean_verification_query input)
       ''the planned create contains query controls outside the hash-bound exact readback contract'') (\<lambda>_.
     res_bind (ok_or (body_object input) (MissingVerificationTarget ''planned create body is absent, empty, or not an object'')) (\<lambda>planned.
     target_check (\<not> unbound_field cap (cr_verified_response_fields target) planned)
       ''the planned create contains a field outside the hash-bound exact readback fields'')))))"

definition validate_created_collection_resource_target :: "capability \<Rightarrow> call_input \<Rightarrow> cloudflare_error + unit" where
  "validate_created_collection_resource_target cap input =
     res_bind (ok_or (created_collection_resource cap)
       (MissingVerificationTarget ''the hash-bound created-collection-resource contract is absent'')) (\<lambda>target.
     if is_worker_tail_create_capability cap
     then target_check (cc_collection_path target = path cap \<and> cc_identity_selector target = ''id'' \<and>
         cc_response_result_identity_pointer target = ''/id'' \<and> cc_response_item_identity_pointer target = ''/id'' \<and>
         cc_read_capability_id target = ''worker-tail-logs-list-tails'' \<and> cc_delete_capability_id target = ''worker-tail-logs-delete-tail'' \<and>
         cc_verified_response_fields target = [] \<and> \<not> cc_requires_page_number_completion target \<and> in_body input = None \<and>
         clean_verification_query input)
       ''the hash-bound Worker tail lease verification target is malformed''
     else
     res_bind (target_check (cc_collection_path target = path cap \<and> cc_identity_selector target \<noteq> [] \<and>
         cc_response_result_identity_pointer target = cc_response_item_identity_pointer target \<and>
         response_identity_pointer_supported (cc_identity_selector target) (cc_response_result_identity_pointer target) \<and>
         cc_read_capability_id target \<noteq> [] \<and> cc_delete_capability_id target \<noteq> [] \<and>
         \<not> fields_malformed (cc_verified_response_fields target))
       ''the hash-bound created-collection-resource contract is malformed'') (\<lambda>_.
     res_bind (target_check (clean_verification_query input)
       ''the planned create contains query controls outside the hash-bound collection readback contract'') (\<lambda>_.
     res_bind (ok_or (body_object input) (MissingVerificationTarget ''planned create body is absent, empty, or not an object'')) (\<lambda>planned.
     target_check (\<not> unbound_field cap (cc_verified_response_fields target) planned)
       ''the planned create contains a field outside the hash-bound collection readback fields''))))"

definition validate_created_nested_resource_target :: "capability \<Rightarrow> call_input \<Rightarrow> cloudflare_error + unit" where
  "validate_created_nested_resource_target cap input =
     res_bind (ok_or (created_nested_resource cap)
       (MissingVerificationTarget ''the hash-bound created-nested-resource contract is absent'')) (\<lambda>target.
     res_bind (target_check (cn_parent_path target \<noteq> [] \<and> cn_items_pointer target \<noteq> [] \<and> starts_with (cn_items_pointer target) ''/'' \<and>
         cn_identity_selector target \<noteq> [] \<and>
         response_identity_pointer_supported (cn_identity_selector target) (cn_response_item_identity_pointer target) \<and>
         cn_correlation_field target \<noteq> [] \<and> cn_read_capability_id target \<noteq> [] \<and> cn_delete_capability_id target \<noteq> [] \<and>
         cn_delete_path target = child_path (path cap) (cn_identity_selector target) \<and>
         cn_verified_response_fields target \<noteq> [] \<and> cn_correlation_field target \<in> set (cn_verified_response_fields target))
       ''the hash-bound created-nested-resource contract is malformed'') (\<lambda>_.
     res_bind (target_check (clean_verification_query input)
       ''the planned nested-resource create contains query controls outside the hash-bound parent readback contract'') (\<lambda>_.
     res_bind (ok_or (planned_body input)
       (MissingVerificationTarget ''planned nested-resource create body is absent, empty, or not an object'')) (\<lambda>planned.
     target_check (identity_of (JObject planned) (cn_correlation_field target) \<noteq> None \<and>
         \<not> unbound_field cap (cn_verified_response_fields target) planned)
       ''the planned nested-resource create is missing its correlation value or contains a field outside the hash-bound readback fields''))))"

definition validate_updated_resource_target :: "capability \<Rightarrow> call_input \<Rightarrow> cloudflare_error + unit" where
  "validate_updated_resource_target cap input =
     res_bind (ok_or (updated_resource cap) (MissingVerificationTarget ''the hash-bound updated-resource contract is absent'')) (\<lambda>target.
     res_bind (target_check (ur_identity_selector target \<noteq> [] \<and> path cap = child_path (ur_collection_path target) (ur_identity_selector target) \<and>
         response_identity_pointer_supported (ur_identity_selector target) (ur_response_item_identity_pointer target) \<and>
         ur_read_capability_id target \<noteq> [] \<and> \<not> selector_missing input (ur_identity_selector target))
       ''the hash-bound updated-resource contract is malformed'') (\<lambda>_.
     res_bind (target_check (clean_verification_query input)
       ''the planned update contains query controls outside the hash-bound collection readback contract'') (\<lambda>_.
     res_bind (ok_or (body_object input) (MissingVerificationTarget ''planned update body is absent, empty, or not an object'')) (\<lambda>planned.
     target_check (\<not> unbound_field cap (ur_verified_response_fields target) planned)
       ''the planned update contains a field outside the hash-bound collection readback fields''))))"


section \<open>Deleted resources\<close>

definition validate_deleted_resource_target :: "capability \<Rightarrow> call_input \<Rightarrow> cloudflare_error + unit" where
  "validate_deleted_resource_target cap input =
     res_bind (ok_or (deleted_resource cap) (MissingVerificationTarget ''the hash-bound deleted-resource contract is absent'')) (\<lambda>target.
     res_bind (target_check (dr_identity_selector target \<noteq> [] \<and> path cap = child_path (dr_collection_path target) (dr_identity_selector target) \<and>
         response_identity_pointer_supported (dr_identity_selector target) (dr_response_item_identity_pointer target) \<and>
         dr_read_capability_id target \<noteq> [] \<and> \<not> selector_missing input (dr_identity_selector target))
       ''the hash-bound deleted-resource contract is malformed'') (\<lambda>_.
     res_bind (target_check (in_body input = None)
       ''the planned delete body is outside the hash-bound collection readback contract'') (\<lambda>_.
     target_check (clean_verification_query input)
       ''the planned delete contains query controls outside the hash-bound collection readback contract'')))"

definition validate_deleted_nested_resource_target :: "capability \<Rightarrow> call_input \<Rightarrow> cloudflare_error + unit" where
  "validate_deleted_nested_resource_target cap input =
     res_bind (ok_or (deleted_nested_resource cap)
       (MissingVerificationTarget ''the hash-bound deleted-nested-resource contract is absent'')) (\<lambda>target.
     target_check (dn_parent_path target \<noteq> [] \<and> dn_collection_path target \<noteq> [] \<and> dn_items_pointer target \<noteq> [] \<and>
         starts_with (dn_items_pointer target) ''/'' \<and> path cap = child_path (dn_collection_path target) (dn_identity_selector target) \<and>
         response_identity_pointer_supported (dn_identity_selector target) (dn_response_item_identity_pointer target) \<and>
         dn_read_capability_id target \<noteq> [] \<and> \<not> selector_missing input (dn_identity_selector target) \<and> in_body input = None \<and>
         clean_verification_query input)
       ''the hash-bound deleted-nested-resource target is malformed'')"

definition validate_web_analytics_rule_delete_target :: "capability \<Rightarrow> call_input \<Rightarrow> cloudflare_error + unit" where
  "validate_web_analytics_rule_delete_target cap input =
     target_check (cap_id cap = ''web-analytics-delete-rule'' \<and> \<not> selector_missing input ''account_id'' \<and>
         \<not> selector_missing input ''ruleset_id'' \<and> \<not> selector_missing input ''rule_id'' \<and> in_body input = None \<and> clean_verification_query input)
       ''the hash-bound Web Analytics rule deletion target is malformed''"

definition validate_worker_script_delete_target :: "capability \<Rightarrow> call_input \<Rightarrow> cloudflare_error + unit" where
  "validate_worker_script_delete_target cap input =
     res_bind (ok_or (same_path_read cap)
       (MissingVerificationTarget ''the hash-bound Worker script settings readback contract is absent'')) (\<lambda>target.
     res_bind (target_check (sp_path target = ''/accounts/{account_id}/workers/scripts/{script_name}/settings'' \<and>
         sp_read_capability_id target = ''worker-script-get-settings'' \<and> sp_verified_response_fields target = [] \<and>
         clean_verification_query input \<and> in_body input = None)
       ''the Worker script delete does not match its hash-bound settings readback contract'') (\<lambda>_.
     res_bind (planned_selectors input ''the planned Worker script selectors are not an object'') (\<lambda>inputs.
     target_check (only_selectors [''account_id'', ''script_name''] inputs)
       ''the planned Worker script selectors are missing, empty, or broader than the exact account and script target'')))"


section \<open>Secrets, tokens and Access applications\<close>

definition validate_oauth_client_secret_target :: "capability \<Rightarrow> call_input \<Rightarrow> cloudflare_error + unit" where
  "validate_oauth_client_secret_target cap input =
     res_bind (ok_or (same_path_read cap)
       (MissingVerificationTarget ''the hash-bound OAuth client detail readback contract is absent'')) (\<lambda>target.
     res_bind (target_check (sp_path target = ''/accounts/{account_id}/oauth_clients/{oauth_client_id}'' \<and>
         sp_read_capability_id target = ''oauth-clients-get'' \<and>
         sp_verified_response_fields target = [''client_id'', ''has_rotated_secret''] \<and> request_schema cap = None \<and>
         in_body input = None \<and> clean_verification_query input)
       ''the OAuth client secret operation does not match its hash-bound body-free detail readback contract'') (\<lambda>_.
     res_bind (planned_selectors input ''the planned OAuth client selectors are not an object'') (\<lambda>inputs.
     target_check (only_selectors [''account_id'', ''oauth_client_id''] inputs)
       ''the planned OAuth client selectors are missing, empty, or broader than the exact account and client target'')))"

definition validate_access_service_token_refresh_target :: "capability \<Rightarrow> call_input \<Rightarrow> cloudflare_error + unit" where
  "validate_access_service_token_refresh_target cap input =
     res_bind (ok_or (same_path_read cap)
       (MissingVerificationTarget ''the hash-bound Access service-token detail readback contract is absent'')) (\<lambda>target.
     res_bind (target_check (sp_path target = ''/accounts/{account_id}/access/service_tokens/{service_token_id}'' \<and>
         sp_read_capability_id target = ''access-service-tokens-get-a-service-token'' \<and>
         sp_verified_response_fields target = [''expires_at'', ''id''] \<and> request_schema cap = None \<and>
         in_body input = None \<and> clean_verification_query input)
       ''the Access service-token refresh does not match its hash-bound body-free detail readback contract'') (\<lambda>_.
     res_bind (planned_selectors input ''the planned Access service-token selectors are not an object'') (\<lambda>inputs.
     target_check (only_selectors [''account_id'', ''service_token_id''] inputs)
       ''the planned Access service-token selectors are missing, empty, or broader than the exact account and token target'')))"

definition validate_worker_script_secret_put_target ::
    "(capability \<Rightarrow> call_input \<Rightarrow> cloudflare_error + unit) \<Rightarrow> capability \<Rightarrow> call_input \<Rightarrow> cloudflare_error + unit" where
  "validate_worker_script_secret_put_target request_contract cap input =
     res_bind (ok_or (same_path_read cap)
       (MissingVerificationTarget ''the hash-bound Worker script secret readback contract is absent'')) (\<lambda>target.
     res_bind (target_check (sp_path target = ''/accounts/{account_id}/workers/scripts/{script_name}/secrets/{secret_name}'' \<and>
         sp_read_capability_id target = ''worker-get-script-secret'' \<and> sp_verified_response_fields target = [''name'', ''type''] \<and>
         clean_verification_query input)
       ''the Worker script secret operation does not match its hash-bound exact readback contract'') (\<lambda>_.
     res_bind (planned_selectors input ''the planned Worker script selectors are not an object'') (\<lambda>inputs.
     res_bind (target_check (only_selectors [''account_id'', ''script_name''] inputs)
       ''the planned Worker script selectors are missing, empty, or broader than the exact account and script target'') (\<lambda>_.
     res_bind (request_contract cap input) (\<lambda>_.
     res_bind (ok_or (body_object input)
       (MissingVerificationTarget ''the planned Worker script secret body is absent or not an object'')) (\<lambda>body.
     target_check (identity_of (JObject body) ''name'' \<noteq> None \<and>
         (string_entry (JObject body) ''type'' = Some ''secret_text'' \<or> string_entry (JObject body) ''type'' = Some ''secret_key''))
       ''the planned Worker script secret name or type is absent or invalid''))))))"

definition validate_access_application_create_target :: "capability \<Rightarrow> call_input \<Rightarrow> cloudflare_error + unit" where
  "validate_access_application_create_target cap input =
     res_bind (ok_or (created_resource cap)
       (MissingVerificationTarget ''the hash-bound Access application create contract is absent'')) (\<lambda>target.
     res_bind (target_check (cr_detail_path target = ''/accounts/{account_id}/access/apps/{app_id}'' \<and>
         cr_identity_selector target = ''app_id'' \<and> cr_response_result_identity_pointer target = ''/id'' \<and>
         cr_read_capability_id target = ''access-applications-get-an-access-application'' \<and>
         cr_verified_response_fields target = [''name'', ''type''] \<and> clean_verification_query input)
       ''the Access application create does not match its hash-bound curated readback contract'') (\<lambda>_.
     res_bind (ok_or (planned_body input)
       (MissingVerificationTarget ''planned Access application create body is absent, empty, or not an object'')) (\<lambda>planned.
     res_bind (res_each (\<lambda>field. target_check (identity_of (JObject planned) field \<noteq> None)
       (''the planned Access application is missing its verifiable `'' @ field @ ''`'')) (cr_verified_response_fields target)) (\<lambda>_.
     res_bind (planned_selectors input ''the planned Access application selectors are not an object'') (\<lambda>inputs.
     target_check (only_selectors [''account_id''] inputs)
       ''the planned Access application selectors are missing, empty, or broader than the exact account target'')))))"


section \<open>Worker deployments and schedules\<close>

definition validate_worker_deployment_create_target ::
    "application_tables \<Rightarrow> (string \<Rightarrow> bool) \<Rightarrow> capability \<Rightarrow> call_input \<Rightarrow> cloudflare_error + unit" where
  "validate_worker_deployment_create_target app uuid cap input =
     res_bind (worker_mutation_read_target cap) (\<lambda>_.
     res_bind (ok_or (in_body input) (MissingVerificationTarget ''Worker deployment plan body is absent'')) (\<lambda>body.
     target_check (clean_verification_query input \<and> verification_contract_supported app cap \<and>
         worker_deployment_versions_match uuid body body)
       ''Worker deployment body must be a percentage split of unique versions summing to 100, with no force query''))"

definition validate_worker_cron_update_target :: "application_tables \<Rightarrow> capability \<Rightarrow> call_input \<Rightarrow> cloudflare_error + unit" where
  "validate_worker_cron_update_target app cap input =
     res_bind (worker_mutation_read_target cap) (\<lambda>_.
     res_bind (ok_or (in_body input) (MissingVerificationTarget ''Worker cron plan body is absent'')) (\<lambda>body.
     target_check (clean_verification_query input \<and> verification_contract_supported app cap \<and> cron_expressions body \<noteq> None)
       ''Worker cron body must be an array of cron expressions, with no extra query''))"


section \<open>The dispatch\<close>

definition body_label :: "string \<Rightarrow> string option" where
  "body_label strategy =
     (if strategy \<in> {''created_resource_contains_planned_fields_by_returned_id'',
          ''created_access_application_contains_planned_fields_by_returned_id'',
          ''parent_collection_contains_created_resource_id_and_planned_fields'',
          ''parent_object_contains_created_nested_resource_by_correlation'',
          ''web_analytics_rule_list_contains_created_id_and_planned_fields'',
          ''dns_record_details_match_created_id_and_planned_fields''} then Some ''create''
      else if strategy \<in> {''same_resource_contains_planned_fields_after_update'',
          ''same_path_result_contains_planned_fields_after_update'',
          ''parent_collection_item_contains_planned_fields_after_update'',
          ''dns_record_details_match_planned_id_and_fields''} then Some ''update''
      else if strategy = ''same_path_result_contains_planned_fields_after_mutation'' then Some ''mutation''
      else None)"

text \<open>
  The parameters: the tables of the core gate, the request contract, and \<^verbatim>\<open>Uuid::parse_str\<close> with the
  canonical text of what it parsed.
\<close>

record target_tables =
  tt_application :: application_tables
  tt_request :: "capability \<Rightarrow> call_input \<Rightarrow> cloudflare_error + unit"
  tt_uuid :: "string \<Rightarrow> string option"

definition parses_uuid :: "target_tables \<Rightarrow> string \<Rightarrow> bool" where
  "parses_uuid tables text \<longleftrightarrow> tt_uuid tables text \<noteq> None"

definition validate_strategy_target :: "target_tables \<Rightarrow> string \<Rightarrow> capability \<Rightarrow> call_input \<Rightarrow> cloudflare_error + unit" where
  "validate_strategy_target tables strategy cap input =
     (if strategy = ''same_resource_returns_not_found_after_delete'' then validate_same_path_delete_target cap input
      else if strategy \<in> {''same_resource_contains_planned_fields_after_update'', ''same_path_result_contains_planned_fields_after_update'',
          ''same_path_result_contains_planned_fields_after_mutation''} then validate_same_path_update_target cap input
      else if strategy \<in> {''created_resource_contains_planned_fields_by_returned_id'',
          ''web_analytics_rule_list_contains_created_id_and_planned_fields''}
      then validate_created_resource_target cap input
      else if strategy = ''created_access_application_contains_planned_fields_by_returned_id''
      then validate_access_application_create_target cap input
      else if strategy \<in> {''parent_collection_contains_created_resource_id_and_planned_fields'',
          ''worker_tail_collection_contains_created_lease_id''} then validate_created_collection_resource_target cap input
      else if strategy = ''parent_object_contains_created_nested_resource_by_correlation'' then validate_created_nested_resource_target cap input
      else if strategy = ''parent_collection_omits_deleted_resource_id'' then validate_deleted_resource_target cap input
      else if strategy = ''parent_object_omits_deleted_nested_resource_id'' then validate_deleted_nested_resource_target cap input
      else if strategy = ''web_analytics_rule_list_omits_deleted_id'' then validate_web_analytics_rule_delete_target cap input
      else if strategy = ''parent_collection_item_contains_planned_fields_after_update'' then validate_updated_resource_target cap input
      else Inr ())"

definition validate_verification_preconditions :: "target_tables \<Rightarrow> capability \<Rightarrow> call_input \<Rightarrow> cloudflare_error + unit" where
  "validate_verification_preconditions tables cap input =
     (let strategy = v_strategy (verification cap) in
      if \<not> verification_contract_supported (tt_application tables) cap then Inl (UnsupportedVerificationStrategy strategy)
      else if strategy \<in> {''oauth_client_reports_rotated_secret_after_value_roll'',
          ''oauth_client_reports_no_rotated_secret_after_old_secret_delete''} then validate_oauth_client_secret_target cap input
      else if strategy = ''worker_script_secret_reports_planned_name_and_type_after_put''
      then validate_worker_script_secret_put_target (tt_request tables) cap input
      else if strategy = ''worker_script_settings_returns_not_found_after_delete'' then validate_worker_script_delete_target cap input
      else if strategy = ''worker_deployment_latest_matches_planned_versions''
      then validate_worker_deployment_create_target (tt_application tables) (parses_uuid tables) cap input
      else if strategy = ''worker_cron_schedules_match_planned_crons'' then validate_worker_cron_update_target (tt_application tables) cap input
      else if strategy = ''access_service_token_reports_refreshed_expiration'' then validate_access_service_token_refresh_target cap input
      else if starts_with strategy ''async_list_operation_'' then validate_async_list_mutation_target cap input
      else
        res_bind (case body_label strategy of
            None \<Rightarrow> Inr ()
          | Some label \<Rightarrow> target_check (planned_body input \<noteq> None) (''planned '' @ label @ '' body is absent, empty, or not an object'')) (\<lambda>_.
        validate_strategy_target tables strategy cap input))"

end
