(* ===== verification/Verification_Dispatch.thy ===== *)
theory Verification_Dispatch
  imports Verification_Strategies Verification_Targets
begin

text \<open>
  The central dispatch \<^verbatim>\<open>Executor::verify_plan_with_input\<close> of \<^verbatim>\<open>crates/cfctl-cloudflare/src/lib.rs\<close>: the
  preconditions, then the verifier that the strategy names. The verifiers of single applications that are
  not modelled are a table. The results are that a capability that the core gate classified is not refused
  by the executor, that an admitted update or deletion ends without a verdict only when a read fails, and
  that the polling of a deployment ends.
\<close>

section \<open>The dispatch\<close>

definition is_update_verifier :: "string \<Rightarrow> bool" where
  "is_update_verifier strategy \<longleftrightarrow> strategy \<in> {''same_resource_contains_planned_fields_after_update'',
     ''same_path_result_contains_planned_fields_after_update'', ''same_path_result_contains_planned_fields_after_mutation'',
     ''parent_collection_item_contains_planned_fields_after_update''}"

definition is_create_verifier :: "string \<Rightarrow> bool" where
  "is_create_verifier strategy \<longleftrightarrow> strategy \<in> {''created_resource_contains_planned_fields_by_returned_id'',
     ''created_access_application_contains_planned_fields_by_returned_id'', ''pages_production_deployment_succeeds_by_returned_id'',
     ''parent_collection_contains_created_resource_id_and_planned_fields'', ''worker_tail_collection_contains_created_lease_id'',
     ''parent_object_contains_created_nested_resource_by_correlation'', ''web_analytics_rule_list_contains_created_id_and_planned_fields''}"

definition is_delete_verifier :: "string \<Rightarrow> bool" where
  "is_delete_verifier strategy \<longleftrightarrow> strategy \<in> {''same_resource_returns_not_found_after_delete'',
     ''worker_script_settings_returns_not_found_after_delete'', ''parent_collection_omits_deleted_resource_id'',
     ''parent_object_omits_deleted_nested_resource_id'', ''web_analytics_rule_list_omits_deleted_id''}"

text \<open>
  The parameters of the verifiers: the environment of hashes, the reader of timestamps, the present time,
  the \<^verbatim>\<open>Debug\<close> text of a stage, and the operation and the account of the plan.
\<close>

record verify_world =
  vw_env :: env
  vw_parse :: "string \<Rightarrow> datetime option"
  vw_now :: datetime
  vw_debug :: "string option \<Rightarrow> string"
  vw_operation :: string
  vw_account :: string

definition decided :: "cloudflare_error + operation_verification \<Rightarrow> cloudflare_error + operation_verification option" where
  "decided r = res_bind r (\<lambda>v. Inr (Some v))"

definition verify_resource_create :: "verify_world \<Rightarrow> client \<Rightarrow> capability \<Rightarrow> response \<Rightarrow> call_input
    \<Rightarrow> cloudflare_error + operation_verification option" where
  "verify_resource_create w c cap applied input =
     (let strategy = v_strategy (verification cap) in
      if strategy \<in> {''created_resource_contains_planned_fields_by_returned_id'',
          ''created_access_application_contains_planned_fields_by_returned_id''}
      then decided (verify_created_resource (vw_env w) c cap applied input)
      else if strategy = ''pages_production_deployment_succeeds_by_returned_id''
      then verify_pages_production_deployment (vw_debug w) c cap applied input
      else if strategy \<in> {''parent_collection_contains_created_resource_id_and_planned_fields'',
          ''worker_tail_collection_contains_created_lease_id''}
      then decided (verify_created_collection_resource c cap applied input)
      else if strategy = ''parent_object_contains_created_nested_resource_by_correlation''
      then decided (verify_created_nested_resource c cap applied input)
      else if strategy = ''web_analytics_rule_list_contains_created_id_and_planned_fields''
      then decided (verify_web_analytics_rule_create c cap applied input)
      else Inl (UnsupportedVerificationStrategy strategy))"

definition verify_resource_delete :: "client \<Rightarrow> capability \<Rightarrow> response \<Rightarrow> call_input \<Rightarrow> cloudflare_error + operation_verification" where
  "verify_resource_delete c cap applied input =
     (let strategy = v_strategy (verification cap) in
      if strategy = ''same_resource_returns_not_found_after_delete'' then verify_exact_resource_delete c cap applied input
      else if strategy = ''worker_script_settings_returns_not_found_after_delete'' then verify_worker_script_delete c cap applied input
      else if strategy = ''parent_collection_omits_deleted_resource_id'' then verify_parent_collection_delete c cap applied input
      else if strategy = ''parent_object_omits_deleted_nested_resource_id'' then verify_parent_object_nested_delete c cap applied input
      else if strategy = ''web_analytics_rule_list_omits_deleted_id'' then verify_web_analytics_rule_delete c cap applied input
      else Inl (UnsupportedVerificationStrategy strategy))"

definition verify_resource_update :: "client \<Rightarrow> capability \<Rightarrow> response \<Rightarrow> call_input \<Rightarrow> cloudflare_error + operation_verification" where
  "verify_resource_update c cap applied input =
     (let strategy = v_strategy (verification cap) in
      if strategy \<in> {''same_resource_contains_planned_fields_after_update'', ''same_path_result_contains_planned_fields_after_update'',
          ''same_path_result_contains_planned_fields_after_mutation''} then verify_exact_resource_update c cap applied input
      else if strategy = ''parent_collection_item_contains_planned_fields_after_update'' then verify_parent_collection_update c cap applied input
      else Inl (UnsupportedVerificationStrategy strategy))"

text \<open>
  The arms whose verifiers are parameters, before and after the modelled ones, in the order of the source.
  None of them is a prefix test that an earlier arm would have taken.
\<close>

definition tabled_strategies :: "string list" where
  "tabled_strategies =
     [''pages_direct_project_matches_returned_identity_without_git'', ''pages_production_variables_added_with_preserved_configuration'',
      ''d1_current_bookmark_equals_restore_result_bookmark'', ''osint_research_migration_schema_marker_is_present'',
      ''d1_import_provider_completion_matches_reviewed_source'', ''d1_reviewed_schema_batch_reports_every_statement_success'']"

definition later_tabled_strategies :: "string list" where
  "later_tabled_strategies =
     [''r2_private_file_upload_etag_and_conditional_read'',
      ''email_sending_dns_status_reports_ready'', ''email_routing_subdomain_dns_records_match'']"

definition rule_strategies :: "string list" where
  "rule_strategies =
     [''custom_challenge_expression_and_unchanged_parent'', ''response_header_rule_and_unchanged_parent_readback'']"

type_synonym verifier_table = "string \<Rightarrow> client \<Rightarrow> capability \<Rightarrow> response \<Rightarrow> call_input \<Rightarrow> cloudflare_error + operation_verification"

definition verify_plan_with_input :: "target_tables \<Rightarrow> verifier_table \<Rightarrow> verify_world \<Rightarrow> client \<Rightarrow> capability \<Rightarrow> response \<Rightarrow> call_input
    \<Rightarrow> cloudflare_error + operation_verification option" where
  "verify_plan_with_input tables others w c cap applied input =
     (let strategy = v_strategy (verification cap) in
      res_bind (validate_verification_preconditions tables cap input) (\<lambda>_.
      if strategy \<in> set tabled_strategies then decided (others strategy c cap applied input)
      else if starts_with strategy ''api_token_details_'' then decided (verify_api_token c cap (vw_account w) applied input)
      else if starts_with strategy ''dns_record_details_'' then decided (verify_dns_record c cap applied input)
      else if starts_with strategy ''oauth_client_'' then decided (verify_oauth_client_secret_rotation c cap applied input)
      else if strategy = ''worker_script_secret_reports_planned_name_and_type_after_put''
      then decided (verify_worker_script_secret_put c cap applied input)
      else if strategy = ''access_service_token_reports_refreshed_expiration''
      then decided (verify_access_service_token_refresh (vw_parse w) (vw_now w) c cap applied input)
      else if strategy = ''cache_purge_response_reports_target_zone_id'' then decided (verify_cache_purge cap applied input)
      else if strategy = ''email_routing_settings_response_reports_enabled_state'' then decided (verify_email_routing_settings cap applied)
      else if strategy = ''worker_latest_deployment_is_exact_rollback_target''
      then decided (verify_worker_version_rollback (tt_uuid tables) (vw_env w) c cap (vw_operation w) applied input)
      else if strategy = ''worker_deployment_latest_matches_planned_versions''
      then decided (verify_worker_deployment_create (parses_uuid tables) c cap applied input)
      else if strategy = ''worker_cron_schedules_match_planned_crons'' then decided (verify_worker_cron_update c cap applied input)
      else if strategy \<in> set later_tabled_strategies then decided (others strategy c cap applied input)
      else if starts_with strategy ''async_list_operation_''
      then decided (verify_async_list_mutation (vw_env w) c cap applied input)
      else if strategy \<in> set rule_strategies then decided (others strategy c cap applied input)
      else if is_delete_verifier strategy then decided (verify_resource_delete c cap applied input)
      else if is_update_verifier strategy then decided (verify_resource_update c cap applied input)
      else if is_create_verifier strategy then verify_resource_create w c cap applied input
      else Inl (UnsupportedVerificationStrategy strategy)))"


section \<open>Every verification is decided\<close>

lemma decided_not_None [simp]: "decided r \<noteq> Inr None"
  by (auto simp: decided_def result_simps)

lemma decided_Inl [simp]: "decided r = Inl e \<longleftrightarrow> r = Inl e"
  by (auto simp: decided_def result_simps)

lemma verify_resource_create_decides: "verify_resource_create w c cap applied input \<noteq> Inr None"
  unfolding verify_resource_create_def Let_def using deployment_decided by (simp split: if_splits)

text \<open>The outcome that stands for the code behind the polling loop is never reached.\<close>

lemma verification_decided: "verify_plan_with_input tables others w c cap applied input \<noteq> Inr None"
  unfolding verify_plan_with_input_def Let_def res_bind_Inr_iff
  using verify_resource_create_decides by (auto split: if_splits)


section \<open>An admitted mutation is verifiable\<close>

definition read_fails :: "client \<Rightarrow> cloudflare_error \<Rightarrow> bool" where
  "read_fails c e \<longleftrightarrow> (\<exists>cap inputs. read_one c cap inputs = Inl e \<or> read_all c cap inputs = Inl e)"

lemma read_failsI:
  "read_one c cap inputs = Inl e \<Longrightarrow> read_fails c e"
  "read_all c cap inputs = Inl e \<Longrightarrow> read_fails c e"
  by (auto simp: read_fails_def)

lemma selector_given:
  "\<not> selector_missing input k \<longleftrightarrow>
     (\<exists>i m. identity_of (in_selectors input) k = Some i \<and> json_as_object (in_selectors input) = Some m)"
  by (cases "in_selectors input") (auto simp: selector_missing_def identity_of_def)

lemmas verifier_simps = planned_identity_def planned_selectors_def result_simps Let_def

lemma exact_delete_fails:
  "verify_exact_resource_delete c cap applied input = Inl e \<Longrightarrow> same_path_read cap = Some target \<Longrightarrow> read_fails c e"
  by (auto simp: verify_exact_resource_delete_def verifier_simps intro: read_failsI)

lemma script_delete_fails:
  "verify_worker_script_delete c cap applied input = Inl e \<Longrightarrow> same_path_read cap = Some target \<Longrightarrow> read_fails c e"
  by (auto simp: verify_worker_script_delete_def verifier_simps intro: read_failsI)

lemma collection_delete_fails:
  "verify_parent_collection_delete c cap applied input = Inl e \<Longrightarrow> deleted_resource cap = Some target \<Longrightarrow>
     \<not> selector_missing input (dr_identity_selector target) \<Longrightarrow> read_fails c e"
  by (auto simp: verify_parent_collection_delete_def selector_given verifier_simps intro: read_failsI)

lemma nested_delete_fails:
  "verify_parent_object_nested_delete c cap applied input = Inl e \<Longrightarrow> deleted_nested_resource cap = Some target \<Longrightarrow>
     \<not> selector_missing input (dn_identity_selector target) \<Longrightarrow> read_fails c e"
  by (auto simp: verify_parent_object_nested_delete_def selector_given verifier_simps intro: read_failsI)

lemma rule_delete_fails:
  "verify_web_analytics_rule_delete c cap applied input = Inl e \<Longrightarrow> \<not> selector_missing input ''rule_id'' \<Longrightarrow> read_fails c e"
  by (auto simp: verify_web_analytics_rule_delete_def selector_given verifier_simps intro: read_failsI)

lemma exact_update_fails:
  "verify_exact_resource_update c cap applied input = Inl e \<Longrightarrow> same_path_read cap = Some target \<Longrightarrow> planned_body input = Some planned \<Longrightarrow>
     read_fails c e"
  by (auto simp: verify_exact_resource_update_def verifier_simps intro: read_failsI)

lemma collection_update_fails:
  "verify_parent_collection_update c cap applied input = Inl e \<Longrightarrow> updated_resource cap = Some target \<Longrightarrow> planned_body input = Some planned \<Longrightarrow>
     \<not> selector_missing input (ur_identity_selector target) \<Longrightarrow> read_fails c e"
  by (auto simp: verify_parent_collection_update_def selector_given verifier_simps intro: read_failsI)

text \<open>What the preconditions leave of the contract and the input.\<close>

lemma target_check_Inr [simp]: "target_check ok reason = Inr u \<longleftrightarrow> ok"
  by (simp add: target_check_def)

lemmas precondition_simps = validate_verification_preconditions_def validate_strategy_target_def body_label_def starts_with_def Let_def

lemma admitted_exact_delete:
  assumes "validate_verification_preconditions tables cap input = Inr ()"
    and "v_strategy (verification cap) = ''same_resource_returns_not_found_after_delete''"
  shows "same_path_read cap \<noteq> None"
  using assms by (auto simp: precondition_simps validate_same_path_delete_target_def result_simps split: if_splits)

lemma admitted_script_delete:
  assumes "validate_verification_preconditions tables cap input = Inr ()"
    and "v_strategy (verification cap) = ''worker_script_settings_returns_not_found_after_delete''"
  shows "same_path_read cap \<noteq> None"
  using assms by (auto simp: precondition_simps validate_worker_script_delete_target_def result_simps split: if_splits)

lemma admitted_collection_delete:
  assumes "validate_verification_preconditions tables cap input = Inr ()"
    and "v_strategy (verification cap) = ''parent_collection_omits_deleted_resource_id''"
  shows "\<exists>target. deleted_resource cap = Some target \<and> \<not> selector_missing input (dr_identity_selector target)"
  using assms by (auto simp: precondition_simps validate_deleted_resource_target_def result_simps split: if_splits)

lemma admitted_nested_delete:
  assumes "validate_verification_preconditions tables cap input = Inr ()"
    and "v_strategy (verification cap) = ''parent_object_omits_deleted_nested_resource_id''"
  shows "\<exists>target. deleted_nested_resource cap = Some target \<and> \<not> selector_missing input (dn_identity_selector target)"
  using assms by (auto simp: precondition_simps validate_deleted_nested_resource_target_def result_simps split: if_splits)

lemma admitted_rule_delete:
  assumes "validate_verification_preconditions tables cap input = Inr ()"
    and "v_strategy (verification cap) = ''web_analytics_rule_list_omits_deleted_id''"
  shows "\<not> selector_missing input ''rule_id''"
  using assms by (auto simp: precondition_simps validate_web_analytics_rule_delete_target_def result_simps split: if_splits)

lemma admitted_exact_update:
  assumes "validate_verification_preconditions tables cap input = Inr ()"
    and "v_strategy (verification cap) \<in> {''same_resource_contains_planned_fields_after_update'',
      ''same_path_result_contains_planned_fields_after_update'', ''same_path_result_contains_planned_fields_after_mutation''}"
  shows "same_path_read cap \<noteq> None \<and> planned_body input \<noteq> None"
  using assms by (auto simp: precondition_simps validate_same_path_update_target_def result_simps split: if_splits)

lemma admitted_collection_update:
  assumes "validate_verification_preconditions tables cap input = Inr ()"
    and "v_strategy (verification cap) = ''parent_collection_item_contains_planned_fields_after_update''"
  shows "\<exists>target planned. updated_resource cap = Some target \<and> \<not> selector_missing input (ur_identity_selector target) \<and>
    planned_body input = Some planned"
  using assms by (auto simp: precondition_simps validate_updated_resource_target_def result_simps split: if_splits)

lemma admitted_delete_fails:
  assumes "validate_verification_preconditions tables cap input = Inr ()" "is_delete_verifier (v_strategy (verification cap))"
    and "verify_resource_delete c cap applied input = Inl e"
  shows "read_fails c e"
proof -
  let ?s = "v_strategy (verification cap)"
  consider "?s = ''same_resource_returns_not_found_after_delete''" | "?s = ''worker_script_settings_returns_not_found_after_delete''"
    | "?s = ''parent_collection_omits_deleted_resource_id''" | "?s = ''parent_object_omits_deleted_nested_resource_id''"
    | "?s = ''web_analytics_rule_list_omits_deleted_id''"
    using assms(2) unfolding is_delete_verifier_def by blast
  then show ?thesis
  proof cases
    case 1
    then show ?thesis using assms(3) admitted_exact_delete [OF assms(1) 1]
      by (auto simp: verify_resource_delete_def intro: exact_delete_fails)
  next
    case 2
    then show ?thesis using assms(3) admitted_script_delete [OF assms(1) 2]
      by (auto simp: verify_resource_delete_def intro: script_delete_fails)
  next
    case 3
    then show ?thesis using assms(3) admitted_collection_delete [OF assms(1) 3]
      by (auto simp: verify_resource_delete_def intro: collection_delete_fails)
  next
    case 4
    then show ?thesis using assms(3) admitted_nested_delete [OF assms(1) 4]
      by (auto simp: verify_resource_delete_def intro: nested_delete_fails)
  next
    case 5
    then show ?thesis using assms(3) admitted_rule_delete [OF assms(1) 5]
      by (auto simp: verify_resource_delete_def intro: rule_delete_fails)
  qed
qed

lemma admitted_update_fails:
  assumes "validate_verification_preconditions tables cap input = Inr ()" "is_update_verifier (v_strategy (verification cap))"
    and "verify_resource_update c cap applied input = Inl e"
  shows "read_fails c e"
proof (cases "v_strategy (verification cap) = ''parent_collection_item_contains_planned_fields_after_update''")
  case True
  with admitted_collection_update [OF assms(1) True] assms(3) show ?thesis
    by (auto simp: verify_resource_update_def intro: collection_update_fails)
next
  case False
  with assms(2) have s: "v_strategy (verification cap) \<in> {''same_resource_contains_planned_fields_after_update'',
      ''same_path_result_contains_planned_fields_after_update'', ''same_path_result_contains_planned_fields_after_mutation''}"
    unfolding is_update_verifier_def by blast
  then have "verify_exact_resource_update c cap applied input = Inl e" using assms(3) by (simp add: verify_resource_update_def)
  with admitted_exact_update [OF assms(1) s] show ?thesis by (auto intro: exact_update_fails)
qed

lemma dispatch_update:
  assumes "is_update_verifier (v_strategy (verification cap))" "validate_verification_preconditions tables cap input = Inr ()"
  shows "verify_plan_with_input tables others w c cap applied input = decided (verify_resource_update c cap applied input)"
  using assms unfolding is_update_verifier_def
  by (elim insertE emptyE) (simp_all add: verify_plan_with_input_def tabled_strategies_def later_tabled_strategies_def
    rule_strategies_def is_delete_verifier_def is_update_verifier_def starts_with_def)

lemma dispatch_delete:
  assumes "is_delete_verifier (v_strategy (verification cap))" "validate_verification_preconditions tables cap input = Inr ()"
  shows "verify_plan_with_input tables others w c cap applied input = decided (verify_resource_delete c cap applied input)"
  using assms unfolding is_delete_verifier_def
  by (elim insertE emptyE) (simp_all add: verify_plan_with_input_def tabled_strategies_def later_tabled_strategies_def
    rule_strategies_def is_delete_verifier_def starts_with_def)

text \<open>
  C16. A mutation that the executor admits does not become unverifiable afterwards: when the preconditions
  of an update or deletion hold, which is checked before the request is sent, its verification ends
  without a verdict only with the error of a read. No missing contract, selector or body and no
  unsupported strategy is found after the change was made.
\<close>

theorem admitted_mutation_verifiable:
  assumes "validate_verification_preconditions tables cap input = Inr ()"
    and "is_update_verifier (v_strategy (verification cap)) \<or> is_delete_verifier (v_strategy (verification cap))"
    and "verify_plan_with_input tables others w c cap applied input = Inl e"
  shows "read_fails c e"
  using assms(2)
proof
  assume "is_update_verifier (v_strategy (verification cap))"
  then show ?thesis using admitted_update_fails [OF assms(1)] dispatch_update assms(1,3) by simp
next
  assume "is_delete_verifier (v_strategy (verification cap))"
  then show ?thesis using admitted_delete_fails [OF assms(1)] dispatch_delete assms(1,3) by simp
qed


section \<open>The two gates agree\<close>

lemma strictly_increasing: "sorted_wrt (<) names \<Longrightarrow> \<not> fields_not_increasing names"
proof (induction names)
  case (Cons a names)
  then show ?case by (cases names) (auto simp: fields_not_increasing_def)
qed (simp add: fields_not_increasing_def)

lemma declared_fields_bound:
  assumes "verifiable_request_object_fields cap = Some ns" "request_object_fields cap = Some fs" "fst ` set planned \<subseteq> set fs"
  shows "\<not> unbound_field cap ns planned \<and> ns \<noteq> [] \<and> \<not> fields_not_increasing ns"
  using verifiable_fields_characterised [OF assms(1)] assms(2,3) strictly_increasing
  by (fastforce simp: unbound_field_def planned_field_is_bound_to_readback_def list_ex_iff)

lemma resource_strategy_gate:
  assumes "verification_contract_supported app cap" "mutating cap" "required (verification cap)"
    and "v_strategy (verification cap) \<notin> set application_strategies" "map_of identity_strategies (v_strategy (verification cap)) = None"
    and "map_of resource_strategies (v_strategy (verification cap)) = Some supports"
  shows "supports cap"
  using assms unfolding verification_contract_supported_def Let_def by (simp add: map_add_def split: if_splits)

lemma exact_update_gate:
  assumes "verification_contract_supported app cap" "mutating cap" "required (verification cap)"
    and "v_strategy (verification cap) \<in> {''same_resource_contains_planned_fields_after_update'',
      ''same_path_result_contains_planned_fields_after_update'', ''same_path_result_contains_planned_fields_after_mutation''}"
  shows "same_path_read_contract_supported True cap"
  using assms(4) by (elim insertE emptyE)
    (use resource_strategy_gate [OF assms(1-3)] in \<open>simp_all add: application_strategies_def identity_strategies_def resource_strategies_def\<close>)

lemma collection_update_gate:
  assumes "verification_contract_supported app cap" "mutating cap" "required (verification cap)"
    and "v_strategy (verification cap) = ''parent_collection_item_contains_planned_fields_after_update''"
  shows "updated_resource_contract_supported cap"
  using resource_strategy_gate [OF assms(1-3)]
  by (simp add: assms(4) application_strategies_def identity_strategies_def resource_strategies_def)

lemma body_object_planned: "planned_body input = Some planned \<Longrightarrow> body_object input = Some planned"
  by (auto simp: planned_body_def body_object_def nonempty_list_def bind_eq_Some_conv split: if_splits)

lemma same_path_update_target_ok:
  assumes "same_path_read_contract_supported True cap" "planned_body input = Some planned" "clean_verification_query input"
    and "request_object_fields cap = Some fs" "fst ` set planned \<subseteq> set fs"
  shows "validate_same_path_update_target cap input = Inr ()"
proof -
  obtain target ns where target: "same_path_read cap = Some target" "sp_path target = path cap" "sp_read_capability_id target \<noteq> []"
    and ns: "verifiable_request_object_fields cap = Some ns" "sp_verified_response_fields target = ns"
    using assms(1) by (auto simp: same_path_read_contract_supported_def split: option.splits if_splits)
  with declared_fields_bound [OF ns(1) assms(4,5)] body_object_planned [OF assms(2)] assms(3) show ?thesis
    by (simp add: validate_same_path_update_target_def target_check_def Let_def)
qed

lemma updated_resource_target_ok:
  assumes "updated_resource_contract_supported cap" "planned_body input = Some planned" "clean_verification_query input"
    and "request_object_fields cap = Some fs" "fst ` set planned \<subseteq> set fs"
    and "\<And>target. updated_resource cap = Some target \<Longrightarrow> \<not> selector_missing input (ur_identity_selector target)"
  shows "validate_updated_resource_target cap input = Inr ()"
proof -
  obtain target ns where target: "updated_resource cap = Some target" "ur_identity_selector target \<noteq> []" "ur_read_capability_id target \<noteq> []"
      "path cap = child_path (ur_collection_path target) (ur_identity_selector target)"
      "response_identity_pointer_supported (ur_identity_selector target) (ur_response_item_identity_pointer target)"
    and ns: "verifiable_request_object_fields cap = Some ns" "ur_verified_response_fields target = ns"
    using assms(1) by (auto simp: updated_resource_contract_supported_def split: option.splits)
  with declared_fields_bound [OF ns(1) assms(4,5)] body_object_planned [OF assms(2)] assms(3) assms(6) [OF target(1)] show ?thesis
    by (simp add: validate_updated_resource_target_def target_check_def)
qed

text \<open>
  C17. The gate that classifies capabilities and the gate of the executor agree on updates: when the core
  accepts the verification contract of a mutating capability, any non-empty planned body whose fields the
  request schema declares, sent without query controls and with the selector of the item, is admitted.
\<close>

theorem classified_update_admitted:
  assumes "verification_contract_supported (tt_application tables) cap" "mutating cap" "required (verification cap)"
    and "is_update_verifier (v_strategy (verification cap))"
    and "planned_body input = Some planned" "clean_verification_query input"
    and "request_object_fields cap = Some fs" "fst ` set planned \<subseteq> set fs"
    and "\<And>target. updated_resource cap = Some target \<Longrightarrow> \<not> selector_missing input (ur_identity_selector target)"
  shows "validate_verification_preconditions tables cap input = Inr ()"
proof (cases "v_strategy (verification cap) = ''parent_collection_item_contains_planned_fields_after_update''")
  case True
  have "validate_updated_resource_target cap input = Inr ()"
    by (rule updated_resource_target_ok [OF collection_update_gate [OF assms(1-3) True] assms(5-9)])
  then show ?thesis using assms(1,5) True by (simp add: precondition_simps target_check_def)
next
  case False
  with assms(4) have s: "v_strategy (verification cap) \<in> {''same_resource_contains_planned_fields_after_update'',
      ''same_path_result_contains_planned_fields_after_update'', ''same_path_result_contains_planned_fields_after_mutation''}"
    unfolding is_update_verifier_def by blast
  have "validate_same_path_update_target cap input = Inr ()"
    by (rule same_path_update_target_ok [OF exact_update_gate [OF assms(1-3) s] assms(5-8)])
  then show ?thesis using assms(1,5) s by (elim insertE emptyE) (simp_all add: precondition_simps target_check_def)
qed


section \<open>Examples\<close>

definition sample_tables :: target_tables where
  "sample_tables = \<lparr>tt_application = demo_tables, tt_request = \<lambda>_ _. Inr (), tt_uuid = \<lambda>text. Some text\<rparr>"

definition sample_edit :: call_input where
  "sample_edit = sample_call (Some (JObject [(''name'', JString ''a'')]))"

lemma sample_edit_facts:
  "planned_body sample_edit = Some [(''name'', JString ''a'')]" "clean_verification_query sample_edit"
  "v_strategy (verification demo_update) = ''same_resource_contains_planned_fields_after_update''"
  "required (verification demo_update)" "updated_resource demo_update = None"
  by code_simp+

lemma demo_update_declared: "request_object_fields demo_update = Some [''name'', ''secret'', ''ttl'']"
  by code_simp

theorem classified_update_admitted_witness: "validate_verification_preconditions sample_tables demo_update sample_edit = Inr ()"
proof (rule classified_update_admitted)
  show "verification_contract_supported (tt_application sample_tables) demo_update"
    using demo_update_verified by (simp add: sample_tables_def)
  show "mutating demo_update" by (rule demo_update_facts)
  show "request_object_fields demo_update = Some [''name'', ''secret'', ''ttl'']" by (rule demo_update_declared)
  show "fst ` set [(''name'', JString ''a'')] \<subseteq> set [''name'', ''secret'', ''ttl'']" by simp
qed (simp_all add: sample_edit_facts is_update_verifier_def)

definition sample_world :: verify_world where
  "sample_world = \<lparr>vw_env = sample_env, vw_parse = \<lambda>_. None, vw_now = 0, vw_debug = \<lambda>_. [], vw_operation = [], vw_account = []\<rparr>"

definition failing_client :: client where
  "failing_client = \<lparr>client_build = \<lambda>_ _. Inr sample_target, client_send = \<lambda>_ _. Inl (Http_Error ''timeout'')\<rparr>"

theorem admitted_mutation_verifiable_witness:
  "\<exists>e. verify_plan_with_input sample_tables (\<lambda>_ _ _ _ _. Inl InvalidBaseUrl) sample_world failing_client demo_update
     (sample_answer JNull None) sample_edit = Inl e \<and> read_fails failing_client e"
proof -
  have admitted: "validate_verification_preconditions sample_tables demo_update sample_edit = Inr ()" by code_simp
  have update: "is_update_verifier (v_strategy (verification demo_update)) \<or> is_delete_verifier (v_strategy (verification demo_update))"
    by (simp add: sample_edit_facts is_update_verifier_def)
  have failed: "verify_plan_with_input sample_tables (\<lambda>_ _ _ _ _. Inl InvalidBaseUrl) sample_world failing_client demo_update
     (sample_answer JNull None) sample_edit = Inl (Http_Error ''timeout'')" by code_simp
  show ?thesis using failed admitted_mutation_verifiable [OF admitted update failed] by blast
qed

end
