(* ===== verification/Spec2Isabelle.thy ===== *)
theory Spec2Isabelle
  imports Planner_Policy Plan_V2 Schema_Redaction Standing_Run Request_Contract Sql_Rendering Pagination Plan_Set_Commands
    Verification_Dispatch
begin

text \<open>
  A verification development for \<^verbatim>\<open>cfctl\<close>, a control plane for Cloudflare accounts. An operator or an
  agent asks for a capability of the published API; the program prepares a plan, lets a policy
  decide whether it runs at once, needs an approval or is blocked, stores it, and contacts the
  provider only for a stored plan that was approved, that the policy lets through, or that a
  standing authority covers. Paths below are relative to \<^verbatim>\<open>crates/\<close>.

  \<^bold>\<open>Parts and theories.\<close>

  \<^item> \<open>Cfctl_Prelude\<close>: results as sums, doubles, byte strings, and the ordered maps that stand for
    \<^verbatim>\<open>BTreeMap\<close>, with their interface \<open>ordered_map\<close>.
  \<^item> \<open>Json_Value\<close>, \<open>Schema_Redaction\<close>, \<open>Content_Hash\<close>: JSON values, the canonical form, redaction of
    values and of schemas, and content hashes (\<^verbatim>\<open>cfctl-core/src/lib.rs\<close>: \<^verbatim>\<open>canonical_json_value\<close>,
    \<^verbatim>\<open>redact_json\<close>, \<^verbatim>\<open>redact_json_schema\<close>, \<^verbatim>\<open>hash_value\<close>). The encoder and the digest are parameters.
    The interface \<open>hash_bound\<close> is that of a document that carries the hash of its own content; plans,
    their canonical documents, grants and bundles interpret it.
  \<^item> \<open>Capability\<close>, \<open>Request_Schema\<close>, \<open>Capability_Contracts\<close>: the capability record, the fields that a
    request schema declares, and the gaps in the safety contract of a mutation.
  \<^item> \<open>Core_Contracts\<close>, \<open>Plan_Journal\<close>, \<open>Plan_Lifecycle\<close>, \<open>Plan_V2\<close>: plan states and stages, the plan with
    its chained journal (interface \<open>hash_chain\<close>), approval, consumption and cancellation, and the
    canonical document that pins what was reviewed.
  \<^item> \<open>Standing_Authority\<close>, \<open>Admission_Policy\<close>: grants for unattended runs with their bounds and rate
    limit, and the bundles of rules that tighten a decision.
  \<^item> \<open>Planner_Policy\<close>: the compiled policy (\<^verbatim>\<open>cfctl-planner/src/lib.rs\<close>) and the admission of a plan
    (\<^verbatim>\<open>cfctl-cli/src/runtime/plan_prepare.rs\<close>).
  \<^item> \<open>Durable_Files\<close>, \<open>Plan_Store\<close>, \<open>Authority_Store\<close>, \<open>Admission_Store\<close>: the state store
    (\<^verbatim>\<open>cfctl-storage/src/lib.rs\<close>). The state is the record \<open>disk\<close>: a table of documents for each kind, and
    the list of faults that the coming writes meet. The interface \<open>file_table\<close> says what a write does
    to one table; each of the four tables interprets it.
  \<^item> \<open>Plan_Commands\<close>, \<open>Standing_Run\<close>: the commands that approve, cancel and run a plan, with or without
    a standing authority, and those that approve and revoke an authority
    (\<^verbatim>\<open>cfctl-cli/src/runtime/plan_commands.rs\<close>, \<^verbatim>\<open>keys_commands.rs\<close>), up to the provider boundary.
  \<^item> \<open>Plan_Set\<close>, \<open>Plan_Set_Commands\<close>: deployment plan sets, the bundles of drafts that are reviewed together
    (\<^verbatim>\<open>DeploymentPlanSetV1\<close> in \<^verbatim>\<open>cfctl-core/src/lib.rs\<close>, their documents in the state store, and the commands
    that create and verify them in \<^verbatim>\<open>cfctl-cli/src/runtime/plan_set.rs\<close>).
  \<^item> \<open>Cloudflare_Errors\<close>, \<open>Json_Numbers\<close>, \<open>Schema_Equality\<close>, \<open>Schema_Validation\<close>: the input and the errors of the
    provider client (\<^verbatim>\<open>cfctl-cloudflare/src/lib.rs\<close>), exact arithmetic on JSON numbers, equality keys, and
    the validator of request values against pinned schemas.
  \<^item> \<open>Request_Contract\<close>, \<open>Sql_Rendering\<close>, \<open>Pagination\<close>: selectors, query, body and headers of the request that
    is built, rendering of structured SQL, and reading a collection through pages or cursors.
  \<^item> \<open>Readback\<close>, \<open>Access_Readback\<close>: comparing what was planned with what a live read returns, by the request
    schema (\<^verbatim>\<open>contains_verifiable_planned_value\<close>) and exactly for Access applications and policies
    (\<^verbatim>\<open>mismatched_verifiable_planned_fields\<close>).
  \<^item> \<open>Verification\<close>, \<open>Access_Ownership\<close>, \<open>Verification_Strategies\<close>, \<open>Verification_Jobs\<close>,
    \<open>Verification_Targets\<close>, \<open>Verification_Dispatch\<close>: proving that a mutation took effect. One definition for each verifier and for
    each check of a verification target, composed by \<open>validate_verification_preconditions\<close> and
    \<open>verify_plan_with_input\<close> as in the source; the creation of owned Access applications is that of
    \<^verbatim>\<open>access_create.rs\<close>, API tokens are those of \<^verbatim>\<open>token_verification.rs\<close>. The interface \<open>readback_verifier\<close> is that of a verifier that reads and compares;
    the verifiers of exact resources and collections interpret it. Building and sending a request are the
    record \<open>client\<close>.

  A fallible function of the source returns a sum with the error on the left. A method that changes
  a value in place returns the value as well, so that what a failed call leaves behind is visible. A
  storage call is a function from the disk to its result and the disk it leaves; a write consumes
  one element of the fault list, which says that it succeeds, fails without effect, or replaces the
  document and then reports that its durability is unknown. Readings of the clock are arguments.

  \<^bold>\<open>What is shown.\<close>

  \<^item> Of a single plan: who authorised an execution, that it is consumed once, when each call succeeds
    and what a failed one leaves, that the journal is forward-only and tamper-evident, that the
    reviewed pins stay.
  \<^item> Of the policy: exactly when a plan runs without approval and when it is blocked, that bundles
    only tighten, and what a gap-free mutation guarantees about verification and rollback.
  \<^item> Of grants: their bounds, the rate limit over any 24 hours, tamper evidence.
  \<^item> Of schemas: what redaction hides, directly and in the definitions that a sensitive property reaches
    through chains of references, that the reference collector ends, that the budgeted tests agree with
    their reference meaning.
  \<^item> Of the store: a torn save is detected and repaired, the canonical document
    is never lost, activation of a bundle is atomic for the policy in force, and one that is cut off
    after its first write strands its bundle.
  \<^item> Of the commands: a run reaches the provider only with a durable record of the attempt, at most
    once for each plan, accounted for under a standing authority and never after its revocation.
  \<^item> Of plan sets: that they are coherent, consist of stored drafts when they are created, and that
    verification finds a child whose recorded content hash or pins changed; the content itself is
    compared when the child is approved or consumed.
  \<^item> Of requests: the validator decides exactly the meaning of a schema, accepted bodies are typed, a
    validated query is sent whole, the path follows its template, reserved headers stay, text that
    the provider's reader takes literally stays text in SQL while a backslash may not, and a completed read holds every item of the pages it covers.
  \<^item> Of verification, each tied to the live read that the client made: a passed update leaves no planned
    value unobserved at its place, a passed deletion leaves the
    identity nowhere in the collection that was read, a passed owned creation is the only claim on its hostname,
    collections compared without order are compared as sets, a created token carries
    exactly the planned policies, a Worker serves the planned versions at shares that sum to one hundred
    percent, members are absent from a List whose bulk operation was reported complete, a deployment is
    decided within its attempts, the gate of
    the core and that of the executor agree on updates, an admitted update or deletion ends without a
    verdict only when a read fails.

  \<^bold>\<open>Bounds.\<close> The schema traversals carry the budgets of the source, depth 64 and 4096 steps. The
  reference collector follows each pointer once; its fuel is the number of references in the
  schema and is shown to be enough. The request validator carries depth 64 and 65536 steps, a
  paginated read at most 1000 pages. The comparison of a read carries depth 64 and 4096 steps for each
  route, the polling of a deployment 120 attempts, which are shown to be enough for a decision, and
  that of a List operation the attempts of its contract, after which the verdict is a failure. All other
  recursion is structural or has a measure.

  \<^bold>\<open>Assumptions.\<close> Commands on one plan or authority run one after the other: taking a lock is a
  parameter whose failure is an error path, and mutual exclusion itself is not modelled. Digests
  are arbitrary functions; a theorem that needs them to be collision-free says so by naming the
  collision. Two theorems on admission bundles assume that a digest is not the empty string. A stored
  document is the typed value that was written: encoding it and parsing it again are taken to give the
  value back, which for JSON numbers means finite doubles that print and parse exactly. The provider's
  reader of SQL is a parameter with the laws of the interface \<open>sql_reader\<close>, which a standard reader and one
  with backslash escapes satisfy, each for the texts it takes literally; the \<^verbatim>\<open>url\<close> package is a parameter
  with the law \<open>pushes_segments\<close>, stated for segments without tab and line breaks. The provider is a function of the number of the request and the request.

  \<^bold>\<open>Not modelled.\<close> The verifiers of Pages setup, D1, R2, email DNS and rules (a table that the dispatch
  takes) and the parsers of UUIDs and times, writing and authenticating evidence, lock files, directory
  permissions and descriptors, credentials and keychains, the transport of requests, the executors
  of single applications, the import of the published schemas, argument parsing and rendering.
  They are operating system effects, services, tables of literals, or glue.
\<close>

section \<open>The program as a whole\<close>

text \<open>
  One command or storage call at a time, in any order, with any outcome and any write faults. A
  prepared plan has a fresh identifier; an executor advances the journal of a plan that
  was consumed, starting from what is stored.
\<close>

inductive command_step :: "env \<Rightarrow> (string \<Rightarrow> bool) \<Rightarrow> disk \<Rightarrow> disk \<Rightarrow> bool" for e u where
  prepared: "plan_v2_file d (operation_id (v2_plan q)) = None \<Longrightarrow> command_step e u d (snd (save_plan_v2 e u q d))"
| approved: "command_step e u d (snd (approve_plan e u s lk ev (t1, t2, t3) yes c i d))"
| cancelled: "command_step e u d (snd (cancel_plan e u lk ev (t1, t2) i d))"
| ran: "command_step e u d (snd (run_plan e u s lk (t1, t2, t3, t4) i d))"
| ran_standing: "command_step e u d (snd (run_plan_under_standing_authority e u parse s plan_lk lk ev (r1, r2)
    (now, t1, t2, t3, t4) input i aid d))"
| granted: "command_step e u d (snd (key_policy_approve e u lk (t1, t2) yes aid d))"
| revoked: "command_step e u d (snd (key_policy_revoke e u lk aid d))"
| advanced: "load_plan_v2 e u i d = Inr q \<Longrightarrow> executed (status (v2_plan q)) \<Longrightarrow> executed st \<Longrightarrow>
    record_transaction_stage_inner e t stage artifact ((v2_plan q)\<lparr>status := st\<rparr>) = Inr p' \<Longrightarrow>
    command_step e u d (snd (save_plan e u p' d))"
| governed: "authority_store_step e u d d' \<Longrightarrow> command_step e u d d'"
| ruled: "admission_store_step e u d d' \<Longrightarrow> command_step e u d d'"

lemma prepared_spent:
  assumes "spent e u i d" "plan_v2_file d (operation_id (v2_plan q)) = None"
  shows "spent e u i (snd (save_plan_v2 e u q d))"
proof -
  have "operation_id (v2_plan q) \<noteq> i" using assms by (auto simp: spent_def load_plan_v2_iff)
  then show ?thesis
    using save_plan_v2_outcome [of e u q d] write_current_spent [OF assms(1), of q] assms(1) by auto
qed

lemma command_spent: "command_step e u d d' \<Longrightarrow> spent e u i d \<Longrightarrow> spent e u i d'"
proof (induction rule: command_step.induct)
  case (advanced j d q st t stage artifact p')
  then have "status p' = st" by (auto simp: record_Inr_iff)
  with advanced show ?case by (intro save_plan_spent) simp_all
next
  case (governed d d')
  then show ?case using authority_step_plans spent_local by metis
next
  case (ruled d d')
  have "plan_v2_file d' = plan_v2_file d"
    by (rule admission_step_elsewhere [OF _ _ ruled(1)])
       (simp_all add: same_elsewhere_def write_bundle_def write_pointer_def)
  then show ?case using ruled(2) spent_local by metis
qed (simp_all add: prepared_spent key_policy_spent approve_plan_spent cancel_plan_spent run_plan_spent(1) standing_run_spent(1))

lemma commands_spent: "(command_step e u)\<^sup>*\<^sup>* d d' \<Longrightarrow> spent e u i d \<Longrightarrow> spent e u i d'"
  by (induction rule: rtranclp_induct) (auto intro: command_spent)

lemma command_revoked: "command_step e u d d' \<Longrightarrow> revoked u aid d \<Longrightarrow> revoked u aid d'"
proof (induction rule: command_step.induct)
  case (prepared d q)
  then show ?case
    using save_plan_v2_outcome [of e u q d] write_current_elsewhere [of authority_file e q d]
      revoked_local [of "snd (save_plan_v2 e u q d)" d u aid] by auto
next
  case (ruled d d')
  have "authority_file d' = authority_file d"
    by (rule admission_step_elsewhere [OF _ _ ruled(1)])
       (simp_all add: same_elsewhere_def write_bundle_def write_pointer_def)
  with ruled(2) revoked_local show ?case by metis
qed (simp_all add: store_step_revoked standing_run_revoked key_policy_revoked)

lemma commands_revoked: "(command_step e u)\<^sup>*\<^sup>* d d' \<Longrightarrow> revoked u aid d \<Longrightarrow> revoked u aid d'"
  by (induction rule: rtranclp_induct) (auto intro: command_revoked)

section \<open>Properties\<close>

text \<open>
  C1. At most one provider attempt. Once a run has handed a plan to the provider boundary, by approval or
  under a standing authority, no later run of either kind does so again, whatever commands and
  storage calls come in between and whichever of their writes fail.
\<close>

theorem boundary_at_most_once:
  assumes "fst (run_plan e u s lk (t1, t2, t3, t4) i d) = Inr (Boundary p) \<and> d1 = snd (run_plan e u s lk (t1, t2, t3, t4) i d) \<or>
    fst (run_plan_under_standing_authority e u parse s plan_lk lk ev (r1, r2) (now, t1, t2, t3, t4) input i aid d) = Inr (Boundary p) \<and>
    d1 = snd (run_plan_under_standing_authority e u parse s plan_lk lk ev (r1, r2) (now, t1, t2, t3, t4) input i aid d)"
    and "(command_step e u)\<^sup>*\<^sup>* d1 d2"
  shows "fst (run_plan e u s' lk' (t1', t2', t3', t4') i d2) \<noteq> Inr (Boundary p') \<and>
    fst (run_plan_under_standing_authority e u parse' s' plan_lk' lk' ev' (r1', r2') (now', t1', t2', t3', t4') input' i aid' d2)
      \<noteq> Inr (Boundary p')"
proof -
  have "spent e u i d1"
    using assms(1)
  proof (elim disjE conjE)
    assume "fst (run_plan e u s lk (t1, t2, t3, t4) i d) = Inr (Boundary p)" "d1 = snd (run_plan e u s lk (t1, t2, t3, t4) i d)"
    then have "run_plan e u s lk (t1, t2, t3, t4) i d = (Inr (Boundary p), d1)" by (simp add: prod_eq_iff)
    then show ?thesis by (rule boundary_spent)
  next
    assume "fst (run_plan_under_standing_authority e u parse s plan_lk lk ev (r1, r2) (now, t1, t2, t3, t4) input i aid d) = Inr (Boundary p)"
      "d1 = snd (run_plan_under_standing_authority e u parse s plan_lk lk ev (r1, r2) (now, t1, t2, t3, t4) input i aid d)"
    then have "run_plan_under_standing_authority e u parse s plan_lk lk ev (r1, r2) (now, t1, t2, t3, t4) input i aid d = (Inr (Boundary p), d1)"
      by (simp add: prod_eq_iff)
    then show ?thesis by (rule standing_boundary_spent)
  qed
  then have "spent e u i d2" using commands_spent [OF assms(2)] by blast
  then show ?thesis by (intro conjI run_plan_spent(2) standing_run_spent(2))
qed

theorem boundary_at_most_once_witness:
  "fst (run_plan demo_env (\<lambda>_. True) demo_session (Inr ()) (6, 7, 8, 9) ''op-1''
      (snd (run_plan demo_env (\<lambda>_. True) demo_session (Inr ()) (6, 7, 8, 9) ''op-1'' demo_run_disk))) \<noteq> Inr (Boundary demo_attempt)"
proof -
  have "fst (run_plan demo_env (\<lambda>_. True) demo_session (Inr ()) (6, 7, 8, 9) ''op-1'' demo_run_disk) = Inr (Boundary demo_attempt)"
    using demo_run by (metis fst_conv)
  from boundary_at_most_once [OF disjI1 [OF conjI [OF this refl]] rtranclp.rtrancl_refl] show ?thesis by blast
qed

text \<open>
  C4. A completed revocation is final for execution. After \<^verbatim>\<open>keys policy revoke\<close> has succeeded, no run
  under that authority reaches the provider boundary or consumes a plan, whatever commands and
  storage calls come in between and whichever of their writes fail.
\<close>

theorem revocation_blocks_runs:
  assumes "key_policy_revoke e u lk aid d = (Inr a, d1)" "(command_step e u)\<^sup>*\<^sup>* d1 d2"
  shows "let R = run_plan_under_standing_authority e u parse s plan_lk lk' ev (r1, r2) (now, t1, t2, t3, t4) input i aid d2
    in fst R \<noteq> Inr (Boundary p) \<and> (spent e u j (snd R) \<longleftrightarrow> spent e u j d2)"
proof -
  have "revoked u aid d1" using revoke_stored [OF assms(1)] by (auto simp: revoked_def)
  then have "revoked u aid d2" by (rule commands_revoked [OF assms(2)])
  then obtain a2 where "load_authority u aid d2 = Inr a2" "auth_status a2 = Revoked" by (auto simp: revoked_def)
  from revoked_run [OF this] show ?thesis by (simp add: Let_def)
qed

theorem revocation_blocks_runs_witness:
  "fst (run_plan_under_standing_authority demo_env (\<lambda>_. True) (\<lambda>_. None) lane_session (Inr ()) (Inr ()) (Inr ()) (4, 4)
     (5, 5, 5, 6, 7) lane_input ''op-2'' ''lane'' (snd (key_policy_revoke demo_env (\<lambda>_. True) (Inr ()) ''lane'' lane_disk)))
   \<noteq> Inr (Boundary lane_attempt)"
proof -
  obtain d1 where "key_policy_revoke demo_env (\<lambda>_. True) (Inr ()) ''lane'' lane_disk = (Inr (auth_revoke lane_authority), d1)"
    using lane_revoke by blast
  from revocation_blocks_runs [OF this rtranclp.rtrancl_refl] this show ?thesis by (simp add: Let_def)
qed

end
